(* ===== verification/Prelude.thy ===== *)
theory Prelude
  imports Main "HOL-Library.Word" "HOL-Library.Signed_Division"
begin

text \<open>
  What the components share: the fixed-width integer types of the C sources, the result type of
  an operation that may run into undefined behaviour or never return, C truth values, C strings
  in byte arrays, and singly linked lists whose cells live in an array (a pointer to a cell is
  the index of the cell, NULL is \<open>None\<close>).
\<close>

unbundle bit_operations_syntax

named_theorems buffer \<open>reading parts of a buffer that was written to\<close>

section \<open>Integers, truth values and results\<close>

type_synonym u8 = "8 word"
type_synonym u16 = "16 word"
type_synonym u32 = "32 word"
type_synonym s8 = "8 word" \<comment> \<open>read with \<open>sint\<close>\<close>
type_synonym byte = "8 word"
type_synonym mac = "u8 \<times> u8 \<times> u8 \<times> u8 \<times> u8 \<times> u8" \<comment> \<open>a hardware address\<close>

definition zero_mac :: mac where
  "zero_mac = (0, 0, 0, 0, 0, 0)"

text \<open>
  The ways in which a call can have no defined result: it reads or writes outside an array, it
  follows a NULL pointer, it loops forever, it uses memory that was freed, it follows a pointer that was
  never set, or an assertion ends the process.
\<close>

datatype c_fault = Out_Of_Bounds | Null_Deref | No_Return | Use_After_Free | Wild_Pointer | Assertion

type_synonym 'a res = "c_fault + 'a"

definition res_bind :: "'a res \<Rightarrow> ('a \<Rightarrow> 'b res) \<Rightarrow> 'b res" where
  "res_bind m f = (case m of Inl e \<Rightarrow> Inl e | Inr x \<Rightarrow> f x)"

lemma res_bind_simps [simp]:
  "res_bind (Inl e) f = Inl e"
  "res_bind (Inr x) f = f x"
  by (simp_all add: res_bind_def)

lemma res_bind_eq_InrE:
  assumes "res_bind m f = Inr y"
  obtains x where "m = Inr x" and "f x = Inr y"
  using assms by (cases m) simp_all

text \<open>A C condition on a flag word: \<open>flags & bits\<close> is true when it is not zero.\<close>

definition flag_set :: "'a::len word \<Rightarrow> 'a word \<Rightarrow> bool" where
  "flag_set flags bits \<longleftrightarrow> flags AND bits \<noteq> 0"

lemma flag_set_OR [simp]: "flag_set (x OR y) b \<longleftrightarrow> flag_set x b \<or> flag_set y b"
  by (simp add: flag_set_def and.commute [of _ b] bit.conj_disj_distrib or_eq_0_iff)

lemma flag_set_AND: "flag_set (x AND y) b \<longleftrightarrow> flag_set x (y AND b)"
  by (simp add: flag_set_def and.assoc)

lemma flag_set_numeral [simp]:
  "flag_set (numeral m) (numeral n :: 'a::len word) \<longleftrightarrow> (numeral m AND numeral n :: 'a word) \<noteq> 0"
  "flag_set 1 (numeral n :: 'a::len word) \<longleftrightarrow> (1 AND numeral n :: 'a word) \<noteq> 0"
  "flag_set (numeral m) (1 :: 'a::len word) \<longleftrightarrow> (numeral m AND 1 :: 'a word) \<noteq> 0"
  by (simp_all add: flag_set_def)

lemma flag_set_zero [simp]: "\<not> flag_set x 0"
  by (simp add: flag_set_def)

text \<open>Counters far from the end of their range do not wrap around.\<close>

lemma unat_plus_one_small: "unat (w :: u32) \<le> 1000 \<Longrightarrow> unat (w + 1) = unat w + 1"
  by (subst unat_plus_simple [THEN iffD1]) (simp_all add: word_le_nat_alt unat_word_ariths)

lemma unat_minus_one_small: "0 < unat (w :: u32) \<Longrightarrow> unat (w - 1) = unat w - 1"
  by (rule unat_minus_one) auto

text \<open>C integer division truncates towards zero.\<close>

abbreviation c_div :: "int \<Rightarrow> int \<Rightarrow> int" where
  "c_div a b \<equiv> a sdiv b"

section \<open>Linked lists in an array\<close>

text \<open>
  \<open>chain nx p xs\<close>: starting at the pointer \<open>p\<close>, the cells \<open>xs\<close> are visited in order by
  following the next pointers \<open>nx\<close>, and the last of them points to NULL.
\<close>

primrec chain :: "(nat \<Rightarrow> nat option) \<Rightarrow> nat option \<Rightarrow> nat list \<Rightarrow> bool" where
  "chain nx p [] \<longleftrightarrow> p = None"
| "chain nx p (x # xs) \<longleftrightarrow> p = Some x \<and> chain nx (nx x) xs"

lemma chain_None [simp]: "chain nx None xs \<longleftrightarrow> xs = []"
  by (cases xs) simp_all

lemma chain_Some: "chain nx (Some i) xs \<longleftrightarrow> (\<exists>ys. xs = i # ys \<and> chain nx (nx i) ys)"
  by (cases xs) auto

lemma chain_unique: "chain nx p xs \<Longrightarrow> chain nx p ys \<Longrightarrow> xs = ys"
  by (induction xs arbitrary: p ys) (auto simp: chain_Some)

lemma chain_suffix: "chain nx p (xs @ y # ys) \<Longrightarrow> chain nx (Some y) (y # ys)"
  by (induction xs arbitrary: p) auto

lemma chain_distinct: "chain nx p xs \<Longrightarrow> distinct xs"
proof (induction xs arbitrary: p)
  case Nil
  then show ?case by simp
next
  case (Cons x xs)
  have "x \<notin> set xs"
  proof
    assume "x \<in> set xs"
    then obtain ys zs where xs: "xs = ys @ x # zs" by (meson split_list)
    with Cons.prems have "chain nx (Some x) (x # zs)" using chain_suffix [of nx p "x # ys" x zs] by simp
    with Cons.prems xs show False using chain_unique [of nx "Some x" "x # zs" "x # ys @ x # zs"] by simp
  qed
  with Cons show ?case by auto
qed

lemma chain_cong:
  assumes "\<And>i. i \<in> set xs \<Longrightarrow> nx i = nx' i"
  shows "chain nx p xs \<longleftrightarrow> chain nx' p xs"
  using assms by (induction xs arbitrary: p) auto

lemma chain_upd [simp]: "i \<notin> set xs \<Longrightarrow> chain (nx(i := q)) p xs \<longleftrightarrow> chain nx p xs"
  by (rule chain_cong) auto

lemma chain_snoc:
  "chain nx p xs \<Longrightarrow> xs \<noteq> [] \<Longrightarrow> x \<notin> set xs \<Longrightarrow> nx' (last xs) = Some x \<Longrightarrow> nx' x = None \<Longrightarrow>
   (\<And>i. i \<in> set (butlast xs) \<Longrightarrow> nx' i = nx i) \<Longrightarrow> chain nx' p (xs @ [x])"
proof (induction xs arbitrary: p)
  case Nil
  then show ?case by simp
next
  case (Cons y ys)
  show ?case
  proof (cases "ys = []")
    case True
    with Cons.prems show ?thesis by simp
  next
    case False
    then have "nx' y = nx y" using Cons.prems(6) by simp
    moreover have "chain nx' (nx y) (ys @ [x])"
      using Cons.prems False by (intro Cons.IH) auto
    ultimately show ?thesis using Cons.prems(1) by simp
  qed
qed

lemma chain_remove:
  assumes "chain nx p (xs @ y # ys)" and "xs \<noteq> []"
    and "nx' (last xs) = nx y" and "\<And>i. i \<in> set (butlast xs @ ys) \<Longrightarrow> nx' i = nx i"
  shows "chain nx' p (xs @ ys)"
  using assms
proof (induction xs arbitrary: p)
  case Nil
  then show ?case by simp
next
  case (Cons z zs)
  show ?case
  proof (cases "zs = []")
    case True
    with Cons.prems chain_cong [of ys nx nx'] show ?thesis by auto
  next
    case False
    with Cons.prems have "nx' z = nx z" by auto
    moreover have "chain nx' (nx z) (zs @ ys)"
      using Cons.prems False by (intro Cons.IH) auto
    ultimately show ?thesis using Cons.prems(1) by simp
  qed
qed

lemma last_notin_rest:
  assumes "distinct (xs @ ys)" and "xs \<noteq> []"
  shows "last xs \<notin> set (butlast xs) \<union> set ys"
proof -
  obtain zs z where "xs = zs @ [z]" using assms(2) by (metis rev_exhaust)
  with assms(1) show ?thesis by auto
qed

lemma chain_append_cell:
  assumes "chain nx p xs" and "xs \<noteq> []" and "x \<notin> set xs" and "nx x = None"
  shows "chain (nx(last xs := Some x)) p (xs @ [x])"
  using assms last_notin_rest [of xs "[]"] chain_distinct [OF assms(1)]
  by (intro chain_snoc [OF assms(1-3)]) auto

lemma chain_unlink_cell:
  assumes "chain nx p (xs @ y # ys)" and "xs \<noteq> []"
  shows "chain (nx(last xs := nx y)) p (xs @ ys)"
  using last_notin_rest [of xs "y # ys"] chain_distinct [OF assms(1)] assms(2)
  by (intro chain_remove [OF assms]) auto

text \<open>Redirecting one cell to a list that ends leaves every list that ended ending.\<close>

lemma chain_redirect:
  assumes "chain nx p xs" and "chain (nx(i := q)) q zs"
  shows "\<exists>ys. chain (nx(i := q)) p ys"
  using assms(1)
proof (induction xs arbitrary: p)
  case Nil
  then have "chain (nx(i := q)) p []" by simp
  then show ?case ..
next
  case (Cons x xs)
  show ?case
  proof (cases "x = i")
    case True
    with Cons.prems assms(2) have "chain (nx(i := q)) p (i # zs)" by simp
    then show ?thesis ..
  next
    case False
    have "chain nx (nx x) xs" using Cons.prems by simp
    then obtain ys where "chain (nx(i := q)) (nx x) ys" using Cons.IH by blast
    with False Cons.prems have "chain (nx(i := q)) p (x # ys)" by simp
    then show ?thesis ..
  qed
qed

text \<open>
  A loop that walks a list until \<open>stop\<close> holds or the list ends. The walk is given a number of
  iterations; \<open>No_Return\<close> is the answer when they do not suffice. Lemma \<open>scan_No_Return\<close> shows
  that for cells in an array of \<open>N\<close> the answer after \<open>N\<close> iterations is the answer of the
  unbounded loop: a walk that has not ended by then never ends.
\<close>

fun scan :: "nat \<Rightarrow> (nat \<Rightarrow> nat option) \<Rightarrow> (nat \<Rightarrow> bool) \<Rightarrow> nat option \<Rightarrow> nat option res" where
  "scan n nx stop None = Inr None"
| "scan 0 nx stop (Some i) = Inl No_Return"
| "scan (Suc n) nx stop (Some i) = (if stop i then Inr (Some i) else scan n nx stop (nx i))"

lemma scan_chain:
  "chain nx p xs \<Longrightarrow> length xs \<le> n \<Longrightarrow> scan n nx stop p = Inr (List.find stop xs)"
proof (induction xs arbitrary: n p)
  case Nil
  then show ?case by simp
next
  case (Cons x xs)
  then obtain m where "n = Suc m" by (cases n) auto
  with Cons show ?case by auto
qed

lemma scan_mono: "scan n nx stop p = Inr r \<Longrightarrow> n \<le> m \<Longrightarrow> scan m nx stop p = Inr r"
proof (induction n nx stop p arbitrary: m rule: scan.induct)
  case (3 n nx stop i)
  then obtain k where "m = Suc k" and "n \<le> k" by (cases m) auto
  with 3 show ?case by (auto split: if_splits)
qed simp_all

text \<open>
  A walk that returns has visited a list that ends: the list obtained by cutting every cell where
  the walk stops.
\<close>

abbreviation cut :: "(nat \<Rightarrow> nat option) \<Rightarrow> (nat \<Rightarrow> bool) \<Rightarrow> nat \<Rightarrow> nat option" where
  "cut nx stop i \<equiv> (if stop i then None else nx i)"

lemma scan_returns_chain:
  "scan n nx stop p = Inr r \<Longrightarrow> \<exists>xs. chain (cut nx stop) p xs"
proof (induction n nx stop p rule: scan.induct)
  case (1 n nx stop)
  then show ?case by simp
next
  case (3 n nx stop i)
  then obtain xs where "chain (cut nx stop) (cut nx stop i) xs" by (cases "stop i") auto
  then have "chain (cut nx stop) (Some i) (i # xs)" by simp
  then show ?case ..
qed simp_all

lemma chain_scan_returns:
  "chain (cut nx stop) p xs \<Longrightarrow> length xs \<le> n \<Longrightarrow> \<exists>r. scan n nx stop p = Inr r"
proof (induction xs arbitrary: n p)
  case Nil
  then show ?case by simp
next
  case (Cons x xs)
  then obtain m where "n = Suc m" by (cases n) auto
  with Cons show ?case by (cases "stop x") auto
qed

definition in_array :: "nat \<Rightarrow> nat option \<Rightarrow> bool" where
  "in_array N p \<longleftrightarrow> (case p of None \<Rightarrow> True | Some i \<Rightarrow> i < N)"

lemma in_array_simps [simp]: "in_array N None" "in_array N (Some i) \<longleftrightarrow> i < N"
  by (simp_all add: in_array_def)

lemma chain_in_array:
  "chain nx p xs \<Longrightarrow> in_array N p \<Longrightarrow> (\<And>i. i < N \<Longrightarrow> in_array N (nx i)) \<Longrightarrow> set xs \<subseteq> {..<N}"
  by (induction xs arbitrary: p) auto

lemma chain_length_bound:
  assumes "chain nx p xs" and "set xs \<subseteq> {..<N}"
  shows "length xs \<le> N"
proof -
  have "length xs = card (set xs)" using chain_distinct [OF assms(1)] by (simp add: distinct_card)
  also have "\<dots> \<le> card {..<N}" using assms(2) by (intro card_mono) auto
  finally show ?thesis by simp
qed

lemma scan_No_Return:
  assumes "in_array N p" and "\<And>i. i < N \<Longrightarrow> in_array N (nx i)"
    and "scan N nx stop p = Inl e"
  shows "scan n nx stop p = Inl No_Return"
proof (cases "scan n nx stop p")
  case (Inr r)
  then obtain xs where xs: "chain (cut nx stop) p xs" using scan_returns_chain by blast
  then have "set xs \<subseteq> {..<N}"
    by (rule chain_in_array) (use assms(1,2) in auto)
  with xs have "length xs \<le> N" by (rule chain_length_bound)
  with xs chain_scan_returns assms(3) show ?thesis by fastforce
next
  case (Inl f)
  then show ?thesis by (induction n nx stop p rule: scan.induct) (auto split: if_splits)
qed

text \<open>
  The loop of the deletions that looks for an entry in its bucket and remembers the
  predecessor: \<open>Some pre\<close> when the entry is found.
\<close>

fun find_pred ::
  "nat \<Rightarrow> (nat \<Rightarrow> nat option) \<Rightarrow> nat \<Rightarrow> nat option \<Rightarrow> nat option \<Rightarrow> nat option option res" where
  "find_pred n nx entry pre None = Inr None"
| "find_pred 0 nx entry pre (Some i) = Inl No_Return"
| "find_pred (Suc n) nx entry pre (Some i) =
     (if i = entry then Inr (Some pre) else find_pred n nx entry (Some i) (nx i))"

lemma find_pred_found:
  "chain nx p (ys @ e # zs) \<Longrightarrow> e \<notin> set ys \<Longrightarrow> length (ys @ e # zs) \<le> n \<Longrightarrow>
   find_pred n nx e pre p = Inr (Some (if ys = [] then pre else Some (last ys)))"
proof (induction ys arbitrary: n p pre)
  case Nil
  then obtain m where "n = Suc m" by (cases n) auto
  with Nil show ?case by simp
next
  case (Cons y ys)
  then obtain m where "n = Suc m" by (cases n) auto
  with Cons show ?case by auto
qed

lemma find_only:
  "k \<in> set xs \<Longrightarrow> (\<And>i. i \<in> set xs \<Longrightarrow> P i \<longleftrightarrow> i = k) \<Longrightarrow> List.find P xs = Some k"
  by (induction xs) auto

lemma find_none: "(\<And>i. i \<in> set xs \<Longrightarrow> \<not> P i) \<Longrightarrow> List.find P xs = None"
  by (simp add: find_None_iff)

lemma chain_find_last:
  "chain nx p xs \<Longrightarrow> xs \<noteq> [] \<Longrightarrow> List.find (\<lambda>j. nx j = None) xs = Some (last xs)"
proof (induction xs arbitrary: p)
  case (Cons x xs)
  then show ?case by (cases xs) auto
qed simp

text \<open>A walk among cells that all have a successor among them, none of which it looks for, goes on forever.\<close>

lemma scan_cycle:
  assumes "\<And>i. i \<in> R \<Longrightarrow> \<not> stop i \<and> (\<exists>j \<in> R. nx i = Some j)"
  shows "i \<in> R \<Longrightarrow> scan n nx stop (Some i) = Inl No_Return"
proof (induction n arbitrary: i)
  case (Suc n)
  then obtain j where "\<not> stop i" "j \<in> R" "nx i = Some j" using assms by blast
  with Suc.IH show ?case by simp
qed simp

section \<open>Byte buffers\<close>

text \<open>A word in the memory of a little-endian machine.\<close>

definition u32_bytes :: "u32 \<Rightarrow> byte list" where
  "u32_bytes w = [ucast w, ucast (drop_bit 8 w), ucast (drop_bit 16 w), ucast (drop_bit 24 w)]"

lemma length_u32_bytes [simp]: "length (u32_bytes w) = 4"
  by (simp add: u32_bytes_def)

text \<open>Copy bytes into a buffer at an offset.\<close>

definition move_at :: "nat \<Rightarrow> byte list \<Rightarrow> byte list \<Rightarrow> byte list" where
  "move_at off src dst = take off dst @ src @ drop (off + length src) dst"

lemma length_move_at [simp]: "off + length src \<le> length dst \<Longrightarrow> length (move_at off src dst) = length dst"
  by (simp add: move_at_def)

lemma take_move_at: "off \<le> length dst \<Longrightarrow> take (off + length src) (move_at off src dst) = take off dst @ src"
  by (simp add: move_at_def)

lemma move_at_full: "off + length src = length dst \<Longrightarrow> move_at off src dst = take off dst @ src"
  by (simp add: move_at_def)

lemma take_move_before [buffer]: "n \<le> off \<Longrightarrow> off \<le> length dst \<Longrightarrow> take n (move_at off src dst) = take n dst"
  by (simp add: move_at_def)

lemma drop_move_after [buffer]: "off \<le> length dst \<Longrightarrow> off + length src \<le> n \<Longrightarrow> drop n (move_at off src dst) = drop n dst"
  by (simp add: move_at_def)

lemma drop_move_at [buffer]: "off \<le> length dst \<Longrightarrow> drop off (move_at off src dst) = src @ drop (off + length src) dst"
  by (simp add: move_at_def)

lemma move_at_move_at [buffer]:
  "off + length src \<le> length dst \<Longrightarrow> length src' = length src \<Longrightarrow> move_at off src' (move_at off src dst) = move_at off src' dst"
  by (simp add: move_at_def)

lemma move_at_adjacent [buffer]:
  "off + length src + length src' \<le> length dst \<Longrightarrow>
   move_at (off + length src) src' (move_at off src dst) = move_at off (src @ src') dst"
  by (simp add: move_at_def ac_simps)

lemma move_at_Nil [simp]: "off \<le> length dst \<Longrightarrow> move_at off [] dst = dst"
  by (simp add: move_at_def)

end
