(* ===== verification/Keyed_Table.thy ===== *)
theory Keyed_Table
  imports Prelude
begin

text \<open>
  The contract that a station table offers to the code above it: a partial map from keys
  (hardware addresses) to cells, of bounded capacity, with lookup, insertion and removal. The
  daemons use their tables in one pattern only: look the sender of a frame up and insert it when
  it is not there, remove a station that has left. The client lemmas are proved once for every
  table that fulfils the contract.
\<close>

datatype 'k table_cmd = Seen 'k | Gone 'k

text \<open>Look a key up and insert it when it is missing.\<close>

definition find_or_add ::
  "('t \<Rightarrow> 'k \<Rightarrow> nat option res) \<Rightarrow> ('t \<Rightarrow> 'k \<Rightarrow> 't res) \<Rightarrow> 't \<Rightarrow> 'k \<Rightarrow> 't res" where
  "find_or_add lookup add t k =
     res_bind (lookup t k) (\<lambda>r. case r of Some _ \<Rightarrow> Inr t | None \<Rightarrow> add t k)"

fun run_table ::
  "('t \<Rightarrow> 'k \<Rightarrow> nat option res) \<Rightarrow> ('t \<Rightarrow> 'k \<Rightarrow> 't res) \<Rightarrow> ('t \<Rightarrow> 'k \<Rightarrow> 't res) \<Rightarrow>
   'k table_cmd list \<Rightarrow> 't \<Rightarrow> 't res" where
  "run_table lookup add del [] t = Inr t"
| "run_table lookup add del (Seen k # cs) t =
     res_bind (find_or_add lookup add t k) (run_table lookup add del cs)"
| "run_table lookup add del (Gone k # cs) t = res_bind (del t k) (run_table lookup add del cs)"

text \<open>The abstract table: a set of keys that refuses new members when it is full.\<close>

fun spec_step :: "nat \<Rightarrow> 'k table_cmd \<Rightarrow> 'k set \<Rightarrow> 'k set" where
  "spec_step cap (Seen k) K = (if k \<in> K \<or> cap \<le> card K then K else insert k K)"
| "spec_step cap (Gone k) K = K - {k}"

definition spec_run :: "nat \<Rightarrow> 'k table_cmd list \<Rightarrow> 'k set \<Rightarrow> 'k set" where
  "spec_run cap cs K = fold (spec_step cap) cs K"

locale keyed_table =
  fixes tinv :: "'t \<Rightarrow> bool"
    and amap :: "'t \<Rightarrow> 'k \<Rightarrow> nat option"
    and capacity :: nat
    and lookup :: "'t \<Rightarrow> 'k \<Rightarrow> nat option res"
    and add :: "'t \<Rightarrow> 'k \<Rightarrow> 't res"
    and del :: "'t \<Rightarrow> 'k \<Rightarrow> 't res"
  assumes lookup_amap: "tinv t \<Longrightarrow> lookup t k = Inr (amap t k)"
    and finite_dom: "tinv t \<Longrightarrow> finite (dom (amap t))"
    and card_dom: "tinv t \<Longrightarrow> card (dom (amap t)) \<le> capacity"
    and add_absent: "tinv t \<Longrightarrow> amap t k = None \<Longrightarrow> card (dom (amap t)) < capacity \<Longrightarrow>
      \<exists>t' i. add t k = Inr t' \<and> tinv t' \<and> amap t' = (amap t)(k \<mapsto> i)"
    and add_full: "tinv t \<Longrightarrow> amap t k = None \<Longrightarrow> card (dom (amap t)) = capacity \<Longrightarrow> add t k = Inr t"
    and del_key: "tinv t \<Longrightarrow> \<exists>t'. del t k = Inr t' \<and> tinv t' \<and> amap t' = (amap t)(k := None)"
begin

lemma find_or_add_present:
  "tinv t \<Longrightarrow> amap t k = Some i \<Longrightarrow> find_or_add lookup add t k = Inr t"
  by (simp add: find_or_add_def lookup_amap)

lemma find_or_add_refines:
  assumes "tinv t"
  shows "\<exists>t'. find_or_add lookup add t k = Inr t' \<and> tinv t' \<and>
    dom (amap t') = spec_step capacity (Seen k) (dom (amap t)) \<and>
    (\<forall>k'. k' \<noteq> k \<longrightarrow> amap t' k' = amap t k')"
proof (cases "amap t k")
  case None
  show ?thesis
  proof (cases "card (dom (amap t)) < capacity")
    case True
    obtain t' i where "add t k = Inr t'" "tinv t'" "amap t' = (amap t)(k \<mapsto> i)"
      using add_absent [OF assms None True] by blast
    with None True assms show ?thesis by (auto simp: find_or_add_def lookup_amap)
  next
    case False
    then have "card (dom (amap t)) = capacity" using card_dom [OF assms] by simp
    with assms None False show ?thesis by (auto simp: find_or_add_def lookup_amap add_full)
  qed
next
  case (Some i)
  with assms find_or_add_present show ?thesis by auto
qed

text \<open>Every sequence of uses returns, keeps the invariant and agrees with the abstract table.\<close>

lemma run_refines:
  assumes "tinv t"
  shows "\<exists>t'. run_table lookup add del cs t = Inr t' \<and> tinv t' \<and>
    dom (amap t') = spec_run capacity cs (dom (amap t))"
  using assms
proof (induction cs arbitrary: t)
  case Nil
  then show ?case by (simp add: spec_run_def)
next
  case (Cons c cs)
  show ?case
  proof (cases c)
    case (Seen k)
    then obtain t1 where t1: "find_or_add lookup add t k = Inr t1" "tinv t1"
        "dom (amap t1) = spec_step capacity (Seen k) (dom (amap t))"
      using find_or_add_refines [OF Cons.prems, of k] by blast
    with Cons.IH [OF t1(2)] Seen show ?thesis by (simp add: spec_run_def)
  next
    case (Gone k)
    then obtain t1 where t1: "del t k = Inr t1" "tinv t1" "amap t1 = (amap t)(k := None)"
      using del_key [OF Cons.prems] by blast
    then have "dom (amap t1) = spec_step capacity (Gone k) (dom (amap t))" by auto
    with Cons.IH [OF t1(2)] t1(1) Gone show ?thesis by (simp add: spec_run_def)
  qed
qed

text \<open>A station that was removed and is seen again is found again.\<close>

lemma found_after_seen:
  assumes "tinv t" and "card (dom (amap t)) < capacity"
    and "find_or_add lookup add t k = Inr t'"
  shows "\<exists>i. lookup t' k = Inr (Some i)"
proof -
  have "tinv t'" "dom (amap t') = spec_step capacity (Seen k) (dom (amap t))"
    using find_or_add_refines [OF assms(1), of k] assms(3) by auto
  with assms(2) have "k \<in> dom (amap t')" by auto
  with \<open>tinv t'\<close> lookup_amap show ?thesis by auto
qed

lemma not_found_after_gone:
  assumes "tinv t" and "del t k = Inr t'"
  shows "lookup t' k = Inr None"
  using del_key [OF assms(1), of k] assms(2) lookup_amap by auto

end

end
