(* ===== verification/Bndstrg_Table.thy ===== *)
theory Bndstrg_Table
  imports Keyed_Table
begin

text \<open>
  The client table of the band steering daemon
  (\<open>package/ramips/applications/bndstrg/src/bndstrg.c\<close> and \<open>bndstrg.h\<close>): 64 entries in an array,
  linked into 256 hash buckets by the exclusive or of the six address bytes. This theory holds
  the data, the operations \<open>bndstrg_table_init\<close>, \<open>bndstrg_table_lookup\<close>, \<open>bndstrg_insert_entry\<close> and
  \<open>bndstrg_delete_entry\<close>, the invariant that ties array and buckets together, and the proof that
  the operations implement a finite map from addresses to array positions.

  A pointer to an entry is its position in the array. The hash index is always below 256, so
  the bucket array is a function on \<^typ>\<open>u8\<close>. \<open>bValid\<close>, \<open>bConnected\<close>, \<open>AgingConfirmed\<close>, \<open>bInitialized\<close>,
  \<open>bEnabled\<close>, \<open>status_queried\<close> and \<open>dbdc_mode\<close> only ever hold 0 and 1 and are booleans; a \<open>char\<close> that
  holds a signal strength is signed, as it is for MIPS. The wall clock is an argument.
\<close>

section \<open>Data\<close>


abbreviation (input) BND_STRG_MAX_TABLE_SIZE :: nat where "BND_STRG_MAX_TABLE_SIZE \<equiv> 64"
abbreviation (input) BAND_5G :: u8 where "BAND_5G \<equiv> 1"
abbreviation (input) BAND_2G :: u8 where "BAND_2G \<equiv> 2"

datatype bndstrg_return_code =
    BND_STRG_SUCCESS | BND_STRG_INVALID_ARG | BND_STRG_RESOURCE_ALLOC_FAIL | BND_STRG_TABLE_FULL
  | BND_STRG_TABLE_IS_NULL | BND_STRG_NOT_INITIALIZED | BND_STRG_2G_INF_NOT_READY
  | BND_STRG_5G_INF_NOT_READY | BND_STRG_STA_IS_CONNECTED | BND_STRG_UNEXP

record timespec =
  tv_sec :: int
  tv_nsec :: int

record entry_stat =
  Rssi :: s8
  AuthReqCount :: u8

record cli_entry =
  bValid :: bool
  TableIndex :: u8
  bConnected :: bool
  AgingConfirmed_2G :: bool
  AgingConfirmed_5G :: bool
  Control_Flags :: u32
  tp :: timespec
  elapsed_time :: u32
  Addr :: mac
  statistics_2G :: entry_stat
  statistics_5G :: entry_stat
  pNext :: "nat option"

record cli_table =
  bInitialized :: bool
  bEnabled :: bool
  Band :: u8
  b2GInfReady :: u8
  b5GInfReady :: u8
  RssiDiff :: s8
  RssiLow :: s8
  AgeTime :: u32
  HoldTime :: u32
  CheckTime_5G :: u32
  Size :: u32
  uc2GIfName :: "byte list"
  uc5GIfName :: "byte list"
  status_queried :: bool
  status_queried_cnt :: u8
  table_enable_cnt :: u8
  dbdc_mode :: bool
  FrameCheck :: u32
  ConditionCheck :: u32
  Entry :: "cli_entry list"
  Hash :: "u8 \<Rightarrow> nat option"
  MonitorAddr :: mac

section \<open>Operations\<close>

definition zero_entry :: cli_entry where
  "zero_entry = \<lparr>bValid = False, TableIndex = 0, bConnected = False,
     AgingConfirmed_2G = False, AgingConfirmed_5G = False, Control_Flags = 0,
     tp = \<lparr>tv_sec = 0, tv_nsec = 0\<rparr>, elapsed_time = 0, Addr = zero_mac,
     statistics_2G = \<lparr>Rssi = 0, AuthReqCount = 0\<rparr>, statistics_5G = \<lparr>Rssi = 0, AuthReqCount = 0\<rparr>,
     pNext = None\<rparr>"

text \<open>\<open>memset(table, 0, sizeof *table)\<close>: the state of the daemon before initialisation, too.\<close>

definition zero_table :: cli_table where
  "zero_table = \<lparr>bInitialized = False, bEnabled = False, Band = 0, b2GInfReady = 0, b5GInfReady = 0,
     RssiDiff = 0, RssiLow = 0, AgeTime = 0, HoldTime = 0, CheckTime_5G = 0, Size = 0,
     uc2GIfName = replicate 32 0, uc5GIfName = replicate 32 0, status_queried = False,
     status_queried_cnt = 0, table_enable_cnt = 0, dbdc_mode = False, FrameCheck = 0,
     ConditionCheck = 0, Entry = replicate BND_STRG_MAX_TABLE_SIZE zero_entry, Hash = (\<lambda>_. None),
     MonitorAddr = zero_mac\<rparr>"

definition bndstrg_table_init :: "cli_table \<Rightarrow> bndstrg_return_code \<times> cli_table" where
  "bndstrg_table_init table = (if bInitialized table then (BND_STRG_SUCCESS, table)
     else (BND_STRG_SUCCESS, zero_table\<lparr>status_queried_cnt := 0, table_enable_cnt := 0, Band := 0,
       bEnabled := False, RssiDiff := 30, RssiLow := - 70, AgeTime := 150000, HoldTime := 90000,
       CheckTime_5G := 30000, ConditionCheck := push_bit 3 1,
       FrameCheck := push_bit 0 1 OR push_bit 1 1, bInitialized := True\<rparr>))"

fun MAC_ADDR_HASH_INDEX :: "mac \<Rightarrow> u8" where
  "MAC_ADDR_HASH_INDEX (a0, a1, a2, a3, a4, a5) =
     (a0 XOR a1 XOR a2 XOR a3 XOR a4 XOR a5) AND 255"

definition next_ptr :: "cli_table \<Rightarrow> nat \<Rightarrow> nat option" where
  "next_ptr table i = pNext (Entry table ! i)"

definition upd_entry :: "nat \<Rightarrow> (cli_entry \<Rightarrow> cli_entry) \<Rightarrow> cli_table \<Rightarrow> cli_table" where
  "upd_entry i f table = table\<lparr>Entry := (Entry table)[i := f (Entry table ! i)]\<rparr>"

text \<open>
  The loop of \<open>bndstrg_table_lookup\<close> also stops at an entry that is not valid, and then returns
  that entry.
\<close>

definition bndstrg_table_lookup :: "cli_table \<Rightarrow> mac \<Rightarrow> nat option res" where
  "bndstrg_table_lookup table pAddr =
     scan BND_STRG_MAX_TABLE_SIZE (next_ptr table)
       (\<lambda>i. \<not> bValid (Entry table ! i) \<or> Addr (Entry table ! i) = pAddr)
       (Hash table (MAC_ADDR_HASH_INDEX pAddr))"

definition first_vacancy :: "cli_table \<Rightarrow> nat option" where
  "first_vacancy table =
     List.find (\<lambda>i. \<not> bValid (Entry table ! i)) [0..<BND_STRG_MAX_TABLE_SIZE]"

definition fresh_entry :: "timespec \<Rightarrow> mac \<Rightarrow> nat \<Rightarrow> cli_entry" where
  "fresh_entry now pAddr i =
     zero_entry\<lparr>tp := now, Addr := pAddr, TableIndex := of_nat i, bValid := True\<rparr>"

text \<open>
  The first part of \<open>bndstrg_insert_entry\<close>: the entry the loop ends on, reset and filled if it was
  vacant. When no entry is vacant, the pointer is left at the last one.
\<close>

definition pick_entry :: "timespec \<Rightarrow> cli_table \<Rightarrow> mac \<Rightarrow> nat \<times> cli_table" where
  "pick_entry now table pAddr = (case first_vacancy table of
       Some i \<Rightarrow> (i, upd_entry i (\<lambda>_. fresh_entry now pAddr i) table)
     | None \<Rightarrow> (BND_STRG_MAX_TABLE_SIZE - 1, table))"

text \<open>The second part: the entry is appended to its bucket.\<close>

definition hash_append :: "mac \<Rightarrow> nat \<Rightarrow> cli_table \<Rightarrow> cli_table res" where
  "hash_append pAddr i table = (case Hash table (MAC_ADDR_HASH_INDEX pAddr) of
       None \<Rightarrow> Inr (table\<lparr>Hash := (Hash table)(MAC_ADDR_HASH_INDEX pAddr := Some i)\<rparr>)
     | Some h \<Rightarrow> res_bind
         (scan BND_STRG_MAX_TABLE_SIZE (next_ptr table) (\<lambda>j. next_ptr table j = None) (Some h))
         (\<lambda>r. case r of None \<Rightarrow> Inl Null_Deref
            | Some j \<Rightarrow> Inr (upd_entry j (\<lambda>e. e\<lparr>pNext := Some i\<rparr>) table)))"

definition bndstrg_insert_entry ::
  "timespec \<Rightarrow> cli_table \<Rightarrow> mac \<Rightarrow> (bndstrg_return_code \<times> nat option \<times> cli_table) res" where
  "bndstrg_insert_entry now table pAddr =
     (if of_nat BND_STRG_MAX_TABLE_SIZE \<le> Size table then Inr (BND_STRG_TABLE_FULL, None, table)
      else case pick_entry now table pAddr of (i, table1) \<Rightarrow>
        res_bind (hash_append pAddr i table1) (\<lambda>table2.
          Inr (BND_STRG_SUCCESS, Some i, table2\<lparr>Size := Size table2 + 1\<rparr>)))"

definition hash_unlink :: "u8 \<Rightarrow> nat \<Rightarrow> cli_table \<Rightarrow> cli_table res" where
  "hash_unlink h entry table = res_bind
     (find_pred BND_STRG_MAX_TABLE_SIZE (next_ptr table) entry None (Hash table h))
     (\<lambda>r. Inr (case r of None \<Rightarrow> table
        | Some None \<Rightarrow> table\<lparr>Hash := (Hash table)(h := next_ptr table entry)\<rparr>
        | Some (Some pre) \<Rightarrow> upd_entry pre (\<lambda>e. e\<lparr>pNext := next_ptr table entry\<rparr>) table))"

definition clear_entry :: "cli_entry \<Rightarrow> cli_entry" where
  "clear_entry e = e\<lparr>Addr := zero_mac, tp := (tp e)\<lparr>tv_sec := 0\<rparr>, elapsed_time := 0, bValid := False\<rparr>"

text \<open>The entry that \<open>bndstrg_delete_entry\<close> works on: by position, or by address.\<close>

definition delete_target :: "cli_table \<Rightarrow> mac \<Rightarrow> u32 \<Rightarrow> nat option res" where
  "delete_target table pAddr Index =
     (if of_nat BND_STRG_MAX_TABLE_SIZE \<le> Index
      then scan BND_STRG_MAX_TABLE_SIZE (next_ptr table) (\<lambda>i. Addr (Entry table ! i) = pAddr)
             (Hash table (MAC_ADDR_HASH_INDEX pAddr))
      else Inr (Some (unat Index)))"

definition bndstrg_delete_entry ::
  "cli_table \<Rightarrow> mac \<Rightarrow> u32 \<Rightarrow> (bndstrg_return_code \<times> cli_table) res" where
  "bndstrg_delete_entry table pAddr Index =
     res_bind (delete_target table pAddr Index) (\<lambda>r. case r of
         None \<Rightarrow> Inr (BND_STRG_INVALID_ARG, table)
       | Some i \<Rightarrow>
           if bValid (Entry table ! i)
           then res_bind (hash_unlink (MAC_ADDR_HASH_INDEX pAddr) i table) (\<lambda>table1.
             Inr (BND_STRG_SUCCESS,
               (upd_entry i clear_entry table1)\<lparr>Size := Size table1 - 1\<rparr>))
           else Inr (BND_STRG_SUCCESS, table))"

section \<open>Invariant and abstraction\<close>

definition valid_idx :: "cli_table \<Rightarrow> nat set" where
  "valid_idx table = {i. i < BND_STRG_MAX_TABLE_SIZE \<and> bValid (Entry table ! i)}"

definition bucket :: "cli_table \<Rightarrow> u8 \<Rightarrow> nat set" where
  "bucket table h = {i \<in> valid_idx table. MAC_ADDR_HASH_INDEX (Addr (Entry table ! i)) = h}"

text \<open>
  Every bucket is a list that ends and holds exactly the valid entries with that hash; no address
  occurs twice, \<open>Size\<close> counts the valid entries and each of them knows its position.
\<close>

definition links_ok :: "cli_table \<Rightarrow> bool" where
  "links_ok table \<longleftrightarrow>
     (\<forall>h. \<exists>xs. chain (next_ptr table) (Hash table h) xs \<and> set xs = bucket table h)"

definition data_ok :: "cli_table \<Rightarrow> bool" where
  "data_ok table \<longleftrightarrow>
     length (Entry table) = BND_STRG_MAX_TABLE_SIZE \<and>
     inj_on (\<lambda>i. Addr (Entry table ! i)) (valid_idx table) \<and>
     unat (Size table) = card (valid_idx table) \<and>
     (\<forall>i \<in> valid_idx table. TableIndex (Entry table ! i) = of_nat i)"

definition table_inv :: "cli_table \<Rightarrow> bool" where
  "table_inv table \<longleftrightarrow> links_ok table \<and> data_ok table"

text \<open>The reference: a linear search through the array that ignores the buckets.\<close>

definition client_map :: "cli_table \<Rightarrow> mac \<Rightarrow> nat option" where
  "client_map table pAddr =
     List.find (\<lambda>i. bValid (Entry table ! i) \<and> Addr (Entry table ! i) = pAddr)
       [0..<BND_STRG_MAX_TABLE_SIZE]"

lemma finite_valid_idx [simp]: "finite (valid_idx table)"
  by (simp add: valid_idx_def)

lemma valid_idx_bound: "i \<in> valid_idx table \<Longrightarrow> i < BND_STRG_MAX_TABLE_SIZE"
  by (simp add: valid_idx_def)

lemma card_valid_idx: "card (valid_idx table) \<le> BND_STRG_MAX_TABLE_SIZE"
proof -
  have "valid_idx table \<subseteq> {..<BND_STRG_MAX_TABLE_SIZE}" by (auto simp: valid_idx_def)
  then show ?thesis using card_mono [of "{..<BND_STRG_MAX_TABLE_SIZE}"] by fastforce
qed

lemma client_map_Some:
  assumes "inj_on (\<lambda>i. Addr (Entry table ! i)) (valid_idx table)"
  shows "client_map table a = Some i \<longleftrightarrow> i \<in> valid_idx table \<and> Addr (Entry table ! i) = a"
proof
  assume "client_map table a = Some i"
  then show "i \<in> valid_idx table \<and> Addr (Entry table ! i) = a"
    by (auto simp: client_map_def find_Some_iff valid_idx_def)
next
  assume i: "i \<in> valid_idx table \<and> Addr (Entry table ! i) = a"
  then obtain j where j: "client_map table a = Some j"
    by (cases "client_map table a") (auto simp: client_map_def find_None_iff valid_idx_def)
  then have "j \<in> valid_idx table \<and> Addr (Entry table ! j) = a"
    by (auto simp: client_map_def find_Some_iff valid_idx_def)
  with i assms have "i = j" by (auto dest: inj_onD)
  with j show "client_map table a = Some i" by simp
qed

lemma client_map_None:
  "client_map table a = None \<longleftrightarrow> (\<forall>i \<in> valid_idx table. Addr (Entry table ! i) \<noteq> a)"
  by (auto simp: client_map_def find_None_iff valid_idx_def)

lemma client_map_eqI:
  assumes "inj_on (\<lambda>i. Addr (Entry table ! i)) (valid_idx table)"
    and "\<And>i. i \<in> valid_idx table \<and> Addr (Entry table ! i) = a \<longleftrightarrow> r = Some i"
  shows "client_map table a = r"
  using assms client_map_Some [OF assms(1)] client_map_None by (cases r) auto

text \<open>Changes that touch nothing but the links.\<close>

definition relinked :: "cli_table \<Rightarrow> cli_table \<Rightarrow> bool" where
  "relinked table table' \<longleftrightarrow>
     table' = table\<lparr>Entry := Entry table', Hash := Hash table'\<rparr> \<and>
     length (Entry table') = length (Entry table) \<and>
     (\<forall>i. (Entry table' ! i)\<lparr>pNext := None\<rparr> = (Entry table ! i)\<lparr>pNext := None\<rparr>)"

lemma relinked_entry:
  assumes "relinked table table'"
  shows "bValid (Entry table' ! i) = bValid (Entry table ! i)"
    and "Addr (Entry table' ! i) = Addr (Entry table ! i)"
    and "TableIndex (Entry table' ! i) = TableIndex (Entry table ! i)"
proof -
  have *: "(Entry table' ! i)\<lparr>pNext := None\<rparr> = (Entry table ! i)\<lparr>pNext := None\<rparr>"
    using assms by (simp add: relinked_def)
  show "bValid (Entry table' ! i) = bValid (Entry table ! i)" using arg_cong [OF *, of bValid] by simp
  show "Addr (Entry table' ! i) = Addr (Entry table ! i)" using arg_cong [OF *, of Addr] by simp
  show "TableIndex (Entry table' ! i) = TableIndex (Entry table ! i)"
    using arg_cong [OF *, of TableIndex] by simp
qed

lemma relinked_fields:
  assumes "relinked table table'"
  shows "length (Entry table') = length (Entry table)" and "Size table' = Size table"
proof -
  show "length (Entry table') = length (Entry table)" using assms by (simp add: relinked_def)
  have "Size table' = Size (table\<lparr>Entry := Entry table', Hash := Hash table'\<rparr>)"
    using assms unfolding relinked_def by metis
  then show "Size table' = Size table" by simp
qed

lemma relinked_sets:
  assumes "relinked table table'"
  shows "valid_idx table' = valid_idx table" and "bucket table' h = bucket table h"
  by (simp_all add: valid_idx_def bucket_def relinked_entry [OF assms])

lemma relinked_Hash [simp]: "relinked table (table\<lparr>Hash := f\<rparr>)"
  by (simp add: relinked_def)

lemma relinked_pNext [simp]: "relinked table (upd_entry i (\<lambda>e. e\<lparr>pNext := q\<rparr>) table)"
proof (cases "i < length (Entry table)")
  case True
  then show ?thesis by (auto simp: relinked_def upd_entry_def nth_list_update)
next
  case False
  then show ?thesis by (simp add: relinked_def upd_entry_def list_update_beyond)
qed

lemma next_ptr_Hash [simp]: "next_ptr (table\<lparr>Hash := f\<rparr>) = next_ptr table"
  by (simp add: next_ptr_def fun_eq_iff)

lemma next_ptr_upd:
  "i < length (Entry table) \<Longrightarrow>
   next_ptr (upd_entry i f table) = (next_ptr table)(i := pNext (f (Entry table ! i)))"
  by (auto simp: next_ptr_def upd_entry_def fun_eq_iff nth_list_update)

lemma upd_entry_fields [simp]:
  "Hash (upd_entry i f table) = Hash table"
  "Size (upd_entry i f table) = Size table"
  "length (Entry (upd_entry i f table)) = length (Entry table)"
  by (simp_all add: upd_entry_def)

lemma Entry_upd_entry:
  "i < length (Entry table) \<Longrightarrow>
   Entry (upd_entry i f table) ! j = (if j = i then f (Entry table ! i) else Entry table ! j)"
  by (simp add: upd_entry_def nth_list_update)

lemma relinked_data_ok: "relinked table table' \<Longrightarrow> data_ok table \<Longrightarrow> data_ok table'"
  by (simp add: data_ok_def relinked_sets relinked_fields relinked_entry)

lemma relinked_client_map: "relinked table table' \<Longrightarrow> client_map table' = client_map table"
  by (simp add: client_map_def fun_eq_iff relinked_entry)

section \<open>Lookup\<close>

lemma bucket_chain:
  assumes "table_inv table"
  obtains xs where "chain (next_ptr table) (Hash table h) xs" and "set xs = bucket table h"
    and "length xs \<le> BND_STRG_MAX_TABLE_SIZE"
proof -
  from assms obtain xs where xs: "chain (next_ptr table) (Hash table h) xs" "set xs = bucket table h"
    unfolding table_inv_def links_ok_def by blast
  then have "set xs \<subseteq> {..<BND_STRG_MAX_TABLE_SIZE}" by (auto simp: bucket_def valid_idx_def)
  with xs that chain_length_bound show thesis by blast
qed

lemma find_in_bucket:
  assumes "table_inv table" and "set xs = bucket table (MAC_ADDR_HASH_INDEX a)"
  shows "List.find (\<lambda>i. \<not> bValid (Entry table ! i) \<or> Addr (Entry table ! i) = a) xs = client_map table a"
    and "List.find (\<lambda>i. Addr (Entry table ! i) = a) xs = client_map table a"
proof -
  have inj: "inj_on (\<lambda>i. Addr (Entry table ! i)) (valid_idx table)"
    using assms(1) by (simp add: table_inv_def data_ok_def)
  have val: "i \<in> set xs \<Longrightarrow> bValid (Entry table ! i)" for i
    using assms(2) by (simp add: bucket_def valid_idx_def)
  show 2: "List.find (\<lambda>i. Addr (Entry table ! i) = a) xs = client_map table a"
  proof (cases "client_map table a")
    case None
    then have "\<forall>i \<in> valid_idx table. Addr (Entry table ! i) \<noteq> a" by (simp add: client_map_None)
    with None assms(2) show ?thesis by (auto simp: bucket_def intro!: find_none)
  next
    case (Some k)
    then have k: "k \<in> valid_idx table \<and> Addr (Entry table ! k) = a"
      using client_map_Some [OF inj] by simp
    with Some inj assms(2) show ?thesis
      by (auto simp: bucket_def dest: inj_onD intro!: find_only)
  qed
  show "List.find (\<lambda>i. \<not> bValid (Entry table ! i) \<or> Addr (Entry table ! i) = a) xs = client_map table a"
    using val unfolding 2 [symmetric] by (intro find_cong) auto
qed

lemma lookup_client_map:
  assumes "table_inv table"
  shows "bndstrg_table_lookup table a = Inr (client_map table a)"
proof -
  obtain xs where xs: "chain (next_ptr table) (Hash table (MAC_ADDR_HASH_INDEX a)) xs"
      "set xs = bucket table (MAC_ADDR_HASH_INDEX a)" "length xs \<le> BND_STRG_MAX_TABLE_SIZE"
    using bucket_chain [OF assms] by blast
  show ?thesis
    unfolding bndstrg_table_lookup_def scan_chain [OF xs(1,3)] find_in_bucket(1) [OF assms xs(2)] ..
qed

section \<open>Insertion\<close>

lemma hash_append_links:
  assumes len: "length (Entry table) = BND_STRG_MAX_TABLE_SIZE"
    and ch: "chain (next_ptr table) (Hash table (MAC_ADDR_HASH_INDEX a)) xs"
    and xs: "set xs \<subseteq> {..<BND_STRG_MAX_TABLE_SIZE}"
    and i: "i \<notin> set xs" "next_ptr table i = None"
  obtains table' where "hash_append a i table = Inr table'" and "relinked table table'"
    and "chain (next_ptr table') (Hash table' (MAC_ADDR_HASH_INDEX a)) (xs @ [i])"
    and "\<And>h ys. h \<noteq> MAC_ADDR_HASH_INDEX a \<Longrightarrow> set ys \<inter> set xs = {} \<Longrightarrow>
      chain (next_ptr table) (Hash table h) ys \<Longrightarrow> chain (next_ptr table') (Hash table' h) ys"
proof (cases "Hash table (MAC_ADDR_HASH_INDEX a)")
  case None
  show thesis
    by (rule that [of "table\<lparr>Hash := (Hash table)(MAC_ADDR_HASH_INDEX a := Some i)\<rparr>"])
      (use None ch i in \<open>auto simp: hash_append_def\<close>)
next
  case (Some h)
  with ch have ne: "xs \<noteq> []" by auto
  define l where "l = last xs"
  have l: "l < BND_STRG_MAX_TABLE_SIZE" "l \<in> set xs"
    using subsetD [OF xs last_in_set [OF ne]] last_in_set [OF ne] by (simp_all add: l_def)
  let ?t = "upd_entry l (\<lambda>e. e\<lparr>pNext := Some i\<rparr>) table"
  have nx: "next_ptr ?t = (next_ptr table)(l := Some i)"
    using l len by (simp add: next_ptr_upd)
  have "length xs \<le> BND_STRG_MAX_TABLE_SIZE" using ch xs by (rule chain_length_bound)
  from scan_chain [OF ch this, of "\<lambda>j. next_ptr table j = None"] chain_find_last [OF ch ne] Some
  have eq: "hash_append a i table = Inr ?t" by (simp add: hash_append_def l_def)
  show thesis
  proof (rule that [OF eq])
    show "relinked table ?t" by simp
    show "chain (next_ptr ?t) (Hash ?t (MAC_ADDR_HASH_INDEX a)) (xs @ [i])"
      unfolding nx using chain_append_cell [OF ch ne i] by (simp add: l_def)
    show "chain (next_ptr ?t) (Hash ?t h) ys"
      if "h \<noteq> MAC_ADDR_HASH_INDEX a" "set ys \<inter> set xs = {}" "chain (next_ptr table) (Hash table h) ys"
      for h ys
    proof -
      have "l \<notin> set ys" using that(2) l(2) by blast
      with that(3) show ?thesis unfolding nx by simp
    qed
  qed
qed

lemma first_vacancy_Some:
  assumes "unat (Size table) = card (valid_idx table)" and "Size table < of_nat BND_STRG_MAX_TABLE_SIZE"
  obtains i where "first_vacancy table = Some i" and "i < BND_STRG_MAX_TABLE_SIZE"
    and "i \<notin> valid_idx table" and "\<And>j. j < i \<Longrightarrow> j \<in> valid_idx table"
proof (cases "first_vacancy table")
  case None
  then have "valid_idx table = {..<BND_STRG_MAX_TABLE_SIZE}"
    by (auto simp: first_vacancy_def find_None_iff valid_idx_def)
  then have "unat (Size table) = BND_STRG_MAX_TABLE_SIZE"
    using assms(1) by simp
  with assms(2) show thesis by (simp add: word_less_nat_alt)
next
  case (Some i)
  then show thesis by (intro that [of i]) (auto simp: first_vacancy_def find_Some_iff valid_idx_def)
qed

text \<open>The table after the vacancy has been filled and before it is linked into its bucket.\<close>

lemma filled_entry:
  assumes "length (Entry table) = BND_STRG_MAX_TABLE_SIZE" and "i < BND_STRG_MAX_TABLE_SIZE"
    and "i \<notin> valid_idx table" and "t = upd_entry i (\<lambda>_. fresh_entry now a i) table"
  shows "valid_idx t = insert i (valid_idx table)"
    and "bucket t h = (if h = MAC_ADDR_HASH_INDEX a then insert i (bucket table h) else bucket table h)"
    and "next_ptr t = (next_ptr table)(i := None)"
    and "Entry t ! j = (if j = i then fresh_entry now a i else Entry table ! j)"
  using assms(1,2,3) unfolding assms(4)
  by (auto simp: valid_idx_def bucket_def Entry_upd_entry next_ptr_upd fresh_entry_def zero_entry_def
      split: if_splits)

lemma fresh_entry_fields [simp]:
  "Addr (fresh_entry now a i) = a" "TableIndex (fresh_entry now a i) = of_nat i"
  by (simp_all add: fresh_entry_def)

lemma bucket_subset: "bucket table h \<subseteq> valid_idx table"
  by (auto simp: bucket_def)

lemma bucket_disjoint: "h \<noteq> h' \<Longrightarrow> bucket table h \<inter> bucket table h' = {}"
  by (auto simp: bucket_def)

lemma filled_data_ok:
  assumes ok: "data_ok table" and absent: "client_map table a = None"
    and i: "i < BND_STRG_MAX_TABLE_SIZE" "i \<notin> valid_idx table"
    and room: "Size table < of_nat BND_STRG_MAX_TABLE_SIZE"
    and t: "t = upd_entry i (\<lambda>_. fresh_entry now a i) table"
  shows "data_ok (t\<lparr>Size := Size t + 1\<rparr>)" and "client_map t = (client_map table)(a \<mapsto> i)"
proof -
  let ?t = "t\<lparr>Size := Size t + 1\<rparr>"
  have len: "length (Entry table) = BND_STRG_MAX_TABLE_SIZE"
    and injo: "inj_on (\<lambda>j. Addr (Entry table ! j)) (valid_idx table)"
    using ok by (simp_all add: data_ok_def)
  note f = filled_entry [OF len i t]
  have ad: "Addr (Entry t ! j) = (if j = i then a else Addr (Entry table ! j))" for j
    by (simp add: f(4))
  have inj: "inj_on (\<lambda>j. Addr (Entry t ! j)) (valid_idx t)"
    unfolding ad f(1) using injo absent i(2) by (auto simp: inj_on_def client_map_None)
  have "unat (Size table + 1) = Suc (unat (Size table))"
    using room by (simp add: word_less_nat_alt unat_word_ariths)
  moreover have "valid_idx ?t = valid_idx t" by (simp add: valid_idx_def)
  ultimately show "data_ok ?t"
    using ok inj i(2) f by (auto simp: data_ok_def t)
  show "client_map t = (client_map table)(a \<mapsto> i)"
  proof
    fix b
    have "j \<in> valid_idx t \<and> Addr (Entry t ! j) = b \<longleftrightarrow> ((client_map table)(a \<mapsto> i)) b = Some j" for j
      unfolding ad f(1) using absent i(2) client_map_Some [OF injo] by (auto simp: client_map_None)
    then show "client_map t b = ((client_map table)(a \<mapsto> i)) b" by (rule client_map_eqI [OF inj])
  qed
qed

lemma append_links_ok:
  assumes inv: "table_inv table" and i: "i < BND_STRG_MAX_TABLE_SIZE" "i \<notin> valid_idx table"
    and t: "t = upd_entry i (\<lambda>_. fresh_entry now a i) table"
  obtains t' where "hash_append a i t = Inr t'" and "relinked t t'" and "links_ok t'"
proof -
  let ?h = "MAC_ADDR_HASH_INDEX a"
  have len: "length (Entry table) = BND_STRG_MAX_TABLE_SIZE"
    using inv by (simp add: table_inv_def data_ok_def)
  note f = filled_entry [OF len i t]
  have old: "chain (next_ptr t) (Hash t h) ys"
    if "chain (next_ptr table) (Hash table h) ys" "set ys = bucket table h" for h ys
    using that i(2) bucket_subset [of table h] unfolding f(3) by (auto simp: t)
  obtain xs where xs: "chain (next_ptr table) (Hash table ?h) xs" "set xs = bucket table ?h"
    using bucket_chain [OF inv] by metis
  have fr: "set xs \<subseteq> {..<BND_STRG_MAX_TABLE_SIZE}" "i \<notin> set xs"
    using xs(2) bucket_subset [of table ?h] i(2) by (auto dest: valid_idx_bound)
  have "length (Entry t) = BND_STRG_MAX_TABLE_SIZE" "next_ptr t i = None"
    using len unfolding f(3) by (simp_all add: t)
  then obtain t' where t': "hash_append a i t = Inr t'" "relinked t t'"
      "chain (next_ptr t') (Hash t' ?h) (xs @ [i])"
      "\<And>h ys. h \<noteq> ?h \<Longrightarrow> set ys \<inter> set xs = {} \<Longrightarrow> chain (next_ptr t) (Hash t h) ys \<Longrightarrow>
         chain (next_ptr t') (Hash t' h) ys"
    using hash_append_links [OF _ old [OF xs] fr] by metis
  have "\<exists>ys. chain (next_ptr t') (Hash t' h) ys \<and> set ys = bucket t' h" for h
  proof (cases "h = ?h")
    case True
    with t'(3) xs(2) show ?thesis
      unfolding relinked_sets(2) [OF t'(2)] f(2) by (intro exI [of _ "xs @ [i]"]) auto
  next
    case False
    obtain ys where ys: "chain (next_ptr table) (Hash table h) ys" "set ys = bucket table h"
      using bucket_chain [OF inv] by metis
    have "set ys \<inter> set xs = {}" using ys(2) xs(2) bucket_disjoint [OF False] by simp
    with t'(4) [OF False _ old [OF ys]] ys(2) False show ?thesis
      unfolding relinked_sets(2) [OF t'(2)] f(2) by auto
  qed
  with t' that show thesis by (auto simp: links_ok_def)
qed

lemma next_ptr_Size [simp]: "next_ptr (table\<lparr>Size := n\<rparr>) = next_ptr table"
  by (simp add: next_ptr_def fun_eq_iff)

lemma sets_Size [simp]:
  "valid_idx (table\<lparr>Size := n\<rparr>) = valid_idx table"
  "bucket (table\<lparr>Size := n\<rparr>) = bucket table"
  "client_map (table\<lparr>Size := n\<rparr>) = client_map table"
  by (simp_all add: valid_idx_def bucket_def client_map_def fun_eq_iff)

lemma links_ok_Size [simp]: "links_ok (table\<lparr>Size := n\<rparr>) = links_ok table"
  by (simp add: links_ok_def)

lemma relinked_Size: "relinked table table' \<Longrightarrow> relinked (table\<lparr>Size := n\<rparr>) (table'\<lparr>Size := n\<rparr>)"
  by (cases table; cases table') (simp add: relinked_def)

lemma insert_entry_correct:
  assumes inv: "table_inv table" and absent: "client_map table a = None"
    and room: "Size table < of_nat BND_STRG_MAX_TABLE_SIZE"
  obtains i table' where "bndstrg_insert_entry now table a = Inr (BND_STRG_SUCCESS, Some i, table')"
    and "first_vacancy table = Some i" and "i < BND_STRG_MAX_TABLE_SIZE" and "i \<notin> valid_idx table"
    and "table_inv table'" and "client_map table' = (client_map table)(a \<mapsto> i)"
    and "relinked ((upd_entry i (\<lambda>_. fresh_entry now a i) table)\<lparr>Size := Size table + 1\<rparr>) table'"
proof -
  obtain i where i: "first_vacancy table = Some i" "i < BND_STRG_MAX_TABLE_SIZE" "i \<notin> valid_idx table"
    using first_vacancy_Some [OF _ room] inv by (metis data_ok_def table_inv_def)
  define t where "t = upd_entry i (\<lambda>_. fresh_entry now a i) table"
  obtain t' where t': "hash_append a i t = Inr t'" "relinked t t'" "links_ok t'"
    using append_links_ok [OF inv i(2,3) t_def] by metis
  have ok: "data_ok table" using inv by (simp add: table_inv_def)
  note f = filled_data_ok [OF ok absent i(2,3) room t_def]
  have Sz: "Size t' = Size t" "Size t = Size table"
    using relinked_fields [OF t'(2)] by (simp_all add: t_def)
  have r: "relinked (t\<lparr>Size := Size t + 1\<rparr>) (t'\<lparr>Size := Size t' + 1\<rparr>)"
    using relinked_Size [OF t'(2)] Sz by simp
  have "table_inv (t'\<lparr>Size := Size t' + 1\<rparr>)"
    using relinked_data_ok [OF r f(1)] t'(3) by (simp add: table_inv_def)
  moreover have "client_map (t'\<lparr>Size := Size t' + 1\<rparr>) = (client_map table)(a \<mapsto> i)"
    using relinked_client_map [OF t'(2)] f(2) by simp
  moreover have "bndstrg_insert_entry now table a =
      Inr (BND_STRG_SUCCESS, Some i, t'\<lparr>Size := Size t' + 1\<rparr>)"
    using room i(1) t'(1) by (simp add: bndstrg_insert_entry_def pick_entry_def t_def not_le)
  ultimately show thesis using that i r Sz by (simp add: t_def)
qed

section \<open>Deletion\<close>

lemma hash_unlink_links:
  assumes len: "length (Entry table) = BND_STRG_MAX_TABLE_SIZE"
    and ch: "chain (next_ptr table) (Hash table h) (ys @ i # zs)"
    and xs: "set (ys @ i # zs) \<subseteq> {..<BND_STRG_MAX_TABLE_SIZE}"
  obtains t' where "hash_unlink h i table = Inr t'" and "relinked table t'"
    and "chain (next_ptr t') (Hash t' h) (ys @ zs)"
    and "\<And>k ws. k \<noteq> h \<Longrightarrow> set ws \<inter> set ys = {} \<Longrightarrow>
      chain (next_ptr table) (Hash table k) ws \<Longrightarrow> chain (next_ptr t') (Hash t' k) ws"
proof -
  have "length (ys @ i # zs) \<le> BND_STRG_MAX_TABLE_SIZE" using ch xs by (rule chain_length_bound)
  moreover have d: "distinct (ys @ i # zs)" using ch by (rule chain_distinct)
  ultimately have fp: "find_pred BND_STRG_MAX_TABLE_SIZE (next_ptr table) i None (Hash table h) =
      Inr (Some (if ys = [] then None else Some (last ys)))"
    using ch by (intro find_pred_found) auto
  show thesis
  proof (cases "ys = []")
    case True
    show thesis
      by (rule that [of "table\<lparr>Hash := (Hash table)(h := next_ptr table i)\<rparr>"])
        (use True fp ch in \<open>auto simp: hash_unlink_def\<close>)
  next
    case False
    define l where "l = last ys"
    have ly: "l \<in> set ys" using False by (simp add: l_def)
    with xs have "l < BND_STRG_MAX_TABLE_SIZE" by auto
    let ?t = "upd_entry l (\<lambda>e. e\<lparr>pNext := next_ptr table i\<rparr>) table"
    have nx: "next_ptr ?t = (next_ptr table)(l := next_ptr table i)"
      using \<open>l < BND_STRG_MAX_TABLE_SIZE\<close> len by (simp add: next_ptr_upd)
    have "chain (next_ptr ?t) (Hash ?t h) (ys @ zs)"
      unfolding nx using chain_unlink_cell [OF ch False] by (simp add: l_def)
    moreover have "chain (next_ptr ?t) (Hash ?t k) ws"
      if "set ws \<inter> set ys = {}" "chain (next_ptr table) (Hash table k) ws" for k ws
    proof -
      have "l \<notin> set ws" using that(1) ly by blast
      with that(2) show ?thesis unfolding nx by simp
    qed
    ultimately show thesis
      using that [of ?t] fp False by (auto simp: hash_unlink_def l_def)
  qed
qed

lemma unlink_links:
  assumes inv: "table_inv table" and i: "i \<in> valid_idx table"
    and h: "h = MAC_ADDR_HASH_INDEX (Addr (Entry table ! i))"
  obtains t' where "hash_unlink h i table = Inr t'" and "relinked table t'"
    and "\<And>k. \<exists>xs. chain (next_ptr t') (Hash t' k) xs \<and> set xs = bucket table k - {i}"
proof -
  obtain xs where xs: "chain (next_ptr table) (Hash table h) xs" "set xs = bucket table h"
    using bucket_chain [OF inv] by metis
  then have "i \<in> set xs" using i h by (simp add: bucket_def)
  then obtain ys zs where sp: "xs = ys @ i # zs" by (meson split_list)
  have "distinct (ys @ i # zs)" using xs(1) sp chain_distinct by blast
  then have ni: "i \<notin> set (ys @ zs)" by auto
  have "length (Entry table) = BND_STRG_MAX_TABLE_SIZE"
    using inv by (simp add: table_inv_def data_ok_def)
  moreover have "set (ys @ i # zs) \<subseteq> {..<BND_STRG_MAX_TABLE_SIZE}"
    using xs(2) bucket_subset [of table h] unfolding sp by (auto dest!: valid_idx_bound)
  ultimately obtain t' where t': "hash_unlink h i table = Inr t'" "relinked table t'"
    "chain (next_ptr t') (Hash t' h) (ys @ zs)"
    "\<And>k ws. k \<noteq> h \<Longrightarrow> set ws \<inter> set ys = {} \<Longrightarrow>
      chain (next_ptr table) (Hash table k) ws \<Longrightarrow> chain (next_ptr t') (Hash t' k) ws"
    using hash_unlink_links xs(1) sp by metis
  have "\<exists>xs. chain (next_ptr t') (Hash t' k) xs \<and> set xs = bucket table k - {i}" for k
  proof (cases "k = h")
    case True
    with t'(3) xs(2) ni show ?thesis unfolding sp by (intro exI [of _ "ys @ zs"]) auto
  next
    case False
    obtain ws where ws: "chain (next_ptr table) (Hash table k) ws" "set ws = bucket table k"
      using bucket_chain [OF inv] by metis
    have dis: "bucket table k \<inter> bucket table h = {}" using bucket_disjoint [OF False] .
    then have "set ws \<inter> set ys = {}" using ws(2) xs(2) unfolding sp by auto
    moreover have "i \<notin> bucket table k" using dis \<open>i \<in> set xs\<close> xs(2) by auto
    ultimately show ?thesis using t'(4) [OF False _ ws(1)] ws(2) by auto
  qed
  with t' that show thesis by blast
qed

lemma cleared_entry:
  assumes "length (Entry table) = BND_STRG_MAX_TABLE_SIZE" and "i < BND_STRG_MAX_TABLE_SIZE"
    and "t = upd_entry i clear_entry table"
  shows "valid_idx t = valid_idx table - {i}" and "bucket t h = bucket table h - {i}"
    and "next_ptr t = next_ptr table"
    and "j \<noteq> i \<Longrightarrow> Entry t ! j = Entry table ! j"
  using assms(1,2) unfolding assms(3)
  by (auto simp: valid_idx_def bucket_def Entry_upd_entry next_ptr_upd clear_entry_def next_ptr_def
      split: if_splits)

lemma cleared_data_ok:
  assumes ok: "data_ok table" and i: "i \<in> valid_idx table" and t: "t = upd_entry i clear_entry table"
  shows "data_ok (t\<lparr>Size := Size table - 1\<rparr>)"
    and "client_map t = (client_map table)(Addr (Entry table ! i) := None)"
proof -
  have len: "length (Entry table) = BND_STRG_MAX_TABLE_SIZE"
    and injo: "inj_on (\<lambda>j. Addr (Entry table ! j)) (valid_idx table)"
    and Sz: "unat (Size table) = card (valid_idx table)"
    using ok by (simp_all add: data_ok_def)
  note c = cleared_entry [OF len valid_idx_bound [OF i] t]
  have inj: "inj_on (\<lambda>j. Addr (Entry t ! j)) (valid_idx t)"
    unfolding c(1) using injo c(4) by (auto simp: inj_on_def)
  have "0 < card (valid_idx table)" using i by (auto simp: card_gt_0_iff)
  then have "unat (Size table - 1) = card (valid_idx table) - 1"
    using Sz by (simp add: unat_sub word_le_nat_alt)
  then show "data_ok (t\<lparr>Size := Size table - 1\<rparr>)"
    using ok inj i c by (auto simp: data_ok_def t)
  show "client_map t = (client_map table)(Addr (Entry table ! i) := None)"
  proof
    fix b
    have "j \<in> valid_idx t \<and> Addr (Entry t ! j) = b \<longleftrightarrow>
        ((client_map table)(Addr (Entry table ! i) := None)) b = Some j" for j
      unfolding c(1) using c(4) [of j] i client_map_Some [OF injo, of b j] inj_onD [OF injo, of i j]
      by (cases "j = i") auto
    then show "client_map t b = ((client_map table)(Addr (Entry table ! i) := None)) b"
      by (rule client_map_eqI [OF inj])
  qed
qed

lemma delete_target_found:
  assumes inv: "table_inv table" and found: "client_map table a = Some i"
    and idx: "Index = of_nat i \<or> of_nat BND_STRG_MAX_TABLE_SIZE \<le> Index"
  shows "delete_target table a Index = Inr (Some i)"
proof (cases "of_nat BND_STRG_MAX_TABLE_SIZE \<le> Index")
  case True
  obtain xs where xs: "chain (next_ptr table) (Hash table (MAC_ADDR_HASH_INDEX a)) xs"
      "set xs = bucket table (MAC_ADDR_HASH_INDEX a)" "length xs \<le> BND_STRG_MAX_TABLE_SIZE"
    using bucket_chain [OF inv] by blast
  from True found show ?thesis
    unfolding delete_target_def scan_chain [OF xs(1,3)] find_in_bucket(2) [OF inv xs(2)] by simp
next
  case False
  have "i < BND_STRG_MAX_TABLE_SIZE"
    using found by (auto simp: client_map_def find_Some_iff)
  with False idx show ?thesis
    by (auto simp: delete_target_def unat_of_nat)
qed

lemma delete_entry_correct:
  assumes inv: "table_inv table" and found: "client_map table a = Some i"
    and idx: "Index = of_nat i \<or> of_nat BND_STRG_MAX_TABLE_SIZE \<le> Index"
  obtains table' where "bndstrg_delete_entry table a Index = Inr (BND_STRG_SUCCESS, table')"
    and "table_inv table'" and "client_map table' = (client_map table)(a := None)"
    and "\<And>j. j \<noteq> i \<Longrightarrow> (Entry table' ! j)\<lparr>pNext := None\<rparr> = (Entry table ! j)\<lparr>pNext := None\<rparr>"
proof -
  have ok: "data_ok table" using inv by (simp add: table_inv_def)
  then have i: "i \<in> valid_idx table" and a: "Addr (Entry table ! i) = a"
    using found client_map_Some [of table a i] by (auto simp: data_ok_def)
  obtain t1 where t1: "hash_unlink (MAC_ADDR_HASH_INDEX a) i table = Inr t1" "relinked table t1"
    "\<And>k. \<exists>xs. chain (next_ptr t1) (Hash t1 k) xs \<and> set xs = bucket table k - {i}"
    using unlink_links [OF inv i] a by metis
  define t where "t = upd_entry i clear_entry t1"
  have ok1: "data_ok t1" using t1(2) ok by (rule relinked_data_ok)
  have i1: "i \<in> valid_idx t1" using i relinked_sets [OF t1(2)] by simp
  have len: "length (Entry t1) = BND_STRG_MAX_TABLE_SIZE" using ok1 by (simp add: data_ok_def)
  note c = cleared_entry [OF len valid_idx_bound [OF i] t_def]
  have "links_ok t"
    using t1(3) relinked_sets [OF t1(2)] unfolding links_ok_def c(2,3) by (simp add: t_def)
  then have "table_inv (t\<lparr>Size := Size t1 - 1\<rparr>)"
    using cleared_data_ok(1) [OF ok1 i1 t_def] by (simp add: table_inv_def)
  moreover have "client_map (t\<lparr>Size := Size t1 - 1\<rparr>) = (client_map table)(a := None)"
    using cleared_data_ok(2) [OF ok1 i1 t_def] relinked_client_map [OF t1(2)]
      relinked_entry(2) [OF t1(2), of i] a by simp
  moreover have "bndstrg_delete_entry table a Index =
      Inr (BND_STRG_SUCCESS, t\<lparr>Size := Size t1 - 1\<rparr>)"
    using delete_target_found [OF inv found idx] i t1(1)
    by (simp add: bndstrg_delete_entry_def t_def valid_idx_def)
  moreover have "(Entry (t\<lparr>Size := Size t1 - 1\<rparr>) ! j)\<lparr>pNext := None\<rparr> = (Entry table ! j)\<lparr>pNext := None\<rparr>"
    if "j \<noteq> i" for j
    using c(4) [OF that] t1(2) by (simp add: relinked_def)
  ultimately show thesis by (intro that [of "t\<lparr>Size := Size t1 - 1\<rparr>"])
qed

lemma delete_entry_absent:
  assumes inv: "table_inv table" and "client_map table a = None"
    and "of_nat BND_STRG_MAX_TABLE_SIZE \<le> Index"
  shows "bndstrg_delete_entry table a Index = Inr (BND_STRG_INVALID_ARG, table)"
proof -
  obtain xs where xs: "chain (next_ptr table) (Hash table (MAC_ADDR_HASH_INDEX a)) xs"
      "set xs = bucket table (MAC_ADDR_HASH_INDEX a)" "length xs \<le> BND_STRG_MAX_TABLE_SIZE"
    using bucket_chain [OF inv] by blast
  from assms show ?thesis
    unfolding bndstrg_delete_entry_def delete_target_def scan_chain [OF xs(1,3)]
      find_in_bucket(2) [OF inv xs(2)] by simp
qed

lemma insert_entry_lookup:
  assumes inv: "table_inv table" and absent: "client_map table a = None"
    and room: "Size table < of_nat BND_STRG_MAX_TABLE_SIZE"
  shows "\<exists>i table'. bndstrg_insert_entry now table a = Inr (BND_STRG_SUCCESS, Some i, table') \<and>
    first_vacancy table = Some i \<and> table_inv table' \<and>
    (\<forall>b. bndstrg_table_lookup table' b = (if b = a then Inr (Some i) else bndstrg_table_lookup table b)) \<and>
    (Entry table' ! i)\<lparr>pNext := None\<rparr> = fresh_entry now a i \<and>
    (\<forall>j. j \<noteq> i \<longrightarrow> (Entry table' ! j)\<lparr>pNext := None\<rparr> = (Entry table ! j)\<lparr>pNext := None\<rparr>)"
proof -
  obtain i table' where t: "bndstrg_insert_entry now table a = Inr (BND_STRG_SUCCESS, Some i, table')"
      "first_vacancy table = Some i" "i < BND_STRG_MAX_TABLE_SIZE" "table_inv table'"
      "client_map table' = (client_map table)(a \<mapsto> i)"
      "relinked ((upd_entry i (\<lambda>_. fresh_entry now a i) table)\<lparr>Size := Size table + 1\<rparr>) table'"
    using insert_entry_correct [OF assms] by metis
  have len: "length (Entry table) = BND_STRG_MAX_TABLE_SIZE"
    using inv by (simp add: table_inv_def data_ok_def)
  have "(Entry table' ! j)\<lparr>pNext := None\<rparr> =
      (Entry (upd_entry i (\<lambda>_. fresh_entry now a i) table) ! j)\<lparr>pNext := None\<rparr>" for j
    using t(6) by (simp add: relinked_def)
  then have "(Entry table' ! i)\<lparr>pNext := None\<rparr> = fresh_entry now a i"
      "\<forall>j. j \<noteq> i \<longrightarrow> (Entry table' ! j)\<lparr>pNext := None\<rparr> = (Entry table ! j)\<lparr>pNext := None\<rparr>"
    using t(3) len by (simp_all add: upd_entry_def fresh_entry_def zero_entry_def)
  with t lookup_client_map [OF inv] lookup_client_map [OF t(4)] show ?thesis
    by (intro exI [of _ i] exI [of _ table']) simp
qed

section \<open>The empty table\<close>

lemma zero_table_sets [simp]: "valid_idx zero_table = {}" "bucket zero_table h = {}"
  by (auto simp: valid_idx_def bucket_def zero_table_def zero_entry_def)

lemma table_inv_zero_table: "table_inv zero_table"
  by (simp add: table_inv_def links_ok_def data_ok_def) (simp add: zero_table_def)

text \<open>What the invariant and the map depend on.\<close>

definition ids :: "cli_entry \<Rightarrow> bool \<times> mac \<times> u8 \<times> nat option" where
  "ids e = (bValid e, Addr e, TableIndex e, pNext e)"

definition same_ids :: "cli_table \<Rightarrow> cli_table \<Rightarrow> bool" where
  "same_ids table table' \<longleftrightarrow>
     Hash table' = Hash table \<and> Size table' = Size table \<and>
     length (Entry table') = length (Entry table) \<and>
     (\<forall>i. ids (Entry table' ! i) = ids (Entry table ! i))"

lemma ids_update [simp]:
  "ids (e\<lparr>Control_Flags := fl\<rparr>) = ids e"
  "ids (e\<lparr>elapsed_time := el\<rparr>) = ids e"
  "ids (e\<lparr>statistics_2G := st\<rparr>) = ids e"
  "ids (e\<lparr>statistics_5G := st\<rparr>) = ids e"
  "ids (e\<lparr>AgingConfirmed_2G := b\<rparr>) = ids e"
  "ids (e\<lparr>AgingConfirmed_5G := b\<rparr>) = ids e"
  by (simp_all add: ids_def)

lemma same_ids_cong:
  assumes "same_ids table table'"
  shows "table_inv table' = table_inv table" and "client_map table' = client_map table"
proof -
  have e: "bValid (Entry table' ! i) = bValid (Entry table ! i)"
    "Addr (Entry table' ! i) = Addr (Entry table ! i)"
    "TableIndex (Entry table' ! i) = TableIndex (Entry table ! i)"
    "pNext (Entry table' ! i) = pNext (Entry table ! i)" for i
    using assms by (simp_all add: same_ids_def ids_def)
  have *: "valid_idx table' = valid_idx table" "next_ptr table' = next_ptr table"
      "bucket table' = bucket table"
    by (simp_all add: e valid_idx_def next_ptr_def bucket_def fun_eq_iff)
  then show "table_inv table' = table_inv table"
    using assms by (simp add: e table_inv_def links_ok_def data_ok_def same_ids_def)
  show "client_map table' = client_map table" by (simp add: e client_map_def fun_eq_iff)
qed

lemma same_ids_refl [simp]: "same_ids table table"
  by (simp add: same_ids_def)

lemma same_ids_trans: "same_ids t1 t2 \<Longrightarrow> same_ids t2 t3 \<Longrightarrow> same_ids t1 t3"
  by (simp add: same_ids_def)

lemma same_ids_upd_entry:
  assumes "ids (f (Entry table ! i)) = ids (Entry table ! i)"
  shows "same_ids table (upd_entry i f table)"
proof (cases "i < length (Entry table)")
  case True
  then show ?thesis using assms by (simp add: same_ids_def Entry_upd_entry)
next
  case False
  then show ?thesis by (simp add: same_ids_def upd_entry_def list_update_beyond)
qed

lemma same_ids_settings [simp]:
  "same_ids table (table\<lparr>bEnabled := b\<rparr>) = True"
  "same_ids table (table\<lparr>Band := x\<rparr>) = True"
  "same_ids table (table\<lparr>status_queried_cnt := c\<rparr>) = True"
  "same_ids table (table\<lparr>table_enable_cnt := c\<rparr>) = True"
  by (simp_all add: same_ids_def)

lemma table_inv_init:
  "table_inv (snd (bndstrg_table_init zero_table))"
  "client_map (snd (bndstrg_table_init zero_table)) a = None"
proof -
  let ?t = "snd (bndstrg_table_init zero_table)"
  have *: "same_ids zero_table ?t"
    by (simp add: bndstrg_table_init_def zero_table_def same_ids_def)
  show "table_inv ?t" using same_ids_cong(1) [OF *] table_inv_zero_table by simp
  show "client_map ?t a = None"
    using same_ids_cong(2) [OF *] by (simp add: client_map_None)
qed

section \<open>The table fulfils the contract\<close>

text \<open>
  The two operations in the shape of the contract: insertion with the time of the call, removal
  by address (any position from 64 on selects the search by address).
\<close>

definition insert_client :: "timespec \<Rightarrow> cli_table \<Rightarrow> mac \<Rightarrow> cli_table res" where
  "insert_client now table a =
     res_bind (bndstrg_insert_entry now table a) (\<lambda>(_, _, table'). Inr table')"

definition remove_client :: "cli_table \<Rightarrow> mac \<Rightarrow> cli_table res" where
  "remove_client table a =
     res_bind (bndstrg_delete_entry table a (of_nat BND_STRG_MAX_TABLE_SIZE)) (\<lambda>(_, table'). Inr table')"

lemma dom_client_map:
  assumes "table_inv table"
  shows "finite (dom (client_map table))" and "card (dom (client_map table)) = card (valid_idx table)"
proof -
  have inj: "inj_on (\<lambda>i. Addr (Entry table ! i)) (valid_idx table)"
    using assms by (simp add: table_inv_def data_ok_def)
  have "a \<in> dom (client_map table) \<longleftrightarrow> a \<in> (\<lambda>i. Addr (Entry table ! i)) ` valid_idx table" for a
    using client_map_Some [OF inj, of a] by (auto simp: image_iff dom_def)
  then have "dom (client_map table) = (\<lambda>i. Addr (Entry table ! i)) ` valid_idx table" by blast
  then show "finite (dom (client_map table))" and "card (dom (client_map table)) = card (valid_idx table)"
    using inj by (simp_all add: card_image)
qed

lemma Size_client_map:
  assumes "table_inv table"
  shows "unat (Size table) = card (dom (client_map table))"
  using assms dom_client_map [OF assms] by (simp add: table_inv_def data_ok_def)

interpretation clients: keyed_table table_inv client_map BND_STRG_MAX_TABLE_SIZE
    bndstrg_table_lookup "insert_client now" remove_client for now
proof
  fix table a
  assume inv: "table_inv table"
  show "bndstrg_table_lookup table a = Inr (client_map table a)" using inv by (rule lookup_client_map)
  show "finite (dom (client_map table))" using inv by (rule dom_client_map)
  show "card (dom (client_map table)) \<le> BND_STRG_MAX_TABLE_SIZE"
    using dom_client_map [OF inv] card_valid_idx by simp
  show "\<exists>table'. remove_client table a = Inr table' \<and> table_inv table' \<and>
      client_map table' = (client_map table)(a := None)"
  proof (cases "client_map table a")
    case None
    with delete_entry_absent [OF inv None] inv show ?thesis
      by (auto simp: remove_client_def fun_eq_iff)
  next
    case (Some i)
    obtain table' where "bndstrg_delete_entry table a (of_nat BND_STRG_MAX_TABLE_SIZE) =
        Inr (BND_STRG_SUCCESS, table')" "table_inv table'" "client_map table' = (client_map table)(a := None)"
      using delete_entry_correct [OF inv Some, of "of_nat BND_STRG_MAX_TABLE_SIZE"] by blast
    then show ?thesis by (simp add: remove_client_def)
  qed
  assume absent: "client_map table a = None"
  {
    assume "card (dom (client_map table)) < BND_STRG_MAX_TABLE_SIZE"
    then have "Size table < of_nat BND_STRG_MAX_TABLE_SIZE"
      using Size_client_map [OF inv] by (simp add: word_less_nat_alt)
    then obtain i table' where "bndstrg_insert_entry now table a = Inr (BND_STRG_SUCCESS, Some i, table')"
        "table_inv table'" "client_map table' = (client_map table)(a \<mapsto> i)"
      using insert_entry_correct [OF inv absent, of now] by metis
    then show "\<exists>table' i. insert_client now table a = Inr table' \<and> table_inv table' \<and>
        client_map table' = (client_map table)(a \<mapsto> i)"
      by (intro exI [of _ table'] exI [of _ i]) (simp add: insert_client_def)
  next
    assume "card (dom (client_map table)) = BND_STRG_MAX_TABLE_SIZE"
    then have "of_nat BND_STRG_MAX_TABLE_SIZE \<le> Size table"
      using Size_client_map [OF inv] by (simp add: word_le_nat_alt)
    then show "insert_client now table a = Inr table"
      by (simp add: insert_client_def bndstrg_insert_entry_def)
  }
qed

end
