(* ===== verification/Bndstrg.thy ===== *)
theory Bndstrg
  imports Bndstrg_Table
begin

text \<open>
  The band steering daemon above its client table
  (\<open>package/ramips/applications/bndstrg/src/bndstrg.c\<close>, \<open>bndstrg.h\<close>, \<open>driver_wext.c\<close>): the handling of
  connection requests and of the other driver messages, the steering decisions for the two
  bands, the periodic task, and the whole daemon as a step function on its inputs.

  The daemon talks to the driver by private ioctls whose result its callers ignore; every request
  is recorded in order. Readings of the wall clock are arguments. A message is the decoded
  \<open>struct bndstrg_msg\<close>; \<open>Action\<close> and the other codes keep their numbers, so that an unknown code
  takes the \<open>default\<close> branch.
\<close>

section \<open>Codes and flags\<close>

abbreviation (input) CONNECTION_REQ :: u8 where "CONNECTION_REQ \<equiv> 1"
abbreviation (input) CLI_ADD :: u8 where "CLI_ADD \<equiv> 2"
abbreviation (input) CLI_UPDATE :: u8 where "CLI_UPDATE \<equiv> 3"
abbreviation (input) CLI_DEL :: u8 where "CLI_DEL \<equiv> 4"
abbreviation (input) CLI_AGING_REQ :: u8 where "CLI_AGING_REQ \<equiv> 5"
abbreviation (input) CLI_AGING_RSP :: u8 where "CLI_AGING_RSP \<equiv> 6"
abbreviation (input) INF_STATUS_RSP_2G :: u8 where "INF_STATUS_RSP_2G \<equiv> 8"
abbreviation (input) INF_STATUS_RSP_5G :: u8 where "INF_STATUS_RSP_5G \<equiv> 9"
abbreviation (input) TABLE_INFO :: u8 where "TABLE_INFO \<equiv> 10"
abbreviation (input) ENTRY_LIST :: u8 where "ENTRY_LIST \<equiv> 11"
abbreviation (input) BNDSTRG_ONOFF :: u8 where "BNDSTRG_ONOFF \<equiv> 12"
abbreviation (input) SET_RSSI_DIFF :: u8 where "SET_RSSI_DIFF \<equiv> 13"
abbreviation (input) SET_RSSI_LOW :: u8 where "SET_RSSI_LOW \<equiv> 14"
abbreviation (input) SET_AGE_TIME :: u8 where "SET_AGE_TIME \<equiv> 15"
abbreviation (input) SET_HOLD_TIME :: u8 where "SET_HOLD_TIME \<equiv> 16"
abbreviation (input) SET_CHECK_TIME :: u8 where "SET_CHECK_TIME \<equiv> 17"
abbreviation (input) SET_MNT_ADDR :: u8 where "SET_MNT_ADDR \<equiv> 18"
abbreviation (input) SET_CHEK_CONDITIONS :: u8 where "SET_CHEK_CONDITIONS \<equiv> 19"
abbreviation (input) INF_STATUS_RSP_DBDC :: u8 where "INF_STATUS_RSP_DBDC \<equiv> 20"

abbreviation (input) APMT2_PEER_PROBE_REQ :: u8 where "APMT2_PEER_PROBE_REQ \<equiv> 0"
abbreviation (input) APMT2_PEER_AUTH_REQ :: u8 where "APMT2_PEER_AUTH_REQ \<equiv> 3"

abbreviation (input) fSUPPORT_2G :: u32 where "fSUPPORT_2G \<equiv> 1"
abbreviation (input) fSUPPORT_5G :: u32 where "fSUPPORT_5G \<equiv> 2"
abbreviation (input) fALLOW_TO_CONNET_2G :: u32 where "fALLOW_TO_CONNET_2G \<equiv> 4"
abbreviation (input) fALLOW_TO_CONNET_5G :: u32 where "fALLOW_TO_CONNET_5G \<equiv> 8"
abbreviation (input) fNOT_SUPPORT_HT_2G :: u32 where "fNOT_SUPPORT_HT_2G \<equiv> 16"
abbreviation (input) fNOT_SUPPORT_HT_5G :: u32 where "fNOT_SUPPORT_HT_5G \<equiv> 32"
abbreviation (input) fLOW_RSSI_2G :: u32 where "fLOW_RSSI_2G \<equiv> 64"
abbreviation (input) fLOW_RSSI_5G :: u32 where "fLOW_RSSI_5G \<equiv> 128"
abbreviation (input) fIS_2G_ONLY :: u32 where "fIS_2G_ONLY \<equiv> 256"

abbreviation (input) fCND_RSSI_DIFF :: u32 where "fCND_RSSI_DIFF \<equiv> 1"
abbreviation (input) fCND_2G_PERSIST :: u32 where "fCND_2G_PERSIST \<equiv> 2"
abbreviation (input) fCND_HT_SUPPORT :: u32 where "fCND_HT_SUPPORT \<equiv> 4"
abbreviation (input) fCND_5G_RSSI :: u32 where "fCND_5G_RSSI \<equiv> 8"

text \<open>The fields of \<open>struct bndstrg_msg\<close> that the daemon reads.\<close>

record bndstrg_msg =
  Action :: u8
  ReturnCode :: u8
  TalbeIndex :: u8
  OnOff :: u8
  msg_Band :: u8
  msg_b2GInfReady :: u8
  msg_uc2GIfName :: "byte list"
  msg_b5GInfReady :: u8
  msg_uc5GIfName :: "byte list"
  msg_Rssi :: "s8 \<times> s8 \<times> s8 \<times> s8"
  msg_RssiDiff :: s8
  msg_RssiLow :: s8
  FrameType :: u8
  msg_Time :: u32
  msg_ConditionCheck :: u32
  msg_Addr :: mac
  bAllowStaConnectInHt :: u8

section \<open>Connection requests\<close>

definition bndstrg_update_entry_statistics ::
  "entry_stat \<Rightarrow> s8 \<Rightarrow> u8 \<Rightarrow> bndstrg_return_code \<times> entry_stat" where
  "bndstrg_update_entry_statistics st rssi FrameSubType =
     (let st1 = st\<lparr>Rssi := rssi\<rparr> in
      if FrameSubType = APMT2_PEER_PROBE_REQ then (BND_STRG_SUCCESS, st1)
      else if FrameSubType = APMT2_PEER_AUTH_REQ
        then (BND_STRG_SUCCESS, st1\<lparr>AuthReqCount := AuthReqCount st1 + 1\<rparr>)
      else (BND_STRG_UNEXP, st1))"

definition s8_max :: "s8 \<Rightarrow> s8 \<Rightarrow> s8" where
  "s8_max a b = (if sint b < sint a then a else b)"

text \<open>The loop over \<open>rssi[1]\<close> and \<open>rssi[2]\<close>; a reading of 0 is skipped, except the first.\<close>

fun max_rssi :: "s8 \<times> s8 \<times> s8 \<times> s8 \<Rightarrow> s8" where
  "max_rssi (r0, r1, r2, r3) =
     (let m1 = (if r1 \<noteq> 0 then s8_max r0 r1 else r0)
      in if r2 \<noteq> 0 then s8_max m1 r2 else m1)"

text \<open>What a request on a known band does to the entry of its sender.\<close>

definition conn_req_entry :: "cli_table \<Rightarrow> u8 \<Rightarrow> u8 \<Rightarrow> s8 \<Rightarrow> u8 \<Rightarrow> cli_entry \<Rightarrow> cli_entry" where
  "conn_req_entry table band FrameT MaxRssi ht entry =
     (let is2G = (band = BAND_2G);
        st = (if is2G then statistics_2G entry else statistics_5G entry);
        st1 = snd (bndstrg_update_entry_statistics st MaxRssi FrameT);
        flags1 = Control_Flags entry OR (if is2G then fSUPPORT_2G else fSUPPORT_5G);
        flags2 = (if Rssi st1 \<noteq> 0
          then if sint (Rssi st1) < sint (RssiLow table)
            then flags1 OR (if is2G then fLOW_RSSI_2G else fLOW_RSSI_5G)
            else flags1 AND (if is2G then NOT fLOW_RSSI_2G else NOT fLOW_RSSI_5G)
          else flags1);
        flags3 = (if ht = 0 \<and> FrameT = APMT2_PEER_PROBE_REQ
          then flags2 OR (if is2G then fNOT_SUPPORT_HT_2G else fNOT_SUPPORT_HT_5G)
          else flags2);
        entry1 = entry\<lparr>Control_Flags := flags3\<rparr>
      in if is2G then entry1\<lparr>statistics_2G := st1\<rparr> else entry1\<lparr>statistics_5G := st1\<rparr>)"

text \<open>
  For a band that is neither of the two, \<open>statistics\<close> stays NULL and is dereferenced.
\<close>

definition bndstrg_check_conn_req ::
  "timespec \<Rightarrow> cli_table \<Rightarrow> u8 \<Rightarrow> mac \<Rightarrow> u8 \<Rightarrow> s8 \<times> s8 \<times> s8 \<times> s8 \<Rightarrow> u8 \<Rightarrow>
   (bndstrg_return_code \<times> cli_table) res" where
  "bndstrg_check_conn_req now table band pSrcAddr FrameT rssi ht =
     (if \<not> bInitialized table \<or> \<not> bEnabled table then Inr (BND_STRG_NOT_INITIALIZED, table)
      else res_bind (bndstrg_table_lookup table pSrcAddr) (\<lambda>r.
        res_bind (case r of Some i \<Rightarrow> Inr (BND_STRG_SUCCESS, Some i, table)
                  | None \<Rightarrow> bndstrg_insert_entry now table pSrcAddr) (\<lambda>(ret_val, entry, table1).
          case entry of
            None \<Rightarrow> Inr (ret_val, table1)
          | Some i \<Rightarrow>
              if band = BAND_2G \<or> band = BAND_5G
              then Inr (ret_val,
                upd_entry i (conn_req_entry table1 band FrameT (max_rssi rssi) ht) table1)
              else Inl Null_Deref)))"

section \<open>Steering decisions\<close>

definition bndstrg_get_entry_elapsed_time :: "timespec \<Rightarrow> cli_entry \<Rightarrow> u32" where
  "bndstrg_get_entry_elapsed_time now entry =
     (if tv_sec (tp entry) \<noteq> 0
      then word_of_int ((tv_sec now - tv_sec (tp entry)) * 1000 +
             c_div (tv_nsec now - tv_nsec (tp entry)) 1000000)
      else 0)"

definition IS_BND_STRG_DUAL_BAND_CLIENT :: "u32 \<Rightarrow> bool" where
  "IS_BND_STRG_DUAL_BAND_CLIENT flags \<longleftrightarrow> flag_set flags fSUPPORT_2G \<and> flag_set flags fSUPPORT_5G"

definition cnd_rssi_diff :: "cli_table \<Rightarrow> cli_entry \<Rightarrow> bool" where
  "cnd_rssi_diff table entry \<longleftrightarrow>
     flag_set (ConditionCheck table) fCND_RSSI_DIFF \<and>
     flag_set (Rssi (statistics_2G entry)) (Rssi (statistics_5G entry)) \<and>
     sint (RssiDiff table) \<le> sint (Rssi (statistics_2G entry) - Rssi (statistics_5G entry))"

definition cnd_2g_persist :: "cli_table \<Rightarrow> cli_entry \<Rightarrow> bool" where
  "cnd_2g_persist table entry \<longleftrightarrow>
     flag_set (ConditionCheck table) fCND_2G_PERSIST \<and>
     HoldTime table \<le> elapsed_time entry \<and>
     AuthReqCount (statistics_5G entry) = 0 \<and> AuthReqCount (statistics_2G entry) \<noteq> 0"

definition cnd_no_ht :: "cli_table \<Rightarrow> cli_entry \<Rightarrow> bool" where
  "cnd_no_ht table entry \<longleftrightarrow>
     flag_set (ConditionCheck table) fCND_HT_SUPPORT \<and>
     flag_set (Control_Flags entry) fNOT_SUPPORT_HT_5G"

text \<open>The static function \<open>_bndstrg_allow_sta_conn_2g\<close>.\<close>

definition allow_sta_conn_2g_check :: "cli_table \<Rightarrow> cli_entry \<Rightarrow> bool" where
  "allow_sta_conn_2g_check table entry \<longleftrightarrow>
     IS_BND_STRG_DUAL_BAND_CLIENT (Control_Flags entry) \<and>
       (cnd_rssi_diff table entry \<or> cnd_2g_persist table entry \<or>
        (flag_set (ConditionCheck table) fCND_5G_RSSI \<and>
         flag_set (Control_Flags entry) fLOW_RSSI_5G \<and>
         \<not> flag_set (Control_Flags entry) fALLOW_TO_CONNET_5G) \<or>
        cnd_no_ht table entry) \<or>
     flag_set (Control_Flags entry) fIS_2G_ONLY"

text \<open>
  The static function \<open>_bndstrg_allow_sta_conn_5g\<close>. On one of its branches it withdraws the
  permission for 2.4 GHz, so it returns the entry as well.
\<close>

definition allow_sta_conn_5g_check :: "cli_table \<Rightarrow> cli_entry \<Rightarrow> bool \<times> cli_entry" where
  "allow_sta_conn_5g_check table entry =
     (if \<not> flag_set (Control_Flags entry) fSUPPORT_5G then (False, entry)
      else if IS_BND_STRG_DUAL_BAND_CLIENT (Control_Flags entry) then
        if cnd_rssi_diff table entry then (False, entry)
        else if cnd_2g_persist table entry then (False, entry)
        else if cnd_no_ht table entry then (False, entry)
        else if flag_set (ConditionCheck table) fCND_5G_RSSI \<and> Rssi (statistics_5G entry) \<noteq> 0 then
          if sint (RssiLow table) < sint (Rssi (statistics_5G entry))
          then (True, entry\<lparr>Control_Flags := Control_Flags entry AND NOT fALLOW_TO_CONNET_2G\<rparr>)
          else (False, entry)
        else if Rssi (statistics_5G entry) = 0 then (False, entry)
        else (True, entry)
      else (True, entry))"

section \<open>Requests to the driver\<close>

text \<open>
  The fields of the request that \<open>driver_wext.c\<close> fills in: interface, action, address and position
  of the client and, for an update, its flags and age.
\<close>

datatype drv_request =
    Req_Cli "byte list" u8 mac u8 "(u32 \<times> u32) option"
  | Req_Query "byte list"
  | Req_OnOff "byte list" u8

definition cstr :: "byte list \<Rightarrow> byte list" where
  "cstr bs = takeWhile (\<lambda>b. b \<noteq> 0) bs"

abbreviation IFNAME_2G :: "byte list" where "IFNAME_2G \<equiv> [114, 97, 48]"
abbreviation IFNAME_5G :: "byte list" where "IFNAME_5G \<equiv> [114, 97, 105, 48]"

definition driver_wext_accessible_cli :: "byte list \<Rightarrow> cli_entry \<Rightarrow> u8 \<Rightarrow> drv_request" where
  "driver_wext_accessible_cli ifname entry action =
     Req_Cli (cstr ifname) action (Addr entry) (TableIndex entry)
       (if action = CLI_UPDATE then Some (Control_Flags entry, elapsed_time entry) else None)"

definition driver_wext_inf_status_query :: "byte list \<Rightarrow> drv_request" where
  "driver_wext_inf_status_query ifname = Req_Query (cstr ifname)"

definition driver_wext_bndstrg_onoff :: "byte list \<Rightarrow> u8 \<Rightarrow> drv_request" where
  "driver_wext_bndstrg_onoff ifname onoff = Req_OnOff (cstr ifname) onoff"

section \<open>The periodic task\<close>

definition ifname_2g :: "cli_table \<Rightarrow> byte list" where
  "ifname_2g table = (if dbdc_mode table then uc2GIfName table else IFNAME_2G)"

definition ifname_5g :: "cli_table \<Rightarrow> byte list" where
  "ifname_5g table = (if dbdc_mode table then uc5GIfName table else IFNAME_5G)"

text \<open>The steps of \<open>bndstrg_periodic_exec\<close> for one valid entry that has not reached its age.\<close>

definition mark_2g_only :: "cli_table \<Rightarrow> cli_entry \<Rightarrow> cli_entry" where
  "mark_2g_only table entry =
     (if CheckTime_5G table \<le> elapsed_time entry \<and>
         \<not> flag_set (Control_Flags entry) fSUPPORT_5G \<and>
         \<not> flag_set (Control_Flags entry) fIS_2G_ONLY
      then entry\<lparr>Control_Flags := Control_Flags entry OR fIS_2G_ONLY\<rparr> else entry)"

definition steer_2g :: "cli_table \<Rightarrow> cli_entry \<Rightarrow> cli_entry \<times> drv_request list" where
  "steer_2g table entry =
     (if \<not> flag_set (Control_Flags entry) fALLOW_TO_CONNET_2G \<and> allow_sta_conn_2g_check table entry
      then let entry1 = entry\<lparr>Control_Flags := Control_Flags entry OR fALLOW_TO_CONNET_2G\<rparr>
        in (entry1, driver_wext_accessible_cli (ifname_2g table) entry1 CLI_ADD #
             (if dbdc_mode table
              then [driver_wext_accessible_cli (ifname_2g table) entry1 CLI_UPDATE] else []))
      else (entry, []))"

definition steer_5g :: "cli_table \<Rightarrow> cli_entry \<Rightarrow> cli_entry \<times> drv_request list" where
  "steer_5g table entry =
     (if flag_set (Control_Flags entry) fIS_2G_ONLY then (entry, [])
      else case allow_sta_conn_5g_check table entry of (allowed, entry1) \<Rightarrow>
        if allowed
        then let entry2 = entry1\<lparr>Control_Flags := Control_Flags entry1 OR fALLOW_TO_CONNET_5G\<rparr>
          in (entry2, driver_wext_accessible_cli (ifname_5g table) entry2 CLI_ADD #
               (if dbdc_mode table
                then [driver_wext_accessible_cli (ifname_5g table) entry2 CLI_UPDATE] else []))
        else let entry2 = entry1\<lparr>Control_Flags := Control_Flags entry1 AND NOT fALLOW_TO_CONNET_5G\<rparr>
          in (entry2, [driver_wext_accessible_cli (ifname_5g table) entry2
               (if dbdc_mode table then CLI_UPDATE else CLI_DEL)]))"

definition periodic_entry :: "timespec \<Rightarrow> cli_table \<Rightarrow> cli_entry \<Rightarrow> cli_entry \<times> drv_request list" where
  "periodic_entry now table entry =
     (let elapsed = bndstrg_get_entry_elapsed_time now entry in
      if AgeTime table \<le> elapsed
      then (entry, [driver_wext_accessible_cli (ifname_2g table) entry CLI_AGING_REQ,
                    driver_wext_accessible_cli (ifname_5g table) entry CLI_AGING_REQ])
      else
        (case steer_2g table (mark_2g_only table (entry\<lparr>elapsed_time := elapsed\<rparr>)) of (entry1, rs1) \<Rightarrow>
         case steer_5g table entry1 of (entry2, rs2) \<Rightarrow> (entry2, rs1 @ rs2)))"

text \<open>The loop over the table; \<open>clock i\<close> is the reading of the clock for entry \<open>i\<close>.\<close>

fun periodic_loop ::
  "(nat \<Rightarrow> timespec) \<Rightarrow> nat list \<Rightarrow> cli_table \<Rightarrow> cli_table \<times> drv_request list" where
  "periodic_loop clock [] table = (table, [])"
| "periodic_loop clock (i # is) table =
     (if bValid (Entry table ! i)
      then case periodic_entry (clock i) table (Entry table ! i) of (entry, rs) \<Rightarrow>
        case periodic_loop clock is (upd_entry i (\<lambda>_. entry) table) of (table', rs') \<Rightarrow>
          (table', rs @ rs')
      else periodic_loop clock is table)"

text \<open>
  \<open>bndstrg_periodic_exec\<close>: the new table, the requests and whether the task is registered again;
  it is not when the daemon gives up and terminates its event loop.
\<close>

definition bndstrg_periodic_exec ::
  "(nat \<Rightarrow> timespec) \<Rightarrow> cli_table \<Rightarrow> cli_table \<times> drv_request list \<times> bool" where
  "bndstrg_periodic_exec clock table =
     (if \<not> bInitialized table then (table, [], True)
      else if 3 \<le> status_queried_cnt table \<or> 3 \<le> table_enable_cnt table then (table, [], False)
      else if \<not> status_queried table \<or> b2GInfReady table = 0 then
        (table\<lparr>status_queried_cnt := status_queried_cnt table + 1\<rparr>,
         [driver_wext_inf_status_query IFNAME_2G], True)
      else if b5GInfReady table = 0 then
        (table\<lparr>status_queried_cnt := status_queried_cnt table + 1\<rparr>,
         [driver_wext_inf_status_query IFNAME_5G], True)
      else if \<not> bEnabled table then
        (table\<lparr>table_enable_cnt := table_enable_cnt table + 1\<rparr>,
         (if Band table AND BAND_2G \<noteq> BAND_2G
          then [driver_wext_bndstrg_onoff (ifname_2g table) 1] else []) @
         (if Band table AND BAND_5G \<noteq> BAND_5G
          then [driver_wext_bndstrg_onoff (ifname_5g table) 1] else []), True)
      else case periodic_loop clock [0..<BND_STRG_MAX_TABLE_SIZE] table of (table', rs) \<Rightarrow>
        (table', rs, True))"

section \<open>Driver messages\<close>

definition bndstrg_event_on_off :: "cli_table \<Rightarrow> u8 \<Rightarrow> u8 \<Rightarrow> cli_table" where
  "bndstrg_event_on_off table onoff band =
     (let table1 = (if onoff = 0
        then let t0 = table\<lparr>Band := Band table AND NOT band\<rparr>;
               t1 = (if band AND BAND_2G = BAND_2G
                 then t0\<lparr>b2GInfReady := 0, uc2GIfName := replicate 32 0\<rparr> else t0)
             in if band AND BAND_5G = BAND_5G
                then t1\<lparr>b5GInfReady := 0, uc5GIfName := replicate 32 0\<rparr> else t1
        else table\<lparr>Band := Band table OR band\<rparr>)
      in if Band table1 = BAND_2G OR BAND_5G then table1\<lparr>bEnabled := True\<rparr> else table1)"

text \<open>\<open>strcpy\<close> between two arrays of 32 bytes; without a terminator it runs past the source.\<close>

definition strcpy32 :: "byte list \<Rightarrow> byte list \<Rightarrow> byte list res" where
  "strcpy32 dst src =
     (if 0 \<in> set src then Inr (cstr src @ 0 # drop (Suc (length (cstr src))) dst)
      else Inl Out_Of_Bounds)"

text \<open>
  \<open>bndstrg_event_show_entries\<close> prints every entry; on the way it refreshes their age, as the
  debug output is compiled in.
\<close>

definition bndstrg_event_show_entries :: "(nat \<Rightarrow> timespec) \<Rightarrow> cli_table \<Rightarrow> cli_table" where
  "bndstrg_event_show_entries clock table = fold
     (\<lambda>i t. upd_entry i (\<lambda>e. e\<lparr>elapsed_time := bndstrg_get_entry_elapsed_time (clock i) e\<rparr>) t)
     [0..<BND_STRG_MAX_TABLE_SIZE] table"

text \<open>The \<open>CLI_AGING_RSP\<close> branch: the driver of one band, or of both, has dropped the client.\<close>

definition aging_confirm :: "u8 \<Rightarrow> cli_entry \<Rightarrow> cli_entry" where
  "aging_confirm band e =
     (if band = BAND_2G then e\<lparr>AgingConfirmed_2G := True\<rparr>
      else if band = BAND_5G then e\<lparr>AgingConfirmed_5G := True\<rparr>
      else e\<lparr>AgingConfirmed_2G := True, AgingConfirmed_5G := True\<rparr>)"

definition aging_rsp :: "cli_table \<Rightarrow> bndstrg_msg \<Rightarrow> (bndstrg_return_code \<times> cli_table) res" where
  "aging_rsp table msg =
     (if ReturnCode msg \<noteq> 0 then Inr (BND_STRG_SUCCESS, table)
      else if msg_Band msg \<notin> {BAND_2G, BAND_5G, BAND_2G OR BAND_5G}
        then Inr (BND_STRG_INVALID_ARG, table)
      else if BND_STRG_MAX_TABLE_SIZE \<le> unat (TalbeIndex msg) then Inl Out_Of_Bounds
      else let i = unat (TalbeIndex msg);
          table1 = upd_entry i (aging_confirm (msg_Band msg)) table
        in if AgingConfirmed_2G (Entry table1 ! i) \<and> AgingConfirmed_5G (Entry table1 ! i)
           then res_bind (bndstrg_delete_entry table1 (msg_Addr msg) (ucast (TalbeIndex msg)))
             (\<lambda>(_, table2). Inr (BND_STRG_SUCCESS, table2))
           else Inr (BND_STRG_SUCCESS, table1))"

definition bndstrg_event_handle ::
  "(nat \<Rightarrow> timespec) \<Rightarrow> cli_table \<Rightarrow> bndstrg_msg \<Rightarrow> (bndstrg_return_code \<times> cli_table) res" where
  "bndstrg_event_handle clock table msg =
     (if Action msg = CONNECTION_REQ then
        res_bind (bndstrg_check_conn_req (clock 0) table (msg_Band msg) (msg_Addr msg) (FrameType msg)
            (msg_Rssi msg) (bAllowStaConnectInHt msg))
          (\<lambda>(_, table'). Inr (BND_STRG_SUCCESS, table'))
      else if Action msg = INF_STATUS_RSP_2G then
        res_bind (strcpy32 (uc2GIfName table) (msg_uc2GIfName msg)) (\<lambda>n2.
          Inr (BND_STRG_SUCCESS, table\<lparr>status_queried := True, dbdc_mode := False,
            b2GInfReady := msg_b2GInfReady msg, uc2GIfName := n2\<rparr>))
      else if Action msg = INF_STATUS_RSP_5G then
        res_bind (strcpy32 (uc5GIfName table) (msg_uc5GIfName msg)) (\<lambda>n5.
          Inr (BND_STRG_SUCCESS, table\<lparr>status_queried := True, dbdc_mode := False,
            b5GInfReady := msg_b5GInfReady msg, uc5GIfName := n5\<rparr>))
      else if Action msg = INF_STATUS_RSP_DBDC then
        res_bind (strcpy32 (uc2GIfName table) (msg_uc2GIfName msg)) (\<lambda>n2.
        res_bind (strcpy32 (uc5GIfName table) (msg_uc5GIfName msg)) (\<lambda>n5.
          Inr (BND_STRG_SUCCESS, table\<lparr>status_queried := True, dbdc_mode := True,
            b2GInfReady := msg_b2GInfReady msg, uc2GIfName := n2,
            b5GInfReady := msg_b5GInfReady msg, uc5GIfName := n5\<rparr>)))
      else if Action msg = TABLE_INFO then Inr (BND_STRG_SUCCESS, table)
      else if Action msg = ENTRY_LIST then
        Inr (BND_STRG_SUCCESS, bndstrg_event_show_entries clock table)
      else if Action msg = BNDSTRG_ONOFF then
        Inr (BND_STRG_SUCCESS, bndstrg_event_on_off table (OnOff msg) (msg_Band msg))
      else if Action msg = CLI_AGING_RSP then aging_rsp table msg
      else if Action msg = CLI_DEL then
        res_bind (bndstrg_delete_entry table (msg_Addr msg) (ucast (TalbeIndex msg)))
          (\<lambda>(_, table'). Inr (BND_STRG_SUCCESS, table'))
      else if Action msg = SET_RSSI_DIFF then
        Inr (BND_STRG_SUCCESS, table\<lparr>RssiDiff := msg_RssiDiff msg\<rparr>)
      else if Action msg = SET_RSSI_LOW then
        Inr (BND_STRG_SUCCESS, table\<lparr>RssiLow := msg_RssiLow msg\<rparr>)
      else if Action msg = SET_AGE_TIME then
        Inr (BND_STRG_SUCCESS, table\<lparr>AgeTime := msg_Time msg\<rparr>)
      else if Action msg = SET_HOLD_TIME then
        Inr (BND_STRG_SUCCESS, table\<lparr>HoldTime := msg_Time msg\<rparr>)
      else if Action msg = SET_CHECK_TIME then
        Inr (BND_STRG_SUCCESS, table\<lparr>CheckTime_5G := msg_Time msg\<rparr>)
      else if Action msg = SET_CHEK_CONDITIONS then
        Inr (BND_STRG_SUCCESS, table\<lparr>ConditionCheck := msg_ConditionCheck msg\<rparr>)
      else if Action msg = SET_MNT_ADDR then
        Inr (BND_STRG_SUCCESS, table\<lparr>MonitorAddr := msg_Addr msg\<rparr>)
      else Inr (BND_STRG_SUCCESS, table))"

text \<open>
  The requests of \<open>bndstrg_run\<close> after its event loop has ended.
\<close>

definition bndstrg_run_exit :: "cli_table \<Rightarrow> drv_request list" where
  "bndstrg_run_exit table =
     (if dbdc_mode table then
        (if Band table AND BAND_2G = BAND_2G
         then [driver_wext_bndstrg_onoff (uc2GIfName table) 0] else []) @
        (if Band table AND BAND_5G \<noteq> BAND_5G
         then [driver_wext_bndstrg_onoff (uc5GIfName table) 0] else [])
      else
        (if Band table AND BAND_2G \<noteq> BAND_2G
         then [driver_wext_bndstrg_onoff IFNAME_2G 0] else []) @
        (if Band table AND BAND_5G \<noteq> BAND_5G
         then [driver_wext_bndstrg_onoff IFNAME_5G 0] else []))"

section \<open>The invariant is kept\<close>

lemma same_ids_conn_req_entry:
  "same_ids table (upd_entry i (conn_req_entry table' band ft r ht) table)"
  by (rule same_ids_upd_entry) (simp add: conn_req_entry_def Let_def)

lemma ids_mark_2g_only [simp]: "ids (mark_2g_only table e) = ids e"
  by (simp add: mark_2g_only_def)

lemma ids_steer_2g [simp]: "ids (fst (steer_2g table e)) = ids e"
  by (simp add: steer_2g_def Let_def)

lemma ids_allow_5g [simp]: "ids (snd (allow_sta_conn_5g_check table e)) = ids e"
  by (simp add: allow_sta_conn_5g_check_def)

lemma ids_steer_5g [simp]: "ids (fst (steer_5g table e)) = ids e"
  by (simp add: steer_5g_def Let_def case_prod_beta)

lemma ids_periodic_entry [simp]: "ids (fst (periodic_entry now table e)) = ids e"
  by (simp add: periodic_entry_def Let_def case_prod_beta)

lemma periodic_loop_same_ids: "same_ids table (fst (periodic_loop clock is table))"
proof (induction "is" arbitrary: table)
  case Nil
  then show ?case by simp
next
  case (Cons i "is")
  let ?t = "upd_entry i (\<lambda>_. fst (periodic_entry (clock i) table (Entry table ! i))) table"
  have "same_ids table ?t" by (rule same_ids_upd_entry) simp
  moreover have "same_ids ?t (fst (periodic_loop clock is ?t))" by (rule Cons.IH)
  ultimately have "same_ids table (fst (periodic_loop clock is ?t))" by (rule same_ids_trans)
  with Cons.IH [of table] show ?case by (simp add: case_prod_beta)
qed

lemma periodic_exec_same_ids: "same_ids table (fst (bndstrg_periodic_exec clock table))"
  by (simp add: bndstrg_periodic_exec_def case_prod_beta periodic_loop_same_ids)

lemma show_entries_same_ids: "same_ids table (bndstrg_event_show_entries clock table)"
proof -
  have "same_ids table (fold (\<lambda>i t. upd_entry i
      (\<lambda>e. e\<lparr>elapsed_time := bndstrg_get_entry_elapsed_time (clock i) e\<rparr>) t) is table)" for "is"
  proof (induction "is" arbitrary: table)
    case (Cons i "is")
    have "same_ids table (upd_entry i
        (\<lambda>e. e\<lparr>elapsed_time := bndstrg_get_entry_elapsed_time (clock i) e\<rparr>) table)"
      by (rule same_ids_upd_entry) simp
    with Cons show ?case by (auto intro: same_ids_trans)
  qed simp
  then show ?thesis unfolding bndstrg_event_show_entries_def .
qed

lemma on_off_same_ids: "same_ids table (bndstrg_event_on_off table onoff band)"
  by (simp add: bndstrg_event_on_off_def same_ids_def Let_def)

text \<open>Removal by position, as the driver asks for it, when position and address agree.\<close>

definition agrees :: "cli_table \<Rightarrow> mac \<Rightarrow> nat \<Rightarrow> bool" where
  "agrees table a i \<longleftrightarrow> bValid (Entry table ! i) \<longrightarrow> Addr (Entry table ! i) = a"

lemma delete_entry_agrees:
  assumes inv: "table_inv table"
    and ag: "BND_STRG_MAX_TABLE_SIZE \<le> unat Index \<or> agrees table a (unat Index)"
  obtains r table' where "bndstrg_delete_entry table a Index = Inr (r, table')" and "table_inv table'"
    and "client_map table' = (if unat Index < BND_STRG_MAX_TABLE_SIZE \<and> \<not> bValid (Entry table ! unat Index)
      then client_map table else (client_map table)(a := None))"
proof (cases "of_nat BND_STRG_MAX_TABLE_SIZE \<le> Index")
  case True
  then have big: "BND_STRG_MAX_TABLE_SIZE \<le> unat Index" by (simp add: word_le_nat_alt)
  show thesis
  proof (cases "client_map table a")
    case None
    with delete_entry_absent [OF inv None True] inv big that show thesis by (simp add: fun_upd_idem)
  next
    case (Some i)
    obtain table' where "bndstrg_delete_entry table a Index = Inr (BND_STRG_SUCCESS, table')"
        "table_inv table'" "client_map table' = (client_map table)(a := None)"
      using delete_entry_correct [OF inv Some, of Index] True by blast
    with big that show thesis by simp
  qed
next
  case False
  then have small: "unat Index < BND_STRG_MAX_TABLE_SIZE" by (simp add: word_le_nat_alt)
  show thesis
  proof (cases "bValid (Entry table ! unat Index)")
    case valid: True
    have inj: "inj_on (\<lambda>i. Addr (Entry table ! i)) (valid_idx table)"
      using inv by (simp add: table_inv_def data_ok_def)
    have "client_map table a = Some (unat Index)"
      using valid ag small client_map_Some [OF inj] by (auto simp: agrees_def valid_idx_def)
    then obtain table' where "bndstrg_delete_entry table a Index = Inr (BND_STRG_SUCCESS, table')"
        "table_inv table'" "client_map table' = (client_map table)(a := None)"
      using delete_entry_correct [OF inv, of a "unat Index" Index] by auto
    with valid that show thesis by simp
  next
    case invalid: False
    then have "bndstrg_delete_entry table a Index = Inr (BND_STRG_SUCCESS, table)"
      using False by (simp add: bndstrg_delete_entry_def delete_target_def)
    with invalid small inv that show thesis by simp
  qed
qed

lemma check_conn_req_refines:
  assumes inv: "table_inv table" and on: "bInitialized table" "bEnabled table"
    and band: "band = BAND_2G \<or> band = BAND_5G"
  obtains ret table' table1 where
      "bndstrg_check_conn_req now table band a ft rssi ht = Inr (ret, table')"
    and "find_or_add bndstrg_table_lookup (insert_client now) table a = Inr table1"
    and "same_ids table1 table'"
proof (cases "client_map table a")
  case (Some i)
  let ?t = "upd_entry i (conn_req_entry table band ft (max_rssi rssi) ht) table"
  from Some on band lookup_client_map [OF inv, of a]
  have "bndstrg_check_conn_req now table band a ft rssi ht = Inr (BND_STRG_SUCCESS, ?t)"
    by (simp add: bndstrg_check_conn_req_def)
  moreover have "find_or_add bndstrg_table_lookup (insert_client now) table a = Inr table"
    using inv Some by (rule clients.find_or_add_present)
  ultimately show thesis using that same_ids_conn_req_entry by blast
next
  case None
  note lk = lookup_client_map [OF inv, of a]
  show thesis
  proof (cases "Size table < of_nat BND_STRG_MAX_TABLE_SIZE")
    case True
    obtain i table1 where ins: "bndstrg_insert_entry now table a = Inr (BND_STRG_SUCCESS, Some i, table1)"
      using insert_entry_correct [OF inv None True] by metis
    let ?t = "upd_entry i (conn_req_entry table1 band ft (max_rssi rssi) ht) table1"
    have "bndstrg_check_conn_req now table band a ft rssi ht = Inr (BND_STRG_SUCCESS, ?t)"
      using None on band lk ins by (simp add: bndstrg_check_conn_req_def)
    moreover have "find_or_add bndstrg_table_lookup (insert_client now) table a = Inr table1"
      using None lk ins by (simp add: find_or_add_def insert_client_def)
    ultimately show thesis using that same_ids_conn_req_entry by blast
  next
    case False
    then have "bndstrg_insert_entry now table a = Inr (BND_STRG_TABLE_FULL, None, table)"
      by (simp add: bndstrg_insert_entry_def not_less)
    with None on lk that [of BND_STRG_TABLE_FULL table table] show thesis
      by (simp add: bndstrg_check_conn_req_def find_or_add_def insert_client_def)
  qed
qed

section \<open>The daemon\<close>

text \<open>
  What the daemon relies on in a message of its driver: a connection request names one of the two
  bands, an aging response or a removal names a position in the table at which the client with
  that address, or nobody, is registered, and interface names are terminated.
\<close>

definition msg_ok :: "cli_table \<Rightarrow> bndstrg_msg \<Rightarrow> bool" where
  "msg_ok table msg \<longleftrightarrow>
     (Action msg = CONNECTION_REQ \<longrightarrow> msg_Band msg = BAND_2G \<or> msg_Band msg = BAND_5G) \<and>
     (Action msg = CLI_DEL \<longrightarrow> BND_STRG_MAX_TABLE_SIZE \<le> unat (TalbeIndex msg) \<or>
        agrees table (msg_Addr msg) (unat (TalbeIndex msg))) \<and>
     (Action msg = CLI_AGING_RSP \<longrightarrow> unat (TalbeIndex msg) < BND_STRG_MAX_TABLE_SIZE \<and>
        agrees table (msg_Addr msg) (unat (TalbeIndex msg))) \<and>
     (Action msg = INF_STATUS_RSP_2G \<or> Action msg = INF_STATUS_RSP_DBDC \<longrightarrow>
        0 \<in> set (msg_uc2GIfName msg)) \<and>
     (Action msg = INF_STATUS_RSP_5G \<or> Action msg = INF_STATUS_RSP_DBDC \<longrightarrow>
        0 \<in> set (msg_uc5GIfName msg))"

inductive daemon_reach :: "cli_table \<Rightarrow> bool" where
  start: "daemon_reach (snd (bndstrg_table_init zero_table))"
| message: "daemon_reach table \<Longrightarrow> msg_ok table msg \<Longrightarrow>
    bndstrg_event_handle clock table msg = Inr (r, table') \<Longrightarrow> daemon_reach table'"
| timer: "daemon_reach table \<Longrightarrow> bndstrg_periodic_exec clock table = (table', rs, True) \<Longrightarrow>
    daemon_reach table'"

definition daemon_inv :: "cli_table \<Rightarrow> bool" where
  "daemon_inv table \<longleftrightarrow> table_inv table \<and> bInitialized table \<and>
     status_queried_cnt table \<le> 3 \<and> table_enable_cnt table \<le> 3"

lemma unat_ucast_u8 [simp]: "unat (ucast (x :: u8) :: u32) = unat x"
  by transfer (simp add: take_bit_take_bit)

lemma same_ids_aging_confirm: "same_ids table (upd_entry i (aging_confirm band) table)"
  by (rule same_ids_upd_entry) (simp add: aging_confirm_def)

lemma aging_rsp_cases:
  fixes msg table
  defines "t \<equiv> upd_entry (unat (TalbeIndex msg)) (aging_confirm (msg_Band msg)) table"
  obtains "aging_rsp table msg = Inr (BND_STRG_SUCCESS, table)"
    | "aging_rsp table msg = Inr (BND_STRG_INVALID_ARG, table)"
    | "aging_rsp table msg = Inl Out_Of_Bounds" and "BND_STRG_MAX_TABLE_SIZE \<le> unat (TalbeIndex msg)"
    | "aging_rsp table msg = Inr (BND_STRG_SUCCESS, t)"
    | "aging_rsp table msg = res_bind (bndstrg_delete_entry t (msg_Addr msg) (ucast (TalbeIndex msg)))
         (\<lambda>(_, table2). Inr (BND_STRG_SUCCESS, table2))"
  unfolding t_def aging_rsp_def Let_def by presburger

lemma aging_rsp_inv:
  assumes inv: "table_inv table" and i: "unat (TalbeIndex msg) < BND_STRG_MAX_TABLE_SIZE"
    and ag: "agrees table (msg_Addr msg) (unat (TalbeIndex msg))"
  obtains r table' where "aging_rsp table msg = Inr (r, table')" and "table_inv table'"
proof -
  let ?i = "unat (TalbeIndex msg)"
  define t where "t = upd_entry ?i (aging_confirm (msg_Band msg)) table"
  have same: "same_ids table t" unfolding t_def by (rule same_ids_aging_confirm)
  then have it: "table_inv t" using same_ids_cong inv by simp
  have "ids (Entry t ! ?i) = ids (Entry table ! ?i)" using same by (simp add: same_ids_def)
  then have "agrees t (msg_Addr msg) ?i" using ag by (simp add: agrees_def ids_def)
  then obtain r' t' where "bndstrg_delete_entry t (msg_Addr msg) (ucast (TalbeIndex msg)) = Inr (r', t')"
      "table_inv t'"
    using delete_entry_agrees [OF it, of "ucast (TalbeIndex msg)" "msg_Addr msg"] by (metis unat_ucast_u8)
  then show thesis
    by (cases rule: aging_rsp_cases [where msg = msg and table = table, folded t_def])
      (use that inv it i in simp_all)
qed

lemma strcpy32_ok: "0 \<in> set src \<Longrightarrow> \<exists>n. strcpy32 dst src = Inr n"
  by (simp add: strcpy32_def)

text \<open>Fields outside the entries that no table operation writes.\<close>

definition counters :: "cli_table \<Rightarrow> bool \<times> u8 \<times> u8" where
  "counters table = (bInitialized table, status_queried_cnt table, table_enable_cnt table)"

lemma counters_update [simp]:
  "counters (upd_entry i f table) = counters table"
  "counters (table\<lparr>Hash := h\<rparr>) = counters table"
  "counters (table\<lparr>Size := n\<rparr>) = counters table"
  by (simp_all add: counters_def upd_entry_def)

lemma counters_insert:
  "bndstrg_insert_entry now table a = Inr (r, e, table') \<Longrightarrow> counters table' = counters table"
  by (auto simp: bndstrg_insert_entry_def pick_entry_def hash_append_def
      elim!: res_bind_eq_InrE split: if_splits option.splits prod.splits)

lemma counters_delete:
  "bndstrg_delete_entry table a Index = Inr (r, table') \<Longrightarrow> counters table' = counters table"
  by (auto simp: bndstrg_delete_entry_def hash_unlink_def
      elim!: res_bind_eq_InrE split: if_splits option.splits prod.splits)

lemma counters_check_conn_req:
  "bndstrg_check_conn_req now table band a ft rssi ht = Inr (r, table') \<Longrightarrow>
   counters table' = counters table"
  by (auto simp: bndstrg_check_conn_req_def
      elim!: res_bind_eq_InrE split: if_splits option.splits prod.splits) (erule counters_insert)+

lemma counters_aging_rsp: "aging_rsp table msg = Inr (r, table') \<Longrightarrow> counters table' = counters table"
  by (auto simp: aging_rsp_def Let_def dest!: counters_delete
      elim!: res_bind_eq_InrE split: if_splits prod.splits)

lemma daemon_inv_alt:
  "daemon_inv table \<longleftrightarrow> table_inv table \<and>
     (case counters table of (b, c1, c2) \<Rightarrow> b \<and> c1 \<le> 3 \<and> c2 \<le> 3)"
  by (simp add: daemon_inv_def counters_def)

lemma check_conn_req_inv:
  assumes inv: "table_inv table" and band: "band = BAND_2G \<or> band = BAND_5G"
  obtains ret table' where "bndstrg_check_conn_req now table band a ft rssi ht = Inr (ret, table')"
    and "table_inv table'" and "counters table' = counters table"
    and "dom (client_map table') = (if bInitialized table \<and> bEnabled table
      then spec_step BND_STRG_MAX_TABLE_SIZE (Seen a) (dom (client_map table)) else dom (client_map table))"
proof (cases "bInitialized table \<and> bEnabled table")
  case True
  obtain ret t' t1 where c: "bndstrg_check_conn_req now table band a ft rssi ht = Inr (ret, t')"
      and f: "find_or_add bndstrg_table_lookup (insert_client now) table a = Inr t1"
      and s: "same_ids t1 t'"
    by (rule check_conn_req_refines [OF inv conjunct1 [OF True] conjunct2 [OF True] band])
  have "table_inv t1" and d: "dom (client_map t1) =
      spec_step BND_STRG_MAX_TABLE_SIZE (Seen a) (dom (client_map table))"
    using clients.find_or_add_refines [where now = now and k = a, OF inv] f by auto
  then have "table_inv t'" "client_map t' = client_map t1"
    using same_ids_cong [OF s] by simp_all
  with d True that [OF c _ counters_check_conn_req [OF c]] show thesis by simp
next
  case False
  with inv that show thesis by (simp add: bndstrg_check_conn_req_def)
qed

lemma settings_msg:
  assumes other: "Action msg \<notin> {CONNECTION_REQ, CLI_DEL, CLI_AGING_RSP, ENTRY_LIST, BNDSTRG_ONOFF}"
    and ok: "msg_ok table msg"
  obtains table' where "bndstrg_event_handle clock table msg = Inr (BND_STRG_SUCCESS, table')"
    and "same_ids table table'" and "counters table' = counters table"
proof (cases "Action msg \<in> {INF_STATUS_RSP_2G, INF_STATUS_RSP_5G, INF_STATUS_RSP_DBDC}")
  case True
  have n: "Action msg \<in> {INF_STATUS_RSP_2G, INF_STATUS_RSP_DBDC} \<Longrightarrow>
      strcpy32 (uc2GIfName table) (msg_uc2GIfName msg) =
      Inr (cstr (msg_uc2GIfName msg) @ 0 # drop (Suc (length (cstr (msg_uc2GIfName msg)))) (uc2GIfName table))"
    and m: "Action msg \<in> {INF_STATUS_RSP_5G, INF_STATUS_RSP_DBDC} \<Longrightarrow>
      strcpy32 (uc5GIfName table) (msg_uc5GIfName msg) =
      Inr (cstr (msg_uc5GIfName msg) @ 0 # drop (Suc (length (cstr (msg_uc5GIfName msg)))) (uc5GIfName table))"
    using ok by (auto simp: strcpy32_def msg_ok_def)
  consider "Action msg = INF_STATUS_RSP_2G" | "Action msg = INF_STATUS_RSP_5G"
    | "Action msg = INF_STATUS_RSP_DBDC"
    using True by blast
  then show thesis
    by cases (use that n m in \<open>simp_all add: bndstrg_event_handle_def same_ids_def counters_def\<close>)
next
  case False
  with other show thesis
    by (intro that [of "snd (projr (bndstrg_event_handle clock table msg))"])
      (simp_all add: bndstrg_event_handle_def same_ids_def counters_def)
qed

lemma event_handle_inv:
  assumes inv: "table_inv table" and ok: "msg_ok table msg"
  obtains r table' where "bndstrg_event_handle clock table msg = Inr (r, table')"
    and "table_inv table'" and "counters table' = counters table"
proof -
  consider (conn) "Action msg = CONNECTION_REQ" | (del) "Action msg = CLI_DEL"
    | (aging) "Action msg = CLI_AGING_RSP" | (listing) "Action msg = ENTRY_LIST"
    | (onoff) "Action msg = BNDSTRG_ONOFF"
    | (other) "Action msg \<notin> {CONNECTION_REQ, CLI_DEL, CLI_AGING_RSP, ENTRY_LIST, BNDSTRG_ONOFF}"
    by blast
  then show thesis
  proof cases
    case conn
    then have band: "msg_Band msg = BAND_2G \<or> msg_Band msg = BAND_5G" using ok by (simp add: msg_ok_def)
    obtain ret t' where
        "bndstrg_check_conn_req (clock 0) table (msg_Band msg) (msg_Addr msg) (FrameType msg)
            (msg_Rssi msg) (bAllowStaConnectInHt msg) = Inr (ret, t')"
        "table_inv t'" "counters t' = counters table"
      using check_conn_req_inv [OF inv band] by metis
    with conn that show thesis by (simp add: bndstrg_event_handle_def)
  next
    case del
    then have ag: "BND_STRG_MAX_TABLE_SIZE \<le> unat (ucast (TalbeIndex msg) :: u32) \<or>
        agrees table (msg_Addr msg) (unat (ucast (TalbeIndex msg) :: u32))"
      using ok by (simp add: msg_ok_def)
    obtain r t' where d: "bndstrg_delete_entry table (msg_Addr msg) (ucast (TalbeIndex msg)) = Inr (r, t')"
        "table_inv t'"
      using delete_entry_agrees [OF inv ag] by metis
    with counters_delete [OF d(1)] del that show thesis by (simp add: bndstrg_event_handle_def)
  next
    case aging
    then have ag: "unat (TalbeIndex msg) < BND_STRG_MAX_TABLE_SIZE"
        "agrees table (msg_Addr msg) (unat (TalbeIndex msg))"
      using ok by (simp_all add: msg_ok_def)
    obtain r t' where a: "aging_rsp table msg = Inr (r, t')" "table_inv t'"
      using aging_rsp_inv [OF inv ag] by metis
    with counters_aging_rsp [OF a(1)] aging that show thesis by (simp add: bndstrg_event_handle_def)
  next
    case listing
    have "counters (fold (\<lambda>i t. upd_entry i (g i) t) is table) = counters table" for g "is"
      by (induction "is" arbitrary: table) simp_all
    with listing inv that same_ids_cong(1) [OF show_entries_same_ids [of table clock]] show thesis
      by (simp add: bndstrg_event_handle_def bndstrg_event_show_entries_def)
  next
    case onoff
    have "counters (bndstrg_event_on_off table (OnOff msg) (msg_Band msg)) = counters table"
      by (simp add: bndstrg_event_on_off_def counters_def Let_def)
    with onoff inv that same_ids_cong(1) [OF on_off_same_ids [of table]] show thesis
      by (simp add: bndstrg_event_handle_def)
  next
    case other
    with settings_msg [OF _ ok] obtain t' where
        "bndstrg_event_handle clock table msg = Inr (BND_STRG_SUCCESS, t')" "same_ids table t'"
        "counters t' = counters table"
      by metis
    with inv same_ids_cong that show thesis by simp
  qed
qed

lemma counters_periodic_loop: "counters (fst (periodic_loop clock is table)) = counters table"
  by (induction "is" arbitrary: table) (simp_all add: case_prod_beta)

lemma periodic_exec_inv:
  assumes "daemon_inv table" and "bndstrg_periodic_exec clock table = (table', rs, True)"
  shows "daemon_inv table'"
proof -
  have inc: "c + 1 \<le> 3" if "\<not> 3 \<le> c" for c :: u8
    using that by (simp add: word_le_nat_alt unat_word_ariths)
  have t: "table' = fst (bndstrg_periodic_exec clock table)" using assms(2) by simp
  have "table_inv table'"
    unfolding t using same_ids_cong(1) [OF periodic_exec_same_ids] assms(1) by (simp add: daemon_inv_def)
  moreover have "case counters table' of (b, c1, c2) \<Rightarrow> b \<and> c1 \<le> 3 \<and> c2 \<le> 3"
    using assms counters_periodic_loop [of clock "[0..<BND_STRG_MAX_TABLE_SIZE]" table] inc
    unfolding t bndstrg_periodic_exec_def case_prod_beta
    by (simp add: daemon_inv_alt split: if_splits) (simp_all add: counters_def)
  ultimately show ?thesis by (simp add: daemon_inv_alt)
qed

lemma daemon_reach_inv: "daemon_reach table \<Longrightarrow> daemon_inv table"
proof (induction rule: daemon_reach.induct)
  case start
  then show ?case
    using table_inv_init(1) by (simp add: daemon_inv_def) (simp add: bndstrg_table_init_def zero_table_def)
next
  case (message table msg clock r table')
  then have "table_inv table" by (simp add: daemon_inv_def)
  then obtain q u where "bndstrg_event_handle clock table msg = Inr (q, u)" "table_inv u"
      "counters u = counters table"
    using event_handle_inv [OF _ message.hyps(2)] by metis
  with message show ?case by (simp add: daemon_inv_alt)
next
  case (timer table clock table' rs)
  then show ?case using periodic_exec_inv by blast
qed

section \<open>Runs of messages and of the timer\<close>

fun run_msgs :: "(nat \<Rightarrow> timespec) \<Rightarrow> bndstrg_msg list \<Rightarrow> cli_table \<Rightarrow> cli_table res" where
  "run_msgs clock [] table = Inr table"
| "run_msgs clock (m # ms) table =
     res_bind (bndstrg_event_handle clock table m) (\<lambda>(_, table'). run_msgs clock ms table')"

text \<open>The periodic task alone, \<open>n\<close> times; \<open>None\<close> when the daemon has given up.\<close>

fun silent_ticks :: "(nat \<Rightarrow> timespec) \<Rightarrow> nat \<Rightarrow> cli_table \<Rightarrow> cli_table option" where
  "silent_ticks clock 0 table = Some table"
| "silent_ticks clock (Suc n) table = (case bndstrg_periodic_exec clock table of
     (table', rs, again) \<Rightarrow> if again then silent_ticks clock n table' else None)"

text \<open>A message with nothing filled in.\<close>

definition zero_msg :: bndstrg_msg where
  "zero_msg = \<lparr>Action = 0, ReturnCode = 0, TalbeIndex = 0, OnOff = 0, msg_Band = 0,
     msg_b2GInfReady = 0, msg_uc2GIfName = replicate 32 0, msg_b5GInfReady = 0,
     msg_uc5GIfName = replicate 32 0, msg_Rssi = (0, 0, 0, 0), msg_RssiDiff = 0, msg_RssiLow = 0,
     FrameType = 0, msg_Time = 0, msg_ConditionCheck = 0, msg_Addr = zero_mac,
     bAllowStaConnectInHt = 0\<rparr>"

definition conn_msg :: "mac \<Rightarrow> bndstrg_msg" where
  "conn_msg a = zero_msg\<lparr>Action := CONNECTION_REQ, msg_Band := BAND_5G, msg_Addr := a, msg_Rssi := (-50, 0, 0, 0)\<rparr>"

definition del_msg :: "u8 \<Rightarrow> mac \<Rightarrow> bndstrg_msg" where
  "del_msg i a = zero_msg\<lparr>Action := CLI_DEL, TalbeIndex := i, msg_Addr := a\<rparr>"

definition on_msg :: bndstrg_msg where
  "on_msg = zero_msg\<lparr>Action := BNDSTRG_ONOFF, OnOff := 1, msg_Band := BAND_2G OR BAND_5G\<rparr>"

end
