(* ===== verification/Bndstrg_Termination.thy ===== *)
theory Bndstrg_Termination
  imports Bndstrg
begin

text \<open>
  The loops over the hash buckets of the band steering daemon end for every sequence of driver
  messages, also for messages that name a position and an address that do not belong together.
  Such messages can leave a bucket pointing at an entry that is not in use or that belongs to
  another bucket, so the invariant of the client table does not hold any more; what remains is
  that the links have no cycle, because an entry is only appended to a bucket when the search
  before it has run through that bucket to its end over valid entries.
\<close>

section \<open>The weaker invariant\<close>

definition links_end :: "cli_table \<Rightarrow> bool" where
  "links_end table \<longleftrightarrow>
     length (Entry table) = BND_STRG_MAX_TABLE_SIZE \<and>
     (\<forall>i < BND_STRG_MAX_TABLE_SIZE. in_array BND_STRG_MAX_TABLE_SIZE (next_ptr table i)) \<and>
     (\<forall>h. in_array BND_STRG_MAX_TABLE_SIZE (Hash table h)) \<and>
     (\<forall>i < BND_STRG_MAX_TABLE_SIZE. \<exists>xs. chain (next_ptr table) (Some i) xs)"

definition weak_inv :: "cli_table \<Rightarrow> bool" where
  "weak_inv table \<longleftrightarrow> links_end table \<and> unat (Size table) = card (valid_idx table)"

lemma links_endD:
  assumes "links_end table"
  shows "length (Entry table) = BND_STRG_MAX_TABLE_SIZE"
    and "i < BND_STRG_MAX_TABLE_SIZE \<Longrightarrow> in_array BND_STRG_MAX_TABLE_SIZE (next_ptr table i)"
    and "in_array BND_STRG_MAX_TABLE_SIZE (Hash table h)"
    and "i < BND_STRG_MAX_TABLE_SIZE \<Longrightarrow> \<exists>xs. chain (next_ptr table) (Some i) xs"
  using assms unfolding links_end_def by blast+

lemma links_end_chain:
  assumes le: "links_end table" and p: "in_array BND_STRG_MAX_TABLE_SIZE p"
  obtains xs where "chain (next_ptr table) p xs" and "set xs \<subseteq> {..<BND_STRG_MAX_TABLE_SIZE}"
    and "length xs \<le> BND_STRG_MAX_TABLE_SIZE"
proof (cases p)
  case None
  with that [of "[]"] show thesis by simp
next
  case (Some i)
  then obtain xs where xs: "chain (next_ptr table) p xs" using p links_endD(4) [OF le] by auto
  then have "set xs \<subseteq> {..<BND_STRG_MAX_TABLE_SIZE}"
    using p links_endD(2) [OF le] by (rule chain_in_array)
  with xs that chain_length_bound show thesis by blast
qed

lemma same_ids_weak_inv:
  assumes "same_ids table table'" and "weak_inv table"
  shows "weak_inv table'"
proof -
  have "next_ptr table' = next_ptr table" "valid_idx table' = valid_idx table"
    using assms(1) by (auto simp: same_ids_def ids_def next_ptr_def valid_idx_def)
  with assms show ?thesis by (simp add: weak_inv_def links_end_def same_ids_def)
qed

lemma weak_inv_init: "weak_inv (snd (bndstrg_table_init zero_table))"
proof -
  have nx: "next_ptr zero_table i = None" if "i < BND_STRG_MAX_TABLE_SIZE" for i
    using that by (simp add: next_ptr_def zero_table_def zero_entry_def)
  then have "chain (next_ptr zero_table) (Some i) [i]" if "i < BND_STRG_MAX_TABLE_SIZE" for i
    using that by simp
  moreover have "length (Entry zero_table) = BND_STRG_MAX_TABLE_SIZE" "Hash zero_table = (\<lambda>_. None)"
      "Size zero_table = 0"
    by (simp_all add: zero_table_def)
  ultimately have "weak_inv zero_table"
    unfolding links_end_def weak_inv_def using nx by fastforce
  moreover have "same_ids zero_table (snd (bndstrg_table_init zero_table))"
    by (simp add: bndstrg_table_init_def zero_table_def same_ids_def)
  ultimately show ?thesis by (rule same_ids_weak_inv [rotated])
qed

lemma redirect_links_end:
  assumes le: "links_end table" and i: "i < BND_STRG_MAX_TABLE_SIZE"
    and q: "in_array BND_STRG_MAX_TABLE_SIZE q"
    and zs: "chain ((next_ptr table)(i := q)) q zs"
    and t: "length (Entry t) = BND_STRG_MAX_TABLE_SIZE" "next_ptr t = (next_ptr table)(i := q)"
      "Hash t = Hash table"
  shows "links_end t"
proof -
  have "\<exists>xs. chain (next_ptr t) (Some j) xs" if j: "j < BND_STRG_MAX_TABLE_SIZE" for j
  proof -
    obtain xs where "chain (next_ptr table) (Some j) xs" using links_endD(4) [OF le j] by blast
    then show ?thesis unfolding t(2) using zs by (rule chain_redirect)
  qed
  then show ?thesis unfolding links_end_def using t links_endD(2,3) [OF le] q by auto
qed

lemma rebucket_links_end:
  "links_end table \<Longrightarrow> in_array BND_STRG_MAX_TABLE_SIZE q \<Longrightarrow>
   links_end (table\<lparr>Hash := (Hash table)(h := q)\<rparr>)"
  by (simp add: links_end_def)

section \<open>Insertion after a failed search\<close>

lemma failed_lookup:
  assumes le: "links_end table" and lk: "bndstrg_table_lookup table a = Inr None"
  obtains xs where "chain (next_ptr table) (Hash table (MAC_ADDR_HASH_INDEX a)) xs"
    and "set xs \<subseteq> valid_idx table"
proof -
  obtain xs where xs: "chain (next_ptr table) (Hash table (MAC_ADDR_HASH_INDEX a)) xs"
      "set xs \<subseteq> {..<BND_STRG_MAX_TABLE_SIZE}" "length xs \<le> BND_STRG_MAX_TABLE_SIZE"
    using links_end_chain [OF le links_endD(3) [OF le]] by blast
  from lk have "List.find (\<lambda>i. \<not> bValid (Entry table ! i) \<or> Addr (Entry table ! i) = a) xs = None"
    unfolding bndstrg_table_lookup_def scan_chain [OF xs(1,3)] by simp
  with xs that show thesis by (auto simp: find_None_iff valid_idx_def)
qed

lemma hash_append_links_end:
  assumes le: "links_end t" and i: "i < BND_STRG_MAX_TABLE_SIZE" "next_ptr t i = None"
    and ch: "chain (next_ptr t) (Hash t (MAC_ADDR_HASH_INDEX a)) xs"
    and xs: "i \<notin> set xs" "set xs \<subseteq> {..<BND_STRG_MAX_TABLE_SIZE}"
  obtains t' where "hash_append a i t = Inr t'" and "relinked t t'" and "links_end t'"
proof (cases "Hash t (MAC_ADDR_HASH_INDEX a)")
  case None
  show thesis
    by (rule that [of "t\<lparr>Hash := (Hash t)(MAC_ADDR_HASH_INDEX a := Some i)\<rparr>"])
      (use None i le in \<open>auto simp: hash_append_def intro!: rebucket_links_end\<close>)
next
  case (Some h)
  with ch have ne: "xs \<noteq> []" by auto
  define l where "l = last xs"
  have l: "l \<in> set xs" "l < BND_STRG_MAX_TABLE_SIZE" "l \<noteq> i"
    using last_in_set [OF ne] xs by (auto simp: l_def)
  let ?t = "upd_entry l (\<lambda>e. e\<lparr>pNext := Some i\<rparr>) t"
  have len: "length (Entry t) = BND_STRG_MAX_TABLE_SIZE" using links_endD(1) [OF le] .
  have "length xs \<le> BND_STRG_MAX_TABLE_SIZE" using ch xs(2) by (rule chain_length_bound)
  from scan_chain [OF ch this, of "\<lambda>j. next_ptr t j = None"] chain_find_last [OF ch ne] Some
  have "hash_append a i t = Inr ?t" by (simp add: hash_append_def l_def)
  moreover have "links_end ?t"
    by (rule redirect_links_end [OF le l(2), of "Some i" "[i]"])
      (use i l len in \<open>auto simp: next_ptr_upd\<close>)
  ultimately show thesis using that by simp
qed

lemma failed_lookup_insert:
  assumes wi: "weak_inv table" and lk: "bndstrg_table_lookup table a = Inr None"
    and room: "Size table < of_nat BND_STRG_MAX_TABLE_SIZE"
  obtains i table' where "bndstrg_insert_entry now table a = Inr (BND_STRG_SUCCESS, Some i, table')"
    and "weak_inv table'"
proof -
  have le: "links_end table" and Sz: "unat (Size table) = card (valid_idx table)"
    using wi by (simp_all add: weak_inv_def)
  have len: "length (Entry table) = BND_STRG_MAX_TABLE_SIZE" using links_endD(1) [OF le] .
  obtain i where i: "first_vacancy table = Some i" "i < BND_STRG_MAX_TABLE_SIZE" "i \<notin> valid_idx table"
    using first_vacancy_Some [OF Sz room] by metis
  define t where "t = upd_entry i (\<lambda>_. fresh_entry now a i) table"
  note f = filled_entry [OF len i(2,3) t_def]
  have t: "links_end t"
    by (rule redirect_links_end [OF le i(2), of None "[]"]) (use len f(3) in \<open>auto simp: t_def\<close>)
  obtain xs where xs: "chain (next_ptr table) (Hash table (MAC_ADDR_HASH_INDEX a)) xs"
      "set xs \<subseteq> valid_idx table"
    using failed_lookup [OF le lk] by blast
  have ni: "i \<notin> set xs" using xs(2) i(3) by blast
  have ch: "chain (next_ptr t) (Hash t (MAC_ADDR_HASH_INDEX a)) xs" and nxi: "next_ptr t i = None"
    using xs(1) ni unfolding f(3) by (simp_all add: t_def)
  have "set xs \<subseteq> {..<BND_STRG_MAX_TABLE_SIZE}" using xs(2) by (auto dest: valid_idx_bound)
  then obtain t' where t': "hash_append a i t = Inr t'" "relinked t t'" "links_end t'"
    using hash_append_links_end [OF t i(2) nxi ch ni] by metis
  have "unat (Size table + 1) = Suc (unat (Size table))"
    using room by (simp add: word_less_nat_alt unat_word_ariths)
  then have "weak_inv (t'\<lparr>Size := Size t' + 1\<rparr>)"
    using t'(3) relinked_sets(1) [OF t'(2)] relinked_fields(2) [OF t'(2)] f(1) i(3) Sz
    by (simp add: weak_inv_def links_end_def t_def)
  moreover have "bndstrg_insert_entry now table a = Inr (BND_STRG_SUCCESS, Some i, t'\<lparr>Size := Size t' + 1\<rparr>)"
    using room i(1) t'(1) by (simp add: bndstrg_insert_entry_def pick_entry_def t_def not_le)
  ultimately show thesis by (rule that [rotated])
qed

section \<open>Deletion\<close>

lemma find_pred_returns:
  "chain nx p xs \<Longrightarrow> length xs \<le> n \<Longrightarrow> \<exists>r. find_pred n nx e pre p = Inr r"
proof (induction xs arbitrary: n p pre)
  case (Cons x xs)
  then obtain m where "n = Suc m" by (cases n) auto
  with Cons show ?case by auto
qed simp

text \<open>The predecessor that the search returns points at the entry.\<close>

lemma find_pred_Some:
  "find_pred n nx e pre p = Inr (Some (Some k)) \<Longrightarrow> in_array N p \<Longrightarrow>
   (\<And>j. j < N \<Longrightarrow> in_array N (nx j)) \<Longrightarrow> (\<And>j. pre = Some j \<Longrightarrow> j < N \<and> nx j = p) \<Longrightarrow>
   k < N \<and> nx k = Some e"
proof (induction n nx e pre p rule: find_pred.induct)
  case (3 n nx entry pre i)
  show ?case
  proof (cases "i = entry")
    case True
    with "3.prems"(1) have "pre = Some k" by simp
    with "3.prems"(4) [of k] True show ?thesis by simp
  next
    case False
    with "3.prems"(1) have "find_pred n nx entry (Some i) (nx i) = Inr (Some (Some k))" by simp
    moreover have "i < N" using "3.prems"(2) by simp
    moreover from this have "in_array N (nx i)" by (rule "3.prems"(3))
    ultimately show ?thesis using "3.IH" [OF False] "3.prems"(3) by blast
  qed
qed simp_all

lemma hash_unlink_links_end:
  assumes le: "links_end table" and e: "e < BND_STRG_MAX_TABLE_SIZE"
  obtains t' where "hash_unlink h e table = Inr t'" and "relinked table t'" and "links_end t'"
proof -
  note nb = links_endD(2) [OF le] and hb = links_endD(3) [OF le, of h]
  obtain r where r: "find_pred BND_STRG_MAX_TABLE_SIZE (next_ptr table) e None (Hash table h) = Inr r"
    using links_end_chain [OF le hb] find_pred_returns by metis
  consider "r = None" | "r = Some None" | k where "r = Some (Some k)" by (cases r) auto
  then show thesis
  proof cases
    case 1
    with r le that [of table] show thesis by (simp add: hash_unlink_def relinked_def)
  next
    case 2
    with r le e nb that [of "table\<lparr>Hash := (Hash table)(h := next_ptr table e)\<rparr>"] show thesis
      by (simp add: hash_unlink_def rebucket_links_end)
  next
    case (3 k)
    have k: "k < BND_STRG_MAX_TABLE_SIZE" "next_ptr table k = Some e"
      using find_pred_Some [OF r [unfolded 3] hb nb] by simp_all
    let ?t = "upd_entry k (\<lambda>c. c\<lparr>pNext := next_ptr table e\<rparr>) table"
    obtain zs where zs: "chain (next_ptr table) (Some k) (k # e # zs)"
      using links_endD(4) [OF le k(1)] k(2) by (auto simp: chain_Some)
    then have "k \<notin> set zs" using chain_distinct [OF zs] by auto
    then have "chain ((next_ptr table)(k := next_ptr table e)) (next_ptr table e) zs" using zs by simp
    then have "links_end ?t"
      using nb [OF e] k(1) links_endD(1) [OF le]
      by (intro redirect_links_end [OF le k(1)]) (auto simp: next_ptr_upd)
    with 3 r that [of ?t] show thesis by (simp add: hash_unlink_def)
  qed
qed

lemma delete_target_returns:
  assumes le: "links_end table"
  obtains r where "delete_target table a Index = Inr r" and "in_array BND_STRG_MAX_TABLE_SIZE r"
proof (cases "of_nat BND_STRG_MAX_TABLE_SIZE \<le> Index")
  case True
  obtain xs where xs: "chain (next_ptr table) (Hash table (MAC_ADDR_HASH_INDEX a)) xs"
      "set xs \<subseteq> {..<BND_STRG_MAX_TABLE_SIZE}" "length xs \<le> BND_STRG_MAX_TABLE_SIZE"
    using links_end_chain [OF le links_endD(3) [OF le]] by blast
  let ?r = "List.find (\<lambda>i. Addr (Entry table ! i) = a) xs"
  have "in_array BND_STRG_MAX_TABLE_SIZE ?r"
  proof (cases ?r)
    case (Some i)
    then have "i \<in> set xs" by (auto simp: find_Some_iff)
    with xs(2) Some show ?thesis by auto
  qed simp
  with True that show thesis unfolding delete_target_def scan_chain [OF xs(1,3)] by simp
next
  case False
  with that show thesis by (simp add: delete_target_def word_le_nat_alt)
qed

lemma delete_entry_weak:
  assumes wi: "weak_inv table"
  obtains r table' where "bndstrg_delete_entry table a Index = Inr (r, table')" and "weak_inv table'"
proof -
  have le: "links_end table" and Sz: "unat (Size table) = card (valid_idx table)"
    using wi by (simp_all add: weak_inv_def)
  obtain r where r: "delete_target table a Index = Inr r" "in_array BND_STRG_MAX_TABLE_SIZE r"
    using delete_target_returns [OF le] by blast
  show thesis
  proof (cases "\<exists>i. r = Some i \<and> bValid (Entry table ! i)")
    case False
    with r wi that show thesis by (cases r) (auto simp: bndstrg_delete_entry_def)
  next
    case True
    then obtain i where i: "r = Some i" "i \<in> valid_idx table" "i < BND_STRG_MAX_TABLE_SIZE"
      using r(2) by (auto simp: valid_idx_def)
    obtain t1 where t1: "hash_unlink (MAC_ADDR_HASH_INDEX a) i table = Inr t1" "relinked table t1"
        "links_end t1"
      using hash_unlink_links_end [OF le i(3)] by metis
    note c = cleared_entry [OF links_endD(1) [OF t1(3)] i(3) refl]
    let ?t = "(upd_entry i clear_entry t1)\<lparr>Size := Size t1 - 1\<rparr>"
    have "0 < card (valid_idx table)" using i(2) by (auto simp: card_gt_0_iff)
    then have "unat (Size table - 1) = card (valid_idx table) - 1"
      using Sz by (simp add: unat_sub word_le_nat_alt)
    then have "weak_inv ?t"
      using t1(3) c(1,3) relinked_sets(1) [OF t1(2)] relinked_fields(2) [OF t1(2)] i(2)
      by (simp add: weak_inv_def links_end_def)
    moreover have "bndstrg_delete_entry table a Index = Inr (BND_STRG_SUCCESS, ?t)"
      using r(1) i t1(1) by (simp add: bndstrg_delete_entry_def valid_idx_def)
    ultimately show thesis by (rule that [rotated])
  qed
qed

section \<open>Every message\<close>

lemma check_conn_req_weak:
  assumes wi: "weak_inv table"
  shows "bndstrg_check_conn_req now table band a ft rssi ht \<noteq> Inl No_Return"
    and "bndstrg_check_conn_req now table band a ft rssi ht = Inr (r, table') \<Longrightarrow> weak_inv table'"
proof -
  have le: "links_end table" using wi by (simp add: weak_inv_def)
  obtain xs where "chain (next_ptr table) (Hash table (MAC_ADDR_HASH_INDEX a)) xs"
      "length xs \<le> BND_STRG_MAX_TABLE_SIZE"
    using links_end_chain [OF le links_endD(3) [OF le]] by blast
  then obtain e where e: "bndstrg_table_lookup table a = Inr e"
    using scan_chain unfolding bndstrg_table_lookup_def by blast
  have upd: "weak_inv t \<Longrightarrow> weak_inv (upd_entry i (conn_req_entry t band ft (max_rssi rssi) ht) t)" for t i
    by (rule same_ids_weak_inv [OF same_ids_conn_req_entry])
  have "\<exists>r' i t1. (case e of Some i \<Rightarrow> Inr (BND_STRG_SUCCESS, Some i, table)
      | None \<Rightarrow> bndstrg_insert_entry now table a) = Inr (r', i, t1) \<and> weak_inv t1"
  proof (cases e)
    case None
    show ?thesis
    proof (cases "Size table < of_nat BND_STRG_MAX_TABLE_SIZE")
      case True
      with failed_lookup_insert [OF wi e [unfolded None]] None show ?thesis by (metis option.simps(4))
    next
      case False
      with None wi show ?thesis by (simp add: bndstrg_insert_entry_def not_less)
    qed
  qed (use wi in simp)
  then obtain r' i t1 where ins: "(case e of Some i \<Rightarrow> Inr (BND_STRG_SUCCESS, Some i, table)
      | None \<Rightarrow> bndstrg_insert_entry now table a) = Inr (r', i, t1)" and t1: "weak_inv t1"
    by blast
  show "bndstrg_check_conn_req now table band a ft rssi ht \<noteq> Inl No_Return"
    using e ins by (cases i) (simp_all add: bndstrg_check_conn_req_def)
  show "weak_inv table'" if "bndstrg_check_conn_req now table band a ft rssi ht = Inr (r, table')"
    using that e ins t1 upd wi
    by (cases i) (auto simp: bndstrg_check_conn_req_def split: if_splits)
qed

lemma aging_rsp_weak:
  assumes wi: "weak_inv table"
  shows "aging_rsp table msg \<noteq> Inl No_Return"
    and "aging_rsp table msg = Inr (r, table') \<Longrightarrow> weak_inv table'"
proof -
  define t where "t = upd_entry (unat (TalbeIndex msg)) (aging_confirm (msg_Band msg)) table"
  have "same_ids table t" unfolding t_def by (rule same_ids_aging_confirm)
  then have it: "weak_inv t" using wi by (rule same_ids_weak_inv)
  obtain r' t' where d: "bndstrg_delete_entry t (msg_Addr msg) (ucast (TalbeIndex msg)) = Inr (r', t')"
      "weak_inv t'"
    using delete_entry_weak [OF it] by metis
  have "aging_rsp table msg \<noteq> Inl No_Return \<and> (\<forall>r u. aging_rsp table msg = Inr (r, u) \<longrightarrow> weak_inv u)"
    by (cases rule: aging_rsp_cases [where msg = msg and table = table, folded t_def])
      (use d it wi in simp_all)
  then show "aging_rsp table msg \<noteq> Inl No_Return"
    and "aging_rsp table msg = Inr (r, table') \<Longrightarrow> weak_inv table'" by blast+
qed

lemma names_msg:
  assumes "Action msg \<in> {INF_STATUS_RSP_2G, INF_STATUS_RSP_5G, INF_STATUS_RSP_DBDC}"
  shows "bndstrg_event_handle clock table msg = Inl Out_Of_Bounds \<or>
    (\<exists>t. bndstrg_event_handle clock table msg = Inr (BND_STRG_SUCCESS, t) \<and> same_ids table t)"
proof -
  consider "Action msg = INF_STATUS_RSP_2G" | "Action msg = INF_STATUS_RSP_5G"
    | "Action msg = INF_STATUS_RSP_DBDC"
    using assms by blast
  then show ?thesis
    by cases (simp_all add: bndstrg_event_handle_def strcpy32_def same_ids_def)
qed

lemma event_handle_weak:
  assumes wi: "weak_inv table"
  shows "bndstrg_event_handle clock table msg \<noteq> Inl No_Return"
    and "bndstrg_event_handle clock table msg = Inr (r, table') \<Longrightarrow> weak_inv table'"
proof -
  let ?h = "bndstrg_event_handle clock table msg"
  have "?h \<noteq> Inl No_Return \<and> (\<forall>r t. ?h = Inr (r, t) \<longrightarrow> weak_inv t)"
  proof -
    consider (conn) "Action msg = CONNECTION_REQ" | (del) "Action msg = CLI_DEL"
      | (aging) "Action msg = CLI_AGING_RSP" | (listing) "Action msg = ENTRY_LIST"
      | (onoff) "Action msg = BNDSTRG_ONOFF"
      | (names) "Action msg \<in> {INF_STATUS_RSP_2G, INF_STATUS_RSP_5G, INF_STATUS_RSP_DBDC}"
      | (other) "Action msg \<notin> {CONNECTION_REQ, CLI_DEL, CLI_AGING_RSP, ENTRY_LIST, BNDSTRG_ONOFF,
          INF_STATUS_RSP_2G, INF_STATUS_RSP_5G, INF_STATUS_RSP_DBDC}"
      by blast
    then show ?thesis
    proof cases
      case conn
      let ?c = "bndstrg_check_conn_req (clock 0) table (msg_Band msg) (msg_Addr msg) (FrameType msg)
        (msg_Rssi msg) (bAllowStaConnectInHt msg)"
      have c: "?c \<noteq> Inl No_Return" "\<And>r t. ?c = Inr (r, t) \<Longrightarrow> weak_inv t"
        using check_conn_req_weak [OF wi] by blast+
      from conn have "?h = res_bind ?c (\<lambda>(_, table'). Inr (BND_STRG_SUCCESS, table'))"
        by (simp add: bndstrg_event_handle_def)
      with c show ?thesis by (cases ?c) auto
    next
      case del
      obtain r t' where "bndstrg_delete_entry table (msg_Addr msg) (ucast (TalbeIndex msg)) = Inr (r, t')"
          "weak_inv t'"
        using delete_entry_weak [OF wi] by metis
      with del show ?thesis by (simp add: bndstrg_event_handle_def)
    next
      case aging
      with aging_rsp_weak [OF wi] show ?thesis by (auto simp: bndstrg_event_handle_def)
    next
      case listing
      with same_ids_weak_inv [OF show_entries_same_ids wi] show ?thesis
        by (simp add: bndstrg_event_handle_def)
    next
      case onoff
      with same_ids_weak_inv [OF on_off_same_ids wi] show ?thesis
        by (simp add: bndstrg_event_handle_def)
    next
      case names
      then show ?thesis using names_msg [OF names, of clock table] same_ids_weak_inv [OF _ wi] by force
    next
      case other
      then have "msg_ok table msg" by (simp add: msg_ok_def)
      with other obtain t where "?h = Inr (BND_STRG_SUCCESS, t)" "same_ids table t"
        using settings_msg [of msg table clock] by blast
      with same_ids_weak_inv [OF _ wi] show ?thesis by simp
    qed
  qed
  then show "?h \<noteq> Inl No_Return" and "?h = Inr (r, table') \<Longrightarrow> weak_inv table'" by blast+
qed

text \<open>The states of the daemon when the driver may send anything.\<close>

inductive any_reach :: "cli_table \<Rightarrow> bool" where
  any_start: "any_reach (snd (bndstrg_table_init zero_table))"
| any_message: "any_reach table \<Longrightarrow> bndstrg_event_handle clock table msg = Inr (r, table') \<Longrightarrow>
    any_reach table'"
| any_timer: "any_reach table \<Longrightarrow> bndstrg_periodic_exec clock table = (table', rs, True) \<Longrightarrow>
    any_reach table'"

lemma any_reach_weak_inv: "any_reach table \<Longrightarrow> weak_inv table"
proof (induction rule: any_reach.induct)
  case any_start
  show ?case by (rule weak_inv_init)
next
  case (any_message table clock msg r table')
  then show ?case using event_handle_weak(2) by blast
next
  case (any_timer table clock table' rs)
  then show ?case using same_ids_weak_inv [OF periodic_exec_same_ids, of table clock] by simp
qed

end
