(* ===== verification/Bndstrg_Steering.thy ===== *)
theory Bndstrg_Steering
  imports Bndstrg
begin

text \<open>
  The steering decisions of the periodic task of the band steering daemon: what one pass does to
  the permissions of a client and what it asks of the driver, in closed form; that no client is on record for both
  bands while the check of the 5 GHz signal is on, and what the driver has been told of it in a whole run; how the age
  of an entry is measured, and when the daemon gives up.
\<close>

section \<open>Permissions\<close>

text \<open>What the permission bits of an entry rely on.\<close>

definition flags_ok :: "u32 \<Rightarrow> bool" where
  "flags_ok fl \<longleftrightarrow>
     (flag_set fl fALLOW_TO_CONNET_2G \<longrightarrow> IS_BND_STRG_DUAL_BAND_CLIENT fl \<or> flag_set fl fIS_2G_ONLY) \<and>
     (flag_set fl fALLOW_TO_CONNET_5G \<longrightarrow> flag_set fl fSUPPORT_5G \<and> \<not> flag_set fl fIS_2G_ONLY) \<and>
     \<not> (flag_set fl fALLOW_TO_CONNET_2G \<and> flag_set fl fALLOW_TO_CONNET_5G)"

definition perms_ok :: "cli_table \<Rightarrow> bool" where
  "perms_ok table \<longleftrightarrow> length (Entry table) = BND_STRG_MAX_TABLE_SIZE \<and> flag_set (ConditionCheck table) fCND_5G_RSSI \<and>
     (\<forall>i < length (Entry table). flags_ok (Control_Flags (Entry table ! i)))"

lemmas perm_simps = flags_ok_def IS_BND_STRG_DUAL_BAND_CLIENT_def flag_set_AND

lemma flags_ok_zero [simp]: "flags_ok 0"
  by (simp add: perm_simps flag_set_def)

lemma flags_ok_conn_req:
  "flags_ok (Control_Flags e) \<Longrightarrow> flags_ok (Control_Flags (conn_req_entry table band ft r ht e))"
  by (auto simp: conn_req_entry_def Let_def perm_simps)

lemma flags_ok_mark: "flags_ok (Control_Flags e) \<Longrightarrow> flags_ok (Control_Flags (mark_2g_only table e))"
  by (auto simp: mark_2g_only_def perm_simps)

text \<open>One pass over a client, on the flags it had before.\<close>

lemma steer_flags_ok:
  assumes ok: "flags_ok (Control_Flags e)" and on: "flag_set (ConditionCheck table) fCND_5G_RSSI"
  shows "flags_ok (Control_Flags (fst (steer_5g table (fst (steer_2g table e)))))"
  using ok on
  by (auto simp: steer_2g_def steer_5g_def allow_sta_conn_2g_check_def allow_sta_conn_5g_check_def
      cnd_rssi_diff_def cnd_2g_persist_def cnd_no_ht_def perm_simps Let_def)

text \<open>The operations of the table keep the flags of every entry or reset them.\<close>

definition flags_kept :: "cli_table \<Rightarrow> cli_table \<Rightarrow> bool" where
  "flags_kept t t' \<longleftrightarrow> ConditionCheck t' = ConditionCheck t \<and> length (Entry t') = length (Entry t) \<and>
     (\<forall>i < length (Entry t). Control_Flags (Entry t' ! i) \<in> {Control_Flags (Entry t ! i), 0})"

lemma flags_kept_perms: "flags_kept t t' \<Longrightarrow> perms_ok t \<Longrightarrow> perms_ok t'"
  by (fastforce simp: flags_kept_def perms_ok_def)

lemma flags_kept_refl [simp]: "flags_kept t t"
  by (simp add: flags_kept_def)

lemma flags_kept_trans: "flags_kept t u \<Longrightarrow> flags_kept u v \<Longrightarrow> flags_kept t v"
  by (fastforce simp: flags_kept_def)

lemma flags_kept_upd [intro!]:
  assumes "\<And>e. Control_Flags (f e) = Control_Flags e \<or> Control_Flags (f e) = 0"
  shows "flags_kept t (upd_entry i f t)"
  unfolding flags_kept_def
proof (intro conjI allI impI)
  fix j
  assume "j < length (Entry t)"
  then show "Control_Flags (Entry (upd_entry i f t) ! j) \<in> {Control_Flags (Entry t ! j), 0}"
    using assms [of "Entry t ! i"] by (cases "j = i") (auto simp: upd_entry_def)
qed (simp_all add: upd_entry_def)

lemma flags_kept_links [simp]:
  "flags_kept t (u\<lparr>Hash := h\<rparr>) = flags_kept t u"
  "flags_kept t (u\<lparr>Size := n\<rparr>) = flags_kept t u"
  by (simp_all add: flags_kept_def)

lemma flags_kept_hash_append: "hash_append a i t = Inr t' \<Longrightarrow> flags_kept t t'"
  by (auto simp: hash_append_def elim!: res_bind_eq_InrE split: option.splits)

lemma flags_kept_insert: "bndstrg_insert_entry now t a = Inr (r, e, t') \<Longrightarrow> flags_kept t t'"
proof -
  have "flags_kept t (snd (pick_entry now t a))"
    by (auto simp: pick_entry_def fresh_entry_def zero_entry_def split: option.splits)
  then have "hash_append a (fst (pick_entry now t a)) (snd (pick_entry now t a)) = Inr u \<Longrightarrow>
      flags_kept t u" for u
    using flags_kept_hash_append flags_kept_trans by blast
  then show "bndstrg_insert_entry now t a = Inr (r, e, t') \<Longrightarrow> flags_kept t t'"
    by (auto simp: bndstrg_insert_entry_def case_prod_beta elim!: res_bind_eq_InrE split: if_splits)
qed

lemma flags_kept_hash_unlink: "hash_unlink h i t = Inr t' \<Longrightarrow> flags_kept t t'"
  by (auto simp: hash_unlink_def elim!: res_bind_eq_InrE split: option.splits)

lemma flags_kept_delete: "bndstrg_delete_entry t a Index = Inr (r, t') \<Longrightarrow> flags_kept t t'"
proof -
  have "hash_unlink h i t = Inr u \<Longrightarrow> flags_kept t (upd_entry i clear_entry u)" for h i u
    by (rule flags_kept_trans [OF flags_kept_hash_unlink]) (auto simp: clear_entry_def)
  then show "bndstrg_delete_entry t a Index = Inr (r, t') \<Longrightarrow> flags_kept t t'"
    by (auto simp: bndstrg_delete_entry_def elim!: res_bind_eq_InrE split: option.splits if_splits)
qed

lemma perms_ok_upd:
  assumes "perms_ok t" and "i < length (Entry t) \<Longrightarrow> flags_ok (Control_Flags (f (Entry t ! i)))"
  shows "perms_ok (upd_entry i f t)"
  unfolding perms_ok_def
proof (intro conjI allI impI)
  fix j
  assume "j < length (Entry (upd_entry i f t))"
  then show "flags_ok (Control_Flags (Entry (upd_entry i f t) ! j))"
    using assms by (cases "j = i") (auto simp: perms_ok_def upd_entry_def)
qed (use assms(1) in \<open>simp_all add: perms_ok_def upd_entry_def\<close>)

lemma perms_ok_entry: "perms_ok t \<Longrightarrow> i < length (Entry t) \<Longrightarrow> flags_ok (Control_Flags (Entry t ! i))"
  by (simp add: perms_ok_def)

lemma perms_ok_init: "perms_ok (snd (bndstrg_table_init zero_table))"
  by (simp add: perms_ok_def bndstrg_table_init_def zero_table_def zero_entry_def)

lemma perms_ok_conn_req:
  assumes "perms_ok t" and "bndstrg_check_conn_req now t band a ft rssi ht = Inr (r, t')"
  shows "perms_ok t'"
proof -
  have upd: "perms_ok (upd_entry i (conn_req_entry u band ft (max_rssi rssi) ht) u)" if "perms_ok u" for u i
    using that perms_ok_upd flags_ok_conn_req perms_ok_entry by blast
  have ins: "perms_ok u" if "bndstrg_insert_entry now t a = Inr (q, e, u)" for q e u
    using flags_kept_perms [OF flags_kept_insert [OF that] assms(1)] .
  from assms upd ins show ?thesis
    by (auto simp: bndstrg_check_conn_req_def elim!: res_bind_eq_InrE split: option.splits if_splits)
qed

lemma perms_ok_aging_rsp:
  assumes "perms_ok t" and "aging_rsp t msg = Inr (r, t')"
  shows "perms_ok t'"
proof -
  let ?u = "upd_entry (unat (TalbeIndex msg)) (aging_confirm (msg_Band msg)) t"
  have k: "flags_kept t ?u" by (rule flags_kept_upd) (simp add: aging_confirm_def)
  then have u: "perms_ok ?u" using assms(1) flags_kept_perms by blast
  let ?d = "bndstrg_delete_entry ?u (msg_Addr msg) (ucast (TalbeIndex msg))"
  have d: "?d = Inr (q, v) \<Longrightarrow> perms_ok v" for q v
    using flags_kept_perms [OF flags_kept_delete u] by blast
  show ?thesis
    by (cases ?d; cases rule: aging_rsp_cases [where msg = msg and table = t])
      (use assms u d in auto)
qed

lemma perms_ok_cong:
  "Entry t' = Entry t \<Longrightarrow> ConditionCheck t' = ConditionCheck t \<Longrightarrow> perms_ok t' = perms_ok t"
  by (simp add: perms_ok_def)

lemma perms_ok_show_entries: "perms_ok t \<Longrightarrow> perms_ok (bndstrg_event_show_entries clock t)"
proof -
  have "perms_ok (fold (\<lambda>i t. upd_entry i (\<lambda>e. e\<lparr>elapsed_time := g i e\<rparr>) t) is t)"
    if "perms_ok t" for g "is" and t :: cli_table
    using that
  proof (induction "is" arbitrary: t)
    case (Cons i "is")
    then have "perms_ok (upd_entry i (\<lambda>e. e\<lparr>elapsed_time := g i e\<rparr>) t)"
      by (intro perms_ok_upd) (simp_all add: perms_ok_entry)
    with Cons.IH show ?case by simp
  qed simp
  then show "perms_ok t \<Longrightarrow> perms_ok (bndstrg_event_show_entries clock t)"
    by (simp add: bndstrg_event_show_entries_def)
qed

lemma other_msg_perms:
  assumes "Action msg \<notin> {CONNECTION_REQ, CLI_DEL, CLI_AGING_RSP, ENTRY_LIST, SET_CHEK_CONDITIONS}"
    and "bndstrg_event_handle clock t msg = Inr (r, t')"
  shows "Entry t' = Entry t \<and> ConditionCheck t' = ConditionCheck t"
  using assms
  by (auto simp: bndstrg_event_handle_def bndstrg_event_on_off_def Let_def elim!: res_bind_eq_InrE
      split: if_splits)

lemma perms_ok_handle:
  assumes ok: "perms_ok t" and h: "bndstrg_event_handle clock t msg = Inr (r, t')"
    and set: "Action msg = SET_CHEK_CONDITIONS \<longrightarrow> flag_set (msg_ConditionCheck msg) fCND_5G_RSSI"
  shows "perms_ok t'"
proof -
  consider (conn) "Action msg = CONNECTION_REQ" | (del) "Action msg = CLI_DEL"
    | (aging) "Action msg = CLI_AGING_RSP" | (listing) "Action msg = ENTRY_LIST"
    | (cond) "Action msg = SET_CHEK_CONDITIONS"
    | (other) "Action msg \<notin> {CONNECTION_REQ, CLI_DEL, CLI_AGING_RSP, ENTRY_LIST, SET_CHEK_CONDITIONS}"
    by blast
  then show ?thesis
  proof cases
    case conn
    with h obtain r' where "bndstrg_check_conn_req (clock 0) t (msg_Band msg) (msg_Addr msg)
        (FrameType msg) (msg_Rssi msg) (bAllowStaConnectInHt msg) = Inr (r', t')"
      by (auto simp: bndstrg_event_handle_def elim!: res_bind_eq_InrE)
    with ok show ?thesis by (rule perms_ok_conn_req)
  next
    case del
    with h obtain r' where "bndstrg_delete_entry t (msg_Addr msg) (ucast (TalbeIndex msg)) = Inr (r', t')"
      by (auto simp: bndstrg_event_handle_def elim!: res_bind_eq_InrE)
    then show ?thesis using flags_kept_perms [OF flags_kept_delete ok] by blast
  next
    case aging
    with h perms_ok_aging_rsp [OF ok] show ?thesis by (simp add: bndstrg_event_handle_def)
  next
    case listing
    with h perms_ok_show_entries [OF ok] show ?thesis by (auto simp: bndstrg_event_handle_def)
  next
    case cond
    with h ok set show ?thesis by (auto simp: bndstrg_event_handle_def perms_ok_def)
  next
    case other
    with h ok other_msg_perms perms_ok_cong show ?thesis by blast
  qed
qed

lemma flags_ok_periodic_entry:
  assumes "flags_ok (Control_Flags e)" and "flag_set (ConditionCheck t) fCND_5G_RSSI"
  shows "flags_ok (Control_Flags (fst (periodic_entry now t e)))"
proof -
  have "flags_ok (Control_Flags (mark_2g_only t (e\<lparr>elapsed_time := x\<rparr>)))" for x
    using assms(1) by (intro flags_ok_mark) simp
  then show ?thesis
    using steer_flags_ok [OF _ assms(2)] assms(1) by (simp add: periodic_entry_def Let_def case_prod_beta)
qed

lemma perms_ok_periodic_loop: "perms_ok t \<Longrightarrow> perms_ok (fst (periodic_loop clock is t))"
proof (induction "is" arbitrary: t)
  case (Cons i "is")
  let ?u = "upd_entry i (\<lambda>_. fst (periodic_entry (clock i) t (Entry t ! i))) t"
  have "flag_set (ConditionCheck t) fCND_5G_RSSI" using Cons.prems by (simp add: perms_ok_def)
  then have "perms_ok ?u"
    using Cons.prems by (intro perms_ok_upd flags_ok_periodic_entry) (simp_all add: perms_ok_entry)
  with Cons show ?case by (simp add: case_prod_beta)
qed simp

lemma perms_ok_periodic: "perms_ok t \<Longrightarrow> perms_ok (fst (bndstrg_periodic_exec clock t))"
  by (simp add: bndstrg_periodic_exec_def case_prod_beta perms_ok_periodic_loop) (simp add: perms_ok_def)

section \<open>One pass of the periodic task\<close>

text \<open>
  The conditions of the daemon on a client, over its age and its flags: one of the optional conditions keeps it
  on 2.4 GHz, or its 5 GHz signal is good enough. The decisions do not depend on the permissions that are
  changed in between.
\<close>

definition forced_2g :: "cli_table \<Rightarrow> cli_entry \<Rightarrow> u32 \<Rightarrow> bool" where
  "forced_2g table e el \<longleftrightarrow>
     flag_set (ConditionCheck table) fCND_RSSI_DIFF \<and>
       flag_set (Rssi (statistics_2G e)) (Rssi (statistics_5G e)) \<and>
       sint (RssiDiff table) \<le> sint (Rssi (statistics_2G e) - Rssi (statistics_5G e)) \<or>
     flag_set (ConditionCheck table) fCND_2G_PERSIST \<and> HoldTime table \<le> el \<and>
       AuthReqCount (statistics_5G e) = 0 \<and> AuthReqCount (statistics_2G e) \<noteq> 0 \<or>
     flag_set (ConditionCheck table) fCND_HT_SUPPORT \<and> flag_set (Control_Flags e) fNOT_SUPPORT_HT_5G"

definition good_5g :: "cli_table \<Rightarrow> cli_entry \<Rightarrow> bool" where
  "good_5g table e \<longleftrightarrow> Rssi (statistics_5G e) \<noteq> 0 \<and>
     (flag_set (ConditionCheck table) fCND_5G_RSSI \<longrightarrow> sint (RssiLow table) < sint (Rssi (statistics_5G e)))"

lemma forced_2g_cnd:
  "cnd_rssi_diff table e \<or> cnd_2g_persist table e \<or> cnd_no_ht table e \<longleftrightarrow> forced_2g table e (elapsed_time e)"
  by (simp add: forced_2g_def cnd_rssi_diff_def cnd_2g_persist_def cnd_no_ht_def)

lemma forced_2g_cong [simp]:
  "forced_2g table (e\<lparr>elapsed_time := x\<rparr>) el = forced_2g table e el"
  by (simp add: forced_2g_def)

lemma forced_2g_flags:
  "flag_set fl fNOT_SUPPORT_HT_5G = flag_set (Control_Flags e) fNOT_SUPPORT_HT_5G \<Longrightarrow>
   forced_2g table (e\<lparr>Control_Flags := fl\<rparr>) el = forced_2g table e el"
  by (simp add: forced_2g_def)

lemma good_5g_cong [simp]:
  "good_5g table (e\<lparr>elapsed_time := x\<rparr>) = good_5g table e"
  "good_5g table (e\<lparr>Control_Flags := fl\<rparr>) = good_5g table e"
  by (simp_all add: good_5g_def)

lemma allow_2g_exact:
  "allow_sta_conn_2g_check table e \<longleftrightarrow> flag_set (Control_Flags e) fIS_2G_ONLY \<or>
     flag_set (Control_Flags e) fSUPPORT_2G \<and> flag_set (Control_Flags e) fSUPPORT_5G \<and>
     (forced_2g table e (elapsed_time e) \<or> flag_set (ConditionCheck table) fCND_5G_RSSI \<and>
       flag_set (Control_Flags e) fLOW_RSSI_5G \<and> \<not> flag_set (Control_Flags e) fALLOW_TO_CONNET_5G)"
  unfolding allow_sta_conn_2g_check_def IS_BND_STRG_DUAL_BAND_CLIENT_def forced_2g_cnd [symmetric] by blast

lemma allow_5g_exact:
  "allow_sta_conn_5g_check table e =
     (let dual = flag_set (Control_Flags e) fSUPPORT_2G \<and> flag_set (Control_Flags e) fSUPPORT_5G;
        ok = flag_set (Control_Flags e) fSUPPORT_5G \<and>
          (dual \<longrightarrow> \<not> forced_2g table e (elapsed_time e) \<and> good_5g table e)
      in (ok, if ok \<and> dual \<and> flag_set (ConditionCheck table) fCND_5G_RSSI
         then e\<lparr>Control_Flags := Control_Flags e AND NOT fALLOW_TO_CONNET_2G\<rparr> else e))"
  unfolding allow_sta_conn_5g_check_def IS_BND_STRG_DUAL_BAND_CLIENT_def forced_2g_cnd [symmetric] good_5g_def
  by (simp add: Let_def)

text \<open>
  The pass in closed form: the flags after each of its three steps, and the requests.
\<close>

definition only_2g :: "cli_table \<Rightarrow> u32 \<Rightarrow> u32 \<Rightarrow> bool" where
  "only_2g table el fl \<longleftrightarrow> flag_set fl fIS_2G_ONLY \<or> CheckTime_5G table \<le> el \<and> \<not> flag_set fl fSUPPORT_5G"

definition grant_2g :: "cli_table \<Rightarrow> cli_entry \<Rightarrow> u32 \<Rightarrow> bool" where
  "grant_2g table e el \<longleftrightarrow> \<not> flag_set (Control_Flags e) fALLOW_TO_CONNET_2G \<and>
     (only_2g table el (Control_Flags e) \<or>
      flag_set (Control_Flags e) fSUPPORT_2G \<and> flag_set (Control_Flags e) fSUPPORT_5G \<and>
      (forced_2g table e el \<or> flag_set (ConditionCheck table) fCND_5G_RSSI \<and>
        flag_set (Control_Flags e) fLOW_RSSI_5G \<and> \<not> flag_set (Control_Flags e) fALLOW_TO_CONNET_5G))"

definition grant_5g :: "cli_table \<Rightarrow> cli_entry \<Rightarrow> u32 \<Rightarrow> bool" where
  "grant_5g table e el \<longleftrightarrow> \<not> only_2g table el (Control_Flags e) \<and> flag_set (Control_Flags e) fSUPPORT_5G \<and>
     (flag_set (Control_Flags e) fSUPPORT_2G \<longrightarrow> \<not> forced_2g table e el \<and> good_5g table e)"

definition flags_marked :: "cli_table \<Rightarrow> cli_entry \<Rightarrow> u32 \<Rightarrow> u32" where
  "flags_marked table e el =
     (if only_2g table el (Control_Flags e) \<and> \<not> flag_set (Control_Flags e) fIS_2G_ONLY
      then Control_Flags e OR fIS_2G_ONLY else Control_Flags e)"

definition flags_2g :: "cli_table \<Rightarrow> cli_entry \<Rightarrow> u32 \<Rightarrow> u32" where
  "flags_2g table e el =
     (if grant_2g table e el then flags_marked table e el OR fALLOW_TO_CONNET_2G else flags_marked table e el)"

definition flags_5g :: "cli_table \<Rightarrow> cli_entry \<Rightarrow> u32 \<Rightarrow> u32" where
  "flags_5g table e el =
     (if only_2g table el (Control_Flags e) then flags_2g table e el
      else if \<not> grant_5g table e el then flags_2g table e el AND NOT fALLOW_TO_CONNET_5G
      else if flag_set (Control_Flags e) fSUPPORT_2G \<and> flag_set (ConditionCheck table) fCND_5G_RSSI
        then (flags_2g table e el AND NOT fALLOW_TO_CONNET_2G) OR fALLOW_TO_CONNET_5G
      else flags_2g table e el OR fALLOW_TO_CONNET_5G)"

lemma flags_marked_set:
  "flag_set (flags_marked table e el) fIS_2G_ONLY = only_2g table el (Control_Flags e)"
  "256 AND b = 0 \<Longrightarrow> flag_set (flags_marked table e el) b = flag_set (Control_Flags e) b"
  by (auto simp: flags_marked_def only_2g_def flag_set_def bit.conj_disj_distrib2)

lemma flags_2g_set:
  "flag_set (flags_2g table e el) fIS_2G_ONLY = only_2g table el (Control_Flags e)"
  "256 AND b = 0 \<Longrightarrow> 4 AND b = 0 \<Longrightarrow> flag_set (flags_2g table e el) b = flag_set (Control_Flags e) b"
  by (auto simp: flags_2g_def flags_marked_set flag_set_def [of 4])

lemma mark_exact:
  "mark_2g_only table (e\<lparr>elapsed_time := el\<rparr>) = e\<lparr>elapsed_time := el, Control_Flags := flags_marked table e el\<rparr>"
  by (cases e) (auto simp: mark_2g_only_def flags_marked_def only_2g_def)

lemma steer_2g_exact:
  "steer_2g table (e\<lparr>elapsed_time := el, Control_Flags := flags_marked table e el\<rparr>) =
     (e\<lparr>elapsed_time := el, Control_Flags := flags_2g table e el\<rparr>,
      if grant_2g table e el
      then Req_Cli (cstr (ifname_2g table)) CLI_ADD (Addr e) (TableIndex e) None #
        (if dbdc_mode table then [Req_Cli (cstr (ifname_2g table)) CLI_UPDATE (Addr e) (TableIndex e)
           (Some (flags_2g table e el, el))] else [])
      else [])"
proof -
  have "\<not> flag_set (flags_marked table e el) fALLOW_TO_CONNET_2G \<and>
      allow_sta_conn_2g_check table (e\<lparr>elapsed_time := el, Control_Flags := flags_marked table e el\<rparr>) \<longleftrightarrow>
      grant_2g table e el"
    by (auto simp: allow_2g_exact grant_2g_def flags_marked_set forced_2g_flags)
  then show ?thesis
    by (simp add: steer_2g_def flags_2g_def driver_wext_accessible_cli_def)
qed

lemma steer_5g_exact:
  "steer_5g table (e\<lparr>elapsed_time := el, Control_Flags := flags_2g table e el\<rparr>) =
     (e\<lparr>elapsed_time := el, Control_Flags := flags_5g table e el\<rparr>,
      if only_2g table el (Control_Flags e) then []
      else if grant_5g table e el
      then Req_Cli (cstr (ifname_5g table)) CLI_ADD (Addr e) (TableIndex e) None #
        (if dbdc_mode table then [Req_Cli (cstr (ifname_5g table)) CLI_UPDATE (Addr e) (TableIndex e)
           (Some (flags_5g table e el, el))] else [])
      else if dbdc_mode table
      then [Req_Cli (cstr (ifname_5g table)) CLI_UPDATE (Addr e) (TableIndex e) (Some (flags_5g table e el, el))]
      else [Req_Cli (cstr (ifname_5g table)) CLI_DEL (Addr e) (TableIndex e) None])"
  by (auto simp: steer_5g_def allow_5g_exact Let_def flags_2g_set forced_2g_flags grant_5g_def flags_5g_def
      driver_wext_accessible_cli_def)

lemma periodic_entry_young:
  fixes table e now
  defines "el \<equiv> bndstrg_get_entry_elapsed_time now e"
  assumes "el < AgeTime table"
  shows "periodic_entry now table e =
    (e\<lparr>elapsed_time := el, Control_Flags := flags_5g table e el\<rparr>,
     snd (steer_2g table (e\<lparr>elapsed_time := el, Control_Flags := flags_marked table e el\<rparr>)) @
     snd (steer_5g table (e\<lparr>elapsed_time := el, Control_Flags := flags_2g table e el\<rparr>)))"
proof -
  have "\<not> AgeTime table \<le> el" using assms(2) by simp
  then show ?thesis
    unfolding periodic_entry_def el_def [symmetric] Let_def mark_exact
    by (simp add: steer_2g_exact steer_5g_exact del: if_split)
qed

section \<open>What the driver is told\<close>

text \<open>
  The requests of a run, read back: the flags that the last \<open>CLI_UPDATE\<close> for a client carried, and whether
  the last \<open>CLI_ADD\<close> or \<open>CLI_DEL\<close> for a client on an interface was a \<open>CLI_ADD\<close>.
\<close>

definition told_step :: "mac \<Rightarrow> drv_request \<Rightarrow> u32 \<Rightarrow> u32" where
  "told_step a r fl = (case r of Req_Cli ifn act b i (Some (fl', el)) \<Rightarrow> if b = a then fl' else fl | _ \<Rightarrow> fl)"

definition told :: "mac \<Rightarrow> drv_request list \<Rightarrow> u32" where
  "told a rs = fold (told_step a) rs 0"

definition admit_step :: "byte list \<Rightarrow> mac \<Rightarrow> drv_request \<Rightarrow> bool \<Rightarrow> bool" where
  "admit_step ifn a r adm = (case r of
     Req_Cli ifn' act b i x \<Rightarrow> if ifn' = ifn \<and> b = a \<and> act = CLI_ADD then True
       else if ifn' = ifn \<and> b = a \<and> act = CLI_DEL then False else adm
   | _ \<Rightarrow> adm)"

definition admitted :: "byte list \<Rightarrow> mac \<Rightarrow> drv_request list \<Rightarrow> bool" where
  "admitted ifn a rs = fold (admit_step ifn a) rs False"

definition told_ok :: "drv_request list \<Rightarrow> bool" where
  "told_ok rs \<longleftrightarrow> (\<forall>a. flags_ok (told a rs))"

lemma told_append: "told a (rs @ rs') = fold (told_step a) rs' (told a rs)"
  by (simp add: told_def)

lemma told_step_simps [simp]:
  "told_step a (Req_Query ifn) fl = fl" "told_step a (Req_OnOff ifn x) fl = fl"
  "told_step a (Req_Cli ifn act b i None) fl = fl"
  "told_step a (Req_Cli ifn act b i (Some (fl', el))) fl = (if b = a then fl' else fl)"
  by (simp_all add: told_step_def)

lemma told_ok_settings [simp]:
  "told_ok (rs @ [Req_Query ifn]) = told_ok rs" "told_ok (rs @ [Req_OnOff ifn x]) = told_ok rs"
  "told_ok (rs @ [Req_OnOff ifn x, Req_OnOff ifn' y]) = told_ok rs"
  by (simp_all add: told_ok_def told_def)

text \<open>The last update in a pass over a client carries the flags that the entry is left with.\<close>

lemma told_entry:
  "fold (told_step a) (snd (periodic_entry now table e)) fl \<in>
     {fl, Control_Flags (fst (periodic_entry now table e))}"
proof (cases "bndstrg_get_entry_elapsed_time now e < AgeTime table")
  case True
  from periodic_entry_young [OF this] show ?thesis
    by (simp add: steer_2g_exact steer_5g_exact flags_5g_def)
next
  case False
  then show ?thesis by (simp add: periodic_entry_def driver_wext_accessible_cli_def Let_def not_less)
qed

lemma told_ok_entry:
  assumes "told_ok rs" and "flags_ok (Control_Flags (fst (periodic_entry now table e)))"
  shows "told_ok (rs @ snd (periodic_entry now table e))"
  unfolding told_ok_def
proof
  fix a
  show "flags_ok (told a (rs @ snd (periodic_entry now table e)))"
    using told_entry [of a now table e "told a rs"] spec [OF assms(1) [unfolded told_ok_def], of a] assms(2)
    unfolding told_append by auto
qed

lemma told_ok_periodic_loop:
  "perms_ok t \<Longrightarrow> told_ok rs \<Longrightarrow> \<forall>i \<in> set is. i < BND_STRG_MAX_TABLE_SIZE \<Longrightarrow>
   told_ok (rs @ snd (periodic_loop clock is t))"
proof (induction "is" arbitrary: t rs)
  case (Cons i "is")
  let ?p = "periodic_entry (clock i) t (Entry t ! i)"
  let ?u = "upd_entry i (\<lambda>_. fst ?p) t"
  have "i < length (Entry t)" and cond: "flag_set (ConditionCheck t) fCND_5G_RSSI"
    using Cons.prems(1,3) by (simp_all add: perms_ok_def)
  then have p: "flags_ok (Control_Flags (fst ?p))"
    using flags_ok_periodic_entry perms_ok_entry [OF Cons.prems(1)] by blast
  have "perms_ok ?u" using Cons.prems(1) p by (rule perms_ok_upd)
  moreover have "told_ok (rs @ snd ?p)" by (rule told_ok_entry [OF Cons.prems(2) p])
  ultimately have "told_ok ((rs @ snd ?p) @ snd (periodic_loop clock is ?u))"
    by (rule Cons.IH) (use Cons.prems(3) in simp)
  moreover have "told_ok (rs @ snd (periodic_loop clock is t))"
    by (rule Cons.IH) (use Cons.prems in simp_all)
  ultimately show ?case by (simp add: case_prod_beta)
qed simp

lemma told_ok_periodic:
  assumes "perms_ok t" and "told_ok rs"
  shows "told_ok (rs @ fst (snd (bndstrg_periodic_exec clock t)))"
  using assms(2) told_ok_periodic_loop [OF assms(1,2), of "[0..<BND_STRG_MAX_TABLE_SIZE]" clock]
  by (auto simp: bndstrg_periodic_exec_def case_prod_beta driver_wext_inf_status_query_def
      driver_wext_bndstrg_onoff_def)

text \<open>Clients are taken off the 5 GHz interface only.\<close>

definition no_withdrawal :: "byte list \<Rightarrow> drv_request list \<Rightarrow> bool" where
  "no_withdrawal ifn rs \<longleftrightarrow> (\<forall>a i x. Req_Cli ifn CLI_DEL a i x \<notin> set rs)"

lemma no_withdrawal_append [simp]:
  "no_withdrawal ifn [] "
  "no_withdrawal ifn (rs @ rs') \<longleftrightarrow> no_withdrawal ifn rs \<and> no_withdrawal ifn rs'"
  by (auto simp: no_withdrawal_def)

lemma no_withdrawal_entry: "ifn \<noteq> IFNAME_5G \<Longrightarrow> no_withdrawal ifn (snd (periodic_entry now table e))"
  by (auto simp: no_withdrawal_def periodic_entry_def steer_2g_def steer_5g_def driver_wext_accessible_cli_def
      ifname_5g_def cstr_def Let_def split: prod.splits if_splits)

lemma no_withdrawal_loop: "ifn \<noteq> IFNAME_5G \<Longrightarrow> no_withdrawal ifn (snd (periodic_loop clock is t))"
  by (induction "is" arbitrary: t) (simp_all add: case_prod_beta no_withdrawal_entry)

lemma no_withdrawal_periodic:
  "ifn \<noteq> IFNAME_5G \<Longrightarrow> no_withdrawal ifn (fst (snd (bndstrg_periodic_exec clock t)))"
  using no_withdrawal_loop
  by (auto simp: bndstrg_periodic_exec_def case_prod_beta driver_wext_inf_status_query_def
      driver_wext_bndstrg_onoff_def) (auto simp: no_withdrawal_def)

lemma no_withdrawal_Cons:
  "no_withdrawal ifn (r # rs) \<longleftrightarrow> (\<forall>a i x. r \<noteq> Req_Cli ifn CLI_DEL a i x) \<and> no_withdrawal ifn rs"
  unfolding no_withdrawal_def list.set by blast

lemma admitted_stays: "no_withdrawal ifn rs \<Longrightarrow> fold (admit_step ifn a) rs True"
proof (induction rs)
  case (Cons r rs)
  then have "admit_step ifn a r True" by (cases r) (auto simp: no_withdrawal_Cons admit_step_def)
  with Cons show ?case by (simp add: no_withdrawal_Cons)
qed simp

lemma admitted_no_withdrawal:
  assumes "no_withdrawal ifn rs" and "Req_Cli ifn CLI_ADD a i x \<in> set rs"
  shows "admitted ifn a rs"
proof -
  obtain ys zs where rs: "rs = ys @ Req_Cli ifn CLI_ADD a i x # zs" using split_list [OF assms(2)] by blast
  then have "no_withdrawal ifn zs" using assms(1) by (simp add: no_withdrawal_def)
  with admitted_stays [of ifn zs a] show ?thesis by (simp add: rs admitted_def admit_step_def)
qed

section \<open>Runs\<close>

text \<open>
  A run of the daemon over messages and ticks of its timer, with a clock for each; it ends when the daemon gives
  up. The result is the list of requests and the table.
\<close>

fun steer_run :: "((nat \<Rightarrow> timespec) \<times> bndstrg_msg option) list \<Rightarrow> cli_table \<Rightarrow>
    (drv_request list \<times> cli_table) res" where
  "steer_run [] table = Inr ([], table)"
| "steer_run ((clock, Some msg) # evs) table =
     res_bind (bndstrg_event_handle clock table msg) (\<lambda>(_, table'). steer_run evs table')"
| "steer_run ((clock, None) # evs) table = (case bndstrg_periodic_exec clock table of
     (table', rs, again) \<Rightarrow> if again
       then res_bind (steer_run evs table') (\<lambda>(rs', table''). Inr (rs @ rs', table''))
       else Inr (rs, table'))"

text \<open>The check of the 5 GHz signal is not switched off.\<close>

definition keeps_5g_check :: "((nat \<Rightarrow> timespec) \<times> bndstrg_msg option) list \<Rightarrow> bool" where
  "keeps_5g_check evs \<longleftrightarrow> list_all (\<lambda>(_, ev). case ev of None \<Rightarrow> True | Some msg \<Rightarrow>
     Action msg = SET_CHEK_CONDITIONS \<longrightarrow> flag_set (msg_ConditionCheck msg) fCND_5G_RSSI) evs"

lemma steer_run_inv:
  assumes "steer_run evs t = Inr (rs, u)" and "keeps_5g_check evs" and "perms_ok t" and "told_ok pre"
  shows "perms_ok u \<and> told_ok (pre @ rs) \<and> (ifn \<noteq> IFNAME_5G \<longrightarrow> no_withdrawal ifn rs)"
  using assms
proof (induction evs t arbitrary: pre rs u rule: steer_run.induct)
  case (2 clock msg evs table)
  then obtain r t' where h: "bndstrg_event_handle clock table msg = Inr (r, t')" "steer_run evs t' = Inr (rs, u)"
    by (auto elim!: res_bind_eq_InrE)
  have "keeps_5g_check evs" "perms_ok t'"
    using 2 h perms_ok_handle [OF _ h(1)] by (simp_all add: keeps_5g_check_def)
  with 2 h show ?case by blast
next
  case (3 clock evs table)
  obtain t' rs1 again where p: "bndstrg_periodic_exec clock table = (t', rs1, again)" by (metis prod_cases3)
  have t': "perms_ok t'" "told_ok (pre @ rs1)" "ifn \<noteq> IFNAME_5G \<longrightarrow> no_withdrawal ifn rs1"
    using perms_ok_periodic [of table clock] told_ok_periodic [of table pre clock]
      no_withdrawal_periodic [of ifn clock table] 3 p by simp_all
  show ?case
  proof (cases again)
    case True
    with "3.prems"(1) p obtain rs2 where "steer_run evs t' = Inr (rs2, u)" "rs = rs1 @ rs2"
      by (auto elim!: res_bind_eq_InrE)
    moreover have "keeps_5g_check evs" using "3.prems"(2) by (simp add: keeps_5g_check_def)
    ultimately have "perms_ok u \<and> told_ok ((pre @ rs1) @ rs2) \<and> (ifn \<noteq> IFNAME_5G \<longrightarrow> no_withdrawal ifn rs2)"
      using "3.IH" [OF p [symmetric] refl True] t' by blast
    with t' \<open>rs = rs1 @ rs2\<close> show ?thesis by simp
  qed (use 3 p t' in simp)
qed simp

lemma steer_run_start:
  assumes "steer_run evs (snd (bndstrg_table_init zero_table)) = Inr (rs, u)" and "keeps_5g_check evs"
  shows "perms_ok u" and "told_ok rs" and "ifn \<noteq> IFNAME_5G \<Longrightarrow> no_withdrawal ifn rs"
proof -
  have "told_ok []" by (simp add: told_ok_def told_def)
  from steer_run_inv [OF assms perms_ok_init this]
  show "perms_ok u" and "told_ok rs" and "ifn \<noteq> IFNAME_5G \<Longrightarrow> no_withdrawal ifn rs" by simp_all
qed

section \<open>Giving up\<close>

text \<open>The daemon works when both interfaces have reported, band steering is on and no counter is spent.\<close>

definition at_work :: "cli_table \<Rightarrow> bool" where
  "at_work t \<longleftrightarrow> status_queried t \<and> b2GInfReady t \<noteq> 0 \<and> b5GInfReady t \<noteq> 0 \<and> bEnabled t \<and>
     status_queried_cnt t < 3 \<and> table_enable_cnt t < 3"

lemma upd_entry_settings [simp]:
  "status_queried (upd_entry i f t) = status_queried t"
  "b2GInfReady (upd_entry i f t) = b2GInfReady t"
  "b5GInfReady (upd_entry i f t) = b5GInfReady t"
  "bEnabled (upd_entry i f t) = bEnabled t"
  "bInitialized (upd_entry i f t) = bInitialized t"
  "status_queried_cnt (upd_entry i f t) = status_queried_cnt t"
  "table_enable_cnt (upd_entry i f t) = table_enable_cnt t"
  by (simp_all add: upd_entry_def)

lemma periodic_loop_settings:
  "at_work (fst (periodic_loop clock is t)) = at_work t \<and>
   bInitialized (fst (periodic_loop clock is t)) = bInitialized t"
  by (induction "is" arbitrary: t) (simp_all add: case_prod_beta at_work_def)

lemma at_work_tick:
  assumes "bInitialized t" and "at_work t"
  shows "\<exists>t' rs. bndstrg_periodic_exec clock t = (t', rs, True) \<and> bInitialized t' \<and> at_work t'"
proof -
  have "bndstrg_periodic_exec clock t = (fst (periodic_loop clock [0..<BND_STRG_MAX_TABLE_SIZE] t),
      snd (periodic_loop clock [0..<BND_STRG_MAX_TABLE_SIZE] t), True)"
    using assms by (auto simp: bndstrg_periodic_exec_def at_work_def case_prod_beta)
  with assms periodic_loop_settings show ?thesis by simp
qed

lemma at_work_ticks: "bInitialized t \<Longrightarrow> at_work t \<Longrightarrow> silent_ticks clock n t \<noteq> None"
proof (induction n arbitrary: t)
  case (Suc n)
  then show ?case using at_work_tick [of t clock] by auto
qed simp

text \<open>A tick that does not work uses up one unit of a counter, or the daemon gives up.\<close>

definition spare :: "cli_table \<Rightarrow> nat" where
  "spare t = (if \<not> status_queried t \<or> b2GInfReady t = 0 \<or> b5GInfReady t = 0
     then 3 - unat (status_queried_cnt t) else 3 - unat (table_enable_cnt t))"

lemma idle_tick:
  assumes "bInitialized t" and "\<not> at_work t"
  shows "snd (snd (bndstrg_periodic_exec clock t)) = False \<or>
    (let t' = fst (bndstrg_periodic_exec clock t) in
      bInitialized t' \<and> \<not> at_work t' \<and> spare t' < spare t)"
proof -
  have inc: "unat (c + 1) = Suc (unat c)" if "\<not> 3 \<le> c" for c :: u8
    using that by (simp add: word_le_nat_alt unat_word_ariths)
  have lt: "unat c < 3" if "\<not> 3 \<le> c" for c :: u8
    using that by (simp add: word_le_nat_alt)
  let ?spent = "3 \<le> status_queried_cnt t \<or> 3 \<le> table_enable_cnt t"
  consider (spent) ?spent
    | (query) "\<not> ?spent" "\<not> status_queried t \<or> b2GInfReady t = 0 \<or> b5GInfReady t = 0"
    | (enable) "\<not> ?spent" "status_queried t" "b2GInfReady t \<noteq> 0" "b5GInfReady t \<noteq> 0" "\<not> bEnabled t"
    using assms(2) unfolding at_work_def not_le [symmetric] by blast
  then show ?thesis
  proof cases
    case spent
    with assms show ?thesis by (simp add: bndstrg_periodic_exec_def)
  next
    case query
    then have t: "fst (bndstrg_periodic_exec clock t) = t\<lparr>status_queried_cnt := status_queried_cnt t + 1\<rparr>"
      using assms(1) by (auto simp: bndstrg_periodic_exec_def)
    show ?thesis
      using query assms inc [of "status_queried_cnt t"] lt [of "status_queried_cnt t"]
      unfolding t Let_def by (auto simp: at_work_def spare_def)
  next
    case enable
    then have t: "fst (bndstrg_periodic_exec clock t) = t\<lparr>table_enable_cnt := table_enable_cnt t + 1\<rparr>"
      using assms(1) by (simp add: bndstrg_periodic_exec_def)
    show ?thesis
      using enable assms inc [of "table_enable_cnt t"] lt [of "table_enable_cnt t"]
      unfolding t Let_def by (auto simp: at_work_def spare_def)
  qed
qed

lemma idle_ticks:
  "bInitialized t \<Longrightarrow> \<not> at_work t \<Longrightarrow> spare t < n \<Longrightarrow> silent_ticks clock n t = None"
proof (induction n arbitrary: t)
  case (Suc n)
  then show ?case using idle_tick [OF Suc.prems(1,2), of clock] by (auto simp: case_prod_beta Let_def)
qed simp

section \<open>Age\<close>

lemma c_div_near:
  fixes d :: int
  assumes "0 < k"
  shows "\<bar>c_div d k * k - d\<bar> < k"
proof (cases "0 \<le> d")
  case True
  then have "c_div d k = d div k"
    using assms by (cases "d = 0") (simp_all add: signed_divide_int_def)
  moreover have "d div k * k = d - d mod k" by (simp add: minus_mod_eq_div_mult)
  ultimately show ?thesis using assms pos_mod_bound [of k d] pos_mod_sign [of k d] by simp
next
  case False
  then have "c_div d k = - (- d div k)"
    using assms by (simp add: signed_divide_int_def)
  moreover have "- d div k * k = - d - (- d) mod k" by (simp add: minus_mod_eq_div_mult)
  ultimately show ?thesis using assms pos_mod_bound [of k "- d"] pos_mod_sign [of k "- d"] by simp
qed

text \<open>Nanoseconds between two clock readings, and the milliseconds that the code computes.\<close>

definition ns_between :: "timespec \<Rightarrow> timespec \<Rightarrow> int" where
  "ns_between t0 t1 = (tv_sec t1 - tv_sec t0) * 1000000000 + (tv_nsec t1 - tv_nsec t0)"

definition ms_between :: "timespec \<Rightarrow> timespec \<Rightarrow> int" where
  "ms_between t0 t1 = (tv_sec t1 - tv_sec t0) * 1000 + c_div (tv_nsec t1 - tv_nsec t0) 1000000"

lemma ms_between_near: "\<bar>ms_between t0 t1 * 1000000 - ns_between t0 t1\<bar> < 1000000"
  using c_div_near [of 1000000 "tv_nsec t1 - tv_nsec t0"]
  by (simp add: ms_between_def ns_between_def algebra_simps)

lemma elapsed_time_uint:
  "tv_sec (tp e) \<noteq> 0 \<Longrightarrow>
   uint (bndstrg_get_entry_elapsed_time now e) = ms_between (tp e) now mod 4294967296"
  by (simp only: bndstrg_get_entry_elapsed_time_def ms_between_def [symmetric] if_True)
    (simp add: uint_word_of_int)

section \<open>Admission under the default conditions\<close>

lemma periodic_entry_dual:
  assumes "ConditionCheck table = fCND_5G_RSSI" and "IS_BND_STRG_DUAL_BAND_CLIENT (Control_Flags e)"
    and "\<not> flag_set (Control_Flags e) fIS_2G_ONLY"
    and "bndstrg_get_entry_elapsed_time now e < AgeTime table"
  shows "(flag_set (Control_Flags (fst (periodic_entry now table e))) fALLOW_TO_CONNET_5G \<longleftrightarrow>
        Rssi (statistics_5G e) \<noteq> 0 \<and> sint (RssiLow table) < sint (Rssi (statistics_5G e))) \<and>
      (flag_set (Control_Flags (fst (periodic_entry now table e))) fALLOW_TO_CONNET_2G \<longleftrightarrow>
        \<not> flag_set (Control_Flags (fst (periodic_entry now table e))) fALLOW_TO_CONNET_5G \<and>
        (flag_set (Control_Flags e) fALLOW_TO_CONNET_2G \<or>
         flag_set (Control_Flags e) fLOW_RSSI_5G \<and> \<not> flag_set (Control_Flags e) fALLOW_TO_CONNET_5G))"
proof -
  let ?e = "e\<lparr>elapsed_time := bndstrg_get_entry_elapsed_time now e\<rparr>"
  have "fst (periodic_entry now table e) = fst (steer_5g table (fst (steer_2g table ?e)))"
    using assms by (simp add: periodic_entry_def Let_def case_prod_beta mark_2g_only_def perm_simps not_le [symmetric])
  then show ?thesis
    using assms(1-3)
    by (auto simp: steer_2g_def steer_5g_def allow_sta_conn_2g_check_def allow_sta_conn_5g_check_def
        cnd_rssi_diff_def cnd_2g_persist_def cnd_no_ht_def perm_simps Let_def)
qed

lemma periodic_entry_2g_only:
  assumes "flags_ok (Control_Flags e)" and "\<not> flag_set (Control_Flags e) fSUPPORT_5G"
    and "bndstrg_get_entry_elapsed_time now e < AgeTime table"
  shows "\<not> flag_set (Control_Flags (fst (periodic_entry now table e))) fALLOW_TO_CONNET_5G \<and>
    (flag_set (Control_Flags (fst (periodic_entry now table e))) fALLOW_TO_CONNET_2G \<longleftrightarrow>
       flag_set (Control_Flags e) fIS_2G_ONLY \<or>
       CheckTime_5G table \<le> bndstrg_get_entry_elapsed_time now e)"
proof -
  let ?e = "mark_2g_only table (e\<lparr>elapsed_time := bndstrg_get_entry_elapsed_time now e\<rparr>)"
  have *: "fst (periodic_entry now table e) = fst (steer_5g table (fst (steer_2g table ?e)))"
    using assms by (simp add: periodic_entry_def Let_def case_prod_beta not_le [symmetric])
  show ?thesis unfolding * using assms(1,2)
    by (auto simp: mark_2g_only_def steer_2g_def steer_5g_def allow_sta_conn_2g_check_def
        allow_sta_conn_5g_check_def perm_simps Let_def)
qed

lemma periodic_entry_aging:
  "(AgeTime table \<le> bndstrg_get_entry_elapsed_time now e \<longrightarrow>
     periodic_entry now table e = (e, [Req_Cli (cstr (ifname_2g table)) CLI_AGING_REQ (Addr e) (TableIndex e) None,
       Req_Cli (cstr (ifname_5g table)) CLI_AGING_REQ (Addr e) (TableIndex e) None])) \<and>
   (bndstrg_get_entry_elapsed_time now e < AgeTime table \<longrightarrow>
     (\<forall>ifn a i x. Req_Cli ifn CLI_AGING_REQ a i x \<notin> set (snd (periodic_entry now table e))))"
  by (auto simp: periodic_entry_def driver_wext_accessible_cli_def Let_def steer_2g_def steer_5g_def
      split: prod.splits if_splits)

end
