(* ===== verification/Bndstrg_Properties.thy ===== *)
theory Bndstrg_Properties
  imports Bndstrg_Termination Bndstrg_Steering
begin

text \<open>
  What the band steering daemon guarantees, stated over the definitions that model its code.
\<close>

section \<open>Concrete states\<close>

text \<open>The table after initialisation, with steering switched on, and a client in it.\<close>

definition booted :: cli_table where
  "booted = snd (bndstrg_table_init zero_table)"

definition steering :: cli_table where
  "steering = bndstrg_event_on_off booted 1 (BAND_2G OR BAND_5G)"

definition mac_a :: mac where "mac_a = (0, 12, 67, 1, 2, 3)"

definition mac_b :: mac where "mac_b = (0, 12, 67, 9, 2, 3)"

definition noon :: timespec where "noon = \<lparr>tv_sec = 1000, tv_nsec = 0\<rparr>"

lemma steering_step: "bndstrg_event_handle clock booted on_msg = Inr (BND_STRG_SUCCESS, steering)"
  by (simp add: bndstrg_event_handle_def on_msg_def zero_msg_def steering_def)

lemma booted_inv: "table_inv booted" "client_map booted a = None"
  using table_inv_init by (simp_all add: booted_def)

lemma booted_Size: "Size booted = 0" "bInitialized booted"
  by (simp_all add: booted_def bndstrg_table_init_def zero_table_def)

lemma booted_room: "Size booted < of_nat BND_STRG_MAX_TABLE_SIZE"
  by (simp add: booted_Size)

lemma steering_states: "daemon_reach steering" "any_reach steering"
proof -
  have "msg_ok booted on_msg" by (simp add: msg_ok_def on_msg_def zero_msg_def)
  then show "daemon_reach steering"
    using daemon_reach.message [OF daemon_reach.start [folded booted_def] _ steering_step] by blast
  show "any_reach steering"
    using any_reach.any_message [OF any_reach.any_start [folded booted_def] steering_step] .
qed

lemma steering_fields: "bEnabled steering" "bInitialized steering" "Size steering = 0"
    "length (Entry steering) = BND_STRG_MAX_TABLE_SIZE"
  by (simp_all add: steering_def bndstrg_event_on_off_def booted_def bndstrg_table_init_def zero_table_def)

lemma steering_inv: "table_inv steering" "client_map steering a = None"
  using same_ids_cong [OF on_off_same_ids, of booted 1 "BAND_2G OR BAND_5G"] booted_inv
  by (simp_all add: steering_def)

section \<open>The client table\<close>

text \<open>
  C2. For every sequence of arrivals and departures from the empty table, the hashed client table
  behaves as a set of at most 64 addresses that ignores newcomers when it is full: no call fails or
  loops, the invariant holds at the end and the clients in the table are those of the set.
\<close>

theorem table_refines_bounded_set:
  "\<exists>table. run_table bndstrg_table_lookup (insert_client now) remove_client cmds
       (snd (bndstrg_table_init zero_table)) = Inr table \<and>
     table_inv table \<and> dom (client_map table) = spec_run BND_STRG_MAX_TABLE_SIZE cmds {}"
proof -
  have "dom (client_map (snd (bndstrg_table_init zero_table))) = {}"
    using table_inv_init(2) by auto
  then show ?thesis using clients.run_refines [OF table_inv_init(1)] by metis
qed

text \<open>
  Inserting an address that is not in the table, when there is room, succeeds: it takes the first
  vacant position, after which looking the address up finds that position, every other address is
  found where it was, the entry is fresh and the other entries differ at most in their bucket link.
\<close>

theorem insert_new_client:
  assumes "table_inv table" and "client_map table a = None"
    and "Size table < of_nat BND_STRG_MAX_TABLE_SIZE"
  shows "\<exists>i table'. bndstrg_insert_entry now table a = Inr (BND_STRG_SUCCESS, Some i, table') \<and>
    first_vacancy table = Some i \<and> table_inv table' \<and>
    (\<forall>b. bndstrg_table_lookup table' b = (if b = a then Inr (Some i) else bndstrg_table_lookup table b)) \<and>
    (Entry table' ! i)\<lparr>pNext := None\<rparr> = fresh_entry now a i \<and>
    (\<forall>j. j \<noteq> i \<longrightarrow> (Entry table' ! j)\<lparr>pNext := None\<rparr> = (Entry table ! j)\<lparr>pNext := None\<rparr>)"
  by (rule insert_entry_lookup [OF assms])

theorem insert_new_client_witness:
  "\<exists>i table'. bndstrg_insert_entry noon booted mac_a = Inr (BND_STRG_SUCCESS, Some i, table') \<and>
     first_vacancy booted = Some i \<and> bndstrg_table_lookup table' mac_a = Inr (Some i)"
proof -
  obtain i t where "bndstrg_insert_entry noon booted mac_a = Inr (BND_STRG_SUCCESS, Some i, t)"
      "first_vacancy booted = Some i"
      and t: "\<forall>b. bndstrg_table_lookup t b = (if b = mac_a then Inr (Some i) else bndstrg_table_lookup booted b)"
    using insert_new_client [OF booted_inv booted_room] by blast
  moreover from spec [OF t, of mac_a] have "bndstrg_table_lookup t mac_a = Inr (Some i)" by simp
  ultimately show ?thesis by blast
qed

text \<open>
  Deleting a client by its address, or by its position and address, removes it and nobody else.
\<close>

theorem delete_known_client:
  assumes "table_inv table" and "client_map table a = Some i"
    and "Index = of_nat i \<or> of_nat BND_STRG_MAX_TABLE_SIZE \<le> Index"
  shows "\<exists>table'. bndstrg_delete_entry table a Index = Inr (BND_STRG_SUCCESS, table') \<and>
    table_inv table' \<and>
    (\<forall>b. bndstrg_table_lookup table' b = (if b = a then Inr None else bndstrg_table_lookup table b)) \<and>
    (\<forall>j. j \<noteq> i \<longrightarrow> (Entry table' ! j)\<lparr>pNext := None\<rparr> = (Entry table ! j)\<lparr>pNext := None\<rparr>)"
proof -
  obtain table' where t: "bndstrg_delete_entry table a Index = Inr (BND_STRG_SUCCESS, table')"
      "table_inv table'" "client_map table' = (client_map table)(a := None)"
      "\<And>j. j \<noteq> i \<Longrightarrow> (Entry table' ! j)\<lparr>pNext := None\<rparr> = (Entry table ! j)\<lparr>pNext := None\<rparr>"
    using delete_entry_correct [OF assms] by metis
  then show ?thesis
    using lookup_client_map [OF t(2)] lookup_client_map [OF assms(1)]
    by (intro exI [of _ table']) simp
qed

theorem delete_known_client_witness:
  "\<exists>t i table'. bndstrg_insert_entry noon booted mac_a = Inr (BND_STRG_SUCCESS, Some i, t) \<and>
     bndstrg_delete_entry t mac_a 64 = Inr (BND_STRG_SUCCESS, table') \<and>
     bndstrg_table_lookup table' mac_a = Inr None"
proof -
  obtain i t where t: "bndstrg_insert_entry noon booted mac_a = Inr (BND_STRG_SUCCESS, Some i, t)"
      "table_inv t" "client_map t = (client_map booted)(mac_a \<mapsto> i)"
    using insert_entry_correct [OF booted_inv booted_room] by metis
  then have "client_map t mac_a = Some i" by simp
  then obtain u where u: "bndstrg_delete_entry t mac_a 64 = Inr (BND_STRG_SUCCESS, u)"
      "\<forall>b. bndstrg_table_lookup u b = (if b = mac_a then Inr None else bndstrg_table_lookup t b)"
    using delete_known_client [OF t(2), of mac_a i 64] by force
  from spec [OF u(2), of mac_a] have "bndstrg_table_lookup u mac_a = Inr None" by simp
  with t(1) u(1) show ?thesis by blast
qed

section \<open>The daemon\<close>

text \<open>
  C19. In every state the daemon reaches under messages as its driver sends them, the next such message
  is handled without a fault and without an endless loop, and the table stays consistent with its
  retry counters at most 3.
\<close>

theorem daemon_never_faults:
  assumes "daemon_reach table" and "msg_ok table msg"
  shows "\<exists>r table'. bndstrg_event_handle clock table msg = Inr (r, table') \<and> daemon_inv table'"
proof -
  have "daemon_inv table" using assms(1) by (rule daemon_reach_inv)
  then show ?thesis
    using event_handle_inv [OF _ assms(2), of clock] by (metis daemon_inv_alt)
qed

theorem daemon_never_faults_witness:
  "\<exists>r table'. bndstrg_event_handle (\<lambda>_. noon) steering (conn_msg mac_a) = Inr (r, table') \<and>
     daemon_inv table'"
  by (rule daemon_never_faults [OF steering_states(1)]) (simp add: msg_ok_def conn_msg_def)

text \<open>
  C20. No sequence of messages whatsoever, well-formed or not, makes the handler of the next message
  loop forever.
\<close>

theorem handler_returns:
  assumes "any_reach table"
  shows "bndstrg_event_handle clock table msg \<noteq> Inl No_Return"
  using event_handle_weak(1) [OF any_reach_weak_inv [OF assms]] .

theorem handler_returns_witness:
  "bndstrg_event_handle (\<lambda>_. noon) steering (del_msg 0 mac_b) \<noteq> Inl No_Return"
  by (rule handler_returns [OF steering_states(2)])

text \<open>
  A connection request on one of the two bands, while steering is on, registers its sender unless
  the table is full and unregisters nobody.
\<close>

theorem conn_req_registers:
  assumes "daemon_reach table" and "bEnabled table"
    and "band = BAND_2G \<or> band = BAND_5G"
  shows "\<exists>r table'. bndstrg_check_conn_req now table band a ft rssi ht = Inr (r, table') \<and>
    dom (client_map table') =
      spec_step BND_STRG_MAX_TABLE_SIZE (Seen a) (dom (client_map table))"
proof -
  have "daemon_inv table" using assms(1) by (rule daemon_reach_inv)
  then have "table_inv table" "bInitialized table" by (simp_all add: daemon_inv_def)
  with check_conn_req_inv [OF _ assms(3)] assms(2) show ?thesis by metis
qed

theorem conn_req_registers_witness:
  "\<exists>r table'. bndstrg_check_conn_req noon steering BAND_5G mac_a 0 (-50, 0, 0, 0) 1 = Inr (r, table') \<and>
     dom (client_map table') = {mac_a}"
proof -
  have "dom (client_map steering) = {}" using steering_inv(2) by auto
  then show ?thesis
    using conn_req_registers [OF steering_states(1) steering_fields(1), of BAND_5G noon mac_a 0 "(-50, 0, 0, 0)" 1]
    by simp
qed

section \<open>Steering\<close>

text \<open>
  C4. In every run of messages and ticks, whatever the driver sends and the clocks show, while the 5 GHz signal
  check is on (the default): no entry of the table permits both bands; nor do the flags of the last
  \<open>CLI_UPDATE\<close> for a client, by which the driver learns the permissions where both bands share one radio.
  Where each band has an interface of its own, the driver learns them by \<open>CLI_ADD\<close> and \<open>CLI_DEL\<close>, and there the record
  is all that is exclusive: a client that was ever admitted by \<open>CLI_ADD\<close> to an interface other than the one for 5 GHz
  is never taken off it by \<open>CLI_DEL\<close>, because the withdrawal from 2.4 GHz is commented out in the code; so the driver
  can hold a client on both bands. The witness is such a client: it is on record for 5 GHz only, and the
  last word to the driver is an admission on each of the two interfaces.
\<close>

theorem one_band_on_record:
  assumes "steer_run evs (snd (bndstrg_table_init zero_table)) = Inr (rs, table)" and "keeps_5g_check evs"
  shows "(\<forall>i < length (Entry table). \<not> (flag_set (Control_Flags (Entry table ! i)) fALLOW_TO_CONNET_2G \<and>
      flag_set (Control_Flags (Entry table ! i)) fALLOW_TO_CONNET_5G)) \<and>
    (\<forall>a. \<not> (flag_set (told a rs) fALLOW_TO_CONNET_2G \<and> flag_set (told a rs) fALLOW_TO_CONNET_5G)) \<and>
    (\<forall>ifn a i x. ifn \<noteq> IFNAME_5G \<longrightarrow> Req_Cli ifn CLI_ADD a i x \<in> set rs \<longrightarrow> admitted ifn a rs)"
proof (intro conjI allI impI)
  note run = steer_run_start [OF assms]
  show "\<not> (flag_set (Control_Flags (Entry table ! i)) fALLOW_TO_CONNET_2G \<and>
      flag_set (Control_Flags (Entry table ! i)) fALLOW_TO_CONNET_5G)" if "i < length (Entry table)" for i
    using perms_ok_entry [OF run(1) that] by (simp add: flags_ok_def)
  show "\<not> (flag_set (told a rs) fALLOW_TO_CONNET_2G \<and> flag_set (told a rs) fALLOW_TO_CONNET_5G)" for a
    using run(2) unfolding told_ok_def flags_ok_def by blast
  show "admitted ifn a rs" if "ifn \<noteq> IFNAME_5G" "Req_Cli ifn CLI_ADD a i x \<in> set rs" for ifn a i x
    using admitted_no_withdrawal [OF run(3) [OF that(1)] that(2)] .
qed

text \<open>
  A run with two interfaces: both report, steering is switched on, a client probes on 2.4 GHz and, from
  far away, on 5 GHz; after a tick it has come closer and probes on 5 GHz again, and the timer ticks once more.
\<close>

definition probe :: "u8 \<Rightarrow> s8 \<Rightarrow> bndstrg_msg" where
  "probe band rssi = (conn_msg mac_a)\<lparr>msg_Band := band, msg_Rssi := (rssi, 0, 0, 0)\<rparr>"

definition approaching :: "((nat \<Rightarrow> timespec) \<times> bndstrg_msg option) list" where
  "approaching = map (Pair (\<lambda>_. noon))
     [Some (zero_msg\<lparr>Action := INF_STATUS_RSP_2G, msg_b2GInfReady := 1\<rparr>),
      Some (zero_msg\<lparr>Action := INF_STATUS_RSP_5G, msg_b5GInfReady := 1\<rparr>),
      Some on_msg, Some (probe BAND_2G (-40)), Some (probe BAND_5G (-80)), None,
      Some (probe BAND_5G (-50)), None]"

definition approaching_requests :: "drv_request list" where
  "approaching_requests =
     [Req_Cli IFNAME_2G CLI_ADD mac_a 0 None, Req_Cli IFNAME_5G CLI_DEL mac_a 0 None,
      Req_Cli IFNAME_5G CLI_ADD mac_a 0 None]"

lemma approaching_run:
  "\<exists>table. steer_run approaching booted = Inr (approaching_requests, table) \<and>
     Addr (Entry table ! 0) = mac_a \<and> length (Entry table) = BND_STRG_MAX_TABLE_SIZE \<and>
     flag_set (Control_Flags (Entry table ! 0)) fALLOW_TO_CONNET_5G"
proof -
  let ?r = "steer_run approaching booted"
  have "?r = Inr (approaching_requests, snd (projr ?r))" by code_simp
  moreover have "Addr (Entry (snd (projr ?r)) ! 0) = mac_a" by code_simp
  moreover have "length (Entry (snd (projr ?r))) = BND_STRG_MAX_TABLE_SIZE" by code_simp
  moreover have "flag_set (Control_Flags (Entry (snd (projr ?r)) ! 0)) fALLOW_TO_CONNET_5G" by code_simp
  ultimately show ?thesis by blast
qed

theorem one_band_on_record_witness:
  "\<exists>table. steer_run approaching booted = Inr (approaching_requests, table) \<and> Addr (Entry table ! 0) = mac_a \<and>
     flag_set (Control_Flags (Entry table ! 0)) fALLOW_TO_CONNET_5G \<and>
     \<not> flag_set (Control_Flags (Entry table ! 0)) fALLOW_TO_CONNET_2G \<and>
     admitted IFNAME_2G mac_a approaching_requests \<and> admitted IFNAME_5G mac_a approaching_requests"
proof -
  obtain table where t: "steer_run approaching booted = Inr (approaching_requests, table)"
      "Addr (Entry table ! 0) = mac_a" "length (Entry table) = BND_STRG_MAX_TABLE_SIZE"
      "flag_set (Control_Flags (Entry table ! 0)) fALLOW_TO_CONNET_5G"
    using approaching_run by blast
  have "keeps_5g_check approaching" by code_simp
  note p = one_band_on_record [OF t(1) [unfolded booted_def] this]
  have "\<not> flag_set (Control_Flags (Entry table ! 0)) fALLOW_TO_CONNET_2G"
    using conjunct1 [OF p] t(3,4) by auto
  moreover have "admitted IFNAME_2G mac_a approaching_requests"
    using conjunct2 [OF conjunct2 [OF p]] by (simp add: approaching_requests_def)
  moreover have "admitted IFNAME_5G mac_a approaching_requests"
    by (simp add: approaching_requests_def admitted_def admit_step_def)
  ultimately show ?thesis using t by blast
qed

text \<open>
  C21. One pass of the periodic task over any entry, with any settings: the entry that is left and the exact list
  of requests. An entry that has reached its age is left alone and both interfaces are asked to age it
  out. Otherwise its age is recorded, and it is marked as a client of 2.4 GHz only when the check time has passed without
  a sign of it on 5 GHz. It is admitted to 2.4 GHz when it was not and is so marked, or is a
  dual-band client that a condition keeps there (\<open>forced_2g\<close>) or whose 5 GHz signal is weak while it was not
  admitted to 5 GHz. Unless it is so marked, it is then admitted to 5 GHz, in every pass again, when it
  was seen there and, if it was seen on 2.4 GHz as well, no condition keeps it there and its signal
  is known and above the threshold; else it is taken off 5 GHz. Where both bands share one radio, each
  admission is followed by an update with the flags at that moment, and an update stands for the removal.
\<close>

theorem steering_decision:
  "periodic_entry now table e =
    (let el = bndstrg_get_entry_elapsed_time now e;
       req_2g = (\<lambda>action x. Req_Cli (cstr (ifname_2g table)) action (Addr e) (TableIndex e) x);
       req_5g = (\<lambda>action x. Req_Cli (cstr (ifname_5g table)) action (Addr e) (TableIndex e) x)
     in if AgeTime table \<le> el then (e, [req_2g CLI_AGING_REQ None, req_5g CLI_AGING_REQ None])
     else (e\<lparr>elapsed_time := el, Control_Flags := flags_5g table e el\<rparr>,
       (if grant_2g table e el
        then req_2g CLI_ADD None #
          (if dbdc_mode table then [req_2g CLI_UPDATE (Some (flags_2g table e el, el))] else [])
        else []) @
       (if only_2g table el (Control_Flags e) then []
        else if grant_5g table e el
        then req_5g CLI_ADD None #
          (if dbdc_mode table then [req_5g CLI_UPDATE (Some (flags_5g table e el, el))] else [])
        else if dbdc_mode table then [req_5g CLI_UPDATE (Some (flags_5g table e el, el))]
        else [req_5g CLI_DEL None])))"
proof (cases "bndstrg_get_entry_elapsed_time now e < AgeTime table")
  case True
  then have "\<not> AgeTime table \<le> bndstrg_get_entry_elapsed_time now e" by simp
  then show ?thesis unfolding periodic_entry_young [OF True] steer_2g_exact steer_5g_exact Let_def by simp
next
  case False
  then show ?thesis by (simp add: Let_def conjunct1 [OF periodic_entry_aging, rule_format] not_less)
qed

text \<open>A dual-band client with a strong 5 GHz signal, one second after its arrival.\<close>

definition dual_client :: cli_entry where
  "dual_client = (fresh_entry \<lparr>tv_sec = 999, tv_nsec = 0\<rparr> mac_a 0)\<lparr>Control_Flags := fSUPPORT_2G OR fSUPPORT_5G,
     statistics_5G := \<lparr>Rssi = -50, AuthReqCount = 0\<rparr>\<rparr>"

theorem steering_decision_witness:
  "periodic_entry noon booted dual_client =
     (dual_client\<lparr>elapsed_time := 1000, Control_Flags := fSUPPORT_2G OR fSUPPORT_5G OR fALLOW_TO_CONNET_5G\<rparr>,
      [Req_Cli IFNAME_5G CLI_ADD mac_a 0 None])"
  unfolding steering_decision by code_simp

text \<open>
  One pass over a client seen on 2.4 GHz only: it is never admitted to 5 GHz, and it is admitted to
  2.4 GHz once the check time has passed.
\<close>

theorem single_band_decision:
  fixes table e now
  defines "e' \<equiv> fst (periodic_entry now table e)"
  assumes "flags_ok (Control_Flags e)" and "\<not> flag_set (Control_Flags e) fSUPPORT_5G"
    and "bndstrg_get_entry_elapsed_time now e < AgeTime table"
  shows "\<not> flag_set (Control_Flags e') fALLOW_TO_CONNET_5G \<and>
    (flag_set (Control_Flags e') fALLOW_TO_CONNET_2G \<longleftrightarrow>
       flag_set (Control_Flags e) fIS_2G_ONLY \<or>
       CheckTime_5G table \<le> bndstrg_get_entry_elapsed_time now e)"
  using assms(2-) unfolding e'_def by (rule periodic_entry_2g_only)

theorem single_band_decision_witness:
  "\<not> flag_set (Control_Flags (fst (periodic_entry noon booted (fresh_entry noon mac_a 0)))) fALLOW_TO_CONNET_5G"
proof -
  have "flags_ok (Control_Flags (fresh_entry noon mac_a 0))"
      "\<not> flag_set (Control_Flags (fresh_entry noon mac_a 0)) fSUPPORT_5G"
      "bndstrg_get_entry_elapsed_time noon (fresh_entry noon mac_a 0) < AgeTime booted"
    by code_simp+
  from single_band_decision [OF this] show ?thesis by (rule conjunct1)
qed

text \<open>
  An entry that has reached its age is left alone and both drivers are asked to age it out; no entry
  younger than that causes such a request.
\<close>

theorem aging_requests:
  "(AgeTime table \<le> bndstrg_get_entry_elapsed_time now e \<longrightarrow>
     periodic_entry now table e = (e, [Req_Cli (cstr (ifname_2g table)) CLI_AGING_REQ (Addr e) (TableIndex e) None,
       Req_Cli (cstr (ifname_5g table)) CLI_AGING_REQ (Addr e) (TableIndex e) None])) \<and>
   (bndstrg_get_entry_elapsed_time now e < AgeTime table \<longrightarrow>
     (\<forall>ifn a i x. Req_Cli ifn CLI_AGING_REQ a i x \<notin> set (snd (periodic_entry now table e))))"
  by (rule periodic_entry_aging)

theorem aging_requests_witness:
  "periodic_entry \<lparr>tv_sec = 2000, tv_nsec = 0\<rparr> booted (fresh_entry noon mac_a 7) =
     (fresh_entry noon mac_a 7, [Req_Cli [114, 97, 48] CLI_AGING_REQ mac_a 7 None,
        Req_Cli [114, 97, 105, 48] CLI_AGING_REQ mac_a 7 None])"
proof -
  have "AgeTime booted \<le> bndstrg_get_entry_elapsed_time \<lparr>tv_sec = 2000, tv_nsec = 0\<rparr> (fresh_entry noon mac_a 7)"
    by code_simp
  moreover have "cstr (ifname_2g booted) = [114, 97, 48]" "cstr (ifname_5g booted) = [114, 97, 105, 48]"
      "Addr (fresh_entry noon mac_a 7) = mac_a" "TableIndex (fresh_entry noon mac_a 7) = 7"
    by code_simp+
  ultimately show ?thesis using aging_requests by metis
qed

text \<open>
  As long as the clock runs forward and the entry is younger than 49 days, its computed age is the
  real one to within a millisecond.
\<close>

theorem elapsed_time_exact:
  assumes "tv_sec (tp e) \<noteq> 0" and "0 \<le> ns_between (tp e) now"
    and "ns_between (tp e) now \<le> 4294967295 * 1000000"
  shows "\<bar>uint (bndstrg_get_entry_elapsed_time now e) * 1000000 - ns_between (tp e) now\<bar> < 1000000"
proof -
  let ?m = "ms_between (tp e) now"
  have near: "\<bar>?m * 1000000 - ns_between (tp e) now\<bar> < 1000000" by (rule ms_between_near)
  with assms(2,3) have "0 \<le> ?m" "?m < 4294967296" by linarith+
  with near show ?thesis by (simp add: elapsed_time_uint [OF assms(1)])
qed

theorem elapsed_time_exact_witness:
  "\<bar>uint (bndstrg_get_entry_elapsed_time \<lparr>tv_sec = 1001, tv_nsec = 5\<rparr> (fresh_entry noon mac_a 0)) * 1000000
     - 1000000005\<bar> < 1000000"
  using elapsed_time_exact [of "fresh_entry noon mac_a 0" "\<lparr>tv_sec = 1001, tv_nsec = 5\<rparr>"]
  by (simp add: ns_between_def fresh_entry_def noon_def)

text \<open>
  When the wall clock is set back behind the arrival of a client, by up to 49 days less the age
  limit, the computed age wraps around and the client is asked to be aged out at once.
\<close>

theorem clock_step_back_ages_out:
  assumes "tv_sec (tp e) \<noteq> 0" and "ns_between (tp e) now \<le> - 2000000"
    and "- (4294967296 - uint (AgeTime table) - 1) * 1000000 \<le> ns_between (tp e) now"
  shows "AgeTime table \<le> bndstrg_get_entry_elapsed_time now e"
proof -
  let ?m = "ms_between (tp e) now"
  have near: "?m * 1000000 < ns_between (tp e) now + 1000000"
      "ns_between (tp e) now - 1000000 < ?m * 1000000"
    using ms_between_near [of "tp e" now] by linarith+
  have "(uint (AgeTime table) - 4294967296) * 1000000 < ?m * 1000000"
    using near(2) assms(3) by (simp add: algebra_simps)
  then have "uint (AgeTime table) - 4294967296 < ?m" by (rule mult_right_less_imp_less) simp
  with near(1) assms(2) have m: "?m < 0" "uint (AgeTime table) - 4294967296 \<le> ?m" by simp_all
  moreover have "0 \<le> uint (AgeTime table)" by simp
  ultimately have "(?m + 4294967296) mod 4294967296 = ?m + 4294967296" by (intro mod_pos_pos_trivial) linarith+
  then have "?m mod 4294967296 = ?m + 4294967296" by simp
  with m show ?thesis by (simp add: word_le_def elapsed_time_uint [OF assms(1)])
qed

theorem clock_step_back_ages_out_witness:
  "AgeTime booted \<le> bndstrg_get_entry_elapsed_time \<lparr>tv_sec = 999, tv_nsec = 0\<rparr> (fresh_entry noon mac_a 0)"
proof -
  have "AgeTime booted = 150000" by code_simp
  then show ?thesis
    by (intro clock_step_back_ages_out) (simp_all add: ns_between_def fresh_entry_def noon_def)
qed

text \<open>
  C22. Left alone by its drivers, the daemon ends its event loop within four ticks exactly when an
  interface is not ready, steering is not switched on, or a retry counter is spent; otherwise it
  never ends.
\<close>

theorem gives_up_iff_not_ready:
  assumes "daemon_reach table"
  shows "(at_work table \<longrightarrow> (\<forall>n. silent_ticks clock n table \<noteq> None)) \<and>
    (\<not> at_work table \<longrightarrow> silent_ticks clock 4 table = None)"
proof -
  have inv: "daemon_inv table" using assms by (rule daemon_reach_inv)
  then have "bInitialized table" by (simp add: daemon_inv_def)
  moreover have "spare table < 4" by (auto simp: spare_def)
  ultimately show ?thesis using at_work_ticks idle_ticks by blast
qed

theorem gives_up_iff_not_ready_witness:
  "silent_ticks (\<lambda>_. noon) 4 steering = None"
proof -
  have "\<not> at_work steering" by code_simp
  with gives_up_iff_not_ready [OF steering_states(1)] show ?thesis by blast
qed

section \<open>Behaviour outside the contract of the driver\<close>

text \<open>
  A connection request whose band is neither of the two and whose sender can be registered makes
  the daemon follow a NULL pointer, after the sender was registered.
\<close>

theorem unknown_band_null_deref:
  assumes "daemon_reach table" and "bEnabled table"
    and "Size table < of_nat BND_STRG_MAX_TABLE_SIZE" and "band \<noteq> BAND_2G" and "band \<noteq> BAND_5G"
  shows "bndstrg_check_conn_req now table band a ft rssi ht = Inl Null_Deref"
proof -
  have inv: "table_inv table" "bInitialized table"
    using daemon_reach_inv [OF assms(1)] by (simp_all add: daemon_inv_def)
  note lk = lookup_client_map [OF inv(1), of a]
  show ?thesis
  proof (cases "client_map table a")
    case None
    obtain i t where "bndstrg_insert_entry now table a = Inr (BND_STRG_SUCCESS, Some i, t)"
      using insert_entry_correct [OF inv(1) None assms(3)] by metis
    with None lk inv(2) assms(2,4,5) show ?thesis by (simp add: bndstrg_check_conn_req_def)
  next
    case (Some i)
    with lk inv(2) assms(2,4,5) show ?thesis by (simp add: bndstrg_check_conn_req_def)
  qed
qed

theorem unknown_band_null_deref_witness:
  "bndstrg_check_conn_req noon steering 0 mac_a 0 (-50, 0, 0, 0) 1 = Inl Null_Deref"
  by (rule unknown_band_null_deref [OF steering_states(1)]) (simp_all add: steering_fields)

text \<open>
  A removal message whose position and address do not belong together clears the entry but takes
  it out of the wrong bucket. The bucket of the removed client keeps pointing at the entry that is
  not in use, the search stops there, and the client is never registered again by its requests.
\<close>

theorem mismatched_removal_hides_client:
  "\<exists>table. run_msgs (\<lambda>_. noon) [on_msg, conn_msg mac_a, del_msg 0 mac_b, conn_msg mac_a] booted = Inr table \<and>
     client_map table mac_a = None \<and> bndstrg_table_lookup table mac_a = Inr (Some 0) \<and>
     \<not> bValid (Entry table ! 0)"
proof -
  let ?t = "projr (run_msgs (\<lambda>_. noon) [on_msg, conn_msg mac_a, del_msg 0 mac_b, conn_msg mac_a] booted)"
  have "run_msgs (\<lambda>_. noon) [on_msg, conn_msg mac_a, del_msg 0 mac_b, conn_msg mac_a] booted = Inr ?t"
    by code_simp
  moreover have "client_map ?t mac_a = None" by code_simp
  moreover have "bndstrg_table_lookup ?t mac_a = Inr (Some 0)" by code_simp
  moreover have "\<not> bValid (Entry ?t ! 0)" by code_simp
  ultimately show ?thesis by blast
qed

text \<open>
  On its way out, the daemon switches steering off in the drivers of exactly those bands for
  which it is already off (unless both bands share one radio, where this holds for 5 GHz only): with
  steering on for both bands it tells no driver anything.
\<close>

theorem exit_switches_off_wrong_bands:
  "bndstrg_run_exit table =
     (if (Band table AND BAND_2G = BAND_2G) = dbdc_mode table
      then [Req_OnOff (cstr (ifname_2g table)) 0] else []) @
     (if Band table AND BAND_5G = BAND_5G then [] else [Req_OnOff (cstr (ifname_5g table)) 0])"
  by (simp add: bndstrg_run_exit_def ifname_2g_def ifname_5g_def driver_wext_bndstrg_onoff_def)

end
