(* ===== verification/Eapol_SM.thy ===== *)
theory Eapol_SM
  imports Prelude
begin

text \<open>
  The port access control state machines of the 802.1X authenticator
  (\<open>package/ramips/applications/8021xd/src/eapol_sm.c\<close> and \<open>eapol_sm.h\<close>): the authenticator machine,
  the backend machine, the reauthentication timer and the key transmission machine of one station,
  the loop that runs them until no machine changes its state, the one-second timer and the
  initialisation.

  The machines act on the station through six procedures of \<open>ieee802_1x.c\<close> that do not write the
  state machine; the field \<open>log\<close> records their calls in order. The pointers back to the daemon and
  to the station are left out. Timers are C \<open>int\<close>s, the constants they are loaded from are
  \<open>unsigned int\<close>s.
\<close>

section \<open>Data\<close>

datatype PortTypes = ForceUnauthorized | ForceAuthorized | Auto

datatype PortState = Unauthorized | Authorized

datatype auth_pae_state =
    AUTH_PAE_INITIALIZE | AUTH_PAE_DISCONNECTED | AUTH_PAE_CONNECTING | AUTH_PAE_AUTHENTICATING
  | AUTH_PAE_AUTHENTICATED | AUTH_PAE_ABORTING | AUTH_PAE_HELD | AUTH_PAE_FORCE_AUTH
  | AUTH_PAE_FORCE_UNAUTH

datatype be_auth_state =
    BE_AUTH_REQUEST | BE_AUTH_RESPONSE | BE_AUTH_SUCCESS | BE_AUTH_FAIL | BE_AUTH_TIMEOUT
  | BE_AUTH_IDLE | BE_AUTH_INITIALIZE

datatype reauth_timer_state = REAUTH_TIMER_INITIALIZE | REAUTH_TIMER_REAUTHENTICATE

datatype auth_key_tx_state = AUTH_KEY_TX_NO_KEY_TRANSMIT | AUTH_KEY_TX_KEY_TRANSMIT

record eapol_auth_pae_sm =
  eapLogoff :: bool
  eapStart :: bool
  portMode :: PortTypes
  reAuthCount :: u32
  rxInitialRsp :: bool
  quietPeriod :: u32
  reAuthMax :: u32
  txPeriod :: u32
  authEntersConnecting :: u32
  authEapLogoffsWhileConnecting :: u32
  authEntersAuthenticating :: u32
  authAuthSuccessesWhileAuthenticating :: u32
  authAuthTimeoutsWhileAuthenticating :: u32
  authAuthFailWhileAuthenticating :: u32
  authAuthReauthsWhileAuthenticating :: u32
  authAuthEapStartsWhileAuthenticating :: u32
  authAuthEapLogoffWhileAuthenticating :: u32
  authAuthReauthsWhileAuthenticated :: u32
  authAuthEapStartsWhileAuthenticated :: u32
  authAuthEapLogoffWhileAuthenticated :: u32
  pae_state :: auth_pae_state

record eapol_backend_auth_sm =
  reqCount :: u32
  rxResp :: bool
  aSuccess :: bool
  aFail :: bool
  aReq :: bool
  idFromServer :: u8
  suppTimeout :: u32
  serverTimeout :: u32
  maxReq :: u32
  backendResponses :: u32
  backendAccessChallenges :: u32
  backendOtherRequestsToSupplicant :: u32
  backendNonNakResponsesFromSupplicant :: u32
  backendAuthSuccesses :: u32
  backendAuthFails :: u32
  be_state :: be_auth_state

record eapol_reauth_timer_sm =
  reAuthPeriod :: u32
  reAuthEnabled :: bool
  reauth_state :: reauth_timer_state

record eapol_auth_key_tx =
  key_state :: auth_key_tx_state

text \<open>Calls of the procedures of the authenticator for the station of the machine.\<close>

datatype sm_action =
    Set_Authorized bool
  | Tx_Canned_Eap u8 bool
  | Request_Identity u8
  | Tx_Req u8
  | Send_Resp_To_Server
  | Tx_Key u8

record eapol_state_machine =
  aWhile :: int
  quietWhile :: int
  reAuthWhen :: int
  txWhen :: int
  authAbort :: bool
  authFail :: bool
  authStart :: bool
  authTimeout :: bool
  authSuccess :: bool
  currentId :: u8
  initialize :: bool
  keyAvailable :: bool
  keyTxEnabled :: bool
  portControl :: PortTypes
  portEnabled :: bool
  portStatus :: PortState
  portValid :: bool
  reAuthenticate :: bool
  auth_pae :: eapol_auth_pae_sm
  be_auth :: eapol_backend_auth_sm
  reauth_timer :: eapol_reauth_timer_sm
  auth_key_tx :: eapol_auth_key_tx
  log :: "sm_action list"

definition emit :: "sm_action \<Rightarrow> eapol_state_machine \<Rightarrow> eapol_state_machine" where
  "emit a sm = sm\<lparr>log := log sm @ [a]\<rparr>"

definition upd_pae :: "(eapol_auth_pae_sm \<Rightarrow> eapol_auth_pae_sm) \<Rightarrow> eapol_state_machine \<Rightarrow> eapol_state_machine" where
  "upd_pae f sm = sm\<lparr>auth_pae := f (auth_pae sm)\<rparr>"

definition upd_be :: "(eapol_backend_auth_sm \<Rightarrow> eapol_backend_auth_sm) \<Rightarrow> eapol_state_machine \<Rightarrow> eapol_state_machine" where
  "upd_be f sm = sm\<lparr>be_auth := f (be_auth sm)\<rparr>"

definition next_id :: "eapol_state_machine \<Rightarrow> eapol_state_machine" where
  "next_id sm = sm\<lparr>currentId := currentId sm + 1\<rparr>"

text \<open>A statistics counter is incremented when its condition holds.\<close>

definition count_if :: "bool \<Rightarrow> u32 \<Rightarrow> u32" where
  "count_if b c = (if b then c + 1 else c)"

section \<open>The authenticator machine\<close>

definition sm_AUTH_PAE_INITIALIZE_Enter :: "eapol_state_machine \<Rightarrow> eapol_state_machine" where
  "sm_AUTH_PAE_INITIALIZE_Enter sm =
     upd_pae (\<lambda>p. p\<lparr>pae_state := AUTH_PAE_INITIALIZE, portMode := Auto\<rparr>) (sm\<lparr>currentId := 1\<rparr>)"

definition sm_AUTH_PAE_DISCONNECTED_Enter :: "eapol_state_machine \<Rightarrow> eapol_state_machine" where
  "sm_AUTH_PAE_DISCONNECTED_Enter sm =
     (let from_initialize = (pae_state (auth_pae sm) = AUTH_PAE_INITIALIZE);
        sm1 = upd_pae (\<lambda>p. p\<lparr>authEapLogoffsWhileConnecting :=
          count_if (pae_state p = AUTH_PAE_CONNECTING \<and> eapLogoff p) (authEapLogoffsWhileConnecting p)\<rparr>) sm;
        sm2 = emit (Set_Authorized False)
          ((upd_pae (\<lambda>p. p\<lparr>pae_state := AUTH_PAE_DISCONNECTED\<rparr>) sm1)\<lparr>portStatus := Unauthorized\<rparr>);
        sm3 = upd_pae (\<lambda>p. p\<lparr>eapLogoff := False, reAuthCount := 0\<rparr>) sm2
      in if \<not> from_initialize then next_id (emit (Tx_Canned_Eap (currentId sm3) False) sm3) else sm3)"

definition sm_AUTH_PAE_CONNECTING_Enter :: "eapol_state_machine \<Rightarrow> eapol_state_machine" where
  "sm_AUTH_PAE_CONNECTING_Enter sm =
     (let from_auth = (pae_state (auth_pae sm) = AUTH_PAE_AUTHENTICATED);
        sm1 = upd_pae (\<lambda>p. p\<lparr>
          authEntersConnecting := count_if (pae_state p \<noteq> AUTH_PAE_CONNECTING) (authEntersConnecting p),
          authAuthReauthsWhileAuthenticated :=
            count_if (from_auth \<and> reAuthenticate sm) (authAuthReauthsWhileAuthenticated p),
          authAuthEapStartsWhileAuthenticated :=
            count_if (from_auth \<and> eapStart p) (authAuthEapStartsWhileAuthenticated p),
          authAuthEapLogoffWhileAuthenticated :=
            count_if (from_auth \<and> eapLogoff p) (authAuthEapLogoffWhileAuthenticated p),
          pae_state := AUTH_PAE_CONNECTING, eapStart := False\<rparr>) sm;
        sm2 = sm1\<lparr>reAuthenticate := False, txWhen := sint (txPeriod (auth_pae sm1))\<rparr>;
        sm3 = emit (Request_Identity (currentId sm2)) (upd_pae (\<lambda>p. p\<lparr>rxInitialRsp := False\<rparr>) sm2)
      in upd_pae (\<lambda>p. p\<lparr>reAuthCount := reAuthCount p + 1\<rparr>) sm3)"

definition sm_AUTH_PAE_HELD_Enter :: "eapol_state_machine \<Rightarrow> eapol_state_machine" where
  "sm_AUTH_PAE_HELD_Enter sm =
     (let sm1 = upd_pae (\<lambda>p. p\<lparr>authAuthFailWhileAuthenticating :=
          count_if (pae_state p = AUTH_PAE_AUTHENTICATING \<and> authFail sm) (authAuthFailWhileAuthenticating p),
          pae_state := AUTH_PAE_HELD\<rparr>) sm;
        sm2 = emit (Set_Authorized False) (sm1\<lparr>portStatus := Unauthorized\<rparr>);
        sm3 = sm2\<lparr>quietWhile := sint (quietPeriod (auth_pae sm2))\<rparr>
      in next_id (upd_pae (\<lambda>p. p\<lparr>eapLogoff := False\<rparr>) sm3))"

definition sm_AUTH_PAE_AUTHENTICATED_Enter :: "eapol_state_machine \<Rightarrow> eapol_state_machine" where
  "sm_AUTH_PAE_AUTHENTICATED_Enter sm =
     (let sm1 = upd_pae (\<lambda>p. p\<lparr>authAuthSuccessesWhileAuthenticating :=
          count_if (pae_state p = AUTH_PAE_AUTHENTICATING \<and> authSuccess sm)
            (authAuthSuccessesWhileAuthenticating p),
          pae_state := AUTH_PAE_AUTHENTICATED\<rparr>) sm;
        sm2 = emit (Set_Authorized True) (sm1\<lparr>portStatus := Authorized\<rparr>)
      in next_id (upd_pae (\<lambda>p. p\<lparr>reAuthCount := 0\<rparr>) sm2))"

definition sm_AUTH_PAE_AUTHENTICATING_Enter :: "eapol_state_machine \<Rightarrow> eapol_state_machine" where
  "sm_AUTH_PAE_AUTHENTICATING_Enter sm =
     (upd_pae (\<lambda>p. p\<lparr>authEntersAuthenticating :=
          count_if (pae_state p = AUTH_PAE_CONNECTING \<and> rxInitialRsp p) (authEntersAuthenticating p),
          pae_state := AUTH_PAE_AUTHENTICATING\<rparr>) sm)
       \<lparr>authSuccess := False, authFail := False, authTimeout := False, authStart := True\<rparr>"

definition sm_AUTH_PAE_ABORTING_Enter :: "eapol_state_machine \<Rightarrow> eapol_state_machine" where
  "sm_AUTH_PAE_ABORTING_Enter sm =
     (let from_auth = (pae_state (auth_pae sm) = AUTH_PAE_AUTHENTICATING);
        sm1 = upd_pae (\<lambda>p. p\<lparr>
          authAuthTimeoutsWhileAuthenticating :=
            count_if (from_auth \<and> authTimeout sm) (authAuthTimeoutsWhileAuthenticating p),
          authAuthReauthsWhileAuthenticating :=
            count_if (from_auth \<and> reAuthenticate sm) (authAuthReauthsWhileAuthenticating p),
          authAuthEapStartsWhileAuthenticating :=
            count_if (from_auth \<and> eapStart p) (authAuthEapStartsWhileAuthenticating p),
          authAuthEapLogoffWhileAuthenticating :=
            count_if (from_auth \<and> eapLogoff p) (authAuthEapLogoffWhileAuthenticating p),
          pae_state := AUTH_PAE_ABORTING\<rparr>) sm
      in next_id (sm1\<lparr>authAbort := True\<rparr>))"

definition sm_AUTH_PAE_FORCE_AUTH_Enter :: "eapol_state_machine \<Rightarrow> eapol_state_machine" where
  "sm_AUTH_PAE_FORCE_AUTH_Enter sm =
     (let sm1 = upd_pae (\<lambda>p. p\<lparr>pae_state := AUTH_PAE_FORCE_AUTH\<rparr>) sm;
        sm2 = emit (Set_Authorized True) (sm1\<lparr>portStatus := Authorized\<rparr>);
        sm3 = upd_pae (\<lambda>p. p\<lparr>portMode := ForceAuthorized, eapStart := False\<rparr>) sm2
      in next_id (emit (Tx_Canned_Eap (currentId sm3) True) sm3))"

definition sm_AUTH_PAE_FORCE_UNAUTH_Enter :: "eapol_state_machine \<Rightarrow> eapol_state_machine" where
  "sm_AUTH_PAE_FORCE_UNAUTH_Enter sm =
     (let sm1 = upd_pae (\<lambda>p. p\<lparr>pae_state := AUTH_PAE_FORCE_UNAUTH\<rparr>) sm;
        sm2 = emit (Set_Authorized False) (sm1\<lparr>portStatus := Unauthorized\<rparr>);
        sm3 = upd_pae (\<lambda>p. p\<lparr>portMode := ForceUnauthorized, eapStart := False\<rparr>) sm2
      in next_id (emit (Tx_Canned_Eap (currentId sm3) False) sm3))"

definition sm_AUTH_PAE_Step :: "eapol_state_machine \<Rightarrow> eapol_state_machine" where
  "sm_AUTH_PAE_Step sm =
     (let p = auth_pae sm in
      if (portControl sm = Auto \<and> portMode p \<noteq> portControl sm) \<or> initialize sm \<or> \<not> portEnabled sm
      then sm_AUTH_PAE_INITIALIZE_Enter sm
      else if portControl sm = ForceAuthorized \<and> portMode p \<noteq> portControl sm \<and>
          \<not> (initialize sm \<or> \<not> portEnabled sm)
      then sm_AUTH_PAE_FORCE_AUTH_Enter sm
      else if portControl sm = ForceUnauthorized \<and> portMode p \<noteq> portControl sm \<and>
          \<not> (initialize sm \<or> \<not> portEnabled sm)
      then sm_AUTH_PAE_FORCE_UNAUTH_Enter sm
      else case pae_state p of
        AUTH_PAE_INITIALIZE \<Rightarrow> sm_AUTH_PAE_DISCONNECTED_Enter sm
      | AUTH_PAE_DISCONNECTED \<Rightarrow> sm_AUTH_PAE_CONNECTING_Enter sm
      | AUTH_PAE_HELD \<Rightarrow> if quietWhile sm = 0 then sm_AUTH_PAE_CONNECTING_Enter sm else sm
      | AUTH_PAE_CONNECTING \<Rightarrow>
          if eapLogoff p \<or> reAuthMax p < reAuthCount p then sm_AUTH_PAE_DISCONNECTED_Enter sm
          else if rxInitialRsp p \<and> reAuthCount p \<le> reAuthMax p then sm_AUTH_PAE_AUTHENTICATING_Enter sm
          else if (txWhen sm = 0 \<or> eapStart p \<or> reAuthenticate sm) \<and> reAuthCount p \<le> reAuthMax p
            then sm_AUTH_PAE_CONNECTING_Enter sm
          else sm
      | AUTH_PAE_AUTHENTICATED \<Rightarrow>
          if eapStart p \<or> reAuthenticate sm then sm_AUTH_PAE_CONNECTING_Enter sm
          else if eapLogoff p \<or> \<not> portValid sm then sm_AUTH_PAE_DISCONNECTED_Enter sm
          else sm
      | AUTH_PAE_AUTHENTICATING \<Rightarrow>
          if authSuccess sm \<and> portValid sm then sm_AUTH_PAE_AUTHENTICATED_Enter sm
          else if authFail sm then sm_AUTH_PAE_HELD_Enter sm
          else if reAuthenticate sm \<or> eapStart p \<or> eapLogoff p \<or> authTimeout sm
            then sm_AUTH_PAE_ABORTING_Enter sm
          else sm
      | AUTH_PAE_ABORTING \<Rightarrow>
          if eapLogoff p \<and> \<not> authAbort sm then sm_AUTH_PAE_DISCONNECTED_Enter sm
          else if \<not> eapLogoff p \<and> \<not> authAbort sm then sm_AUTH_PAE_CONNECTING_Enter sm
          else sm
      | AUTH_PAE_FORCE_AUTH \<Rightarrow> if eapStart p then sm_AUTH_PAE_FORCE_AUTH_Enter sm else sm
      | AUTH_PAE_FORCE_UNAUTH \<Rightarrow> if eapStart p then sm_AUTH_PAE_FORCE_UNAUTH_Enter sm else sm)"

section \<open>The backend machine\<close>

definition sm_BE_AUTH_INITIALIZE_Enter :: "eapol_state_machine \<Rightarrow> eapol_state_machine" where
  "sm_BE_AUTH_INITIALIZE_Enter sm =
     (upd_be (\<lambda>b. b\<lparr>be_state := BE_AUTH_INITIALIZE\<rparr>) sm)\<lparr>authAbort := False\<rparr>"

definition sm_BE_AUTH_REQUEST_Enter :: "eapol_state_machine \<Rightarrow> eapol_state_machine" where
  "sm_BE_AUTH_REQUEST_Enter sm =
     (let sm1 = upd_be (\<lambda>b. b\<lparr>be_state := BE_AUTH_REQUEST\<rparr>) sm;
        sm2 = sm1\<lparr>currentId := idFromServer (be_auth sm1)\<rparr>;
        sm3 = upd_be (\<lambda>b. b\<lparr>backendOtherRequestsToSupplicant := backendOtherRequestsToSupplicant b + 1\<rparr>)
          (emit (Tx_Req (currentId sm2)) sm2);
        sm4 = sm3\<lparr>aWhile := sint (suppTimeout (be_auth sm3))\<rparr>
      in upd_be (\<lambda>b. b\<lparr>reqCount := reqCount b + 1\<rparr>) sm4)"

definition sm_BE_AUTH_RESPONSE_Enter :: "eapol_state_machine \<Rightarrow> eapol_state_machine" where
  "sm_BE_AUTH_RESPONSE_Enter sm =
     (let sm1 = upd_be (\<lambda>b. b\<lparr>be_state := BE_AUTH_RESPONSE, aReq := False, aSuccess := False,
          rxResp := False, aFail := False, reqCount := 0\<rparr>) sm;
        sm2 = sm1\<lparr>authTimeout := False, aWhile := sint (serverTimeout (be_auth sm1))\<rparr>
      in upd_be (\<lambda>b. b\<lparr>backendResponses := backendResponses b + 1\<rparr>) (emit Send_Resp_To_Server sm2))"

definition sm_BE_AUTH_SUCCESS_Enter :: "eapol_state_machine \<Rightarrow> eapol_state_machine" where
  "sm_BE_AUTH_SUCCESS_Enter sm =
     (let sm1 = upd_be (\<lambda>b. b\<lparr>be_state := BE_AUTH_SUCCESS\<rparr>) sm;
        sm2 = sm1\<lparr>currentId := idFromServer (be_auth sm1)\<rparr>
      in (emit (Tx_Req (currentId sm2)) sm2)\<lparr>authSuccess := True\<rparr>)"

definition sm_BE_AUTH_FAIL_Enter :: "eapol_state_machine \<Rightarrow> eapol_state_machine" where
  "sm_BE_AUTH_FAIL_Enter sm =
     (let sm1 = upd_be (\<lambda>b. b\<lparr>be_state := BE_AUTH_FAIL\<rparr>) sm;
        sm2 = sm1\<lparr>currentId := idFromServer (be_auth sm1)\<rparr>
      in (emit (Tx_Req (currentId sm2)) sm2)\<lparr>authFail := True\<rparr>)"

definition sm_BE_AUTH_TIMEOUT_Enter :: "eapol_state_machine \<Rightarrow> eapol_state_machine" where
  "sm_BE_AUTH_TIMEOUT_Enter sm =
     (let sm1 = upd_be (\<lambda>b. b\<lparr>be_state := BE_AUTH_TIMEOUT\<rparr>) sm;
        sm2 = (if portStatus sm1 = Unauthorized then emit (Tx_Canned_Eap (currentId sm1) False) sm1 else sm1)
      in sm2\<lparr>authTimeout := True\<rparr>)"

definition sm_BE_AUTH_IDLE_Enter :: "eapol_state_machine \<Rightarrow> eapol_state_machine" where
  "sm_BE_AUTH_IDLE_Enter sm =
     (upd_be (\<lambda>b. b\<lparr>be_state := BE_AUTH_IDLE, reqCount := 0\<rparr>) sm)\<lparr>authStart := False\<rparr>"

definition sm_BE_AUTH_Step :: "eapol_state_machine \<Rightarrow> eapol_state_machine" where
  "sm_BE_AUTH_Step sm =
     (let b = be_auth sm in
      if portControl sm \<noteq> Auto \<or> initialize sm \<or> authAbort sm then sm_BE_AUTH_INITIALIZE_Enter sm
      else case be_state b of
        BE_AUTH_INITIALIZE \<Rightarrow> sm_BE_AUTH_IDLE_Enter sm
      | BE_AUTH_REQUEST \<Rightarrow>
          if aWhile sm = 0 \<and> reqCount b \<noteq> maxReq b then sm_BE_AUTH_REQUEST_Enter sm
          else if rxResp b then sm_BE_AUTH_RESPONSE_Enter sm
          else if aWhile sm = 0 \<and> maxReq b \<le> reqCount b then sm_BE_AUTH_TIMEOUT_Enter sm
          else sm
      | BE_AUTH_RESPONSE \<Rightarrow>
          if aReq b then sm_BE_AUTH_REQUEST_Enter
            (upd_be (\<lambda>b. b\<lparr>backendAccessChallenges := backendAccessChallenges b + 1\<rparr>) sm)
          else if aWhile sm = 0 then sm_BE_AUTH_TIMEOUT_Enter sm
          else if aFail b then sm_BE_AUTH_FAIL_Enter
            (upd_be (\<lambda>b. b\<lparr>backendAuthFails := backendAuthFails b + 1\<rparr>) sm)
          else if aSuccess b then sm_BE_AUTH_SUCCESS_Enter
            (upd_be (\<lambda>b. b\<lparr>backendAuthSuccesses := backendAuthSuccesses b + 1\<rparr>) sm)
          else sm
      | BE_AUTH_SUCCESS \<Rightarrow> sm_BE_AUTH_IDLE_Enter sm
      | BE_AUTH_FAIL \<Rightarrow> sm_BE_AUTH_IDLE_Enter sm
      | BE_AUTH_TIMEOUT \<Rightarrow> sm_BE_AUTH_IDLE_Enter sm
      | BE_AUTH_IDLE \<Rightarrow> if authStart sm then sm_BE_AUTH_RESPONSE_Enter sm else sm)"

section \<open>Reauthentication timer and key transmission\<close>

definition sm_REAUTH_TIMER_INITIALIZE_Enter :: "eapol_state_machine \<Rightarrow> eapol_state_machine" where
  "sm_REAUTH_TIMER_INITIALIZE_Enter sm =
     sm\<lparr>reauth_timer := (reauth_timer sm)\<lparr>reauth_state := REAUTH_TIMER_INITIALIZE\<rparr>,
        reAuthWhen := sint (reAuthPeriod (reauth_timer sm))\<rparr>"

definition sm_REAUTH_TIMER_REAUTHENTICATE_Enter :: "eapol_state_machine \<Rightarrow> eapol_state_machine" where
  "sm_REAUTH_TIMER_REAUTHENTICATE_Enter sm =
     sm\<lparr>reauth_timer := (reauth_timer sm)\<lparr>reauth_state := REAUTH_TIMER_REAUTHENTICATE\<rparr>,
        reAuthenticate := True\<rparr>"

definition sm_REAUTH_TIMER_Step :: "eapol_state_machine \<Rightarrow> eapol_state_machine" where
  "sm_REAUTH_TIMER_Step sm =
     (if portControl sm \<noteq> Auto \<or> initialize sm \<or> portStatus sm = Unauthorized \<or>
         \<not> reAuthEnabled (reauth_timer sm)
      then sm_REAUTH_TIMER_INITIALIZE_Enter sm
      else case reauth_state (reauth_timer sm) of
        REAUTH_TIMER_INITIALIZE \<Rightarrow>
          if reAuthWhen sm = 0 then sm_REAUTH_TIMER_REAUTHENTICATE_Enter sm else sm
      | REAUTH_TIMER_REAUTHENTICATE \<Rightarrow> sm_REAUTH_TIMER_INITIALIZE_Enter sm)"

definition sm_AUTH_KEY_TX_NO_KEY_TRANSMIT_Enter :: "eapol_state_machine \<Rightarrow> eapol_state_machine" where
  "sm_AUTH_KEY_TX_NO_KEY_TRANSMIT_Enter sm =
     sm\<lparr>auth_key_tx := \<lparr>key_state = AUTH_KEY_TX_NO_KEY_TRANSMIT\<rparr>\<rparr>"

definition sm_AUTH_KEY_TX_KEY_TRANSMIT_Enter :: "eapol_state_machine \<Rightarrow> eapol_state_machine" where
  "sm_AUTH_KEY_TX_KEY_TRANSMIT_Enter sm =
     (emit (Tx_Key (currentId sm)) (sm\<lparr>auth_key_tx := \<lparr>key_state = AUTH_KEY_TX_KEY_TRANSMIT\<rparr>\<rparr>))
       \<lparr>keyAvailable := False\<rparr>"

definition sm_AUTH_KEY_TX_Step :: "eapol_state_machine \<Rightarrow> eapol_state_machine" where
  "sm_AUTH_KEY_TX_Step sm =
     (if initialize sm \<or> portControl sm \<noteq> Auto then sm_AUTH_KEY_TX_NO_KEY_TRANSMIT_Enter sm
      else case key_state (auth_key_tx sm) of
        AUTH_KEY_TX_NO_KEY_TRANSMIT \<Rightarrow>
          if keyTxEnabled sm \<and> keyAvailable sm \<and> authSuccess sm
          then sm_AUTH_KEY_TX_KEY_TRANSMIT_Enter sm else sm
      | AUTH_KEY_TX_KEY_TRANSMIT \<Rightarrow>
          if \<not> keyTxEnabled sm \<or> authFail sm \<or> eapLogoff (auth_pae sm)
          then sm_AUTH_KEY_TX_NO_KEY_TRANSMIT_Enter sm
          else if keyAvailable sm then sm_AUTH_KEY_TX_KEY_TRANSMIT_Enter sm else sm)"

section \<open>The loop, the timer and the initialisation\<close>

text \<open>One pass of the loop of \<open>eapol_sm_step\<close> and the four states that it compares.\<close>

definition sm_pass :: "eapol_state_machine \<Rightarrow> eapol_state_machine" where
  "sm_pass sm = sm_AUTH_KEY_TX_Step (sm_REAUTH_TIMER_Step (sm_BE_AUTH_Step (sm_AUTH_PAE_Step sm)))"

definition sm_states :: "eapol_state_machine \<Rightarrow>
    auth_pae_state \<times> be_auth_state \<times> reauth_timer_state \<times> auth_key_tx_state" where
  "sm_states sm = (pae_state (auth_pae sm), be_state (be_auth sm), reauth_state (reauth_timer sm),
     key_state (auth_key_tx sm))"

text \<open>The loop; \<open>None\<close> when it does not end.\<close>

partial_function (option) eapol_sm_step :: "eapol_state_machine \<Rightarrow> eapol_state_machine option" where
  [code]: "eapol_sm_step sm =
     (let sm' = sm_pass sm in if sm_states sm' = sm_states sm then Some sm' else eapol_sm_step sm')"

definition eapol_sm_initialize :: "eapol_state_machine \<Rightarrow> eapol_state_machine option" where
  "eapol_sm_initialize sm =
     Option.bind (eapol_sm_step (sm\<lparr>initialize := True\<rparr>)) (\<lambda>sm1. eapol_sm_step (sm1\<lparr>initialize := False\<rparr>))"

definition eapol_port_timers_tick :: "eapol_state_machine \<Rightarrow> eapol_state_machine option" where
  "eapol_port_timers_tick state =
     (let dec = (\<lambda>t. if 0 < t then t - 1 else t)
      in eapol_sm_step (state\<lparr>aWhile := dec (aWhile state), quietWhile := dec (quietWhile state),
        reAuthWhen := dec (reAuthWhen state), txWhen := dec (txWhen state)\<rparr>))"

text \<open>\<open>memset(sm, 0, sizeof *sm)\<close>; the first constructor of each enumeration has the value 0.\<close>

definition zero_sm :: eapol_state_machine where
  "zero_sm = \<lparr>aWhile = 0, quietWhile = 0, reAuthWhen = 0, txWhen = 0, authAbort = False, authFail = False,
     authStart = False, authTimeout = False, authSuccess = False, currentId = 0, initialize = False,
     keyAvailable = False, keyTxEnabled = False, portControl = ForceUnauthorized, portEnabled = False,
     portStatus = Unauthorized, portValid = False, reAuthenticate = False,
     auth_pae = \<lparr>eapLogoff = False, eapStart = False, portMode = ForceUnauthorized, reAuthCount = 0,
       rxInitialRsp = False, quietPeriod = 0, reAuthMax = 0, txPeriod = 0, authEntersConnecting = 0,
       authEapLogoffsWhileConnecting = 0, authEntersAuthenticating = 0,
       authAuthSuccessesWhileAuthenticating = 0, authAuthTimeoutsWhileAuthenticating = 0,
       authAuthFailWhileAuthenticating = 0, authAuthReauthsWhileAuthenticating = 0,
       authAuthEapStartsWhileAuthenticating = 0, authAuthEapLogoffWhileAuthenticating = 0,
       authAuthReauthsWhileAuthenticated = 0, authAuthEapStartsWhileAuthenticated = 0,
       authAuthEapLogoffWhileAuthenticated = 0, pae_state = AUTH_PAE_INITIALIZE\<rparr>,
     be_auth = \<lparr>reqCount = 0, rxResp = False, aSuccess = False, aFail = False, aReq = False,
       idFromServer = 0, suppTimeout = 0, serverTimeout = 0, maxReq = 0, backendResponses = 0,
       backendAccessChallenges = 0, backendOtherRequestsToSupplicant = 0,
       backendNonNakResponsesFromSupplicant = 0, backendAuthSuccesses = 0, backendAuthFails = 0,
       be_state = BE_AUTH_REQUEST\<rparr>,
     reauth_timer = \<lparr>reAuthPeriod = 0, reAuthEnabled = False, reauth_state = REAUTH_TIMER_INITIALIZE\<rparr>,
     auth_key_tx = \<lparr>key_state = AUTH_KEY_TX_NO_KEY_TRANSMIT\<rparr>, log = []\<rparr>"

text \<open>The settings of the daemon that the machines read.\<close>

record dot1x_conf =
  quiet_interval :: u32
  session_timeout_set :: int
  session_timeout_interval :: u32

definition eapol_sm_alloc :: "dot1x_conf \<Rightarrow> eapol_state_machine option" where
  "eapol_sm_alloc conf = eapol_sm_initialize (zero_sm\<lparr>
     auth_pae := (auth_pae zero_sm)\<lparr>pae_state := AUTH_PAE_INITIALIZE, quietPeriod := quiet_interval conf,
       reAuthMax := 2, txPeriod := 30\<rparr>,
     be_auth := (be_auth zero_sm)\<lparr>be_state := BE_AUTH_INITIALIZE, suppTimeout := 30,
       serverTimeout := 30, maxReq := 2\<rparr>,
     reauth_timer := \<lparr>reAuthPeriod =
         (if session_timeout_set conf = 1 then session_timeout_interval conf else 3600),
       reAuthEnabled = True, reauth_state = REAUTH_TIMER_INITIALIZE\<rparr>,
     portEnabled := False, portControl := Auto, currentId := 1, keyAvailable := False,
     keyTxEnabled := True, portValid := True\<rparr>)"

end
