(* ===== verification/Eapol_Termination.thy ===== *)
theory Eapol_Termination
  imports Eapol_SM
begin

text \<open>
  The loop of \<open>eapol_sm_step\<close> ends. Each of the four machines has a potential that bounds the number
  of its state changes inside the loop; a step of any machine never raises the sum of the
  potentials and lowers it when the machine changes its state. What the loop relies on are the
  constants of the machines: at least one retry, and periods that are not zero.
\<close>

lemmas upd_defs = emit_def upd_pae_def upd_be_def next_id_def

lemmas pae_enter_defs =
  sm_AUTH_PAE_INITIALIZE_Enter_def sm_AUTH_PAE_DISCONNECTED_Enter_def sm_AUTH_PAE_CONNECTING_Enter_def
  sm_AUTH_PAE_HELD_Enter_def sm_AUTH_PAE_AUTHENTICATED_Enter_def sm_AUTH_PAE_AUTHENTICATING_Enter_def
  sm_AUTH_PAE_ABORTING_Enter_def sm_AUTH_PAE_FORCE_AUTH_Enter_def sm_AUTH_PAE_FORCE_UNAUTH_Enter_def

lemmas be_enter_defs =
  sm_BE_AUTH_INITIALIZE_Enter_def sm_BE_AUTH_REQUEST_Enter_def sm_BE_AUTH_RESPONSE_Enter_def
  sm_BE_AUTH_SUCCESS_Enter_def sm_BE_AUTH_FAIL_Enter_def sm_BE_AUTH_TIMEOUT_Enter_def
  sm_BE_AUTH_IDLE_Enter_def

lemmas reauth_enter_defs =
  sm_REAUTH_TIMER_INITIALIZE_Enter_def sm_REAUTH_TIMER_REAUTHENTICATE_Enter_def

lemmas key_enter_defs =
  sm_AUTH_KEY_TX_NO_KEY_TRANSMIT_Enter_def sm_AUTH_KEY_TX_KEY_TRANSMIT_Enter_def

section \<open>Potentials\<close>

definition sm_const_ok :: "eapol_state_machine \<Rightarrow> bool" where
  "sm_const_ok sm \<longleftrightarrow> reAuthMax (auth_pae sm) \<noteq> 0 \<and> txPeriod (auth_pae sm) \<noteq> 0 \<and>
     serverTimeout (be_auth sm) \<noteq> 0 \<and> reAuthPeriod (reauth_timer sm) \<noteq> 0"

definition pae_pot :: "eapol_state_machine \<Rightarrow> nat" where
  "pae_pot sm = (let p = auth_pae sm in
     if initialize sm \<or> \<not> portEnabled sm then (if pae_state p = AUTH_PAE_INITIALIZE then 0 else 1)
     else if portControl sm = Auto \<and> portMode p \<noteq> Auto then 3
     else if portMode p \<noteq> portControl sm then 1
     else case pae_state p of
         AUTH_PAE_INITIALIZE \<Rightarrow> 2
       | AUTH_PAE_DISCONNECTED \<Rightarrow>
           if portStatus sm = Unauthorized \<and> reAuthCount p = 0 \<and> \<not> eapLogoff p then 1 else 3
       | AUTH_PAE_CONNECTING \<Rightarrow>
           if rxInitialRsp p then 9
           else if eapLogoff p \<or> reAuthMax p < reAuthCount p \<or> txWhen sm = 0 \<or> eapStart p \<or>
             reAuthenticate sm \<or> portStatus sm = Authorized then 2
           else 0
       | AUTH_PAE_AUTHENTICATING \<Rightarrow> 6
       | AUTH_PAE_AUTHENTICATED \<Rightarrow> 3
       | AUTH_PAE_ABORTING \<Rightarrow> 3
       | AUTH_PAE_HELD \<Rightarrow> 3
       | AUTH_PAE_FORCE_AUTH \<Rightarrow> if portControl sm = ForceAuthorized then 0 else 4
       | AUTH_PAE_FORCE_UNAUTH \<Rightarrow> if portControl sm = ForceUnauthorized then 0 else 4)"

definition be_pot :: "eapol_state_machine \<Rightarrow> nat" where
  "be_pot sm = (let b = be_auth sm in
     if portControl sm \<noteq> Auto \<or> initialize sm then (if be_state b = BE_AUTH_INITIALIZE then 0 else 1)
     else if authAbort sm then (if be_state b = BE_AUTH_INITIALIZE then 1 else 2)
     else case be_state b of
         BE_AUTH_REQUEST \<Rightarrow> 2
       | BE_AUTH_RESPONSE \<Rightarrow>
           if aReq b then 3 else if aWhile sm = 0 \<or> aFail b \<or> aSuccess b then 2 else 0
       | BE_AUTH_IDLE \<Rightarrow> if authStart sm then 1 else 0
       | _ \<Rightarrow> 1)"

definition reauth_pot :: "eapol_state_machine \<Rightarrow> nat" where
  "reauth_pot sm = (case reauth_state (reauth_timer sm) of
       REAUTH_TIMER_INITIALIZE \<Rightarrow> if reAuthWhen sm = 0 then 2 else 0
     | REAUTH_TIMER_REAUTHENTICATE \<Rightarrow> 1)"

definition key_pot :: "eapol_state_machine \<Rightarrow> nat" where
  "key_pot sm = (if keyAvailable sm then 2 else 0) +
     (case key_state (auth_key_tx sm) of AUTH_KEY_TX_NO_KEY_TRANSMIT \<Rightarrow> 0 | AUTH_KEY_TX_KEY_TRANSMIT \<Rightarrow> 1)"

definition pot :: "eapol_state_machine \<Rightarrow> nat" where
  "pot sm = pae_pot sm + be_pot sm + reauth_pot sm + key_pot sm"

lemma pot_bound: "pot sm \<le> 17"
proof -
  have "pae_pot sm \<le> 9" by (simp add: pae_pot_def Let_def split: auth_pae_state.split)
  moreover have "be_pot sm \<le> 3" by (simp add: be_pot_def Let_def split: be_auth_state.split)
  moreover have "reauth_pot sm \<le> 2" by (simp add: reauth_pot_def split: reauth_timer_state.split)
  moreover have "key_pot sm \<le> 3" by (simp add: key_pot_def split: auth_key_tx_state.split)
  ultimately show ?thesis by (simp add: pot_def)
qed

section \<open>What the steps leave alone\<close>

text \<open>A step leaves the machine as it is or enters one state.\<close>

lemma pae_step_rule:
  assumes "P sm" "P (sm_AUTH_PAE_INITIALIZE_Enter sm)" "P (sm_AUTH_PAE_DISCONNECTED_Enter sm)"
    "P (sm_AUTH_PAE_CONNECTING_Enter sm)" "P (sm_AUTH_PAE_HELD_Enter sm)"
    "P (sm_AUTH_PAE_AUTHENTICATED_Enter sm)" "P (sm_AUTH_PAE_AUTHENTICATING_Enter sm)"
    "P (sm_AUTH_PAE_ABORTING_Enter sm)" "P (sm_AUTH_PAE_FORCE_AUTH_Enter sm)"
    "P (sm_AUTH_PAE_FORCE_UNAUTH_Enter sm)"
  shows "P (sm_AUTH_PAE_Step sm)"
  using assms unfolding sm_AUTH_PAE_Step_def Let_def by (cases "pae_state (auth_pae sm)") simp_all

lemma be_step_rule:
  assumes "P sm" "P (sm_BE_AUTH_INITIALIZE_Enter sm)" "P (sm_BE_AUTH_REQUEST_Enter sm)"
    "P (sm_BE_AUTH_RESPONSE_Enter sm)" "P (sm_BE_AUTH_TIMEOUT_Enter sm)" "P (sm_BE_AUTH_IDLE_Enter sm)"
    "P (sm_BE_AUTH_REQUEST_Enter (upd_be (\<lambda>b. b\<lparr>backendAccessChallenges := backendAccessChallenges b + 1\<rparr>) sm))"
    "P (sm_BE_AUTH_FAIL_Enter (upd_be (\<lambda>b. b\<lparr>backendAuthFails := backendAuthFails b + 1\<rparr>) sm))"
    "P (sm_BE_AUTH_SUCCESS_Enter (upd_be (\<lambda>b. b\<lparr>backendAuthSuccesses := backendAuthSuccesses b + 1\<rparr>) sm))"
  shows "P (sm_BE_AUTH_Step sm)"
  using assms unfolding sm_BE_AUTH_Step_def Let_def by (cases "be_state (be_auth sm)") simp_all

lemma pae_step_frame:
  "be_auth (sm_AUTH_PAE_Step sm) = be_auth sm"
  "reauth_timer (sm_AUTH_PAE_Step sm) = reauth_timer sm"
  "auth_key_tx (sm_AUTH_PAE_Step sm) = auth_key_tx sm"
  "keyAvailable (sm_AUTH_PAE_Step sm) = keyAvailable sm"
  "reAuthWhen (sm_AUTH_PAE_Step sm) = reAuthWhen sm"
  "aWhile (sm_AUTH_PAE_Step sm) = aWhile sm"
  "initialize (sm_AUTH_PAE_Step sm) = initialize sm"
  "portEnabled (sm_AUTH_PAE_Step sm) = portEnabled sm"
  "portControl (sm_AUTH_PAE_Step sm) = portControl sm"
  "reAuthMax (auth_pae (sm_AUTH_PAE_Step sm)) = reAuthMax (auth_pae sm)"
  "txPeriod (auth_pae (sm_AUTH_PAE_Step sm)) = txPeriod (auth_pae sm)"
  by (rule pae_step_rule; simp add: pae_enter_defs upd_defs Let_def)+

lemma be_step_frame:
  "auth_pae (sm_BE_AUTH_Step sm) = auth_pae sm"
  "reauth_timer (sm_BE_AUTH_Step sm) = reauth_timer sm"
  "auth_key_tx (sm_BE_AUTH_Step sm) = auth_key_tx sm"
  "keyAvailable (sm_BE_AUTH_Step sm) = keyAvailable sm"
  "reAuthWhen (sm_BE_AUTH_Step sm) = reAuthWhen sm"
  "txWhen (sm_BE_AUTH_Step sm) = txWhen sm"
  "reAuthenticate (sm_BE_AUTH_Step sm) = reAuthenticate sm"
  "portStatus (sm_BE_AUTH_Step sm) = portStatus sm"
  "initialize (sm_BE_AUTH_Step sm) = initialize sm"
  "portEnabled (sm_BE_AUTH_Step sm) = portEnabled sm"
  "portControl (sm_BE_AUTH_Step sm) = portControl sm"
  "serverTimeout (be_auth (sm_BE_AUTH_Step sm)) = serverTimeout (be_auth sm)"
  by (rule be_step_rule; simp add: be_enter_defs upd_defs Let_def)+

lemma reauth_step_frame:
  "auth_pae (sm_REAUTH_TIMER_Step sm) = auth_pae sm"
  "be_auth (sm_REAUTH_TIMER_Step sm) = be_auth sm"
  "auth_key_tx (sm_REAUTH_TIMER_Step sm) = auth_key_tx sm"
  "keyAvailable (sm_REAUTH_TIMER_Step sm) = keyAvailable sm"
  "txWhen (sm_REAUTH_TIMER_Step sm) = txWhen sm"
  "aWhile (sm_REAUTH_TIMER_Step sm) = aWhile sm"
  "authAbort (sm_REAUTH_TIMER_Step sm) = authAbort sm"
  "authStart (sm_REAUTH_TIMER_Step sm) = authStart sm"
  "portStatus (sm_REAUTH_TIMER_Step sm) = portStatus sm"
  "initialize (sm_REAUTH_TIMER_Step sm) = initialize sm"
  "portEnabled (sm_REAUTH_TIMER_Step sm) = portEnabled sm"
  "portControl (sm_REAUTH_TIMER_Step sm) = portControl sm"
  "reAuthPeriod (reauth_timer (sm_REAUTH_TIMER_Step sm)) = reAuthPeriod (reauth_timer sm)"
  by (simp_all add: sm_REAUTH_TIMER_Step_def reauth_enter_defs split: reauth_timer_state.split)

lemma key_step_frame:
  "auth_pae (sm_AUTH_KEY_TX_Step sm) = auth_pae sm"
  "be_auth (sm_AUTH_KEY_TX_Step sm) = be_auth sm"
  "reauth_timer (sm_AUTH_KEY_TX_Step sm) = reauth_timer sm"
  "reAuthWhen (sm_AUTH_KEY_TX_Step sm) = reAuthWhen sm"
  "txWhen (sm_AUTH_KEY_TX_Step sm) = txWhen sm"
  "aWhile (sm_AUTH_KEY_TX_Step sm) = aWhile sm"
  "authAbort (sm_AUTH_KEY_TX_Step sm) = authAbort sm"
  "authStart (sm_AUTH_KEY_TX_Step sm) = authStart sm"
  "reAuthenticate (sm_AUTH_KEY_TX_Step sm) = reAuthenticate sm"
  "portStatus (sm_AUTH_KEY_TX_Step sm) = portStatus sm"
  "initialize (sm_AUTH_KEY_TX_Step sm) = initialize sm"
  "portEnabled (sm_AUTH_KEY_TX_Step sm) = portEnabled sm"
  "portControl (sm_AUTH_KEY_TX_Step sm) = portControl sm"
  by (simp_all add: sm_AUTH_KEY_TX_Step_def key_enter_defs emit_def split: auth_key_tx_state.split)

lemmas step_frames = pae_step_frame be_step_frame reauth_step_frame key_step_frame

lemma sm_const_ok_steps:
  "sm_const_ok (sm_AUTH_PAE_Step sm) = sm_const_ok sm"
  "sm_const_ok (sm_BE_AUTH_Step sm) = sm_const_ok sm"
  "sm_const_ok (sm_REAUTH_TIMER_Step sm) = sm_const_ok sm"
  "sm_const_ok (sm_AUTH_KEY_TX_Step sm) = sm_const_ok sm"
  by (simp_all add: sm_const_ok_def step_frames)

section \<open>Every step lowers the potential\<close>

lemma signed_zero: "sint (w :: u32) = 0 \<longleftrightarrow> w = 0"
  by (metis signed_eq_0_iff)

lemma key_step_pot:
  "pot (sm_AUTH_KEY_TX_Step sm) + (if key_state (auth_key_tx (sm_AUTH_KEY_TX_Step sm)) = key_state (auth_key_tx sm) then 0 else 1) \<le> pot sm"
proof -
  have "pae_pot (sm_AUTH_KEY_TX_Step sm) = pae_pot sm" "be_pot (sm_AUTH_KEY_TX_Step sm) = be_pot sm"
      "reauth_pot (sm_AUTH_KEY_TX_Step sm) = reauth_pot sm"
    unfolding pae_pot_def be_pot_def reauth_pot_def step_frames by (rule refl)+
  moreover have "key_pot (sm_AUTH_KEY_TX_Step sm) + (if key_state (auth_key_tx (sm_AUTH_KEY_TX_Step sm)) = key_state (auth_key_tx sm) then 0 else 1) \<le> key_pot sm"
    by (simp add: sm_AUTH_KEY_TX_Step_def key_pot_def key_enter_defs emit_def split: auth_key_tx_state.splits)
  ultimately show ?thesis by (simp add: pot_def)
qed

lemma reauth_step_pot:
  assumes "sm_const_ok sm"
  shows "pot (sm_REAUTH_TIMER_Step sm) + (if reauth_state (reauth_timer (sm_REAUTH_TIMER_Step sm)) = reauth_state (reauth_timer sm) then 0 else 1) \<le> pot sm"
proof -
  have "be_pot (sm_REAUTH_TIMER_Step sm) = be_pot sm" "key_pot (sm_REAUTH_TIMER_Step sm) = key_pot sm"
    unfolding be_pot_def key_pot_def step_frames by (rule refl)+
  moreover have "pae_pot (sm_REAUTH_TIMER_Step sm) = pae_pot sm"
  proof -
    have "reAuthenticate (sm_REAUTH_TIMER_Step sm) = reAuthenticate sm \<or> portStatus sm = Authorized"
      by (cases "portStatus sm") (simp_all add: sm_REAUTH_TIMER_Step_def reauth_enter_defs)
    then show ?thesis unfolding pae_pot_def step_frames Let_def by auto
  qed
  moreover have "reauth_pot (sm_REAUTH_TIMER_Step sm) + (if reauth_state (reauth_timer (sm_REAUTH_TIMER_Step sm)) = reauth_state (reauth_timer sm) then 0 else 1) \<le> reauth_pot sm"
    using assms by (simp add: sm_REAUTH_TIMER_Step_def reauth_pot_def reauth_enter_defs sm_const_ok_def
      signed_zero split: reauth_timer_state.splits)
  ultimately show ?thesis by (simp add: pot_def)
qed

lemma be_step_pot:
  assumes "sm_const_ok sm"
  shows "pot (sm_BE_AUTH_Step sm) + (if be_state (be_auth (sm_BE_AUTH_Step sm)) = be_state (be_auth sm) then 0 else 1) \<le> pot sm"
proof -
  have "pae_pot (sm_BE_AUTH_Step sm) = pae_pot sm" "reauth_pot (sm_BE_AUTH_Step sm) = reauth_pot sm"
      "key_pot (sm_BE_AUTH_Step sm) = key_pot sm"
    unfolding pae_pot_def reauth_pot_def key_pot_def step_frames by (rule refl)+
  moreover have "be_pot (sm_BE_AUTH_Step sm) + (if be_state (be_auth (sm_BE_AUTH_Step sm)) = be_state (be_auth sm) then 0 else 1) \<le> be_pot sm"
  proof (cases "portControl sm \<noteq> Auto \<or> initialize sm \<or> authAbort sm")
    case True
    then show ?thesis
      by (auto simp: sm_BE_AUTH_Step_def be_pot_def sm_BE_AUTH_INITIALIZE_Enter_def upd_be_def Let_def)
  next
    case False
    then have g: "portControl sm = Auto" "\<not> initialize sm" "\<not> authAbort sm" by auto
    from assms have "serverTimeout (be_auth sm) \<noteq> 0" by (simp add: sm_const_ok_def)
    with g show ?thesis
      by (cases "be_state (be_auth sm)")
        (simp_all add: sm_BE_AUTH_Step_def be_pot_def be_enter_defs upd_defs Let_def signed_zero)
  qed
  ultimately show ?thesis by (simp add: pot_def)
qed

lemma be_pot_pae_enter:
  "be_pot (sm_AUTH_PAE_DISCONNECTED_Enter sm) = be_pot sm"
  "be_pot (sm_AUTH_PAE_CONNECTING_Enter sm) = be_pot sm"
  "be_pot (sm_AUTH_PAE_HELD_Enter sm) = be_pot sm"
  "be_pot (sm_AUTH_PAE_AUTHENTICATED_Enter sm) = be_pot sm"
  "be_pot (sm_AUTH_PAE_FORCE_AUTH_Enter sm) = be_pot sm"
  "be_pot (sm_AUTH_PAE_FORCE_UNAUTH_Enter sm) = be_pot sm"
  "be_pot (sm_AUTH_PAE_AUTHENTICATING_Enter sm) \<le> be_pot sm + 1"
  "be_pot (sm_AUTH_PAE_ABORTING_Enter sm) \<le> be_pot sm + 2"
  by (simp_all add: be_pot_def pae_enter_defs upd_defs Let_def split: be_auth_state.split)

text \<open>Where a running authenticator machine stands after entering a state.\<close>

definition pae_runs :: "eapol_state_machine \<Rightarrow> bool" where
  "pae_runs sm \<longleftrightarrow> \<not> initialize sm \<and> portEnabled sm \<and> portMode (auth_pae sm) = portControl sm"

lemma pae_pot_enter:
  assumes "pae_runs sm"
  shows "pae_pot (sm_AUTH_PAE_DISCONNECTED_Enter sm) = 1"
    and "pae_pot (sm_AUTH_PAE_CONNECTING_Enter sm) \<le> 2"
    and "pae_pot (sm_AUTH_PAE_HELD_Enter sm) = 3"
    and "pae_pot (sm_AUTH_PAE_AUTHENTICATED_Enter sm) = 3"
    and "pae_pot (sm_AUTH_PAE_AUTHENTICATING_Enter sm) = 6"
    and "pae_pot (sm_AUTH_PAE_ABORTING_Enter sm) = 3"
  using assms by (simp_all add: pae_runs_def pae_pot_def pae_enter_defs upd_defs Let_def)

lemma pae_pot_reconnect:
  assumes "pae_runs sm" and "sm_const_ok sm" and "portStatus sm = Unauthorized"
    and "reAuthCount (auth_pae sm) = 0" and "\<not> eapLogoff (auth_pae sm)"
  shows "pae_pot (sm_AUTH_PAE_CONNECTING_Enter sm) = 0"
  using assms
  by (simp add: pae_runs_def sm_const_ok_def pae_pot_def sm_AUTH_PAE_CONNECTING_Enter_def upd_defs Let_def
      signed_zero not_less)

lemma pae_enter_states:
  "pae_state (auth_pae (sm_AUTH_PAE_DISCONNECTED_Enter sm)) = AUTH_PAE_DISCONNECTED"
  "pae_state (auth_pae (sm_AUTH_PAE_CONNECTING_Enter sm)) = AUTH_PAE_CONNECTING"
  "pae_state (auth_pae (sm_AUTH_PAE_HELD_Enter sm)) = AUTH_PAE_HELD"
  "pae_state (auth_pae (sm_AUTH_PAE_AUTHENTICATED_Enter sm)) = AUTH_PAE_AUTHENTICATED"
  "pae_state (auth_pae (sm_AUTH_PAE_AUTHENTICATING_Enter sm)) = AUTH_PAE_AUTHENTICATING"
  "pae_state (auth_pae (sm_AUTH_PAE_ABORTING_Enter sm)) = AUTH_PAE_ABORTING"
  "pae_state (auth_pae (sm_AUTH_PAE_FORCE_AUTH_Enter sm)) = AUTH_PAE_FORCE_AUTH"
  "pae_state (auth_pae (sm_AUTH_PAE_FORCE_UNAUTH_Enter sm)) = AUTH_PAE_FORCE_UNAUTH"
  by (simp_all add: pae_enter_defs upd_defs Let_def)

lemma pae_run_pot:
  assumes r: "pae_runs sm" and ok: "sm_const_ok sm"
  shows "pae_pot (sm_AUTH_PAE_Step sm) + be_pot (sm_AUTH_PAE_Step sm) +
    (if pae_state (auth_pae (sm_AUTH_PAE_Step sm)) = pae_state (auth_pae sm) then 0 else 1) \<le> pae_pot sm + be_pot sm"
proof -
  note e = be_pot_pae_enter [of sm] pae_pot_enter [OF r] pae_enter_states [of sm]
  have g: "\<not> initialize sm" "portEnabled sm" "portMode (auth_pae sm) = portControl sm"
    using r by (simp_all add: pae_runs_def)
  show ?thesis
  proof (cases "pae_state (auth_pae sm)")
    case AUTH_PAE_DISCONNECTED
    with g e pae_pot_reconnect [OF r ok] show ?thesis
      by (auto simp: sm_AUTH_PAE_Step_def pae_pot_def [of sm] Let_def)
  next
    case AUTH_PAE_CONNECTING
    with g e show ?thesis
      by (auto simp: sm_AUTH_PAE_Step_def pae_pot_def [of sm] Let_def not_less)
  next
    case AUTH_PAE_FORCE_AUTH
    with g e(5) show ?thesis
      by (auto simp: sm_AUTH_PAE_Step_def pae_pot_def sm_AUTH_PAE_FORCE_AUTH_Enter_def be_pot_def upd_defs Let_def)
  next
    case AUTH_PAE_FORCE_UNAUTH
    with g e(6) show ?thesis
      by (auto simp: sm_AUTH_PAE_Step_def pae_pot_def sm_AUTH_PAE_FORCE_UNAUTH_Enter_def be_pot_def upd_defs Let_def)
  qed (use g e in \<open>auto simp: sm_AUTH_PAE_Step_def pae_pot_def [of sm] Let_def\<close>)
qed

lemma pae_step_pot:
  assumes "sm_const_ok sm"
  shows "pot (sm_AUTH_PAE_Step sm) + (if pae_state (auth_pae (sm_AUTH_PAE_Step sm)) = pae_state (auth_pae sm) then 0 else 1) \<le> pot sm"
proof -
  have "reauth_pot (sm_AUTH_PAE_Step sm) = reauth_pot sm" "key_pot (sm_AUTH_PAE_Step sm) = key_pot sm"
    unfolding reauth_pot_def key_pot_def step_frames by (rule refl)+
  moreover have "pae_pot (sm_AUTH_PAE_Step sm) + be_pot (sm_AUTH_PAE_Step sm) + (if pae_state (auth_pae (sm_AUTH_PAE_Step sm)) = pae_state (auth_pae sm) then 0 else 1) \<le> pae_pot sm + be_pot sm"
  proof -
    let ?p = "auth_pae sm"
    consider (off) "initialize sm \<or> \<not> portEnabled sm"
      | (mode) "\<not> initialize sm" "portEnabled sm" "portMode ?p \<noteq> portControl sm"
      | (run) "\<not> initialize sm" "portEnabled sm" "portMode ?p = portControl sm"
      by blast
    then show ?thesis
    proof cases
      case off
      then show ?thesis
        by (auto simp: sm_AUTH_PAE_Step_def pae_pot_def be_pot_def sm_AUTH_PAE_INITIALIZE_Enter_def upd_defs Let_def)
    next
      case mode
      then show ?thesis
        by (cases "portControl sm") (simp_all add: sm_AUTH_PAE_Step_def pae_pot_def be_pot_def pae_enter_defs upd_defs Let_def)
    next
      case run
      then show ?thesis using pae_run_pot [OF _ assms] by (simp add: pae_runs_def)
    qed
  qed
  ultimately show ?thesis by (simp add: pot_def)
qed

section \<open>The loop ends\<close>

lemma pass_pot:
  assumes "sm_const_ok sm"
  shows "pot (sm_pass sm) + (if sm_states (sm_pass sm) = sm_states sm then 0 else 1) \<le> pot sm"
    and "sm_const_ok (sm_pass sm)"
proof -
  let ?a = "sm_AUTH_PAE_Step sm" let ?b = "sm_BE_AUTH_Step ?a" let ?c = "sm_REAUTH_TIMER_Step ?b"
  have ok: "sm_const_ok ?a" "sm_const_ok ?b" "sm_const_ok ?c"
    using assms by (simp_all add: sm_const_ok_steps)
  then show "sm_const_ok (sm_pass sm)" by (simp add: sm_pass_def sm_const_ok_steps)
  have "sm_states (sm_pass sm) = (pae_state (auth_pae ?a), be_state (be_auth ?b),
      reauth_state (reauth_timer ?c), key_state (auth_key_tx (sm_AUTH_KEY_TX_Step ?c)))"
    by (simp add: sm_states_def sm_pass_def step_frames)
  moreover have "sm_states sm = (pae_state (auth_pae sm), be_state (be_auth ?a),
      reauth_state (reauth_timer ?b), key_state (auth_key_tx ?c))"
    by (simp add: sm_states_def step_frames)
  ultimately show "pot (sm_pass sm) + (if sm_states (sm_pass sm) = sm_states sm then 0 else 1) \<le> pot sm"
    using pae_step_pot [OF assms] be_step_pot [OF ok(1)] reauth_step_pot [OF ok(2)] key_step_pot [of ?c]
    by (simp add: sm_pass_def split: if_splits)
qed

text \<open>The loop as a bounded iteration.\<close>

fun sm_passes :: "nat \<Rightarrow> eapol_state_machine \<Rightarrow> eapol_state_machine" where
  "sm_passes 0 sm = sm"
| "sm_passes (Suc n) sm = sm_passes n (sm_pass sm)"

lemma step_ends:
  assumes "sm_const_ok sm"
  obtains n where "n \<le> Suc (pot sm)" and "eapol_sm_step sm = Some (sm_passes n sm)"
    and "sm_const_ok (sm_passes n sm)"
  using assms
proof (induction "pot sm" arbitrary: sm thesis rule: less_induct)
  case less
  let ?u = "sm_pass sm"
  note p = pass_pot [OF less.prems(2)]
  show ?case
  proof (cases "sm_states ?u = sm_states sm")
    case True
    then have "eapol_sm_step sm = Some (sm_passes 1 sm)"
      by (subst eapol_sm_step.simps) (simp add: Let_def)
    with p(2) show ?thesis by (intro less.prems(1) [of 1]) simp_all
  next
    case False
    with p(1) have lt: "pot ?u < pot sm" by simp
    obtain n where n: "n \<le> Suc (pot ?u)" "eapol_sm_step ?u = Some (sm_passes n ?u)"
        "sm_const_ok (sm_passes n ?u)"
      using less.hyps [OF lt _ p(2)] by blast
    have "eapol_sm_step sm = Some (sm_passes (Suc n) sm)"
      using False n(2) by (subst eapol_sm_step.simps) (simp add: Let_def)
    with n lt show ?thesis by (intro less.prems(1) [of "Suc n"]) simp_all
  qed
qed

end
