(* ===== verification/Eapol_Safety.thy ===== *)
theory Eapol_Safety
  imports Eapol_Termination
begin

text \<open>
  What the state machines of a station do over time: the events that the frame handlers and the
  RADIUS client cause, the states that sequences of events and runs of the loop reach, and the
  invariants of these states. The number of times the port is opened never exceeds the number
  of Access-Accept messages of the authentication server.
\<close>

section \<open>Events\<close>

text \<open>
  The assignments of \<open>ieee802_1x.c\<close> to a machine: an EAPOL frame or an EAP response was received, the
  server has answered, the port was enabled.
\<close>

datatype eapol_event =
    Rx_Start
  | Rx_Logoff
  | Rx_Identity
  | Rx_Response bool \<comment> \<open>whether it is a NAK\<close>
  | Server_Id u8
  | Server_Keys
  | Server_Accept "u32 option" \<comment> \<open>a new reauthentication period\<close>
  | Server_Reject
  | Server_Challenge "u32 option" \<comment> \<open>a new supplicant timeout\<close>
  | Port_Enable

fun apply_event :: "eapol_event \<Rightarrow> eapol_state_machine \<Rightarrow> eapol_state_machine" where
  "apply_event Rx_Start sm = upd_pae (\<lambda>p. p\<lparr>eapStart := True\<rparr>) sm"
| "apply_event Rx_Logoff sm = upd_pae (\<lambda>p. p\<lparr>eapLogoff := True\<rparr>) sm"
| "apply_event Rx_Identity sm = upd_pae (\<lambda>p. p\<lparr>rxInitialRsp := True\<rparr>) sm"
| "apply_event (Rx_Response nak) sm = upd_be (\<lambda>b. b\<lparr>backendNonNakResponsesFromSupplicant :=
     count_if (\<not> nak) (backendNonNakResponsesFromSupplicant b), rxResp := True\<rparr>) sm"
| "apply_event (Server_Id i) sm = upd_be (\<lambda>b. b\<lparr>idFromServer := i\<rparr>) sm"
| "apply_event Server_Keys sm = sm\<lparr>keyAvailable := True\<rparr>"
| "apply_event (Server_Accept period) sm = upd_be (\<lambda>b. b\<lparr>aSuccess := True\<rparr>)
     (case period of None \<Rightarrow> sm
      | Some t \<Rightarrow> sm\<lparr>reauth_timer := (reauth_timer sm)\<lparr>reAuthPeriod := t\<rparr>\<rparr>)"
| "apply_event Server_Reject sm = upd_be (\<lambda>b. b\<lparr>aFail := True\<rparr>) sm"
| "apply_event (Server_Challenge t) sm = upd_be (\<lambda>b. b\<lparr>aReq := True,
     suppTimeout := (case t of None \<Rightarrow> suppTimeout b | Some t \<Rightarrow> t)\<rparr>) sm"
| "apply_event Port_Enable sm = sm\<lparr>portEnabled := True\<rparr>"

definition accepts :: "eapol_event \<Rightarrow> nat" where
  "accepts ev = (case ev of Server_Accept _ \<Rightarrow> 1 | _ \<Rightarrow> 0)"

text \<open>The machines reached after events with \<open>n\<close> Access-Accepts.\<close>

inductive sm_reach :: "nat \<Rightarrow> eapol_state_machine \<Rightarrow> bool" where
  alloc: "eapol_sm_alloc conf = Some sm \<Longrightarrow> sm_reach 0 sm"
| event: "sm_reach n sm \<Longrightarrow> sm_reach (n + accepts ev) (apply_event ev sm)"
| run: "sm_reach n sm \<Longrightarrow> eapol_sm_step sm = Some sm' \<Longrightarrow> sm_reach n sm'"
| tick: "sm_reach n sm \<Longrightarrow> eapol_port_timers_tick sm = Some sm' \<Longrightarrow> sm_reach n sm'"

section \<open>Invariants of the loop\<close>

lemma step_invariant:
  assumes pass: "\<And>u. I u \<Longrightarrow> I (sm_pass u)"
    and step: "eapol_sm_step sm = Some sm'" and "I sm"
  shows "I sm'"
proof -
  have "I sm \<longrightarrow> I sm'"
    by (rule eapol_sm_step.raw_induct [where P = "\<lambda>u v. I u \<longrightarrow> I v", OF _ step])
      (use pass in \<open>auto simp: Let_def split: if_splits\<close>)
  with assms(3) show ?thesis by simp
qed

text \<open>The loop ends in a pass that changes no state.\<close>

lemma step_result:
  assumes "eapol_sm_step sm = Some sm'"
  shows "\<exists>u. sm' = sm_pass u \<and> sm_states (sm_pass u) = sm_states u"
  by (rule eapol_sm_step.raw_induct [where P = "\<lambda>v w. \<exists>u. w = sm_pass u \<and> sm_states (sm_pass u) = sm_states u",
        OF _ assms]) (auto simp: Let_def split: if_splits)

lemma pass_invariant:
  assumes "\<And>u. I u \<Longrightarrow> I (sm_AUTH_PAE_Step u)" "\<And>u. I u \<Longrightarrow> I (sm_BE_AUTH_Step u)"
    "\<And>u. I u \<Longrightarrow> I (sm_REAUTH_TIMER_Step u)" "\<And>u. I u \<Longrightarrow> I (sm_AUTH_KEY_TX_Step u)"
    and "I sm"
  shows "I (sm_pass sm)"
  using assms by (simp add: sm_pass_def)

lemma reauth_step_rule:
  assumes "P sm" "P (sm_REAUTH_TIMER_INITIALIZE_Enter sm)" "P (sm_REAUTH_TIMER_REAUTHENTICATE_Enter sm)"
  shows "P (sm_REAUTH_TIMER_Step sm)"
  using assms unfolding sm_REAUTH_TIMER_Step_def by (cases "reauth_state (reauth_timer sm)") simp_all

lemma key_step_rule:
  assumes "P sm" "P (sm_AUTH_KEY_TX_NO_KEY_TRANSMIT_Enter sm)" "P (sm_AUTH_KEY_TX_KEY_TRANSMIT_Enter sm)"
  shows "P (sm_AUTH_KEY_TX_Step sm)"
  using assms unfolding sm_AUTH_KEY_TX_Step_def by (cases "key_state (auth_key_tx sm)") simp_all

lemmas all_enter_defs = pae_enter_defs be_enter_defs reauth_enter_defs key_enter_defs

section \<open>Authorizations are earned\<close>

definition openings :: "eapol_state_machine \<Rightarrow> nat" where
  "openings sm = length (filter (\<lambda>a. a = Set_Authorized True) (log sm))"

text \<open>
  An acceptance that has not been used yet is in the backend machine, or, when the authenticator
  machine waits for it, in \<open>authSuccess\<close>.
\<close>

definition earned :: "eapol_state_machine \<Rightarrow> nat" where
  "earned sm = openings sm +
     (if be_state (be_auth sm) = BE_AUTH_RESPONSE \<and> aSuccess (be_auth sm) then 1 else 0) +
     (if pae_state (auth_pae sm) = AUTH_PAE_AUTHENTICATING \<and> authSuccess sm then 1 else 0)"

definition auto_mode :: "eapol_state_machine \<Rightarrow> bool" where
  "auto_mode sm \<longleftrightarrow> portControl sm = Auto \<and> pae_state (auth_pae sm) \<noteq> AUTH_PAE_FORCE_AUTH"

lemma pae_step_earned:
  assumes "auto_mode sm"
  shows "auto_mode (sm_AUTH_PAE_Step sm)" and "earned (sm_AUTH_PAE_Step sm) \<le> earned sm"
proof -
  have a: "portControl sm = Auto" "pae_state (auth_pae sm) \<noteq> AUTH_PAE_FORCE_AUTH"
    using assms by (simp_all add: auto_mode_def)
  have e: "earned (sm_AUTH_PAE_INITIALIZE_Enter sm) \<le> earned sm"
    "earned (sm_AUTH_PAE_DISCONNECTED_Enter sm) \<le> earned sm"
    "earned (sm_AUTH_PAE_CONNECTING_Enter sm) \<le> earned sm"
    "earned (sm_AUTH_PAE_HELD_Enter sm) \<le> earned sm"
    "earned (sm_AUTH_PAE_AUTHENTICATING_Enter sm) \<le> earned sm"
    "earned (sm_AUTH_PAE_ABORTING_Enter sm) \<le> earned sm"
    "earned (sm_AUTH_PAE_FORCE_UNAUTH_Enter sm) \<le> earned sm"
    "pae_state (auth_pae sm) = AUTH_PAE_AUTHENTICATING \<Longrightarrow> authSuccess sm \<Longrightarrow>
       earned (sm_AUTH_PAE_AUTHENTICATED_Enter sm) \<le> earned sm"
    by (simp_all add: earned_def openings_def pae_enter_defs upd_defs Let_def)
  show "earned (sm_AUTH_PAE_Step sm) \<le> earned sm"
    using a e unfolding sm_AUTH_PAE_Step_def Let_def by (cases "pae_state (auth_pae sm)") simp_all
  have "pae_state (auth_pae (sm_AUTH_PAE_Step sm)) \<noteq> AUTH_PAE_FORCE_AUTH"
    using a pae_enter_states [of sm] unfolding sm_AUTH_PAE_Step_def Let_def
    by (cases "pae_state (auth_pae sm)") (simp_all add: sm_AUTH_PAE_INITIALIZE_Enter_def upd_pae_def)
  then show "auto_mode (sm_AUTH_PAE_Step sm)" using a by (simp add: auto_mode_def step_frames)
qed

lemma be_step_earned: "earned (sm_BE_AUTH_Step sm) \<le> earned sm"
proof -
  have "earned (sm_BE_AUTH_SUCCESS_Enter (upd_be (\<lambda>b. b\<lparr>backendAuthSuccesses := backendAuthSuccesses b + 1\<rparr>) sm)) \<le> earned sm"
    if "be_state (be_auth sm) = BE_AUTH_RESPONSE" "aSuccess (be_auth sm)"
    using that by (simp add: earned_def openings_def be_enter_defs upd_defs Let_def)
  moreover have "earned (sm_BE_AUTH_INITIALIZE_Enter u) \<le> earned u"
    "earned (sm_BE_AUTH_REQUEST_Enter u) \<le> earned u" "earned (sm_BE_AUTH_RESPONSE_Enter u) \<le> earned u"
    "earned (sm_BE_AUTH_FAIL_Enter u) \<le> earned u" "earned (sm_BE_AUTH_TIMEOUT_Enter u) \<le> earned u"
    "earned (sm_BE_AUTH_IDLE_Enter u) \<le> earned u" for u
    by (simp_all add: earned_def openings_def be_enter_defs upd_defs Let_def)
  moreover have "earned (sm_BE_AUTH_REQUEST_Enter (upd_be (\<lambda>b. b\<lparr>backendAccessChallenges := backendAccessChallenges b + 1\<rparr>) sm)) \<le> earned sm"
    "earned (sm_BE_AUTH_FAIL_Enter (upd_be (\<lambda>b. b\<lparr>backendAuthFails := backendAuthFails b + 1\<rparr>) sm)) \<le> earned sm"
    by (simp_all add: earned_def openings_def be_enter_defs upd_defs Let_def)
  ultimately show ?thesis
    unfolding sm_BE_AUTH_Step_def Let_def
    by (cases "be_state (be_auth sm)") simp_all
qed

lemma other_steps_earned:
  "earned (sm_REAUTH_TIMER_Step sm) = earned sm" "earned (sm_AUTH_KEY_TX_Step sm) = earned sm"
  by (rule reauth_step_rule key_step_rule;
      simp add: earned_def openings_def reauth_enter_defs key_enter_defs emit_def)+

lemma pass_earned:
  assumes "auto_mode sm \<and> earned sm \<le> n"
  shows "auto_mode (sm_pass sm) \<and> earned (sm_pass sm) \<le> n"
proof (rule pass_invariant [where I = "\<lambda>u. auto_mode u \<and> earned u \<le> n"])
  fix u
  assume u: "auto_mode u \<and> earned u \<le> n"
  show "auto_mode (sm_AUTH_PAE_Step u) \<and> earned (sm_AUTH_PAE_Step u) \<le> n"
    using u pae_step_earned [of u] by simp
  show "auto_mode (sm_BE_AUTH_Step u) \<and> earned (sm_BE_AUTH_Step u) \<le> n"
    using u be_step_earned [of u] by (simp add: auto_mode_def step_frames)
  show "auto_mode (sm_REAUTH_TIMER_Step u) \<and> earned (sm_REAUTH_TIMER_Step u) \<le> n"
    "auto_mode (sm_AUTH_KEY_TX_Step u) \<and> earned (sm_AUTH_KEY_TX_Step u) \<le> n"
    using u by (simp_all add: other_steps_earned auto_mode_def step_frames)
qed (rule assms)

lemma step_earned:
  assumes "eapol_sm_step sm = Some sm'" and "auto_mode sm" and "earned sm \<le> n"
  shows "auto_mode sm' \<and> earned sm' \<le> n"
  using step_invariant [where I = "\<lambda>u. auto_mode u \<and> earned u \<le> n", OF pass_earned assms(1)] assms(2,3)
  by blast

lemma reach_earned: "sm_reach n sm \<Longrightarrow> auto_mode sm \<and> earned sm \<le> n"
proof (induction rule: sm_reach.induct)
  case (alloc conf sm)
  then show ?case unfolding eapol_sm_alloc_def eapol_sm_initialize_def
    by (elim bind_eq_Some_conv [THEN iffD1, THEN exE])
      (auto dest!: step_earned [where n = 0] simp: auto_mode_def earned_def openings_def zero_sm_def)
next
  case (event n sm ev)
  then show ?case
    by (cases ev) (auto simp: auto_mode_def earned_def openings_def accepts_def upd_defs split: option.split)
next
  case (run n sm sm')
  then show ?case using step_earned by blast
next
  case (tick n sm sm')
  then show ?case unfolding eapol_port_timers_tick_def Let_def
    using step_earned [OF tick.hyps(2) [unfolded eapol_port_timers_tick_def Let_def], of n]
    by (simp add: auto_mode_def earned_def openings_def)
qed

section \<open>The port and what the driver was told\<close>

fun told :: "bool \<Rightarrow> sm_action \<Rightarrow> bool" where
  "told b (Set_Authorized x) = x"
| "told b _ = b"

definition driver_view :: "sm_action list \<Rightarrow> bool" where
  "driver_view acts = foldl told False acts"

lemma driver_view_append [simp]: "driver_view (acts @ as) = foldl told (driver_view acts) as"
  by (simp add: driver_view_def)

definition port_agrees :: "eapol_state_machine \<Rightarrow> bool" where
  "port_agrees sm \<longleftrightarrow> (portStatus sm = Authorized) = driver_view (log sm)"

lemma PortState_not_Authorized [simp]: "s \<noteq> Authorized \<longleftrightarrow> s = Unauthorized"
  by (cases s) simp_all

lemma pass_port_agrees: "port_agrees sm \<Longrightarrow> port_agrees (sm_pass sm)"
proof (rule pass_invariant)
  fix u
  assume u: "port_agrees u"
  show "port_agrees (sm_AUTH_PAE_Step u)"
    by (rule pae_step_rule) (use u in \<open>simp_all add: port_agrees_def pae_enter_defs upd_defs Let_def\<close>)
  show "port_agrees (sm_BE_AUTH_Step u)"
    by (rule be_step_rule) (use u in \<open>auto simp: port_agrees_def be_enter_defs upd_defs Let_def\<close>)
  show "port_agrees (sm_REAUTH_TIMER_Step u)"
    by (rule reauth_step_rule) (use u in \<open>simp_all add: port_agrees_def reauth_enter_defs\<close>)
  show "port_agrees (sm_AUTH_KEY_TX_Step u)"
    by (rule key_step_rule) (use u in \<open>simp_all add: port_agrees_def key_enter_defs emit_def\<close>)
qed

lemma step_port_agrees: "eapol_sm_step sm = Some sm' \<Longrightarrow> port_agrees sm \<Longrightarrow> port_agrees sm'"
  using step_invariant [where I = port_agrees, OF pass_port_agrees] by blast

lemma reach_port_agrees: "sm_reach n sm \<Longrightarrow> port_agrees sm"
proof (induction rule: sm_reach.induct)
  case (alloc conf sm)
  then show ?case unfolding eapol_sm_alloc_def eapol_sm_initialize_def
    by (elim bind_eq_Some_conv [THEN iffD1, THEN exE])
      (auto dest!: step_port_agrees simp: port_agrees_def driver_view_def zero_sm_def)
next
  case (event n sm ev)
  then show ?case by (cases ev) (auto simp: port_agrees_def upd_defs split: option.split)
next
  case (run n sm sm')
  then show ?case using step_port_agrees by blast
next
  case (tick n sm sm')
  then show ?case
    using step_port_agrees [OF tick.hyps(2) [unfolded eapol_port_timers_tick_def Let_def]]
    by (simp add: port_agrees_def)
qed

section \<open>The quiet period\<close>

text \<open>A station that has failed is held: no identity is requested and nothing goes to the server.\<close>

definition held :: "int \<Rightarrow> eapol_state_machine \<Rightarrow> bool" where
  "held q sm \<longleftrightarrow> pae_runs sm \<and> portControl sm = Auto \<and> pae_state (auth_pae sm) = AUTH_PAE_HELD \<and>
     quietWhile sm = q \<and> portStatus sm = Unauthorized"

lemma pass_held:
  assumes "held q sm" and "q \<noteq> 0"
  shows "held q (sm_pass sm)" and "filter (\<lambda>a. a = Request_Identity i \<or> a = Set_Authorized True) (log (sm_pass sm)) =
    filter (\<lambda>a. a = Request_Identity i \<or> a = Set_Authorized True) (log sm)"
proof -
  let ?f = "filter (\<lambda>a. a = Request_Identity i \<or> a = Set_Authorized True)"
  let ?I = "\<lambda>u. held q u \<and> ?f (log u) = ?f (log sm)"
  have "?I (sm_pass sm)"
  proof (rule pass_invariant)
    fix u
    assume u: "?I u"
    then have "sm_AUTH_PAE_Step u = u"
      using assms(2) by (simp add: held_def pae_runs_def sm_AUTH_PAE_Step_def Let_def)
    with u show "?I (sm_AUTH_PAE_Step u)" by simp
    show "?I (sm_BE_AUTH_Step u)"
      by (rule be_step_rule)
        (use u in \<open>simp_all add: held_def pae_runs_def be_enter_defs upd_defs Let_def\<close>)
    show "?I (sm_REAUTH_TIMER_Step u)"
      by (rule reauth_step_rule) (use u in \<open>simp_all add: held_def pae_runs_def reauth_enter_defs\<close>)
    show "?I (sm_AUTH_KEY_TX_Step u)"
      by (rule key_step_rule) (use u in \<open>simp_all add: held_def pae_runs_def key_enter_defs emit_def\<close>)
  qed (use assms(1) in simp)
  then show "held q (sm_pass sm)" "?f (log (sm_pass sm)) = ?f (log sm)" by blast+
qed

lemma step_held:
  assumes "eapol_sm_step sm = Some sm'" and "held q sm" and "q \<noteq> 0"
  shows "held q sm'" and "filter (\<lambda>a. a = Request_Identity i \<or> a = Set_Authorized True) (log sm') =
    filter (\<lambda>a. a = Request_Identity i \<or> a = Set_Authorized True) (log sm)"
proof -
  let ?f = "filter (\<lambda>a. a = Request_Identity i \<or> a = Set_Authorized True)"
  have "held q sm' \<and> ?f (log sm') = ?f (log sm)"
    by (rule step_invariant [where I = "\<lambda>u. held q u \<and> ?f (log u) = ?f (log sm)", OF _ assms(1)])
      (use assms(2,3) pass_held in auto)
  then show "held q sm'" "?f (log sm') = ?f (log sm)" by blast+
qed

lemma event_held: "held q sm \<Longrightarrow> held q (apply_event ev sm)"
  by (cases ev) (auto simp: held_def pae_runs_def upd_defs split: option.split)

section \<open>Constants\<close>

lemma step_const_ok:
  assumes "sm_const_ok sm"
  obtains sm' where "eapol_sm_step sm = Some sm'" and "sm_const_ok sm'"
  using step_ends [OF assms] by metis

text \<open>The event does not set the reauthentication period to zero.\<close>

definition event_ok :: "eapol_event \<Rightarrow> bool" where
  "event_ok ev \<longleftrightarrow> ev \<noteq> Server_Accept (Some 0)"

lemma event_const_ok: "sm_const_ok sm \<Longrightarrow> event_ok ev \<Longrightarrow> sm_const_ok (apply_event ev sm)"
  by (cases ev) (auto simp: sm_const_ok_def event_ok_def upd_defs split: option.split)

definition conf_ok :: "dot1x_conf \<Rightarrow> bool" where
  "conf_ok conf \<longleftrightarrow> session_timeout_set conf = 1 \<longrightarrow> session_timeout_interval conf \<noteq> 0"

lemma tick_const_ok:
  assumes "sm_const_ok sm"
  obtains sm' where "eapol_port_timers_tick sm = Some sm'" and "sm_const_ok sm'"
proof -
  have "sm_const_ok (sm\<lparr>aWhile := t1, quietWhile := t2, reAuthWhen := t3, txWhen := t4\<rparr>)" for t1 t2 t3 t4
    using assms by (simp add: sm_const_ok_def)
  from step_const_ok [OF this] that show thesis
    unfolding eapol_port_timers_tick_def Let_def by blast
qed

text \<open>Machines under events that keep the constants, and the runs in between.\<close>

inductive sm_live :: "eapol_state_machine \<Rightarrow> bool" where
  live_alloc: "conf_ok conf \<Longrightarrow> eapol_sm_alloc conf = Some sm \<Longrightarrow> sm_live sm"
| live_event: "sm_live sm \<Longrightarrow> event_ok ev \<Longrightarrow> sm_live (apply_event ev sm)"
| live_run: "sm_live sm \<Longrightarrow> eapol_sm_step sm = Some sm' \<Longrightarrow> sm_live sm'"
| live_tick: "sm_live sm \<Longrightarrow> eapol_port_timers_tick sm = Some sm' \<Longrightarrow> sm_live sm'"

lemma alloc_returns:
  assumes "conf_ok conf"
  obtains sm where "eapol_sm_alloc conf = Some sm" and "sm_const_ok sm"
proof -
  define u where "u = zero_sm\<lparr>
     auth_pae := (auth_pae zero_sm)\<lparr>pae_state := AUTH_PAE_INITIALIZE, quietPeriod := quiet_interval conf,
       reAuthMax := 2, txPeriod := 30\<rparr>,
     be_auth := (be_auth zero_sm)\<lparr>be_state := BE_AUTH_INITIALIZE, suppTimeout := 30,
       serverTimeout := 30, maxReq := 2\<rparr>,
     reauth_timer := \<lparr>reAuthPeriod =
         (if session_timeout_set conf = 1 then session_timeout_interval conf else 3600),
       reAuthEnabled = True, reauth_state = REAUTH_TIMER_INITIALIZE\<rparr>,
     portEnabled := False, portControl := Auto, currentId := 1, keyAvailable := False,
     keyTxEnabled := True, portValid := True\<rparr>"
  have "sm_const_ok (u\<lparr>initialize := True\<rparr>)"
    using assms by (simp add: u_def sm_const_ok_def conf_ok_def)
  then obtain v where v: "eapol_sm_step (u\<lparr>initialize := True\<rparr>) = Some v" "sm_const_ok v"
    by (rule step_const_ok)
  from v(2) have "sm_const_ok (v\<lparr>initialize := False\<rparr>)" by (simp add: sm_const_ok_def)
  then obtain w where "eapol_sm_step (v\<lparr>initialize := False\<rparr>) = Some w" "sm_const_ok w"
    by (rule step_const_ok)
  with v(1) that show thesis by (simp add: eapol_sm_alloc_def eapol_sm_initialize_def u_def)
qed

lemma live_const_ok: "sm_live sm \<Longrightarrow> sm_const_ok sm"
proof (induction rule: sm_live.induct)
  case (live_alloc conf sm)
  then show ?case using alloc_returns [of conf] by force
next
  case (live_event sm ev)
  then show ?case using event_const_ok by blast
next
  case (live_run sm sm')
  then show ?case using step_const_ok [of sm] by force
next
  case (live_tick sm sm')
  then show ?case using tick_const_ok [of sm] by force
qed

end
