(* ===== verification/Eapol_Properties.thy ===== *)
theory Eapol_Properties
  imports Eapol_Safety
begin

text \<open>
  What the state machines of the 802.1X authenticator guarantee for one station.
\<close>

section \<open>Concrete machines\<close>

definition conf_default :: dot1x_conf where
  "conf_default = \<lparr>quiet_interval = 60, session_timeout_set = 0, session_timeout_interval = 0\<rparr>"

definition fresh_sm :: eapol_state_machine where
  "fresh_sm = the (eapol_sm_alloc conf_default)"

lemma conf_default_ok: "conf_ok conf_default"
  by (simp add: conf_ok_def conf_default_def)

lemma fresh_sm_alloc: "eapol_sm_alloc conf_default = Some fresh_sm"
  unfolding fresh_sm_def using alloc_returns [OF conf_default_ok] by (metis option.sel)

text \<open>A sequence of events, the loop being run after each of them.\<close>

fun drive :: "eapol_event list \<Rightarrow> eapol_state_machine \<Rightarrow> eapol_state_machine option" where
  "drive [] sm = Some sm"
| "drive (ev # evs) sm = Option.bind (eapol_sm_step (apply_event ev sm)) (drive evs)"

section \<open>Termination\<close>

text \<open>
  C23. The loop that runs the four machines until no state changes ends after at most 18 passes, in
  every state of the machines, provided that at least one reconnection attempt is allowed and the
  three periods are not zero.
\<close>

theorem sm_step_ends:
  assumes "sm_const_ok sm"
  shows "\<exists>n \<le> 18. eapol_sm_step sm = Some (sm_passes n sm)"
proof -
  obtain n where "n \<le> Suc (pot sm)" "eapol_sm_step sm = Some (sm_passes n sm)"
    using step_ends [OF assms] by blast
  then show ?thesis using pot_bound [of sm] by (intro exI [of _ n]) simp
qed

theorem sm_step_ends_witness:
  "\<exists>n \<le> 18. eapol_sm_step fresh_sm = Some (sm_passes n fresh_sm)"
proof -
  have "sm_const_ok fresh_sm"
    using live_const_ok [OF sm_live.live_alloc [OF conf_default_ok fresh_sm_alloc]] .
  then show ?thesis by (rule sm_step_ends)
qed

text \<open>
  C24. No machine that the daemon has created hangs: after any events in which the server does not set
  the reauthentication period to zero, both the next run of the loop and the next tick of the timer
  return.
\<close>

theorem sm_never_hangs:
  assumes "sm_live sm"
  shows "(\<exists>sm'. eapol_sm_step sm = Some sm') \<and> (\<exists>sm'. eapol_port_timers_tick sm = Some sm')"
  using step_const_ok [OF live_const_ok [OF assms]] tick_const_ok [OF live_const_ok [OF assms]] by metis

theorem sm_never_hangs_witness:
  "(\<exists>sm'. eapol_sm_step fresh_sm = Some sm') \<and> (\<exists>sm'. eapol_port_timers_tick fresh_sm = Some sm')"
  by (rule sm_never_hangs [OF sm_live.live_alloc [OF conf_default_ok fresh_sm_alloc]])

section \<open>Safety\<close>

text \<open>
  C9. The port of a station is opened at most as many times as the authentication server has sent an
  Access-Accept for it, whatever frames the station sends and whenever the timers expire.
\<close>

theorem openings_need_accepts:
  assumes "sm_reach n sm"
  shows "length (filter (\<lambda>a. a = Set_Authorized True) (log sm)) \<le> n"
  using reach_earned [OF assms] by (simp add: earned_def openings_def)

theorem openings_need_accepts_witness:
  "length (filter (\<lambda>a. a = Set_Authorized True) (log (apply_event Rx_Start (apply_event Port_Enable fresh_sm)))) \<le> 0"
proof -
  have "sm_reach (0 + accepts Port_Enable + accepts Rx_Start) (apply_event Rx_Start (apply_event Port_Enable fresh_sm))"
    by (intro sm_reach.event sm_reach.alloc [OF fresh_sm_alloc])
  then have "sm_reach 0 (apply_event Rx_Start (apply_event Port_Enable fresh_sm))" by (simp add: accepts_def)
  then show ?thesis by (rule openings_need_accepts)
qed

text \<open>
  C25. The state of the port is always the one that the authenticator was last told to establish, and
  is closed as long as it was told nothing.
\<close>

theorem port_status_is_announced:
  assumes "sm_reach n sm"
  shows "portStatus sm = Authorized \<longleftrightarrow> driver_view (log sm)"
  using reach_port_agrees [OF assms] by (simp add: port_agrees_def)

theorem port_status_is_announced_witness:
  "portStatus fresh_sm = Authorized \<longleftrightarrow> driver_view (log fresh_sm)"
  by (rule port_status_is_announced [OF sm_reach.alloc [OF fresh_sm_alloc]])

text \<open>
  A station that failed authentication is held for the quiet period: until the timer has run down,
  no event and no run of the loop makes the authenticator request an identity or open the port.
\<close>

theorem held_station_is_ignored:
  assumes "held q sm" and "q \<noteq> 0" and "eapol_sm_step (apply_event ev sm) = Some sm'"
  shows "held q sm' \<and>
    filter (\<lambda>a. a = Request_Identity i \<or> a = Set_Authorized True) (log sm') =
    filter (\<lambda>a. a = Request_Identity i \<or> a = Set_Authorized True) (log sm)"
proof -
  have "log (apply_event ev sm) = log sm" by (cases ev) (auto simp: upd_defs split: option.split)
  then show ?thesis using step_held [OF assms(3) event_held [OF assms(1)] assms(2)] by simp
qed

text \<open>A station that the server has rejected.\<close>

definition rejected_sm :: eapol_state_machine where
  "rejected_sm = the (drive [Port_Enable, Rx_Identity, Server_Reject] fresh_sm)"

theorem held_station_is_ignored_witness:
  "\<exists>sm'. eapol_sm_step (apply_event Rx_Start rejected_sm) = Some sm' \<and> held 60 sm'"
proof -
  have "held 60 rejected_sm" by code_simp
  moreover have "eapol_sm_step (apply_event Rx_Start rejected_sm) =
      Some (the (eapol_sm_step (apply_event Rx_Start rejected_sm)))" by code_simp
  ultimately show ?thesis using held_station_is_ignored [of 60 rejected_sm Rx_Start] by fastforce
qed

section \<open>Runs\<close>

text \<open>
  A complete authentication: identity, one challenge, acceptance with a key. The station is asked
  for its identity, its answers are forwarded, the requests of the server are passed on under the
  identifier the server chose, the port is opened and the key is sent.
\<close>

theorem full_authentication:
  "\<exists>sm. drive [Port_Enable, Rx_Identity, Server_Id 7, Server_Challenge None, Rx_Response False,
       Server_Id 8, Server_Keys, Server_Accept None] fresh_sm = Some sm \<and>
     log sm = [Set_Authorized False, Request_Identity 1, Send_Resp_To_Server, Tx_Req 7,
       Send_Resp_To_Server, Tx_Req 8, Tx_Key 8, Set_Authorized True] \<and>
     portStatus sm = Authorized \<and>
     sm_states sm = (AUTH_PAE_AUTHENTICATED, BE_AUTH_IDLE, REAUTH_TIMER_INITIALIZE, AUTH_KEY_TX_KEY_TRANSMIT)"
proof -
  let ?r = "drive [Port_Enable, Rx_Identity, Server_Id 7, Server_Challenge None, Rx_Response False,
    Server_Id 8, Server_Keys, Server_Accept None] fresh_sm"
  have "?r = Some (the ?r)" by code_simp
  moreover have "log (the ?r) = [Set_Authorized False, Request_Identity 1, Send_Resp_To_Server, Tx_Req 7,
       Send_Resp_To_Server, Tx_Req 8, Tx_Key 8, Set_Authorized True]" by code_simp
  moreover have "portStatus (the ?r) = Authorized" by code_simp
  moreover have "sm_states (the ?r) = (AUTH_PAE_AUTHENTICATED, BE_AUTH_IDLE, REAUTH_TIMER_INITIALIZE,
      AUTH_KEY_TX_KEY_TRANSMIT)" by code_simp
  ultimately show ?thesis by blast
qed

text \<open>
  An acceptance whose Session-Timeout is zero, with the action to reauthenticate, does not leave
  the station connected: inside the same run of the loop the reauthentication timer uses up all
  reconnection attempts and the port is closed again.
\<close>

theorem zero_session_timeout_disconnects:
  "\<exists>sm. drive [Port_Enable, Rx_Identity, Server_Accept (Some 0)] fresh_sm = Some sm \<and>
     Set_Authorized True \<in> set (log sm) \<and> portStatus sm = Unauthorized \<and>
     pae_state (auth_pae sm) = AUTH_PAE_CONNECTING"
proof -
  let ?r = "drive [Port_Enable, Rx_Identity, Server_Accept (Some 0)] fresh_sm"
  have "?r = Some (the ?r)" by code_simp
  moreover have "Set_Authorized True \<in> set (log (the ?r))" by code_simp
  moreover have "portStatus (the ?r) = Unauthorized" by code_simp
  moreover have "pae_state (auth_pae (the ?r)) = AUTH_PAE_CONNECTING" by code_simp
  ultimately show ?thesis by blast
qed

end
