(* ===== verification/Md5.thy ===== *)
theory Md5
  imports Prelude
begin

text \<open>
  The hash functions and the stream cipher of the 802.1X authenticator
  (\<open>package/ramips/applications/8021xd/src/md5.c\<close>): MD5 with its incremental interface, the two keyed
  hashes built on it, and RC4. \<open>ULONG\<close> has 32 bits and the target is little endian, so \<open>byteReverse\<close> is
  empty and a word of the message block is read from four bytes, the lowest first.
\<close>

section \<open>MD5\<close>

record MD5_CTX =
  Buf :: "u32 list"
  LenInBitCount0 :: u32
  LenInBitCount1 :: u32
  Input :: "byte list"

definition MD5_F1 :: "u32 \<Rightarrow> u32 \<Rightarrow> u32 \<Rightarrow> u32" where
  "MD5_F1 x y z = (x AND y) OR (NOT x AND z)"

definition MD5_F2 :: "u32 \<Rightarrow> u32 \<Rightarrow> u32 \<Rightarrow> u32" where
  "MD5_F2 x y z = (x AND z) OR (y AND NOT z)"

definition MD5_F3 :: "u32 \<Rightarrow> u32 \<Rightarrow> u32 \<Rightarrow> u32" where
  "MD5_F3 x y z = x XOR y XOR z"

definition MD5_F4 :: "u32 \<Rightarrow> u32 \<Rightarrow> u32 \<Rightarrow> u32" where
  "MD5_F4 x y z = y XOR (x OR NOT z)"

definition CYCLIC_LEFT_SHIFT :: "u32 \<Rightarrow> nat \<Rightarrow> u32" where
  "CYCLIC_LEFT_SHIFT w s = push_bit s w OR drop_bit (32 - s) w"

definition MD5Step ::
  "(u32 \<Rightarrow> u32 \<Rightarrow> u32 \<Rightarrow> u32) \<Rightarrow> u32 \<Rightarrow> u32 \<Rightarrow> u32 \<Rightarrow> u32 \<Rightarrow> u32 \<Rightarrow> u32 \<Rightarrow> nat \<Rightarrow> u32" where
  "MD5Step f w x y z data t s =
     (let w1 = w + (f x y z + data + t); w2 = CYCLIC_LEFT_SHIFT w1 s AND 0xffffffff in w2 + x)"

definition LShiftVal :: "nat list" where
  "LShiftVal = [7, 12, 17, 22, 5, 9, 14, 20, 4, 11, 16, 23, 6, 10, 15, 21]"

definition MD5Table :: "u32 list" where
  "MD5Table = [
     0xd76aa478, 0xe8c7b756, 0x242070db, 0xc1bdceee, 0xf57c0faf, 0x4787c62a, 0xa8304613, 0xfd469501,
     0x698098d8, 0x8b44f7af, 0xffff5bb1, 0x895cd7be, 0x6b901122, 0xfd987193, 0xa679438e, 0x49b40821,
     0xf61e2562, 0xc040b340, 0x265e5a51, 0xe9b6c7aa, 0xd62f105d, 0x02441453, 0xd8a1e681, 0xe7d3fbc8,
     0x21e1cde6, 0xc33707d6, 0xf4d50d87, 0x455a14ed, 0xa9e3e905, 0xfcefa3f8, 0x676f02d9, 0x8d2a4c8a,
     0xfffa3942, 0x8771f681, 0x6d9d6122, 0xfde5380c, 0xa4beea44, 0x4bdecfa9, 0xf6bb4b60, 0xbebfbc70,
     0x289b7ec6, 0xeaa127fa, 0xd4ef3085, 0x04881d05, 0xd9d4d039, 0xe6db99e5, 0x1fa27cf8, 0xc4ac5665,
     0xf4292244, 0x432aff97, 0xab9423a7, 0xfc93a039, 0x655b59c3, 0x8f0ccc92, 0xffeff47d, 0x85845dd1,
     0x6fa87e4f, 0xfe2ce6e0, 0xa3014314, 0x4e0811a1, 0xf7537e82, 0xbd3af235, 0x2ad7d2bb, 0xeb86d391]"

text \<open>One iteration of the four loops: a step and the rotation of the registers.\<close>

fun md5_iter ::
  "(u32 \<Rightarrow> u32 \<Rightarrow> u32 \<Rightarrow> u32) \<Rightarrow> (nat \<Rightarrow> nat) \<Rightarrow> nat \<Rightarrow> u32 list \<Rightarrow> nat \<Rightarrow>
   u32 \<times> u32 \<times> u32 \<times> u32 \<Rightarrow> u32 \<times> u32 \<times> u32 \<times> u32" where
  "md5_iter f idx row Mes i (r0, r1, r2, r3) =
     (r3, MD5Step f r0 r1 r2 r3 (Mes ! idx i) (MD5Table ! i) (LShiftVal ! (4 * row + i mod 4)), r1, r2)"

definition MD5Transform :: "u32 list \<Rightarrow> u32 list \<Rightarrow> u32 list" where
  "MD5Transform B Mes =
     (let reg = (B ! 0, B ! 1, B ! 2, B ! 3);
        reg = fold (md5_iter MD5_F1 (\<lambda>i. i) 0 Mes) [0..<16] reg;
        reg = fold (md5_iter MD5_F2 (\<lambda>i. (5 * (i mod 16) + 1) mod 16) 1 Mes) [16..<32] reg;
        reg = fold (md5_iter MD5_F3 (\<lambda>i. (3 * (i mod 16) + 5) mod 16) 2 Mes) [32..<48] reg;
        reg = fold (md5_iter MD5_F4 (\<lambda>i. (7 * (i mod 16)) mod 16) 3 Mes) [48..<64] reg
      in case reg of (r0, r1, r2, r3) \<Rightarrow> [B ! 0 + r0, B ! 1 + r1, B ! 2 + r2, B ! 3 + r3])"

text \<open>The bytes of a block read as words, and a word written as bytes.\<close>

fun le_words :: "byte list \<Rightarrow> u32 list" where
  "le_words (a # b # c # d # bs) =
     (ucast a OR push_bit 8 (ucast b) OR push_bit 16 (ucast c) OR push_bit 24 (ucast d)) # le_words bs"
| "le_words _ = []"

definition le_bytes :: "u32 \<Rightarrow> byte list" where
  "le_bytes w = map (\<lambda>i. ucast (drop_bit (8 * i) w)) [0..<4]"

definition MD5Init :: "MD5_CTX \<Rightarrow> MD5_CTX" where
  "MD5Init ctx = ctx\<lparr>Buf := [0x67452301, 0xefcdab89, 0x98badcfe, 0x10325476],
     LenInBitCount0 := 0, LenInBitCount1 := 0\<rparr>"

definition md5_block :: "MD5_CTX \<Rightarrow> MD5_CTX" where
  "md5_block ctx = ctx\<lparr>Buf := MD5Transform (Buf ctx) (le_words (Input ctx))\<rparr>"

fun md5_full_blocks :: "nat \<Rightarrow> MD5_CTX \<Rightarrow> byte list \<Rightarrow> MD5_CTX \<times> byte list" where
  "md5_full_blocks 0 ctx pData = (ctx, pData)"
| "md5_full_blocks (Suc i) ctx pData =
     md5_full_blocks i (md5_block (ctx\<lparr>Input := move_at 0 (take 64 pData) (Input ctx)\<rparr>)) (drop 64 pData)"

definition MD5Update :: "MD5_CTX \<Rightarrow> byte list \<Rightarrow> MD5_CTX" where
  "MD5Update ctx pData =
     (let len = (of_nat (length pData) :: u32);
        temp = LenInBitCount0 ctx;
        l0 = temp + push_bit 3 len;
        l1 = (if l0 < temp then LenInBitCount1 ctx + 1 else LenInBitCount1 ctx) + drop_bit 29 len;
        ctx1 = ctx\<lparr>LenInBitCount0 := l0, LenInBitCount1 := l1\<rparr>;
        temp1 = drop_bit 3 temp AND 0x3f;
        t = unat temp1
      in if temp1 \<noteq> 0 \<and> temp1 + len < 64 then ctx1\<lparr>Input := move_at t pData (Input ctx1)\<rparr>
         else
           let (ctx2, rest) =
               (if temp1 \<noteq> 0
                then (md5_block (ctx1\<lparr>Input := move_at t (take (64 - t) pData) (Input ctx1)\<rparr>),
                      drop (64 - t) pData)
                else (ctx1, pData));
             (ctx3, rest1) = md5_full_blocks (length rest div 64) ctx2 rest
           in if rest1 \<noteq> [] then ctx3\<lparr>Input := move_at 0 rest1 (Input ctx3)\<rparr> else ctx3)"

definition md5_length_field :: "MD5_CTX \<Rightarrow> byte list" where
  "md5_length_field ctx = le_bytes (LenInBitCount0 ctx) @ le_bytes (LenInBitCount1 ctx)"

definition MD5Final :: "MD5_CTX \<Rightarrow> byte list" where
  "MD5Final ctx =
     (let r = unat (drop_bit 3 (LenInBitCount0 ctx) AND 0x3f);
        ctx1 = (if r < 56
          then md5_block (ctx\<lparr>Input := move_at 56 (md5_length_field ctx)
            (move_at r (0x80 # replicate (55 - r) 0) (Input ctx))\<rparr>)
          else
            let ctx2 = md5_block (ctx\<lparr>Input := move_at r (0x80 # replicate (63 - r) 0) (Input ctx)\<rparr>)
            in md5_block (ctx2\<lparr>Input := move_at 56 (md5_length_field ctx)
                 (move_at 0 (replicate 56 0) (Input ctx2))\<rparr>))
      in concat (map le_bytes (Buf ctx1)))"

section \<open>Keyed hashes\<close>

text \<open>
  A context on the stack. Its contents are those of earlier calls; the digest does not depend on
  them.
\<close>

definition stack_ctx :: MD5_CTX where
  "stack_ctx = \<lparr>Buf = [0, 0, 0, 0], LenInBitCount0 = 0, LenInBitCount1 = 0, Input = replicate 64 0\<rparr>"

definition md5_mac :: "byte list \<Rightarrow> byte list \<Rightarrow> byte list" where
  "md5_mac key data = MD5Final (MD5Update (MD5Update (MD5Update (MD5Init stack_ctx) key) data) key)"

definition hmac_md5 :: "byte list \<Rightarrow> byte list \<Rightarrow> byte list" where
  "hmac_md5 key data =
     (let k = (if 64 < length key then MD5Final (MD5Update (MD5Init stack_ctx) key) else key);
        k_ipad = map (\<lambda>b. b XOR 0x36) (k @ replicate (64 - length k) 0);
        k_opad = map (\<lambda>b. b XOR 0x5c) (k @ replicate (64 - length k) 0);
        mac = MD5Final (MD5Update (MD5Update (MD5Init stack_ctx) k_ipad) data)
      in MD5Final (MD5Update (MD5Update (MD5Init stack_ctx) k_opad) mac))"

section \<open>RC4\<close>

definition S_SWAP :: "byte list \<Rightarrow> nat \<Rightarrow> nat \<Rightarrow> byte list" where
  "S_SWAP S a b = S[a := S ! b, b := S ! a]"

text \<open>
  The key schedule; the position in the key is a byte. It is compared with the length of the key after
  it was advanced, so that nothing in the code guards the first access.
\<close>

fun rc4_setup :: "byte list \<Rightarrow> nat list \<Rightarrow> byte list \<Rightarrow> u32 \<Rightarrow> u8 \<Rightarrow> byte list res" where
  "rc4_setup key [] S j kpos = Inr S"
| "rc4_setup key (i # is) S j kpos =
     (if length key \<le> unat kpos then Inl Out_Of_Bounds
      else let j1 = (j + ucast (S ! i) + ucast (key ! unat kpos)) AND 0xff;
        kpos1 = kpos + 1;
        kpos2 = (if length key \<le> unat kpos1 then 0 else kpos1)
      in rc4_setup key is (S_SWAP S i (unat j1)) j1 kpos2)"

fun rc4_apply :: "byte list \<Rightarrow> byte list \<Rightarrow> u32 \<Rightarrow> u32 \<Rightarrow> byte list" where
  "rc4_apply [] S i j = []"
| "rc4_apply (x # xs) S i j =
     (let i1 = (i + 1) AND 0xff;
        j1 = (j + ucast (S ! unat i1)) AND 0xff;
        S1 = S_SWAP S (unat i1) (unat j1);
        k = S1 ! unat ((ucast (S1 ! unat i1) + ucast (S1 ! unat j1) :: u32) AND 0xff)
      in (x XOR k) # rc4_apply xs S1 i1 j1)"

definition rc4 :: "byte list \<Rightarrow> byte list \<Rightarrow> byte list res" where
  "rc4 buf key = res_bind (rc4_setup key [0..<256] (map of_nat [0..<256]) 0 0)
     (\<lambda>S. Inr (rc4_apply buf S 0 0))"

end
