(* ===== verification/Md5_Correct.thy ===== *)
theory Md5_Correct
  imports Md5
begin

text \<open>
  The incremental MD5 of \<open>md5.c\<close> computes the function of RFC 1321 on the concatenation of the data
  it was given, however the data is cut into pieces: pad the message with a one bit, zero bits and
  its length in bits, and fold the compression function over the 64-byte blocks. The keyed hashes
  and RC4 follow.
\<close>

section \<open>The reference\<close>

function absorb :: "u32 list \<Rightarrow> byte list \<Rightarrow> u32 list" where
  "absorb B bs = (if length bs < 64 then B
     else absorb (MD5Transform B (le_words (take 64 bs))) (drop 64 bs))"
  by pat_completeness auto
termination by (relation "measure (\<lambda>(B, bs). length bs)") auto

declare absorb.simps [simp del]

definition md5_iv :: "u32 list" where
  "md5_iv = [0x67452301, 0xefcdab89, 0x98badcfe, 0x10325476]"

definition le64 :: "nat \<Rightarrow> byte list" where
  "le64 n = map (\<lambda>i. of_nat (n div 2 ^ (8 * i))) [0..<8]"

definition md5_pad :: "byte list \<Rightarrow> byte list" where
  "md5_pad msg = msg @ 0x80 # replicate ((119 - length msg mod 64) mod 64) 0 @ le64 (8 * length msg)"

definition md5_ref :: "byte list \<Rightarrow> byte list" where
  "md5_ref msg = concat (map le_bytes (absorb md5_iv (md5_pad msg)))"

lemma absorb_short [simp]: "length bs < 64 \<Longrightarrow> absorb B bs = B"
  by (simp add: absorb.simps)

lemma absorb_block: "length b = 64 \<Longrightarrow> absorb B (b @ bs) = absorb (MD5Transform B (le_words b)) bs"
  by (subst absorb.simps) simp

lemma absorb_append: "length xs mod 64 = 0 \<Longrightarrow> absorb B (xs @ ys) = absorb (absorb B xs) ys"
proof (induction B xs rule: absorb.induct)
  case (1 B xs)
  show ?case
  proof (cases "xs = []")
    case False
    with "1.prems" have len: "64 \<le> length xs" by (metis length_0_conv mod_less not_le)
    have "xs @ ys = take 64 xs @ (drop 64 xs @ ys)" by simp
    then have "absorb B (xs @ ys) = absorb (MD5Transform B (le_words (take 64 xs))) (drop 64 xs @ ys)"
      using len by (metis absorb_block length_take min.absorb2)
    also have "\<dots> = absorb (absorb (MD5Transform B (le_words (take 64 xs))) (drop 64 xs)) ys"
      using "1.prems" len by (intro "1.IH") (simp_all add: mod_if le_mod_geq)
    also have "absorb (MD5Transform B (le_words (take 64 xs))) (drop 64 xs) = absorb B xs"
      using len by (subst (2) absorb.simps) simp
    finally show ?thesis .
  qed simp
qed

section \<open>The length counter\<close>

definition len_ok :: "MD5_CTX \<Rightarrow> nat \<Rightarrow> bool" where
  "len_ok ctx n \<longleftrightarrow> unat (LenInBitCount0 ctx) = 8 * n mod 2 ^ 32 \<and>
     unat (LenInBitCount1 ctx) = 8 * n div 2 ^ 32 mod 2 ^ 32"

lemma carry_split:
  fixes x y :: nat
  assumes "x < 2 ^ 32" and "y < 2 ^ 32"
  shows "(x + y) div 2 ^ 32 = (if (x + y) mod 2 ^ 32 < x then 1 else 0)"
proof (cases "x + y < 2 ^ 32")
  case False
  with assms have "(x + y) mod 2 ^ 32 = x + y - 2 ^ 32" "(x + y) div 2 ^ 32 = 1"
    by (simp_all add: mod_if div_if)
  with False assms show ?thesis by simp
qed simp

lemma unat_push_3: "unat (push_bit 3 w :: u32) = 8 * unat w mod 2 ^ 32"
  by (simp add: push_bit_eq_mult unat_word_ariths mult.commute)

lemma unat_bits: "unat (drop_bit 3 w AND 0x3f :: u32) = unat w div 8 mod 64"
proof -
  have "(0x3f :: u32) = mask 6" by (simp add: mask_eq_exp_minus_1)
  then have "drop_bit 3 w AND 0x3f = take_bit 6 (drop_bit 3 w)" by (simp add: take_bit_eq_mask)
  then show ?thesis
    by (simp add: take_bit_eq_mod drop_bit_eq_div unat_div unat_mod)
qed

lemma len_ok_offset:
  assumes "len_ok ctx n"
  shows "unat (drop_bit 3 (LenInBitCount0 ctx) AND 0x3f) = n mod 64"
proof -
  have "8 * n mod 2 ^ 32 = 8 * (n mod 2 ^ 29)" by (simp add: mult_mod_right)
  then have "8 * n mod 2 ^ 32 div 8 mod 64 = n mod 2 ^ 29 mod 64" by simp
  also have "\<dots> = n mod 64" by (simp add: mod_mod_cancel)
  finally show ?thesis using assms by (simp add: unat_bits len_ok_def)
qed

lemma wrap_sum:
  fixes a b m :: nat
  shows "(a mod m + b) mod m = (a + b) mod m" and "((a mod m + 1) mod m + b) mod m = (a + b + 1) mod m"
  by (simp_all add: mod_simps add.commute add.left_commute)

lemma len_update:
  assumes ok: "len_ok ctx n" and k: "k < 2 ^ 32"
  defines "len \<equiv> (of_nat k :: u32)"
  defines "l0 \<equiv> LenInBitCount0 ctx + push_bit 3 len"
  shows "len_ok (ctx\<lparr>LenInBitCount0 := l0, LenInBitCount1 :=
    (if l0 < LenInBitCount0 ctx then LenInBitCount1 ctx + 1 else LenInBitCount1 ctx) + drop_bit 29 len\<rparr>) (n + k)"
proof -
  let ?M = "2 ^ 32 :: nat"
  let ?x = "8 * n mod ?M" and ?y = "8 * k mod ?M"
  have x: "unat (LenInBitCount0 ctx) = ?x" and h: "unat (LenInBitCount1 ctx) = 8 * n div ?M mod ?M"
    using ok by (simp_all add: len_ok_def)
  have ul: "unat len = k" using k by (simp add: len_def unat_of_nat)
  have l0: "unat l0 = (?x + ?y) mod ?M"
    unfolding l0_def by (simp add: unat_word_ariths x unat_push_3 ul)
  then have low: "unat l0 = 8 * (n + k) mod ?M" by (simp add: mod_add_eq algebra_simps)
  have d: "unat (drop_bit 29 len) = 8 * k div ?M"
    by (simp add: drop_bit_eq_div unat_div ul)
  have "8 * (n + k) div ?M = 8 * n div ?M + 8 * k div ?M + (?x + ?y) div ?M"
    unfolding distrib_left by (rule div_add1_eq)
  also have "(?x + ?y) div ?M = (if l0 < LenInBitCount0 ctx then 1 else 0)"
    using carry_split [of ?x ?y] by (simp add: word_less_nat_alt l0 x)
  finally have "8 * (n + k) div ?M mod ?M =
      (8 * n div ?M + 8 * k div ?M + (if l0 < LenInBitCount0 ctx then 1 else 0)) mod ?M" by simp
  moreover have "unat ((if l0 < LenInBitCount0 ctx then LenInBitCount1 ctx + 1 else LenInBitCount1 ctx) + drop_bit 29 len) =
      (8 * n div ?M + 8 * k div ?M + (if l0 < LenInBitCount0 ctx then 1 else 0)) mod ?M"
    using wrap_sum [of "8 * n div ?M" ?M "8 * k div ?M"] by (simp add: unat_word_ariths h d)
  ultimately show ?thesis using low by (simp add: len_ok_def)
qed

section \<open>Incremental updates\<close>

lemma md5_full_blocks_correct:
  assumes "64 * k \<le> length p" and "length (Input ctx) = 64"
  shows "\<exists>inp. md5_full_blocks k ctx p =
      (ctx\<lparr>Buf := absorb (Buf ctx) (take (64 * k) p), Input := inp\<rparr>, drop (64 * k) p) \<and> length inp = 64"
  using assms
proof (induction k arbitrary: ctx p)
  case 0
  then show ?case by (intro exI [of _ "Input ctx"]) simp
next
  case (Suc k)
  let ?b = "take 64 p"
  let ?ctx = "md5_block (ctx\<lparr>Input := move_at 0 ?b (Input ctx)\<rparr>)"
  have b: "length ?b = 64" using Suc.prems by simp
  then have "move_at 0 ?b (Input ctx) = ?b" using Suc.prems by (simp add: move_at_full)
  then have c: "?ctx = ctx\<lparr>Input := ?b, Buf := MD5Transform (Buf ctx) (le_words ?b)\<rparr>"
    by (simp add: md5_block_def)
  have "take (64 * Suc k) p = ?b @ take (64 * k) (drop 64 p)" by (simp add: take_add)
  then have "absorb (Buf ctx) (take (64 * Suc k) p) = absorb (Buf ?ctx) (take (64 * k) (drop 64 p))"
    using b by (simp add: absorb_block c)
  moreover obtain inp where "md5_full_blocks k ?ctx (drop 64 p) =
      (?ctx\<lparr>Buf := absorb (Buf ?ctx) (take (64 * k) (drop 64 p)), Input := inp\<rparr>, drop (64 * k) (drop 64 p))"
      "length inp = 64"
    using Suc.IH [of "drop 64 p" ?ctx] Suc.prems b unfolding c by fastforce
  ultimately show ?case by (intro exI [of _ inp]) (simp add: c add.commute)
qed

text \<open>The context after the bytes \<open>msg\<close>.\<close>

definition tail_part :: "byte list \<Rightarrow> byte list" where
  "tail_part msg = drop (64 * (length msg div 64)) msg"

definition ctx_ok :: "MD5_CTX \<Rightarrow> byte list \<Rightarrow> bool" where
  "ctx_ok ctx msg \<longleftrightarrow> length (Input ctx) = 64 \<and> len_ok ctx (length msg) \<and>
     Buf ctx = absorb md5_iv msg \<and> take (length msg mod 64) (Input ctx) = tail_part msg"

lemma length_tail_part: "length (tail_part msg) = length msg mod 64"
  by (simp add: tail_part_def minus_mult_div_eq_mod)

lemma head_tail: "take (64 * (length msg div 64)) msg @ tail_part msg = msg"
  by (simp add: tail_part_def)

text \<open>Absorbing more data only looks at the incomplete block.\<close>

lemma absorb_tail: "absorb B (msg @ data) = absorb (absorb B msg) (tail_part msg @ data)"
proof -
  let ?h = "take (64 * (length msg div 64)) msg"
  have "64 * (length msg div 64) \<le> length msg" by simp
  then have h: "length ?h mod 64 = 0" by simp
  have "absorb B msg = absorb (absorb B ?h) (tail_part msg)"
    using absorb_append [OF h, of B "tail_part msg"] by (simp add: head_tail)
  also have "\<dots> = absorb B ?h" by (simp add: length_tail_part)
  finally have "absorb B ?h = absorb B msg" ..
  moreover have "absorb B (msg @ data) = absorb (absorb B ?h) (tail_part msg @ data)"
    using absorb_append [OF h, of B "tail_part msg @ data"] by (simp add: head_tail flip: append_assoc)
  ultimately show ?thesis by simp
qed

lemma tail_part_append: "tail_part (msg @ data) = tail_part (tail_part msg @ data)"
proof -
  let ?q = "length msg div 64" and ?t = "tail_part msg @ data"
  have l: "length (msg @ data) = 64 * ?q + length ?t"
    using arg_cong [OF head_tail [of msg], of length] by (simp add: length_tail_part)
  have "tail_part (msg @ data) = drop (64 * ((64 * ?q + length ?t) div 64)) (take (64 * ?q) msg @ ?t)"
    unfolding tail_part_def [of "msg @ data"] l by (simp flip: append_assoc add: head_tail)
  also have "64 * ((64 * ?q + length ?t) div 64) = 64 * ?q + 64 * (length ?t div 64)" by simp
  also have "drop (64 * ?q + 64 * (length ?t div 64)) (take (64 * ?q) msg @ ?t) = tail_part ?t"
  proof -
    have "64 * ?q \<le> length msg" by simp
    then have "length (take (64 * ?q) msg) = 64 * ?q" by simp
    then show ?thesis unfolding tail_part_def [of ?t] drop_append by simp
  qed
  finally show ?thesis .
qed

lemma ctx_ok_Init: "length (Input ctx) = 64 \<Longrightarrow> ctx_ok (MD5Init ctx) []"
  by (simp add: ctx_ok_def MD5Init_def len_ok_def md5_iv_def tail_part_def)

text \<open>The data beyond the incomplete block.\<close>

lemma finish_blocks:
  assumes "length (Input ctx) = 64"
  obtains inp where "(case md5_full_blocks (length rest div 64) ctx rest of (ctx3, rest1) \<Rightarrow>
        if rest1 \<noteq> [] then ctx3\<lparr>Input := move_at 0 rest1 (Input ctx3)\<rparr> else ctx3) =
      ctx\<lparr>Buf := absorb (Buf ctx) rest, Input := inp\<rparr>"
    and "length inp = 64" and "take (length rest mod 64) inp = tail_part rest"
proof -
  let ?h = "take (64 * (length rest div 64)) rest"
  obtain i where i: "md5_full_blocks (length rest div 64) ctx rest =
      (ctx\<lparr>Buf := absorb (Buf ctx) ?h, Input := i\<rparr>, tail_part rest)" "length i = 64"
    using md5_full_blocks_correct [of "length rest div 64" rest ctx] assms by (auto simp: tail_part_def)
  have "64 * (length rest div 64) \<le> length rest" by simp
  then have "length ?h mod 64 = 0" by simp
  from absorb_append [OF this, of "Buf ctx" "tail_part rest"] have "absorb (Buf ctx) ?h = absorb (Buf ctx) rest"
    by (simp add: head_tail length_tail_part)
  moreover define j where "j = (if tail_part rest \<noteq> [] then move_at 0 (tail_part rest) i else i)"
  moreover have "length j = 64" "take (length rest mod 64) j = tail_part rest"
    using length_tail_part [of rest] i(2) by (auto simp: j_def move_at_def)
  ultimately show thesis using i(1) by (intro that [of j]) simp_all
qed

text \<open>Completing the incomplete block.\<close>

lemma fill_block:
  assumes "length (Input ctx) = 64" and "take t (Input ctx) = part" and "length part = t" and "t < 64"
    and "64 \<le> t + length data"
  shows "md5_block (ctx\<lparr>Input := move_at t (take (64 - t) data) (Input ctx)\<rparr>) =
      ctx\<lparr>Input := part @ take (64 - t) data, Buf := absorb (Buf ctx) (part @ take (64 - t) data)\<rparr>"
    and "absorb B (part @ data) = absorb (absorb B (part @ take (64 - t) data)) (drop (64 - t) data)"
proof -
  have l: "length (part @ take (64 - t) data) = 64" using assms by simp
  then have "move_at t (take (64 - t) data) (Input ctx) = part @ take (64 - t) data"
    using assms by (simp add: move_at_full)
  moreover have "absorb (Buf ctx) (part @ take (64 - t) data) =
      MD5Transform (Buf ctx) (le_words (part @ take (64 - t) data))"
    using absorb_block [OF l, of "Buf ctx" "[]"] by simp
  ultimately show "md5_block (ctx\<lparr>Input := move_at t (take (64 - t) data) (Input ctx)\<rparr>) =
      ctx\<lparr>Input := part @ take (64 - t) data, Buf := absorb (Buf ctx) (part @ take (64 - t) data)\<rparr>"
    by (simp add: md5_block_def)
  show "absorb B (part @ data) = absorb (absorb B (part @ take (64 - t) data)) (drop (64 - t) data)"
    using absorb_append [of "part @ take (64 - t) data" B "drop (64 - t) data"] l by simp
qed

lemma start_blocks:
  fixes t data ctx
  defines "pre \<equiv> if t = 0 then [] else take (64 - t) data"
    and "rest \<equiv> if t = 0 then data else drop (64 - t) data"
    and "ctx2 \<equiv> if t \<noteq> 0 then md5_block (ctx\<lparr>Input := move_at t (take (64 - t) data) (Input ctx)\<rparr>) else ctx"
  assumes "length (Input ctx) = 64" and "take t (Input ctx) = part" and "length part = t" and "t < 64"
    and "t \<noteq> 0 \<longrightarrow> 64 \<le> t + length data"
  shows "absorb (Buf ctx) (part @ data) = absorb (Buf ctx2) rest" and "length (Input ctx2) = 64"
    and "length (part @ pre) mod 64 = 0" and "len_ok ctx2 n = len_ok ctx n"
proof -
  have "absorb (Buf ctx) (part @ data) = absorb (Buf ctx2) rest \<and> length (Input ctx2) = 64 \<and>
    length (part @ pre) mod 64 = 0 \<and> len_ok ctx2 n = len_ok ctx n"
  proof (cases "t = 0")
    case True
    with assms(4,6) show ?thesis by (simp add: pre_def rest_def ctx2_def)
  next
    case False
    with assms(8) have "64 \<le> t + length data" by simp
    note fb = fill_block [OF assms(4-7) this]
    have "length (part @ take (64 - t) data) = 64" using assms(6-8) False by simp
    with False show ?thesis by (simp add: pre_def rest_def ctx2_def fb len_ok_def)
  qed
  then show "absorb (Buf ctx) (part @ data) = absorb (Buf ctx2) rest" and "length (Input ctx2) = 64"
    and "length (part @ pre) mod 64 = 0" and "len_ok ctx2 n = len_ok ctx n" by blast+
qed

text \<open>An update, with the arithmetic on the length counter resolved.\<close>

lemma Update_cases:
  assumes ok: "len_ok ctx n" and len: "length data < 2 ^ 31"
  obtains ctx1 where "len_ok ctx1 (n + length data)" and "Input ctx1 = Input ctx" and "Buf ctx1 = Buf ctx"
    and "MD5Update ctx data =
      (if n mod 64 \<noteq> 0 \<and> n mod 64 + length data < 64
       then ctx1\<lparr>Input := move_at (n mod 64) data (Input ctx)\<rparr>
       else case (if n mod 64 \<noteq> 0
           then (md5_block (ctx1\<lparr>Input := move_at (n mod 64) (take (64 - n mod 64) data) (Input ctx)\<rparr>),
                 drop (64 - n mod 64) data)
           else (ctx1, data)) of (ctx2, rest) \<Rightarrow>
         case md5_full_blocks (length rest div 64) ctx2 rest of (ctx3, rest1) \<Rightarrow>
           if rest1 \<noteq> [] then ctx3\<lparr>Input := move_at 0 rest1 (Input ctx3)\<rparr> else ctx3)"
proof -
  let ?len = "of_nat (length data) :: u32"
  define l0 where "l0 = LenInBitCount0 ctx + push_bit 3 ?len"
  define ctx1 where "ctx1 = ctx\<lparr>LenInBitCount0 := l0, LenInBitCount1 :=
    (if l0 < LenInBitCount0 ctx then LenInBitCount1 ctx + 1 else LenInBitCount1 ctx) + drop_bit 29 ?len\<rparr>"
  define temp1 where "temp1 = drop_bit 3 (LenInBitCount0 ctx) AND 0x3f"
  have t: "unat temp1 = n mod 64" using len_ok_offset [OF ok] by (simp add: temp1_def)
  have tz: "temp1 = 0 \<longleftrightarrow> n mod 64 = 0" using t by (metis unat_eq_zero)
  have small: "temp1 + ?len < 64 \<longleftrightarrow> n mod 64 + length data < 64"
    using t len by (simp add: word_less_nat_alt unat_word_ariths unat_of_nat)
  have "len_ok ctx1 (n + length data)"
    using len_update [OF ok, of "length data"] len by (simp add: ctx1_def l0_def)
  moreover have f: "Input ctx1 = Input ctx" "Buf ctx1 = Buf ctx" by (simp_all add: ctx1_def)
  ultimately show thesis
    by (rule that) (simp add: MD5Update_def Let_def l0_def [symmetric] ctx1_def [symmetric]
        temp1_def [symmetric] t tz small f)
qed

lemma ctx_ok_Update:
  assumes ok: "ctx_ok ctx msg" and len: "length data < 2 ^ 31"
  shows "ctx_ok (MD5Update ctx data) (msg @ data)"
proof -
  let ?t = "length msg mod 64" and ?all = "tail_part msg @ data"
  have c: "length (Input ctx) = 64" "len_ok ctx (length msg)" "Buf ctx = absorb md5_iv msg"
      "take ?t (Input ctx) = tail_part msg"
    using ok by (simp_all add: ctx_ok_def)
  have lt: "length (tail_part msg) = ?t" by (rule length_tail_part)
  obtain ctx1 where l1: "len_ok ctx1 (length msg + length data)" and f: "Input ctx1 = Input ctx" "Buf ctx1 = Buf ctx"
    and u: "MD5Update ctx data =
      (if ?t \<noteq> 0 \<and> ?t + length data < 64 then ctx1\<lparr>Input := move_at ?t data (Input ctx)\<rparr>
       else case (if ?t \<noteq> 0
           then (md5_block (ctx1\<lparr>Input := move_at ?t (take (64 - ?t) data) (Input ctx)\<rparr>), drop (64 - ?t) data)
           else (ctx1, data)) of (ctx2, rest) \<Rightarrow>
         case md5_full_blocks (length rest div 64) ctx2 rest of (ctx3, rest1) \<Rightarrow>
           if rest1 \<noteq> [] then ctx3\<lparr>Input := move_at 0 rest1 (Input ctx3)\<rparr> else ctx3)"
    using Update_cases [OF c(2) len] by blast
  have mod: "length (msg @ data) mod 64 = length ?all mod 64" by (simp add: lt mod_simps)
  have done_ok: "ctx_ok v (msg @ data)" if "length (Input v) = 64" "len_ok v (length msg + length data)"
      "Buf v = absorb (Buf ctx) ?all" "take (length ?all mod 64) (Input v) = tail_part ?all" for v
    using that c(3) unfolding ctx_ok_def mod absorb_tail [of md5_iv] tail_part_append [of msg] by simp
  show ?thesis
  proof (cases "?t \<noteq> 0 \<and> ?t + length data < 64")
    case True
    have "take (?t + length data) (move_at ?t data (Input ctx)) = ?all" using c True by (simp add: take_move_at)
    moreover have "tail_part ?all = ?all" using True lt by (simp add: tail_part_def [of ?all])
    ultimately show ?thesis
      unfolding u using True c l1 lt f by (intro done_ok) (simp_all add: len_ok_def)
  next
    case False
    define pre where "pre = (if ?t = 0 then [] else take (64 - ?t) data)"
    define rest where "rest = (if ?t = 0 then data else drop (64 - ?t) data)"
    define ctx2 where "ctx2 = (if ?t \<noteq> 0
      then md5_block (ctx1\<lparr>Input := move_at ?t (take (64 - ?t) data) (Input ctx)\<rparr>) else ctx1)"
    have data: "data = pre @ rest" by (simp add: pre_def rest_def)
    have fb: "?t \<noteq> 0 \<longrightarrow> 64 \<le> ?t + length data" using False by auto
    have b: "absorb (Buf ctx) ?all = absorb (Buf ctx2) rest" "length (Input ctx2) = 64"
        "length (tail_part msg @ pre) mod 64 = 0" "len_ok ctx2 (length msg + length data)"
      using start_blocks [OF _ _ lt _ fb, of ctx1] c(1,4) l1 unfolding f ctx2_def rest_def pre_def by auto
    obtain inp where inp: "MD5Update ctx data = ctx2\<lparr>Buf := absorb (Buf ctx2) rest, Input := inp\<rparr>"
        "length inp = 64" "take (length rest mod 64) inp = tail_part rest"
    proof -
      have "MD5Update ctx data = (case md5_full_blocks (length rest div 64) ctx2 rest of
          (ctx3, rest1) \<Rightarrow> if rest1 \<noteq> [] then ctx3\<lparr>Input := move_at 0 rest1 (Input ctx3)\<rparr> else ctx3)"
        unfolding u if_not_P [OF False] ctx2_def rest_def
        by (cases "?t = 0") (simp_all only: if_True if_False not_True_eq_False not_False_eq_True prod.case simp_thms)
      note fin = this
      show thesis
        by (rule finish_blocks [OF b(2), of rest], rule that, rule trans [OF fin])
    qed
    have "tail_part (tail_part msg @ pre) = []" using b(3) length_tail_part [of "tail_part msg @ pre"] by simp
    then have "tail_part ?all = tail_part rest"
      using tail_part_append [of "tail_part msg @ pre" rest] by (simp add: data)
    moreover have "length ?all mod 64 = length rest mod 64"
      using mod_add_left_eq [of "length (tail_part msg @ pre)" 64 "length rest"] b(3) by (simp add: data add.assoc)
    ultimately show ?thesis unfolding inp(1) using inp(2,3) b by (intro done_ok) (simp_all add: len_ok_def)
  qed
qed

section \<open>The digest\<close>

lemma byte_of_low:
  assumes "unat (w :: u32) = n mod 2 ^ 32" and "i < 4"
  shows "ucast (drop_bit (8 * i) w) = (of_nat (n div 2 ^ (8 * i)) :: byte)"
proof -
  have "8 * i + 8 * (4 - i) = 32" using assms(2) by simp
  then have "(2::nat) ^ 32 = 2 ^ (8 * i) * 2 ^ (8 * (4 - i))" by (metis power_add)
  moreover have "n mod (a * b) div a = n div a mod b" if "0 < a" for a b :: nat
    using that by (simp add: mod_mult2_eq)
  ultimately have "n mod 2 ^ 32 div 2 ^ (8 * i) = n div 2 ^ (8 * i) mod 2 ^ (8 * (4 - i))"
    by (simp only: zero_less_power zero_less_numeral)
  moreover have "(2::nat) ^ 8 dvd 2 ^ (8 * (4 - i))" using assms(2) by (intro le_imp_power_dvd) simp
  ultimately have "n mod 2 ^ 32 div 2 ^ (8 * i) mod 2 ^ 8 = n div 2 ^ (8 * i) mod 2 ^ 8"
    by (simp add: mod_mod_cancel)
  then have "(of_nat (unat (drop_bit (8 * i) w)) :: byte) = of_nat (n div 2 ^ (8 * i))"
    using assms(1) by (simp add: word_of_nat_eq_iff take_bit_eq_mod unat_drop_bit_eq drop_bit_eq_div [where ?'a = nat])
  then show ?thesis by (simp add: unsigned_of_nat)
qed

lemma length_field:
  assumes "len_ok ctx n"
  shows "md5_length_field ctx = le64 (8 * n)"
proof -
  let ?m = "8 * n"
  have w: "unat (LenInBitCount0 ctx) = ?m mod 2 ^ 32" "unat (LenInBitCount1 ctx) = ?m div 2 ^ 32 mod 2 ^ 32"
    using assms by (simp_all add: len_ok_def)
  have "le_bytes (LenInBitCount0 ctx) = map (\<lambda>i. of_nat (?m div 2 ^ (8 * i))) [0..<4]"
    unfolding le_bytes_def by (intro map_cong refl) (simp add: byte_of_low [OF w(1)])
  moreover have "le_bytes (LenInBitCount1 ctx) = map (\<lambda>i. of_nat (?m div 2 ^ (8 * i))) (map (\<lambda>i. i + 4) [0..<4])"
    unfolding le_bytes_def map_map comp_def
    by (intro map_cong refl) (simp add: byte_of_low [OF w(2)] div_mult2_eq [symmetric] power_add)
  moreover have "[0..<8] = [0..<4] @ map (\<lambda>i. i + 4) [0..<4]" by (simp add: upt_rec)
  ultimately show ?thesis by (simp add: md5_length_field_def le64_def)
qed

lemma length_le64 [simp]: "length (le64 n) = 8"
  by (simp add: le64_def)

lemma pad_length: "r < 56 \<Longrightarrow> (119 - r) mod 64 = 55 - r" for r :: nat
  by (subst mod_if) simp

lemma Final_correct:
  assumes ok: "ctx_ok ctx msg"
  shows "MD5Final ctx = md5_ref msg"
proof -
  let ?r = "length msg mod 64" and ?len = "le64 (8 * length msg)" and ?t = "tail_part msg"
  have c: "length (Input ctx) = 64" "len_ok ctx (length msg)" "Buf ctx = absorb md5_iv msg"
      "take ?r (Input ctx) = ?t"
    using ok by (simp_all add: ctx_ok_def)
  have r: "unat (drop_bit 3 (LenInBitCount0 ctx) AND 0x3f) = ?r" by (rule len_ok_offset [OF c(2)])
  have lt: "length ?t = ?r" by (rule length_tail_part)
  have ref: "md5_ref msg = concat (map le_bytes (absorb (Buf ctx)
      (?t @ 0x80 # replicate ((119 - ?r) mod 64) 0 @ ?len)))"
    unfolding md5_ref_def md5_pad_def c(3) by (subst absorb_tail) (rule refl)
  show ?thesis
  proof (cases "?r < 56")
    case True
    let ?b = "?t @ 0x80 # replicate (55 - ?r) 0"
    have z: "(119 - ?r) mod 64 = 55 - ?r" by (rule pad_length) (rule True)
    have lb: "length ?b = 56" using True lt by simp
    have "take 56 (move_at ?r (0x80 # replicate (55 - ?r) 0) (Input ctx)) = ?b"
      using True c(1,4) take_move_at [of ?r "Input ctx" "0x80 # replicate (55 - ?r) 0"] by simp
    then have "move_at 56 ?len (move_at ?r (0x80 # replicate (55 - ?r) 0) (Input ctx)) = ?b @ ?len"
      using True c(1) by (simp add: move_at_full)
    then have "MD5Final ctx = concat (map le_bytes (MD5Transform (Buf ctx) (le_words (?b @ ?len))))"
      unfolding MD5Final_def Let_def r using True by (simp add: md5_block_def length_field [OF c(2)])
    moreover have "absorb (Buf ctx) (?b @ ?len) = MD5Transform (Buf ctx) (le_words (?b @ ?len))"
      using absorb_block [of "?b @ ?len" "Buf ctx" "[]"] lb by simp
    ultimately show ?thesis unfolding ref z by (simp only: append_assoc append_Cons)
  next
    case False
    let ?b = "?t @ 0x80 # replicate (63 - ?r) 0" and ?b2 = "replicate 56 0 @ ?len"
    have "?r < 64" by simp
    with False have z: "(119 - ?r) mod 64 = (63 - ?r) + 56" and lb: "length ?b = 64" using lt by simp_all
    have m1: "move_at ?r (0x80 # replicate (63 - ?r) 0) (Input ctx) = ?b"
      using c(1,4) False by (simp add: move_at_full)
    have m2: "move_at 56 ?len (move_at 0 (replicate 56 0) ?b) = ?b2"
      using lb by (simp add: move_at_def)
    have "MD5Final ctx = concat (map le_bytes
        (MD5Transform (MD5Transform (Buf ctx) (le_words ?b)) (le_words ?b2)))"
      using False m1 m2 by (simp add: MD5Final_def Let_def r md5_block_def length_field [OF c(2)])
    moreover have "absorb (Buf ctx) (?b @ ?b2 @ []) = MD5Transform (MD5Transform (Buf ctx) (le_words ?b)) (le_words ?b2)"
      using absorb_block [OF lb, of "Buf ctx" "?b2 @ []"] absorb_block [of ?b2 _ "[]"] by simp
    ultimately show ?thesis unfolding ref z replicate_add
      by (simp only: append_assoc append_Cons append_Nil2)
  qed
qed

text \<open>Any number of updates.\<close>

lemma ctx_ok_Updates:
  assumes "ctx_ok ctx msg" and "\<forall>d \<in> set chunks. length d < 2 ^ 31"
  shows "ctx_ok (fold (\<lambda>d c. MD5Update c d) chunks ctx) (msg @ concat chunks)"
  using assms
proof (induction chunks arbitrary: ctx msg)
  case (Cons d chunks)
  then have "ctx_ok (MD5Update ctx d) (msg @ d)" using ctx_ok_Update by simp
  with Cons show ?case using Cons.IH [of "MD5Update ctx d" "msg @ d"] by simp
qed simp

lemma stack_ctx_ok: "ctx_ok (MD5Init stack_ctx) []"
  by (rule ctx_ok_Init) (simp add: stack_ctx_def)

lemma length_le_bytes [simp]: "length (le_bytes w) = 4"
  by (simp add: le_bytes_def)

lemma length_MD5Transform: "length (MD5Transform B M) = 4"
  by (simp add: MD5Transform_def Let_def split: prod.split)

lemma length_absorb: "length B = 4 \<Longrightarrow> length (absorb B bs) = 4"
proof (induction B bs rule: absorb.induct)
  case (1 B bs)
  then show ?case by (cases "length bs < 64") (simp_all add: absorb.simps [of B bs] length_MD5Transform)
qed

lemma length_md5_ref [simp]: "length (md5_ref msg) = 16"
proof -
  have "length (absorb md5_iv (md5_pad msg)) = 4" by (rule length_absorb) (simp add: md5_iv_def)
  then show ?thesis by (simp add: md5_ref_def length_concat comp_def sum_list_triv)
qed

section \<open>Keyed hashes\<close>

text \<open>HMAC of RFC 2104 over the reference.\<close>

definition hmac_ref :: "byte list \<Rightarrow> byte list \<Rightarrow> byte list" where
  "hmac_ref key text =
     (let k = (if 64 < length key then md5_ref key else key);
        pad = (\<lambda>x. map (\<lambda>b. b XOR x) (k @ replicate (64 - length k) 0))
      in md5_ref (pad 0x5c @ md5_ref (pad 0x36 @ text)))"

lemma two_updates:
  assumes "length a < 2 ^ 31" and "length b < 2 ^ 31"
  shows "MD5Final (MD5Update (MD5Update (MD5Init stack_ctx) a) b) = md5_ref (a @ b)"
  using Final_correct ctx_ok_Updates [OF stack_ctx_ok, of "[a, b]"] assms by simp

lemma one_update:
  "length a < 2 ^ 31 \<Longrightarrow> MD5Final (MD5Update (MD5Init stack_ctx) a) = md5_ref a"
  using Final_correct ctx_ok_Update [OF stack_ctx_ok] by simp

lemma hmac_md5_correct:
  assumes "length key < 2 ^ 31" and "length data < 2 ^ 31"
  shows "hmac_md5 key data = hmac_ref key data"
proof -
  define k where "k = (if 64 < length key then md5_ref key else key)"
  have "length k \<le> 64" by (simp add: k_def)
  then have pad: "length (map (\<lambda>b. b XOR x) (k @ replicate (64 - length k) 0)) < 2 ^ 31" for x :: byte by simp
  have digest: "length (md5_ref m) < 2 ^ 31" for m by simp
  show ?thesis
    unfolding hmac_md5_def hmac_ref_def Let_def one_update [OF assms(1)] k_def [symmetric]
      two_updates [OF pad assms(2)] two_updates [OF pad digest] ..
qed

section \<open>RC4\<close>

text \<open>
  The cipher of the literature, on functions from numbers to numbers: the state of the key schedule after \<open>n\<close>
  steps, the state of the generator after \<open>n\<close> bytes, and the key stream as a function of the position.
\<close>

fun arc4_ksa :: "byte list \<Rightarrow> nat \<Rightarrow> (nat \<Rightarrow> nat) \<times> nat" where
  "arc4_ksa key 0 = (id, 0)"
| "arc4_ksa key (Suc n) =
     (case arc4_ksa key n of (S, j) \<Rightarrow>
        let j' = (j + S n + unat (key ! (n mod length key))) mod 256
        in (S(n := S j', j' := S n), j'))"

fun arc4_prga :: "(nat \<Rightarrow> nat) \<Rightarrow> nat \<Rightarrow> (nat \<Rightarrow> nat) \<times> nat" where
  "arc4_prga S0 0 = (S0, 0)"
| "arc4_prga S0 (Suc n) =
     (case arc4_prga S0 n of (S, j) \<Rightarrow>
        let i = Suc n mod 256; j' = (j + S i) mod 256
        in (S(i := S j', j' := S i), j'))"

definition arc4_byte :: "byte list \<Rightarrow> nat \<Rightarrow> nat" where
  "arc4_byte key n =
     (case arc4_prga (fst (arc4_ksa key 256)) (Suc n) of (S, j) \<Rightarrow> S ((S (Suc n mod 256) + S j) mod 256))"

definition arc4_ref :: "byte list \<Rightarrow> byte list \<Rightarrow> byte list" where
  "arc4_ref buf key = map (\<lambda>n. buf ! n XOR of_nat (arc4_byte key n)) [0..<length buf]"

text \<open>The table of bytes and the permutation that it stands for.\<close>

definition table_of :: "byte list \<Rightarrow> (nat \<Rightarrow> nat) \<Rightarrow> bool" where
  "table_of xs S \<longleftrightarrow> length xs = 256 \<and> (\<forall>m < 256. unat (xs ! m) = S m)"


lemma table_of_swap:
  "table_of xs S \<Longrightarrow> a < 256 \<Longrightarrow> b < 256 \<Longrightarrow> table_of (S_SWAP xs a b) (S(a := S b, b := S a))"
  by (auto simp: table_of_def S_SWAP_def nth_list_update)

lemma table_of_init: "table_of (map of_nat [0..<256]) id"
  by (simp add: table_of_def unat_of_nat)

lemma unat_and_255: "unat ((w :: u32) AND 0xff) = unat w mod 256"
proof -
  have "w AND 0xff = w mod 256" using take_bit_eq_mask [of 8 w] by (simp add: mask_eq_exp_minus_1 take_bit_eq_mod)
  then show ?thesis by (simp add: unat_mod_distrib)
qed

lemma unat_index_sum:
  fixes j :: u32 and a b :: byte
  assumes "unat j < 256"
  shows "unat ((j + ucast a + ucast b) AND 0xff) = (unat j + unat a + unat b) mod 256"
    and "unat ((j + ucast a) AND 0xff) = (unat j + unat a) mod 256"
    and "unat ((ucast a + ucast b :: u32) AND 0xff) = (unat a + unat b) mod 256"
proof -
  have "unat a < 256" "unat b < 256" using unsigned_less [of a] unsigned_less [of b] by simp_all
  moreover have "unat (ucast x :: u32) = unat x" for x :: byte by transfer (simp add: take_bit_take_bit)
  ultimately show "unat ((j + ucast a + ucast b) AND 0xff) = (unat j + unat a + unat b) mod 256"
    "unat ((j + ucast a) AND 0xff) = (unat j + unat a) mod 256"
    "unat ((ucast a + ucast b :: u32) AND 0xff) = (unat a + unat b) mod 256"
    using assms by (simp_all add: unat_and_255 unat_word_ariths)
qed

lemma kpos_next:
  fixes k :: u8
  assumes "0 < L" and "unat k = i mod L" and "i < 255"
  shows "unat (if L \<le> unat (k + 1) then 0 else k + 1) = Suc i mod L"
proof -
  have "i mod L \<le> i" by simp
  with assms(3) have "Suc (i mod L) < 256" by linarith
  with assms(2) have "unat (k + 1) = Suc (i mod L)" by (simp add: unat_word_ariths)
  moreover have "i mod L < L" using assms(1) by simp
  ultimately show ?thesis by (auto simp: mod_Suc)
qed

lemma rc4_setup_correct:
  assumes "key \<noteq> []" and "n \<le> 256" and "k = 256 - n"
    and "table_of xs (fst (arc4_ksa key k))" and "unat j = snd (arc4_ksa key k)"
    and "n \<noteq> 0 \<longrightarrow> unat kpos = k mod length key"
  shows "\<exists>ys. rc4_setup key [k..<256] xs j kpos = Inr ys \<and> table_of ys (fst (arc4_ksa key 256))"
  using assms(2-)
proof (induction n arbitrary: k xs j kpos)
  case (Suc n)
  obtain S i where S: "arc4_ksa key k = (S, i)" by fastforce
  have k: "k < 256" "[k..<256] = k # [Suc k..<256]" using Suc.prems by (simp_all add: upt_conv_Cons)
  have i: "i < 256"
    using S by (cases k) (auto simp: Let_def case_prod_beta)
  define j1 where "j1 = (j + ucast (xs ! k) + ucast (key ! unat kpos)) AND 0xff"
  have j1: "unat j1 = (i + S k + unat (key ! (k mod length key))) mod 256"
    using Suc.prems S k i unat_index_sum(1) [of j] unfolding j1_def by (simp add: table_of_def)
  then have next_S: "arc4_ksa key (Suc k) = (S(k := S (unat j1), unat j1 := S k), unat j1)"
    using S by (simp add: Let_def)
  have "table_of (S_SWAP xs k (unat j1)) (fst (arc4_ksa key (Suc k)))"
    unfolding next_S fst_conv using Suc.prems(3) S k j1 by (intro table_of_swap) simp_all
  moreover have "unat j1 = snd (arc4_ksa key (Suc k))" unfolding next_S snd_conv ..
  moreover have "n \<le> 256" "Suc k = 256 - n" using Suc.prems(1,2) by simp_all
  moreover have "n \<noteq> 0 \<longrightarrow> unat (if length key \<le> unat (kpos + 1) then 0 else kpos + 1) = Suc k mod length key"
    using kpos_next [of "length key" kpos k] Suc.prems(1,2,5) assms(1) by simp
  ultimately have "\<exists>ys. rc4_setup key [Suc k..<256] (S_SWAP xs k (unat j1)) j1
      (if length key \<le> unat (kpos + 1) then 0 else kpos + 1) = Inr ys \<and> table_of ys (fst (arc4_ksa key 256))"
    by (intro Suc.IH)
  moreover have "unat kpos < length key" using Suc.prems(5) assms(1) by simp
  ultimately show ?case unfolding k(2) by (simp add: Let_def j1_def)
qed simp

lemma rc4_apply_correct:
  assumes "table_of xs (fst (arc4_prga S0 n))" and "unat j = snd (arc4_prga S0 n)" and "unat i = n mod 256"
  shows "rc4_apply buf xs i j = map (\<lambda>m. buf ! m XOR of_nat (case arc4_prga S0 (Suc (n + m)) of
      (S, j) \<Rightarrow> S ((S (Suc (n + m) mod 256) + S j) mod 256))) [0..<length buf]"
  using assms
proof (induction buf arbitrary: n xs i j)
  case (Cons x buf)
  obtain S j0 where S: "arc4_prga S0 n = (S, j0)" by fastforce
  define i1 where "i1 = (i + 1) AND 0xff"
  define j1 where "j1 = (j + ucast (xs ! unat i1)) AND 0xff"
  define ys where "ys = S_SWAP xs (unat i1) (unat j1)"
  have i1: "unat i1 = Suc n mod 256"
    using Cons.prems(3) unfolding i1_def by (simp add: unat_and_255 unat_word_ariths mod_simps)
  have j0: "unat j < 256"
    using S Cons.prems(2) by (cases n) (auto simp: Let_def case_prod_beta)
  have j1: "unat j1 = (j0 + S (unat i1)) mod 256"
    using Cons.prems S i1 j0 unat_index_sum(2) unfolding j1_def by (simp add: table_of_def)
  then have n1: "arc4_prga S0 (Suc n) = (S(unat i1 := S (unat j1), unat j1 := S (unat i1)), unat j1)"
    using S i1 by (simp add: Let_def)
  have ys: "table_of ys (fst (arc4_prga S0 (Suc n)))"
    unfolding n1 fst_conv ys_def using Cons.prems(1) S i1 j1 by (intro table_of_swap) simp_all
  have byte: "ys ! unat ((ucast (ys ! unat i1) + ucast (ys ! unat j1) :: u32) AND 0xff) =
      of_nat (case arc4_prga S0 (Suc n) of (S, j) \<Rightarrow> S ((S (Suc n mod 256) + S j) mod 256))"
  proof -
    have q: "unat (ys ! q) = fst (arc4_prga S0 (Suc n)) q" if "q < 256" for q
      using ys that by (simp add: table_of_def)
    have "unat i1 < 256" "unat j1 < 256" using i1 j1 by simp_all
    moreover have "snd (arc4_prga S0 (Suc n)) = unat j1" using n1 by simp
    ultimately show ?thesis
      using unat_index_sum(3) [of 0 "ys ! unat i1" "ys ! unat j1"]
      by (simp add: case_prod_beta i1 [symmetric] q [symmetric] del: arc4_prga.simps)
  qed
 have "rc4_apply buf ys i1 j1 = map (\<lambda>m. buf ! m XOR of_nat (case arc4_prga S0 (Suc (Suc n + m)) of
      (S, j) \<Rightarrow> S ((S (Suc (Suc n + m) mod 256) + S j) mod 256))) [0..<length buf]"
    by (rule Cons.IH [OF ys]) (simp_all only: n1 snd_conv i1)
  with byte show ?case
    by (simp add: Let_def i1_def [symmetric] j1_def [symmetric] ys_def [symmetric] map_upt_Suc del: upt_Suc arc4_prga.simps)
qed simp

lemma rc4_correct:
  assumes "key \<noteq> []"
  shows "rc4 buf key = Inr (arc4_ref buf key)"
proof -
  obtain ys where "rc4_setup key [0..<256] (map of_nat [0..<256]) 0 0 = Inr ys"
      and ys: "table_of ys (fst (arc4_ksa key 256))"
    using rc4_setup_correct [of key 256 0 "map of_nat [0..<256]" 0 0] table_of_init assms by auto
  then show ?thesis
    using rc4_apply_correct [of ys "fst (arc4_ksa key 256)" 0 0 0 buf]
    by (simp add: rc4_def arc4_ref_def arc4_byte_def)
qed

lemma rc4_empty_key: "rc4 buf [] = Inl Out_Of_Bounds"
  by (simp add: rc4_def upt_conv_Cons)

lemma arc4_ref_twice: "arc4_ref (arc4_ref buf key) key = buf"
  by (rule nth_equalityI) (simp_all add: arc4_ref_def xor.assoc)

section \<open>The compression function of RFC 1321\<close>

text \<open>
  The 64 steps of the RFC as one fold: the step number selects the function, the word of the block and
  the rotation.
\<close>

definition rfc_f :: "nat \<Rightarrow> u32 \<Rightarrow> u32 \<Rightarrow> u32 \<Rightarrow> u32" where
  "rfc_f j x y z =
     (if j < 16 then (x AND y) OR (NOT x AND z) else if j < 32 then (x AND z) OR (y AND NOT z)
      else if j < 48 then x XOR y XOR z else y XOR (x OR NOT z))"

definition rfc_k :: "nat \<Rightarrow> nat" where
  "rfc_k j = (if j < 16 then j else if j < 32 then (5 * j + 1) mod 16
     else if j < 48 then (3 * j + 5) mod 16 else 7 * j mod 16)"

definition rfc_s :: "nat \<Rightarrow> nat" where
  "rfc_s j = (if j < 16 then [7, 12, 17, 22] else if j < 32 then [5, 9, 14, 20]
     else if j < 48 then [4, 11, 16, 23] else [6, 10, 15, 21]) ! (j mod 4)"

fun rfc_step :: "u32 list \<Rightarrow> nat \<Rightarrow> u32 \<times> u32 \<times> u32 \<times> u32 \<Rightarrow> u32 \<times> u32 \<times> u32 \<times> u32" where
  "rfc_step X j (a, b, c, d) =
     (d, b + word_rotl (rfc_s j) (a + rfc_f j b c d + X ! rfc_k j + MD5Table ! j), b, c)"

definition rfc_compress :: "u32 list \<Rightarrow> u32 list \<Rightarrow> u32 list" where
  "rfc_compress B X =
     (case fold (rfc_step X) [0..<64] (B ! 0, B ! 1, B ! 2, B ! 3) of
        (a, b, c, d) \<Rightarrow> [B ! 0 + a, B ! 1 + b, B ! 2 + c, B ! 3 + d])"

lemma CYCLIC_LEFT_SHIFT_rotl:
  assumes "0 < s" and "s < 32"
  shows "CYCLIC_LEFT_SHIFT w s = word_rotl s w"
  unfolding CYCLIC_LEFT_SHIFT_def
proof (rule bit_word_eqI)
  fix n
  assume n: "n < LENGTH(32)"
  show "bit (push_bit s w OR drop_bit (32 - s) w) n = bit (word_rotl s w) n"
  proof (cases "s \<le> n")
    case True
    moreover have "\<not> bit w (32 - s + n)" using True assms bit_imp_le_length [of w "32 - s + n"] by auto
    moreover have "(n + (32 - s)) mod 32 = n - s" using True assms n by (simp add: mod_if)
    ultimately show ?thesis using n assms by (simp add: bit_word_rotl_iff bit_simps)
  next
    case False
    moreover have "(n + (32 - s)) mod 32 = 32 - s + n" using False assms by simp
    ultimately show ?thesis using n assms by (simp add: bit_word_rotl_iff bit_simps)
  qed
qed

lemma all_ones_u32: "(w :: u32) AND 0xffffffff = w"
proof -
  have "(0xffffffff :: u32) = - 1" by simp
  then show ?thesis by (simp only: and.right_neutral)
qed

lemma MD5Step_rotl: "0 < s \<Longrightarrow> s < 32 \<Longrightarrow>
    MD5Step f w x y z data t s = x + word_rotl s (w + f x y z + data + t)"
  by (simp add: MD5Step_def Let_def CYCLIC_LEFT_SHIFT_rotl add_ac all_ones_u32)

lemma less4_cases: "n < 4 \<Longrightarrow> n = 0 \<or> n = 1 \<or> n = 2 \<or> n = (3::nat)"
  by arith

lemma LShiftVal_row:
  assumes "row < 4" and "16 * row \<le> i" and "i < 16 * row + 16"
  shows "LShiftVal ! (4 * row + i mod 4) = rfc_s i" and "0 < rfc_s i" and "rfc_s i < 32"
proof -
  have "i mod 4 < 4" by simp
  then have c: "i mod 4 = 0 \<or> i mod 4 = 1 \<or> i mod 4 = 2 \<or> i mod 4 = 3" by (rule less4_cases)
  have r: "row = 0 \<or> row = 1 \<or> row = 2 \<or> row = 3" using assms(1) by (rule less4_cases)
  from c r assms show "LShiftVal ! (4 * row + i mod 4) = rfc_s i" "0 < rfc_s i" "rfc_s i < 32"
    by (auto simp: LShiftVal_def rfc_s_def)
qed

lemma md5_iter_rfc:
  assumes "row < 4" and "16 * row \<le> i" and "i < 16 * row + 16" and "f = rfc_f i" and "idx i = rfc_k i"
  shows "md5_iter f idx row X i reg = rfc_step X i reg"
  using LShiftVal_row [OF assms(1-3)] assms(4,5)
  by (cases reg) (simp add: MD5Step_rotl)

lemma fold_iter_rfc:
  assumes "row < 4" and "\<And>i. 16 * row \<le> i \<Longrightarrow> i < 16 * row + 16 \<Longrightarrow> f = rfc_f i \<and> idx i = rfc_k i"
  shows "fold (md5_iter f idx row X) [16 * row..<16 * row + 16] = fold (rfc_step X) [16 * row..<16 * row + 16]"
proof (rule ext)
  fix reg
  show "fold (md5_iter f idx row X) [16 * row..<16 * row + 16] reg = fold (rfc_step X) [16 * row..<16 * row + 16] reg"
    by (rule fold_cong) (use assms in \<open>auto intro!: md5_iter_rfc\<close>)
qed

lemmas rfc_defs = rfc_f_def rfc_k_def MD5_F1_def MD5_F2_def MD5_F3_def MD5_F4_def

lemma mod16_affine: "(a * (i mod 16) + b) mod 16 = (a * i + b) mod (16 :: nat)"
  by (metis mod_add_left_eq mod_mult_right_eq)

lemma rfc_rows:
  "i < 16 \<Longrightarrow> MD5_F1 = rfc_f i \<and> i = rfc_k i"
  "16 \<le> i \<Longrightarrow> i < 32 \<Longrightarrow> MD5_F2 = rfc_f i \<and> (5 * (i mod 16) + 1) mod 16 = rfc_k i"
  "32 \<le> i \<Longrightarrow> i < 48 \<Longrightarrow> MD5_F3 = rfc_f i \<and> (3 * (i mod 16) + 5) mod 16 = rfc_k i"
  "48 \<le> i \<Longrightarrow> i < 64 \<Longrightarrow> MD5_F4 = rfc_f i \<and> (7 * (i mod 16)) mod 16 = rfc_k i"
  unfolding fun_eq_iff rfc_defs mod16_affine mod_mult_right_eq by auto

lemma MD5Transform_rfc: "MD5Transform B X = rfc_compress B X"
proof -
  have 0: "fold (md5_iter MD5_F1 (\<lambda>i. i) 0 X) [0..<16] = fold (rfc_step X) [0..<16]"
    using fold_iter_rfc [of 0 MD5_F1 "\<lambda>i. i" X] rfc_rows(1) by simp
  have 1: "fold (md5_iter MD5_F2 (\<lambda>i. (5 * (i mod 16) + 1) mod 16) 1 X) [16..<32] = fold (rfc_step X) [16..<32]"
    using fold_iter_rfc [of 1 MD5_F2 "\<lambda>i. (5 * (i mod 16) + 1) mod 16" X] rfc_rows(2) by simp
  have 2: "fold (md5_iter MD5_F3 (\<lambda>i. (3 * (i mod 16) + 5) mod 16) 2 X) [32..<48] = fold (rfc_step X) [32..<48]"
    using fold_iter_rfc [of 2 MD5_F3 "\<lambda>i. (3 * (i mod 16) + 5) mod 16" X] rfc_rows(3) by simp
  have 3: "fold (md5_iter MD5_F4 (\<lambda>i. (7 * (i mod 16)) mod 16) 3 X) [48..<64] = fold (rfc_step X) [48..<64]"
    using fold_iter_rfc [of 3 MD5_F4 "\<lambda>i. (7 * (i mod 16)) mod 16" X] rfc_rows(4) by simp
  have s: "[0..<64] = [0..<16] @ [16..<32] @ [32..<48] @ [48..<64]"
    using upt_add_eq_append [of 0 16 48] upt_add_eq_append [of 16 32 32] upt_add_eq_append [of 32 48 16]
    by (simp only: le0 numeral_plus_numeral semiring_norm numeral_le_iff)
  show ?thesis unfolding MD5Transform_def rfc_compress_def Let_def 0 1 2 3 s fold_append comp_def ..
qed

end
