(* ===== verification/Md5_Properties.thy ===== *)
theory Md5_Properties
  imports Md5_Correct
begin

text \<open>
  The properties of the hash functions and of the stream cipher of \<open>8021xd/src/md5.c\<close>.
\<close>

unbundle bit_operations_syntax

text \<open>
  C26. The four loops of \<open>MD5Transform\<close>, with their shift-and-or rotation, their per-loop message
  index and their row of the shift table, compute the 64 steps of RFC 1321 with a cyclic rotation.
\<close>
theorem md5_transform_rfc1321: "MD5Transform B X = rfc_compress B X"
  by (rule MD5Transform_rfc)

text \<open>
  C13. However a message is cut into the chunks given to \<open>MD5Update\<close>, and whatever the context held before
  \<open>MD5Init\<close>, the digest of \<open>MD5Final\<close> is the MD5 of the concatenation: pad with 0x80, zeros and the
  64-bit length, and compress block after block.
\<close>
theorem md5_chunks_digest:
  assumes "length (Input ctx) = 64" and "\<forall>d \<in> set chunks. length d < 2 ^ 31"
  shows "MD5Final (fold (\<lambda>d c. MD5Update c d) chunks (MD5Init ctx)) = md5_ref (concat chunks)"
proof -
  have "ctx_ok (MD5Init ctx) []" by (rule ctx_ok_Init) (rule assms(1))
  from ctx_ok_Updates [OF this assms(2)] show ?thesis using Final_correct by simp
qed

theorem md5_chunks_digest_witness:
  "MD5Final (MD5Update (MD5Update (MD5Init (stack_ctx\<lparr>Input := replicate 64 7\<rparr>)) [0x61]) [0x62, 0x63]) =
     md5_ref [0x61, 0x62, 0x63]"
  using md5_chunks_digest [of "stack_ctx\<lparr>Input := replicate 64 7\<rparr>" "[[0x61], [0x62, 0x63]]"] by simp

text \<open>
  The implementation reproduces the test vectors of RFC 1321 for the empty message and for "abc".
\<close>
theorem md5_test_vectors:
  "MD5Final (MD5Update (MD5Init stack_ctx) []) =
     [0xd4, 0x1d, 0x8c, 0xd9, 0x8f, 0x00, 0xb2, 0x04, 0xe9, 0x80, 0x09, 0x98, 0xec, 0xf8, 0x42, 0x7e] \<and>
   MD5Final (MD5Update (MD5Init stack_ctx) [0x61, 0x62, 0x63]) =
     [0x90, 0x01, 0x50, 0x98, 0x3c, 0xd2, 0x4f, 0xb0, 0xd6, 0x96, 0x3f, 0x7d, 0x28, 0xe1, 0x7f, 0x72]"
  by code_simp

text \<open>
  C27. \<open>hmac_md5\<close> is the HMAC of RFC 2104 over MD5, for keys up to and beyond the block length.
\<close>
theorem hmac_md5_rfc2104:
  assumes "length key < 2 ^ 31" and "length data < 2 ^ 31"
  shows "hmac_md5 key data = hmac_ref key data"
  using assms by (rule hmac_md5_correct)

theorem hmac_md5_rfc2104_witness: "hmac_md5 (replicate 65 1) [2, 3] = hmac_ref (replicate 65 1) [2, 3]"
  using hmac_md5_rfc2104 [of "replicate 65 1" "[2, 3]"] by simp

text \<open>
  C28. \<open>rc4\<close>, with its table of bytes, its 32-bit indices that are masked and its 8-bit position in the key, is the
  RC4 of the literature over numbers modulo 256: every byte of the buffer is combined with the byte of
  the key stream at its position, where the key schedule repeats the key as often as needed; the position in the key stays
  inside it. With an empty key the first step reads outside the key.
\<close>
theorem rc4_is_arcfour:
  "rc4 buf key = (if key = [] then Inl Out_Of_Bounds else Inr (arc4_ref buf key))"
proof (cases "key = []")
  case True
  then show ?thesis by (simp add: rc4_empty_key)
next
  case False
  then show ?thesis by (simp add: rc4_correct)
qed

text \<open>In particular the cipher undoes itself.\<close>

lemma rc4_twice: "key \<noteq> [] \<Longrightarrow> res_bind (rc4 buf key) (\<lambda>enc. rc4 enc key) = Inr buf"
  by (simp add: rc4_correct arc4_ref_twice)

end
