(* ===== verification/Radius.thy ===== *)
theory Radius
  imports Md5_Correct
begin

text \<open>
  RADIUS messages of the 802.1X authenticator (\<open>8021xd/src/radius.c\<close>, \<open>radius.h\<close>). A message is a
  buffer, the number of bytes used in it and the array of pointers to its attributes; a pointer into
  the buffer is its offset, so the adjustment of the pointers after a \<open>realloc\<close> is the identity.
  \<open>buf_size\<close> is the length of the buffer. Every call takes \<open>ok\<close>: whether its first, second, ...
  allocation succeeds. Reading or writing outside the buffer is \<open>Out_Of_Bounds\<close>, a loop that does
  not advance is \<open>No_Return\<close>.
\<close>

unbundle bit_operations_syntax

section \<open>Messages\<close>

record radius_msg =
  msg_buf :: "byte list"
  buf_used :: nat
  msg_attrs :: "nat list"
  attr_size :: nat

abbreviation (input) radius_hdr_size :: nat where "radius_hdr_size \<equiv> 20"
abbreviation (input) RADIUS_MAX_ATTR_LEN :: nat where "RADIUS_MAX_ATTR_LEN \<equiv> 253"
abbreviation (input) RADIUS_DEFAULT_MSG_SIZE :: nat where "RADIUS_DEFAULT_MSG_SIZE \<equiv> 1024"
abbreviation (input) RADIUS_DEFAULT_ATTR_COUNT :: nat where "RADIUS_DEFAULT_ATTR_COUNT \<equiv> 16"
abbreviation (input) RADIUS_CODE_ACCESS_REQUEST :: byte where "RADIUS_CODE_ACCESS_REQUEST \<equiv> 1"
abbreviation (input) RADIUS_CODE_ACCESS_ACCEPT :: byte where "RADIUS_CODE_ACCESS_ACCEPT \<equiv> 2"
abbreviation (input) RADIUS_CODE_ACCESS_REJECT :: byte where "RADIUS_CODE_ACCESS_REJECT \<equiv> 3"
abbreviation (input) RADIUS_CODE_ACCESS_CHALLENGE :: byte where "RADIUS_CODE_ACCESS_CHALLENGE \<equiv> 11"
abbreviation (input) RADIUS_ATTR_USER_NAME :: byte where "RADIUS_ATTR_USER_NAME \<equiv> 1"
abbreviation (input) RADIUS_ATTR_USER_PASSWORD :: byte where "RADIUS_ATTR_USER_PASSWORD \<equiv> 2"
abbreviation (input) RADIUS_ATTR_STATE :: byte where "RADIUS_ATTR_STATE \<equiv> 24"
abbreviation (input) RADIUS_ATTR_VENDOR_SPECIFIC :: byte where "RADIUS_ATTR_VENDOR_SPECIFIC \<equiv> 26"
abbreviation (input) RADIUS_ATTR_SESSION_TIMEOUT :: byte where "RADIUS_ATTR_SESSION_TIMEOUT \<equiv> 27"
abbreviation (input) RADIUS_ATTR_TERMINATION_ACTION :: byte where "RADIUS_ATTR_TERMINATION_ACTION \<equiv> 29"
abbreviation (input) RADIUS_ATTR_EAP_MESSAGE :: byte where "RADIUS_ATTR_EAP_MESSAGE \<equiv> 79"
abbreviation (input) RADIUS_ATTR_MESSAGE_AUTHENTICATOR :: byte where "RADIUS_ATTR_MESSAGE_AUTHENTICATOR \<equiv> 80"
abbreviation (input) RADIUS_VENDOR_ID_MICROSOFT :: nat where "RADIUS_VENDOR_ID_MICROSOFT \<equiv> 311"
abbreviation (input) RADIUS_VENDOR_ID_WFA :: nat where "RADIUS_VENDOR_ID_WFA \<equiv> 40808"
abbreviation (input) RADIUS_VENDOR_ATTR_MS_MPPE_SEND_KEY :: byte where "RADIUS_VENDOR_ATTR_MS_MPPE_SEND_KEY \<equiv> 16"
abbreviation (input) RADIUS_VENDOR_ATTR_MS_MPPE_RECV_KEY :: byte where "RADIUS_VENDOR_ATTR_MS_MPPE_RECV_KEY \<equiv> 17"

text \<open>Bytes of memory, and integers in network byte order.\<close>

definition read_n :: "byte list \<Rightarrow> nat \<Rightarrow> nat \<Rightarrow> byte list res" where
  "read_n m off n = (if off + n \<le> length m then Inr (take n (drop off m)) else Inl Out_Of_Bounds)"

definition be16 :: "nat \<Rightarrow> byte list" where
  "be16 n = [of_nat (n div 256), of_nat n]"

definition be32 :: "u32 \<Rightarrow> byte list" where
  "be32 w = [ucast (drop_bit 24 w), ucast (drop_bit 16 w), ucast (drop_bit 8 w), ucast w]"

definition ntoh :: "byte list \<Rightarrow> nat" where
  "ntoh bs = foldl (\<lambda>n b. n * 256 + unat b) 0 bs"

definition authenticator :: "radius_msg \<Rightarrow> byte list" where
  "authenticator msg = take 16 (drop 4 (msg_buf msg))"

definition attr_type :: "radius_msg \<Rightarrow> nat \<Rightarrow> byte" where
  "attr_type msg a = msg_buf msg ! a"

definition attr_length :: "radius_msg \<Rightarrow> nat \<Rightarrow> nat" where
  "attr_length msg a = unat (msg_buf msg ! (a + 1))"

text \<open>The value of an attribute: \<open>attr->length - sizeof(*attr)\<close> bytes from \<open>attr + 1\<close>.\<close>

definition attr_value :: "radius_msg \<Rightarrow> nat \<Rightarrow> byte list res" where
  "attr_value msg a =
     (if attr_length msg a < 2 then Inl Out_Of_Bounds else read_n (msg_buf msg) (a + 2) (attr_length msg a - 2))"

definition Radius_msg_initialize :: "(nat \<Rightarrow> bool) \<Rightarrow> nat \<Rightarrow> radius_msg option" where
  "Radius_msg_initialize ok init_len =
     (if init_len < radius_hdr_size then None
      else if \<not> ok 0 then None
      else if \<not> ok 1 then None
      else Some \<lparr>msg_buf = replicate init_len 0, buf_used = radius_hdr_size, msg_attrs = [],
                 attr_size = RADIUS_DEFAULT_ATTR_COUNT\<rparr>)"

definition Radius_msg_set_hdr :: "radius_msg \<Rightarrow> byte \<Rightarrow> byte \<Rightarrow> radius_msg" where
  "Radius_msg_set_hdr msg code identifier = msg\<lparr>msg_buf := (msg_buf msg)[0 := code, 1 := identifier]\<rparr>"

definition Radius_msg_new :: "(nat \<Rightarrow> bool) \<Rightarrow> byte \<Rightarrow> byte \<Rightarrow> radius_msg option" where
  "Radius_msg_new ok code identifier =
     (if \<not> ok 0 then None
      else case Radius_msg_initialize (\<lambda>k. ok (k + 1)) RADIUS_DEFAULT_MSG_SIZE of
          None \<Rightarrow> None
        | Some msg \<Rightarrow> Some (Radius_msg_set_hdr msg code identifier))"

definition Radius_msg_free :: "radius_msg \<Rightarrow> radius_msg" where
  "Radius_msg_free msg = msg\<lparr>msg_buf := [], buf_used := 0, msg_attrs := [], attr_size := 0\<rparr>"

section \<open>Building a message\<close>

definition Radius_msg_add_attr_to_array :: "bool \<Rightarrow> radius_msg \<Rightarrow> nat \<Rightarrow> radius_msg option" where
  "Radius_msg_add_attr_to_array ok msg attr =
     (if attr_size msg \<le> length (msg_attrs msg)
      then if ok then Some (msg\<lparr>attr_size := attr_size msg * 2, msg_attrs := msg_attrs msg @ [attr]\<rparr>)
           else None
      else Some (msg\<lparr>msg_attrs := msg_attrs msg @ [attr]\<rparr>))"

text \<open>\<open>while (nlen < buf_needed) nlen *= 2\<close>: it does not end from an empty buffer.\<close>

function grow :: "nat \<Rightarrow> nat \<Rightarrow> nat res" where
  "grow nlen needed =
     (if nlen < needed then if nlen = 0 then Inl No_Return else grow (nlen * 2) needed else Inr nlen)"
  by pat_completeness auto
termination by (relation "measure (\<lambda>(nlen, needed). needed - nlen)") auto

declare grow.simps [simp del]

definition add_attr_room :: "bool \<Rightarrow> radius_msg \<Rightarrow> nat \<Rightarrow> radius_msg option res" where
  "add_attr_room ok msg buf_needed =
     (if length (msg_buf msg) < buf_needed
      then res_bind (grow (length (msg_buf msg)) buf_needed) (\<lambda>nlen.
        Inr (if ok
          then Some (msg\<lparr>msg_buf := msg_buf msg @ replicate (nlen - length (msg_buf msg)) 0\<rparr>)
          else None))
      else Inr (Some msg))"

text \<open>The result is the message after the call and the new attribute, \<open>None\<close> for NULL.\<close>

definition Radius_msg_add_attr ::
  "(nat \<Rightarrow> bool) \<Rightarrow> radius_msg \<Rightarrow> byte \<Rightarrow> byte list \<Rightarrow> (radius_msg \<times> nat option) res" where
  "Radius_msg_add_attr ok msg type data =
     (if RADIUS_MAX_ATTR_LEN < length data then Inr (msg, None)
      else res_bind (add_attr_room (ok 0) msg (buf_used msg + 2 + length data)) (\<lambda>r.
        case r of
          None \<Rightarrow> Inr (msg, None)
        | Some m \<Rightarrow>
            let attr = buf_used m;
              m2 = m\<lparr>msg_buf := move_at attr (type # of_nat (2 + length data) # data) (msg_buf m),
                     buf_used := buf_used m + (2 + length data)\<rparr>
            in case Radius_msg_add_attr_to_array (ok 1) m2 attr of
                 None \<Rightarrow> Inr (m2, None)
               | Some m3 \<Rightarrow> Inr (m3, Some attr)))"

definition Radius_msg_add_attr_int32 ::
  "(nat \<Rightarrow> bool) \<Rightarrow> radius_msg \<Rightarrow> byte \<Rightarrow> u32 \<Rightarrow> (radius_msg \<times> bool) res" where
  "Radius_msg_add_attr_int32 ok msg type value =
     res_bind (Radius_msg_add_attr ok msg type (be32 value)) (\<lambda>(m, a). Inr (m, a \<noteq> None))"

function Radius_msg_add_eap :: "(nat \<Rightarrow> bool) \<Rightarrow> radius_msg \<Rightarrow> byte list \<Rightarrow> (radius_msg \<times> bool) res" where
  "Radius_msg_add_eap ok msg data =
     (if data = [] then Inr (msg, True)
      else
        let len = (if RADIUS_MAX_ATTR_LEN < length data then RADIUS_MAX_ATTR_LEN else length data)
        in res_bind (Radius_msg_add_attr ok msg RADIUS_ATTR_EAP_MESSAGE (take len data)) (\<lambda>(m, a).
             if a = None then Inr (m, False) else Radius_msg_add_eap (\<lambda>k. ok (k + 2)) m (drop len data)))"
  by pat_completeness auto
termination by (relation "measure (\<lambda>(ok, msg, data). length data)") (auto split: if_splits)

declare Radius_msg_add_eap.simps [simp del]

definition set_hdr_length :: "radius_msg \<Rightarrow> radius_msg" where
  "set_hdr_length msg = msg\<lparr>msg_buf := move_at 2 (be16 (buf_used msg)) (msg_buf msg)\<rparr>"

text \<open>
  With a secret, a zero Message-Authenticator is added, the length is stored, and the keyed hash of the
  message is written to the attribute, wherever the pointer to it points.
\<close>

definition Radius_msg_finish ::
  "(nat \<Rightarrow> bool) \<Rightarrow> radius_msg \<Rightarrow> byte list option \<Rightarrow> radius_msg res" where
  "Radius_msg_finish ok msg secret =
     (case secret of
        Some key \<Rightarrow>
          res_bind (Radius_msg_add_attr ok msg RADIUS_ATTR_MESSAGE_AUTHENTICATOR (replicate 16 0)) (\<lambda>(m, attr).
            let m1 = set_hdr_length m in
            case attr of
              None \<Rightarrow> Inl Null_Deref
            | Some a \<Rightarrow> Inr (m1\<lparr>msg_buf :=
                move_at (a + 2) (hmac_md5 key (take (buf_used m1) (msg_buf m1))) (msg_buf m1)\<rparr>))
      | None \<Rightarrow> Inr (set_hdr_length msg))"

text \<open>MD5 of several pieces, one \<open>MD5Update\<close> each.\<close>

definition md5_pieces :: "byte list list \<Rightarrow> byte list" where
  "md5_pieces ps = MD5Final (fold (\<lambda>d c. MD5Update c d) ps (MD5Init stack_ctx))"

text \<open>The time of day and the random number are the bytes the system calls return.\<close>

definition Radius_msg_make_authenticator ::
  "byte list \<Rightarrow> byte list \<Rightarrow> radius_msg \<Rightarrow> byte list \<Rightarrow> radius_msg" where
  "Radius_msg_make_authenticator tv l msg data =
     msg\<lparr>msg_buf := move_at 4 (md5_pieces [tv, data, l]) (msg_buf msg)\<rparr>"

section \<open>Reading a message\<close>

function parse_attributes ::
  "(nat \<Rightarrow> bool) \<Rightarrow> radius_msg \<Rightarrow> nat \<Rightarrow> nat \<Rightarrow> radius_msg option" where
  "parse_attributes ok msg pos end' =
     (if pos < end' then
        if end' - pos < 2 then None
        else if end' < pos + attr_length msg pos \<or> attr_length msg pos < 2 then None
        else case Radius_msg_add_attr_to_array (ok 0) msg pos of
            None \<Rightarrow> None
          | Some m \<Rightarrow> parse_attributes (\<lambda>k. ok (k + 1)) m (pos + attr_length msg pos) end'
      else Some msg)"
  by pat_completeness auto
termination by (relation "measure (\<lambda>(ok, msg, pos, end'). end' - pos)") auto

declare parse_attributes.simps [simp del]

definition Radius_msg_parse :: "(nat \<Rightarrow> bool) \<Rightarrow> byte list \<Rightarrow> radius_msg option" where
  "Radius_msg_parse ok data =
     (if length data < radius_hdr_size then None
      else
        let msg_len = ntoh (take 2 (drop 2 data)) in
        if msg_len < radius_hdr_size \<or> length data < msg_len then None
        else if \<not> ok 0 then None
        else case Radius_msg_initialize (\<lambda>k. ok (k + 1)) msg_len of
            None \<Rightarrow> None
          | Some msg \<Rightarrow> parse_attributes (\<lambda>k. ok (k + 3))
              (msg\<lparr>msg_buf := take msg_len data, buf_used := msg_len\<rparr>) radius_hdr_size msg_len)"

text \<open>The two passes over the EAP-Message attributes.\<close>

fun eap_length :: "radius_msg \<Rightarrow> nat list \<Rightarrow> nat" where
  "eap_length msg [] = 0"
| "eap_length msg (a # as) =
     (if attr_type msg a = RADIUS_ATTR_EAP_MESSAGE then attr_length msg a - 2 else 0) + eap_length msg as"

fun eap_copy :: "radius_msg \<Rightarrow> nat list \<Rightarrow> byte list res" where
  "eap_copy msg [] = Inr []"
| "eap_copy msg (a # as) =
     (if attr_type msg a = RADIUS_ATTR_EAP_MESSAGE
      then res_bind (attr_value msg a) (\<lambda>v. res_bind (eap_copy msg as) (\<lambda>vs. Inr (v @ vs)))
      else eap_copy msg as)"

definition Radius_msg_get_eap :: "bool \<Rightarrow> radius_msg \<Rightarrow> byte list option res" where
  "Radius_msg_get_eap ok msg =
     (if eap_length msg (msg_attrs msg) = 0 then Inr None
      else if \<not> ok then Inr None
      else res_bind (eap_copy msg (msg_attrs msg)) (\<lambda>eap. Inr (Some eap)))"

definition find_attr :: "radius_msg \<Rightarrow> byte \<Rightarrow> nat option" where
  "find_attr msg type = List.find (\<lambda>a. attr_type msg a = type) (msg_attrs msg)"

text \<open>The result of \<open>Radius_msg_get_attr\<close>: the length, -1 when there is none, and the bytes copied.\<close>

definition Radius_msg_get_attr :: "radius_msg \<Rightarrow> byte \<Rightarrow> nat \<Rightarrow> (int \<times> byte list) res" where
  "Radius_msg_get_attr msg type len =
     (case find_attr msg type of
        None \<Rightarrow> Inr (- 1, [])
      | Some a \<Rightarrow> res_bind (attr_value msg a) (\<lambda>v. Inr (int (length v), take len v)))"

definition Radius_msg_get_attr_int32 :: "radius_msg \<Rightarrow> byte \<Rightarrow> nat option res" where
  "Radius_msg_get_attr_int32 msg type =
     res_bind (Radius_msg_get_attr msg type 4) (\<lambda>(res, val). Inr (if res \<noteq> 4 then None else Some (ntoh val)))"

text \<open>The result is 0 when there is no such attribute, -1 when it cannot be added, else 1.\<close>

definition Radius_msg_copy_attr ::
  "(nat \<Rightarrow> bool) \<Rightarrow> radius_msg \<Rightarrow> radius_msg \<Rightarrow> byte \<Rightarrow> (radius_msg \<times> int) res" where
  "Radius_msg_copy_attr ok dst src type =
     (case find_attr src type of
        None \<Rightarrow> Inr (dst, 0)
      | Some a \<Rightarrow>
          res_bind (attr_value src a) (\<lambda>v.
          res_bind (Radius_msg_add_attr ok dst type v) (\<lambda>(m, r).
            Inr (m, if r = None then - 1 else 1))))"

section \<open>Authenticity\<close>

definition response_hash :: "radius_msg \<Rightarrow> byte list \<Rightarrow> radius_msg \<Rightarrow> byte list" where
  "response_hash msg secret sent_msg =
     md5_pieces [take 4 (msg_buf msg), authenticator sent_msg,
       drop radius_hdr_size (take (buf_used msg) (msg_buf msg)), secret]"

text \<open>
  0 is success. The message is the same after the call: what is overwritten for the computation of the
  keyed hash is restored.
\<close>

definition Radius_msg_verify ::
  "radius_msg \<Rightarrow> byte list \<Rightarrow> radius_msg option \<Rightarrow> int res" where
  "Radius_msg_verify msg secret sent_msg =
     (case sent_msg of
        None \<Rightarrow> Inr 1
      | Some sent \<Rightarrow>
          (case filter (\<lambda>a. attr_type msg a = RADIUS_ATTR_MESSAGE_AUTHENTICATOR) (msg_attrs msg) of
             [] \<Rightarrow> Inr 1
           | a # dup # _ \<Rightarrow> Inr 1
           | [a] \<Rightarrow>
               res_bind (read_n (msg_buf msg) (a + 2) 16) (\<lambda>orig.
                 let buf1 = move_at 4 (authenticator sent) (move_at (a + 2) (replicate 16 0) (msg_buf msg));
                   auth = hmac_md5 secret (take (buf_used msg) buf1)
                 in if orig \<noteq> auth then Inr 1
                    else if response_hash msg secret sent \<noteq> authenticator msg then Inr 1
                    else Inr 0)))"

definition Radius_msg_verify_acct ::
  "radius_msg \<Rightarrow> byte list \<Rightarrow> radius_msg option \<Rightarrow> int res" where
  "Radius_msg_verify_acct msg secret sent_msg =
     (case sent_msg of
        None \<Rightarrow> Inl Null_Deref
      | Some sent \<Rightarrow>
          let hash = md5_pieces ([take 4 (msg_buf msg), authenticator sent] @
            (if radius_hdr_size < buf_used msg
             then [drop radius_hdr_size (take (buf_used msg) (msg_buf msg))] else []) @ [secret])
          in if hash \<noteq> authenticator msg then Inr 1 else Inr 0)"

section \<open>Vendor attributes and keys\<close>

text \<open>
  The loop over the attributes inside one vendor-specific attribute. \<open>None\<close>: the loop ended without
  a match; \<open>Some None\<close>: the function returns NULL; \<open>Some (Some d)\<close>: it returns \<open>d\<close>. A sub-attribute
  of length 0 and another type leaves the loop where it is. With a length below the two header bytes
  the size of the copy wraps around.
\<close>

function vendor_scan :: "bool \<Rightarrow> byte \<Rightarrow> byte list \<Rightarrow> byte list option option res" where
  "vendor_scan ok ty pos =
     (if length pos < 2 then Inr None
      else let vlen = unat (pos ! 1) in
        if length pos < vlen then Inr None
        else if pos ! 0 \<noteq> ty then
          if vlen = 0 then Inl No_Return else vendor_scan ok ty (drop vlen pos)
        else if \<not> ok then Inr (Some None)
        else if vlen < 2 then Inl Out_Of_Bounds
        else Inr (Some (Some (take (vlen - 2) (drop 2 pos)))))"
  by pat_completeness auto
termination by (relation "measure (\<lambda>(ok, ty, pos). length pos)") auto

declare vendor_scan.simps [simp del]

fun vendor_attrs :: "bool \<Rightarrow> nat \<Rightarrow> byte \<Rightarrow> radius_msg \<Rightarrow> nat list \<Rightarrow> byte list option res" where
  "vendor_attrs ok vendor ty msg [] = Inr None"
| "vendor_attrs ok vendor ty msg (a # as) =
     (if attr_type msg a \<noteq> RADIUS_ATTR_VENDOR_SPECIFIC then vendor_attrs ok vendor ty msg as
      else res_bind (attr_value msg a) (\<lambda>v.
        if length v < 4 then vendor_attrs ok vendor ty msg as
        else if ntoh (take 4 v) \<noteq> vendor then vendor_attrs ok vendor ty msg as
        else res_bind (vendor_scan ok ty (drop 4 v)) (\<lambda>r.
          case r of None \<Rightarrow> vendor_attrs ok vendor ty msg as | Some d \<Rightarrow> Inr d)))"

definition Radius_msg_get_ms_attr :: "bool \<Rightarrow> radius_msg \<Rightarrow> byte \<Rightarrow> byte list option res" where
  "Radius_msg_get_ms_attr ok msg ms_type = vendor_attrs ok RADIUS_VENDOR_ID_MICROSOFT ms_type msg (msg_attrs msg)"

definition Radius_msg_get_wfa_attr :: "bool \<Rightarrow> radius_msg \<Rightarrow> byte \<Rightarrow> byte list option res" where
  "Radius_msg_get_wfa_attr ok msg wfa_subtype = vendor_attrs ok RADIUS_VENDOR_ID_WFA wfa_subtype msg (msg_attrs msg)"

text \<open>Blocks of 16 bytes, each combined with the hash of the secret and the preceding cipher block.\<close>

definition xor_bytes :: "byte list \<Rightarrow> byte list \<Rightarrow> byte list" where
  "xor_bytes xs ys = map2 (\<lambda>x y. x XOR y) xs ys"

function decrypt_blocks :: "byte list \<Rightarrow> byte list list \<Rightarrow> byte list \<Rightarrow> byte list" where
  "decrypt_blocks secret prev pos =
     (if pos = [] then []
      else xor_bytes (take 16 pos) (md5_pieces (secret # prev)) @
        decrypt_blocks secret [take 16 pos] (drop 16 pos))"
  by pat_completeness auto
termination by (relation "measure (\<lambda>(secret, prev, pos). length pos)") auto

declare decrypt_blocks.simps [simp del]

text \<open>The two allocations: the plain text and the result.\<close>

definition decrypt_ms_key ::
  "(nat \<Rightarrow> bool) \<Rightarrow> byte list \<Rightarrow> radius_msg \<Rightarrow> byte list \<Rightarrow> byte list option" where
  "decrypt_ms_key ok key sent_msg secret =
     (if length key < 2 + 16 then None
      else if (length key - 2) mod 16 \<noteq> 0 then None
      else if \<not> ok 0 then None
      else
        let plain = decrypt_blocks secret [authenticator sent_msg, take 2 key] (drop 2 key);
          n = unat (plain ! 0)
        in if length key - 2 - 1 < n then None
           else if \<not> ok 1 then None
           else Some (take n (drop 1 plain)))"

record radius_ms_mppe_keys =
  send_key :: "byte list option"
  recv_key :: "byte list option"

definition Radius_msg_get_ms_keys ::
  "(nat \<Rightarrow> bool) \<Rightarrow> radius_msg option \<Rightarrow> radius_msg option \<Rightarrow> byte list \<Rightarrow> radius_ms_mppe_keys option res" where
  "Radius_msg_get_ms_keys ok msg sent_msg secret =
     (case (msg, sent_msg) of
        (Some m, Some sent) \<Rightarrow>
          if \<not> ok 0 then Inr None
          else
            res_bind (Radius_msg_get_ms_attr (ok 1) m RADIUS_VENDOR_ATTR_MS_MPPE_SEND_KEY) (\<lambda>s.
            res_bind (Radius_msg_get_ms_attr (ok 4) m RADIUS_VENDOR_ATTR_MS_MPPE_RECV_KEY) (\<lambda>r.
              Inr (Some \<lparr>
                send_key = Option.bind s (\<lambda>k. decrypt_ms_key (\<lambda>i. ok (i + 2)) k sent secret),
                recv_key = Option.bind r (\<lambda>k. decrypt_ms_key (\<lambda>i. ok (i + 5)) k sent secret)\<rparr>)))
      | _ \<Rightarrow> Inr None)"

function encrypt_blocks :: "byte list \<Rightarrow> byte list list \<Rightarrow> byte list \<Rightarrow> byte list" where
  "encrypt_blocks secret prev buf =
     (if buf = [] then []
      else let c = xor_bytes (take 16 buf) (md5_pieces (secret # prev))
        in c @ encrypt_blocks secret [c] (drop 16 buf))"
  by pat_completeness auto
termination by (relation "measure (\<lambda>(secret, prev, buf). length buf)") auto

declare encrypt_blocks.simps [simp del]

definition Radius_msg_add_attr_user_password ::
  "(nat \<Rightarrow> bool) \<Rightarrow> radius_msg \<Rightarrow> byte list \<Rightarrow> byte list \<Rightarrow> (radius_msg \<times> nat option) res" where
  "Radius_msg_add_attr_user_password ok msg data secret =
     (if 128 < length data then Inr (msg, None)
      else
        let padlen = length data mod 16;
          buf = data @ replicate (if padlen \<noteq> 0 then 16 - padlen else 0) 0
        in Radius_msg_add_attr ok msg RADIUS_ATTR_USER_PASSWORD
             (encrypt_blocks secret [authenticator msg] buf))"

end
