(* ===== verification/Radius_Correct.thy ===== *)
theory Radius_Correct
  imports Radius
begin

text \<open>
  A RADIUS message as what it stands for: a header of 20 bytes and a list of attributes, each a type
  and a value. \<open>msg_rep\<close> relates the buffer and the pointers of a message to them; the operations of
  \<open>radius.c\<close> are shown to implement the operations on the list.
\<close>

unbundle bit_operations_syntax

section \<open>The representation\<close>

type_synonym attribute = "byte \<times> byte list"

fun encode_attr :: "attribute \<Rightarrow> byte list" where
  "encode_attr (t, v) = t # of_nat (2 + length v) # v"

definition encode :: "attribute list \<Rightarrow> byte list" where
  "encode as = concat (map encode_attr as)"

fun offsets :: "nat \<Rightarrow> attribute list \<Rightarrow> nat list" where
  "offsets p [] = []"
| "offsets p (a # as) = p # offsets (p + length (encode_attr a)) as"

definition msg_rep :: "radius_msg \<Rightarrow> byte list \<Rightarrow> attribute list \<Rightarrow> bool" where
  "msg_rep msg hdr as \<longleftrightarrow>
     length hdr = 20 \<and> (\<forall>a \<in> set as. length (snd a) \<le> 253) \<and>
     buf_used msg \<le> length (msg_buf msg) \<and> take (buf_used msg) (msg_buf msg) = hdr @ encode as \<and>
     msg_attrs msg = offsets 20 as \<and> length as \<le> attr_size msg \<and> 0 < attr_size msg"

lemma encode_simps [simp]:
  "encode [] = []" "encode (a # as) = encode_attr a @ encode as" "encode (as @ bs) = encode as @ encode bs"
  by (simp_all add: encode_def)

lemma length_encode_attr: "length (encode_attr a) = 2 + length (snd a)"
  by (cases a) simp

lemma length_offsets [simp]: "length (offsets p as) = length as"
  by (induction as arbitrary: p) simp_all

lemma offsets_append: "offsets p (as @ bs) = offsets p as @ offsets (p + length (encode as)) bs"
  by (induction as arbitrary: p) (simp_all add: add.assoc)

lemma offsets_ge: "x \<in> set (offsets p as) \<Longrightarrow> p \<le> x"
  by (induction as arbitrary: p) fastforce+

lemma msg_rep_used:
  assumes "msg_rep msg hdr as"
  shows "buf_used msg = 20 + length (encode as)"
proof -
  have "length (take (buf_used msg) (msg_buf msg)) = length (hdr @ encode as)"
    using assms by (simp add: msg_rep_def)
  then show ?thesis using assms by (simp add: msg_rep_def min_def split: if_splits)
qed

text \<open>What the pointer to an attribute reads.\<close>

definition reads :: "radius_msg \<Rightarrow> nat \<Rightarrow> attribute \<Rightarrow> bool" where
  "reads msg a at \<longleftrightarrow> attr_type msg a = fst at \<and> attr_length msg a = 2 + length (snd at) \<and>
     attr_value msg a = Inr (snd at)"

lemma small_length: "n \<le> 253 \<Longrightarrow> unat (of_nat (2 + n) :: byte) = 2 + n"
  by (simp only: unsigned_of_nat take_bit_eq_mod) simp

lemma reads_at:
  assumes "msg_buf msg = pre @ encode_attr at @ post" and "length pre = a" and "length (snd at) \<le> 253"
  shows "reads msg a at"
proof -
  obtain t v where at: "at = (t, v)" by (cases at)
  with assms have b: "msg_buf msg = pre @ t # of_nat (2 + length v) # v @ post" by simp
  from b assms(2) have t: "attr_type msg a = t" by (simp add: attr_type_def nth_append)
  from b assms(2) have "msg_buf msg ! (a + 1) = of_nat (2 + length v)" by (simp add: nth_append)
  then have l: "attr_length msg a = 2 + length v"
    using small_length [of "length v"] assms(3) at unfolding attr_length_def by simp
  have "read_n (msg_buf msg) (a + 2) (length v) = Inr v" using b assms(2) by (simp add: read_n_def)
  then have "attr_value msg a = Inr v" using l by (simp add: attr_value_def)
  with t l at show ?thesis by (simp add: reads_def)
qed

lemma reads_all:
  assumes "msg_buf msg = pre @ encode as @ post" and "length pre = p" and "\<forall>a \<in> set as. length (snd a) \<le> 253"
  shows "list_all2 (reads msg) (offsets p as) as"
  using assms
proof (induction as arbitrary: pre p)
  case (Cons a as)
  have "reads msg p a" using Cons.prems by (intro reads_at [of msg pre a "encode as @ post"]) auto
  moreover have "list_all2 (reads msg) (offsets (p + length (encode_attr a)) as) as"
    using Cons.prems by (intro Cons.IH [of "pre @ encode_attr a"]) auto
  ultimately show ?case by simp
qed simp

lemma msg_rep_buf:
  assumes "msg_rep msg hdr as"
  shows "msg_buf msg = hdr @ encode as @ drop (buf_used msg) (msg_buf msg)"
  using assms append_take_drop_id [of "buf_used msg" "msg_buf msg"] unfolding msg_rep_def by (metis append.assoc)

lemma msg_rep_intro:
  assumes "msg_buf msg = hdr @ encode as @ rest" and "length hdr = 20" and "buf_used msg = 20 + length (encode as)"
    and "msg_attrs msg = offsets 20 as" and "\<forall>a \<in> set as. length (snd a) \<le> 253"
    and "length as \<le> attr_size msg" and "0 < attr_size msg"
  shows "msg_rep msg hdr as"
  using assms by (simp add: msg_rep_def)

lemma msg_rep_reads:
  assumes "msg_rep msg hdr as"
  shows "list_all2 (reads msg) (msg_attrs msg) as"
  using reads_all [OF msg_rep_buf [OF assms]] assms by (simp add: msg_rep_def)

lemma msg_rep_header:
  assumes "msg_rep msg hdr as" and "n \<le> 20"
  shows "take n (msg_buf msg) = take n hdr"
  using msg_rep_buf [OF assms(1)] assms unfolding msg_rep_def by (metis take_append diff_is_0_eq take0 append_Nil2)

lemma msg_rep_authenticator:
  assumes "msg_rep msg hdr as"
  shows "authenticator msg = drop 4 hdr"
proof -
  have "authenticator msg = drop 4 (take 20 (msg_buf msg))" by (simp add: authenticator_def drop_take)
  then show ?thesis using msg_rep_header [OF assms, of 20] assms by (simp add: msg_rep_def)
qed

section \<open>Building\<close>

lemma new_rep:
  assumes "\<And>k. ok k"
  shows "\<exists>msg. Radius_msg_new ok code identifier = Some msg \<and>
    msg_rep msg (code # identifier # replicate 18 0) [] \<and> length (msg_buf msg) = 1024"
proof -
  have "(replicate 1024 0 :: byte list)[0 := code, 1 := identifier] = code # identifier # replicate 1022 0"
    by (simp add: numeral_eq_Suc)
  moreover have "take 20 (code # identifier # replicate 1022 0) = code # identifier # replicate 18 0"
    by (simp add: take_Cons' min_def)
  ultimately show ?thesis
    using assms by (simp add: Radius_msg_new_def Radius_msg_initialize_def Radius_msg_set_hdr_def msg_rep_def)
qed

lemma grow_enough: "0 < nlen \<Longrightarrow> \<exists>n. grow nlen needed = Inr n \<and> needed \<le> n \<and> nlen \<le> n"
proof (induction nlen needed rule: grow.induct)
  case (1 nlen needed)
  show ?case
  proof (cases "nlen < needed")
    case True
    with 1 obtain n where "grow (nlen * 2) needed = Inr n" "needed \<le> n" "nlen * 2 \<le> n" by auto
    with True 1 show ?thesis by (auto simp: grow.simps [of nlen])
  qed (simp add: grow.simps)
qed

lemma add_attr_room_cases:
  assumes "0 < length (msg_buf msg)"
  obtains (None) "add_attr_room ok msg n = Inr None" "\<not> ok"
  | (Some) pad where "add_attr_room ok msg n = Inr (Some (msg\<lparr>msg_buf := msg_buf msg @ pad\<rparr>))"
      "n \<le> length (msg_buf msg @ pad)"
proof (cases "length (msg_buf msg) < n")
  case True
  obtain m where m: "grow (length (msg_buf msg)) n = Inr m" "n \<le> m" "length (msg_buf msg) \<le> m"
    using grow_enough [OF assms] by blast
  show ?thesis
  proof (cases ok)
    case True
    with m \<open>length (msg_buf msg) < n\<close> that(2) [of "replicate (m - length (msg_buf msg)) 0"] show ?thesis
      by (simp add: add_attr_room_def)
  qed (use m that(1) \<open>length (msg_buf msg) < n\<close> in \<open>simp add: add_attr_room_def\<close>)
next
  case False
  with that(2) [of "[]"] show ?thesis by (simp add: add_attr_room_def)
qed

lemma add_to_array_cases:
  obtains (None) "Radius_msg_add_attr_to_array ok msg a = None" "\<not> ok"
  | (Some) n where "Radius_msg_add_attr_to_array ok msg a = Some (msg\<lparr>attr_size := n, msg_attrs := msg_attrs msg @ [a]\<rparr>)"
      "length (msg_attrs msg) < attr_size msg \<or> 0 < attr_size msg \<and> length (msg_attrs msg) \<le> attr_size msg \<longrightarrow>
        length (msg_attrs msg) < n"
      "attr_size msg \<le> n"
proof (cases "attr_size msg \<le> length (msg_attrs msg)")
  case True
  then show ?thesis
    using that(1) that(2) [of "attr_size msg * 2"] by (cases ok) (simp_all add: Radius_msg_add_attr_to_array_def)
next
  case False
  then show ?thesis using that(2) [of "attr_size msg"] by (simp add: Radius_msg_add_attr_to_array_def)
qed

text \<open>
  Adding an attribute: refused without an effect when the value is too long or the buffer cannot grow,
  otherwise appended, and NULL is returned only when the pointer array cannot grow.
\<close>

lemma add_attr_rep:
  assumes rep: "msg_rep msg hdr as" and len: "length data \<le> 253"
  obtains (NoRoom) "Radius_msg_add_attr ok msg t data = Inr (msg, None)" "\<not> ok 0"
  | (NoSlot) m where "Radius_msg_add_attr ok msg t data = Inr (m, None)" "\<not> ok 1"
  | (Added) m where "Radius_msg_add_attr ok msg t data = Inr (m, Some (20 + length (encode as)))"
      "msg_rep m hdr (as @ [(t, data)])"
proof -
  have used: "buf_used msg = 20 + length (encode as)" by (rule msg_rep_used [OF rep])
  have r: "length hdr = 20" "\<forall>a \<in> set as. length (snd a) \<le> 253" "buf_used msg \<le> length (msg_buf msg)"
      "take (buf_used msg) (msg_buf msg) = hdr @ encode as" "msg_attrs msg = offsets 20 as"
      "length as \<le> attr_size msg" "0 < attr_size msg"
    using rep by (simp_all add: msg_rep_def)
  have pos: "0 < length (msg_buf msg)" using r(3) used by linarith
  show thesis
  proof (rule add_attr_room_cases [OF pos, of "ok 0" "buf_used msg + 2 + length data"])
    assume "add_attr_room (ok 0) msg (buf_used msg + 2 + length data) = Inr None" "\<not> ok 0"
    then show ?thesis using len that(1) by (simp add: Radius_msg_add_attr_def)
  next
    fix pad
    assume Some: "add_attr_room (ok 0) msg (buf_used msg + 2 + length data) = Inr (Some (msg\<lparr>msg_buf := msg_buf msg @ pad\<rparr>))"
      "buf_used msg + 2 + length data \<le> length (msg_buf msg @ pad)"
    define m2 where "m2 = msg\<lparr>msg_buf := move_at (buf_used msg) (encode_attr (t, data)) (msg_buf msg @ pad),
      buf_used := buf_used msg + (2 + length data)\<rparr>"
    have call: "Radius_msg_add_attr ok msg t data =
        (case Radius_msg_add_attr_to_array (ok 1) m2 (buf_used msg) of
           None \<Rightarrow> Inr (m2, None) | Some m3 \<Rightarrow> Inr (m3, Some (buf_used msg)))"
      unfolding m2_def Radius_msg_add_attr_def Let_def using len Some(1) by (simp cong: option.case_cong)
    have b: "take (buf_used m2) (msg_buf m2) = hdr @ encode as @ encode_attr (t, data)"
        "buf_used m2 \<le> length (msg_buf m2)"
      using r(3,4) Some(2) take_move_at [of "buf_used msg" "msg_buf msg @ pad" "encode_attr (t, data)"]
      by (simp_all add: m2_def)
    show ?thesis
    proof (cases rule: add_to_array_cases [of "ok 1" m2 "buf_used msg"])
      case None
      then show ?thesis using call that(2) by simp
    next
      case (Some n)
      have "msg_rep (m2\<lparr>attr_size := n, msg_attrs := msg_attrs m2 @ [buf_used msg]\<rparr>) hdr (as @ [(t, data)])"
        using b r len used Some(2,3) unfolding msg_rep_def m2_def by (auto simp: offsets_append)
      then show ?thesis using call Some(1) used that(3) by simp
    qed
  qed
qed

lemma add_attr_ok:
  assumes "msg_rep msg hdr as" and "length data \<le> 253" and "\<And>k. ok k"
  shows "\<exists>m. Radius_msg_add_attr ok msg t data = Inr (m, Some (20 + length (encode as))) \<and>
    msg_rep m hdr (as @ [(t, data)])"
  by (rule add_attr_rep [OF assms(1,2), of ok t]) (use assms(3) in auto)

section \<open>The EAP message\<close>

fun chop :: "nat \<Rightarrow> 'a list \<Rightarrow> 'a list list" where
  "chop 0 xs = []"
| "chop n [] = []"
| "chop (Suc n) xs = take (Suc n) xs # chop (Suc n) (drop (Suc n) xs)"

lemma concat_chop: "concat (chop (Suc n) xs) = xs"
  by (induction "Suc n" xs rule: chop.induct) simp_all

lemma chop_step: "0 < n \<Longrightarrow> xs \<noteq> [] \<Longrightarrow> chop n xs = take n xs # chop n (drop n xs)"
  by (cases n; cases xs) simp_all

abbreviation (input) eap_attrs :: "byte list \<Rightarrow> attribute list" where
  "eap_attrs data \<equiv> map (\<lambda>c. (79, c)) (chop 253 data)"

lemma add_eap_ok:
  assumes "msg_rep msg hdr as" and "\<And>k. ok k"
  shows "\<exists>m. Radius_msg_add_eap ok msg data = Inr (m, True) \<and> msg_rep m hdr (as @ eap_attrs data)"
  using assms
proof (induction ok msg data arbitrary: as rule: Radius_msg_add_eap.induct)
  case (1 ok msg data)
  show ?case
  proof (cases "data = []")
    case True
    have "chop 253 [] = ([] :: byte list list)" by (simp add: numeral_eq_Suc)
    with True 1(2) show ?thesis by (simp add: Radius_msg_add_eap.simps [of ok msg "[]"])
  next
    case False
    define len where "len = (if 253 < length data then 253 else length data)"
    have len: "take len data = take 253 data" "drop len data = drop 253 data" "length (take len data) \<le> 253"
      by (simp_all add: len_def)
    obtain m where m: "Radius_msg_add_attr ok msg 79 (take len data) = Inr (m, Some (20 + length (encode as)))"
        "msg_rep m hdr (as @ [(79, take len data)])"
      using add_attr_ok [of msg hdr as "take len data" ok 79, OF 1(2) len(3) 1(3)] by blast
    obtain m' where "Radius_msg_add_eap (\<lambda>k. ok (k + 2)) m (drop len data) = Inr (m', True)"
        "msg_rep m' hdr ((as @ [(79, take len data)]) @ eap_attrs (drop len data))"
      using 1(1) [OF False len_def option.distinct(2) m(2)] 1(3) by auto
    moreover from this m False have "Radius_msg_add_eap ok msg data = Inr (m', True)"
      by (simp add: Radius_msg_add_eap.simps [of ok msg data] Let_def len_def)
    ultimately show ?thesis using False len by (auto simp: chop_step)
  qed
qed

lemma eap_length_reads: "list_all2 (reads msg) ps as \<Longrightarrow>
    eap_length msg ps = length (concat (map snd (filter (\<lambda>a. fst a = 79) as)))"
  by (induction rule: list_all2_induct) (auto simp: reads_def)

lemma eap_copy_reads: "list_all2 (reads msg) ps as \<Longrightarrow>
    eap_copy msg ps = Inr (concat (map snd (filter (\<lambda>a. fst a = 79) as)))"
  by (induction rule: list_all2_induct) (auto simp: reads_def)

lemma get_eap_rep:
  assumes "msg_rep msg hdr as"
  shows "Radius_msg_get_eap ok msg =
    (let e = concat (map snd (filter (\<lambda>a. fst a = 79) as)) in Inr (if e = [] \<or> \<not> ok then None else Some e))"
  using eap_length_reads [OF msg_rep_reads [OF assms]] eap_copy_reads [OF msg_rep_reads [OF assms]]
  by (simp add: Radius_msg_get_eap_def Let_def)

section \<open>Reading attributes\<close>

lemma find_reads: "list_all2 (reads msg) ps as \<Longrightarrow>
    (case List.find (\<lambda>a. attr_type msg a = t) ps of
       None \<Rightarrow> List.find (\<lambda>a. fst a = t) as = None
     | Some p \<Rightarrow> (\<exists>v. List.find (\<lambda>a. fst a = t) as = Some (t, v) \<and> attr_value msg p = Inr v))"
  by (induction rule: list_all2_induct) (auto simp: reads_def prod_eq_iff split: option.splits)

lemma get_attr_rep:
  assumes "msg_rep msg hdr as"
  shows "Radius_msg_get_attr msg t len =
    (case List.find (\<lambda>a. fst a = t) as of
       None \<Rightarrow> Inr (- 1, []) | Some a \<Rightarrow> Inr (int (length (snd a)), take len (snd a)))"
  using find_reads [OF msg_rep_reads [OF assms], of t]
  by (auto simp: Radius_msg_get_attr_def find_attr_def split: option.splits)

lemma copy_attr_rep:
  assumes "msg_rep dst hdr as" and "msg_rep src hdr' bs" and "\<And>k. ok k"
  shows "case List.find (\<lambda>a. fst a = t) bs of
      None \<Rightarrow> Radius_msg_copy_attr ok dst src t = Inr (dst, 0)
    | Some a \<Rightarrow> \<exists>m. Radius_msg_copy_attr ok dst src t = Inr (m, 1) \<and> msg_rep m hdr (as @ [a])"
proof (cases "List.find (\<lambda>a. fst a = t) bs")
  case None
  then show ?thesis
    using find_reads [OF msg_rep_reads [OF assms(2)], of t]
    by (auto simp: Radius_msg_copy_attr_def find_attr_def split: option.splits)
next
  case (Some a)
  then obtain p v where p: "List.find (\<lambda>a. attr_type src a = t) (msg_attrs src) = Some p" "a = (t, v)"
      "attr_value src p = Inr v"
    using find_reads [OF msg_rep_reads [OF assms(2)], of t] by (auto split: option.splits)
  have "a \<in> set bs" using Some by (auto simp: find_Some_iff)
  then have "length v \<le> 253" using assms(2) p(2) by (auto simp: msg_rep_def)
  from add_attr_ok [OF assms(1) this, of ok t] assms(3) p Some show ?thesis
    by (auto simp: Radius_msg_copy_attr_def find_attr_def)
qed

section \<open>Parsing\<close>

lemma parse_attributes_end: "end' \<le> pos \<Longrightarrow> parse_attributes ok msg pos end' = Some msg"
  by (subst parse_attributes.simps) simp

lemma parse_attributes_step:
  "2 \<le> attr_length msg pos \<Longrightarrow> pos + attr_length msg pos \<le> end' \<Longrightarrow>
   Radius_msg_add_attr_to_array (ok 0) msg pos = Some m \<Longrightarrow>
   parse_attributes ok msg pos end' = parse_attributes (\<lambda>k. ok (k + 1)) m (pos + attr_length msg pos) end'"
  by (subst parse_attributes.simps) auto

lemma parse_attributes_complete:
  assumes "msg_buf msg = pre @ encode as" and "length pre = pos" and "end' = length (msg_buf msg)"
    and "\<forall>a \<in> set as. length (snd a) \<le> 253" and "length (msg_attrs msg) \<le> attr_size msg" and "0 < attr_size msg"
    and "\<And>k. ok k"
  shows "\<exists>n. parse_attributes ok msg pos end' =
      Some (msg\<lparr>attr_size := n, msg_attrs := msg_attrs msg @ offsets pos as\<rparr>) \<and>
      length (msg_attrs msg) + length as \<le> n \<and> 0 < n"
  using assms
proof (induction as arbitrary: msg pre pos ok)
  case Nil
  from Nil(1-6) show ?case
    by (intro exI [of _ "attr_size msg"]) (simp add: parse_attributes_end)
next
  case (Cons a as)
  have b: "msg_buf msg = pre @ encode_attr a @ encode as" using Cons.prems by simp
  have l: "attr_length msg pos = length (encode_attr a)"
    using reads_at [OF b Cons.prems(2)] Cons.prems(4) by (simp add: reads_def length_encode_attr)
  have e: "end' = pos + length (encode_attr a) + length (encode as)" using b Cons.prems(2,3) by simp
  obtain n where n: "Radius_msg_add_attr_to_array (ok 0) msg pos =
      Some (msg\<lparr>attr_size := n, msg_attrs := msg_attrs msg @ [pos]\<rparr>)" "length (msg_attrs msg) < n"
    by (rule add_to_array_cases [of "ok 0" msg pos]) (use Cons.prems in auto)
  let ?m = "msg\<lparr>attr_size := n, msg_attrs := msg_attrs msg @ [pos]\<rparr>"
  obtain n' where "parse_attributes (\<lambda>k. ok (k + 1)) ?m (pos + length (encode_attr a)) end' =
      Some (?m\<lparr>attr_size := n', msg_attrs := msg_attrs ?m @ offsets (pos + length (encode_attr a)) as\<rparr>)"
      "length (msg_attrs ?m) + length as \<le> n'" "0 < n'"
    using Cons.IH [of ?m "pre @ encode_attr a" "pos + length (encode_attr a)" "\<lambda>k. ok (k + 1)"] b Cons.prems n(2)
    by auto
  moreover have "parse_attributes ok msg pos end' = parse_attributes (\<lambda>k. ok (k + 1)) ?m (pos + length (encode_attr a)) end'"
    using parse_attributes_step [of msg pos end' ok ?m] l e n(1) by (simp add: length_encode_attr)
  ultimately show ?case by auto
qed

lemma ntoh_be16: "n < 65536 \<Longrightarrow> ntoh (be16 n) = n"
  by (simp add: ntoh_def be16_def unat_of_nat)

lemma parse_complete:
  assumes "length hdr = 20" and "take 2 (drop 2 hdr) = be16 (20 + length (encode as))"
    and "20 + length (encode as) < 65536" and "\<forall>a \<in> set as. length (snd a) \<le> 253" and "\<And>k. ok k"
  shows "\<exists>msg. Radius_msg_parse ok (hdr @ encode as @ extra) = Some msg \<and> msg_rep msg hdr as \<and>
    msg_buf msg = hdr @ encode as"
proof -
  let ?n = "20 + length (encode as)"
  let ?m = "\<lparr>msg_buf = hdr @ encode as, buf_used = ?n, msg_attrs = [], attr_size = 16\<rparr>"
  have n: "ntoh (take 2 (drop 2 (hdr @ encode as @ extra))) = ?n"
    using assms(1-3) by (simp add: ntoh_be16)
  have t: "take ?n (hdr @ encode as @ extra) = hdr @ encode as" using assms(1) by simp
  obtain k where "parse_attributes (\<lambda>k. ok (k + 3)) ?m 20 ?n = Some (?m\<lparr>attr_size := k, msg_attrs := offsets 20 as\<rparr>)"
      "length as \<le> k" "0 < k"
    using parse_attributes_complete [of ?m hdr as 20 ?n "\<lambda>k. ok (k + 3)"] assms by auto
  then show ?thesis
    unfolding Radius_msg_parse_def Let_def n t using assms(1,4,5)
    by (simp add: Radius_msg_initialize_def msg_rep_def)
qed

lemma parse_attributes_sound:
  assumes "parse_attributes ok msg pos end' = Some msg'" and "end' = length (msg_buf msg)" and "pos \<le> end'"
    and "length (msg_attrs msg) \<le> attr_size msg" and "0 < attr_size msg"
  shows "\<exists>as n. drop pos (msg_buf msg) = encode as \<and> (\<forall>a \<in> set as. length (snd a) \<le> 253) \<and>
    msg' = msg\<lparr>attr_size := n, msg_attrs := msg_attrs msg @ offsets pos as\<rparr> \<and>
    length (msg_attrs msg) + length as \<le> n \<and> 0 < n"
  using assms
proof (induction ok msg pos end' rule: parse_attributes.induct)
  case (1 ok msg pos end')
  show ?case
  proof (cases "pos < end'")
    case False
    then have "msg' = msg" "pos = end'" using 1(2,4) by (simp_all add: parse_attributes_end)
    then show ?thesis using 1(3-6) by (intro exI [of _ "[]"] exI [of _ "attr_size msg"]) simp
  next
    case True
    let ?l = "attr_length msg pos" and ?b = "msg_buf msg"
    define v where "v = take (?l - 2) (drop (pos + 2) ?b)"
    have g: "\<not> end' - pos < 2" "\<not> (end' < pos + ?l \<or> ?l < 2)"
      using 1(2) True by (auto simp: parse_attributes.simps [of ok msg pos end'] split: if_splits)
    obtain m where m: "Radius_msg_add_attr_to_array (ok 0) msg pos = Some m"
        "parse_attributes (\<lambda>k. ok (k + 1)) m (pos + ?l) end' = Some msg'"
      using 1(2) True g by (auto simp: parse_attributes.simps [of ok msg pos end'] split: option.splits)
    obtain n where n: "m = msg\<lparr>attr_size := n, msg_attrs := msg_attrs msg @ [pos]\<rparr>" "length (msg_attrs msg) < n"
      by (rule add_to_array_cases [of "ok 0" msg pos]) (use m(1) 1(5,6) in auto)
    obtain as n' where as: "drop (pos + ?l) ?b = encode as" "\<forall>a \<in> set as. length (snd a) \<le> 253"
        "msg' = m\<lparr>attr_size := n', msg_attrs := msg_attrs m @ offsets (pos + ?l) as\<rparr>"
        "length (msg_attrs m) + length as \<le> n'" "0 < n'"
      using 1(1) [OF True g m] 1(3) g n by auto
    have lv: "2 + length v = ?l" using g 1(3) by (simp add: v_def) arith
    have "?l < 256" using unsigned_less [of "?b ! (pos + 1)", where ?'a = nat] by (simp add: attr_length_def)
    then have sv: "length v \<le> 253" using lv by linarith
    have "of_nat ?l = ?b ! (pos + 1)" by (simp add: attr_length_def)
    then have e: "encode_attr (?b ! pos, v) = ?b ! pos # ?b ! (pos + 1) # v" unfolding lv [symmetric] by simp
    have "drop pos ?b = ?b ! pos # ?b ! (pos + 1) # v @ drop (pos + ?l) ?b"
    proof -
      have "drop pos ?b = ?b ! pos # ?b ! (pos + 1) # drop (pos + 2) ?b"
        using g 1(3) True by (simp add: Cons_nth_drop_Suc [symmetric])
      moreover have "?l - 2 + (pos + 2) = pos + ?l" using g by linarith
      then have "drop (pos + 2) ?b = v @ drop (pos + ?l) ?b"
        using append_take_drop_id [of "?l - 2" "drop (pos + 2) ?b"] unfolding v_def drop_drop by (simp only:)
      ultimately show ?thesis by simp
    qed
    then have d: "drop pos ?b = encode ((?b ! pos, v) # as)" unfolding encode_simps e using as(1) by simp
    have "length (encode_attr (?b ! pos, v)) = ?l" using lv by (simp only: length_encode_attr snd_conv)
    then show ?thesis
      using d as n sv by (intro exI [of _ "(?b ! pos, v) # as"] exI [of _ n']) simp
  qed
qed

lemma parse_sound:
  assumes "Radius_msg_parse ok data = Some msg"
  shows "\<exists>as. msg_rep msg (take 20 data) as \<and>
    msg_buf msg = take (ntoh (take 2 (drop 2 data))) data \<and> buf_used msg = length (msg_buf msg)"
proof -
  let ?n = "ntoh (take 2 (drop 2 data))"
  have l: "20 \<le> ?n" "?n \<le> length data"
    using assms by (auto simp: Radius_msg_parse_def Let_def split: if_splits)
  let ?m = "\<lparr>msg_buf = take ?n data, buf_used = ?n, msg_attrs = [], attr_size = 16\<rparr>"
  have "parse_attributes (\<lambda>k. ok (k + 3)) ?m 20 ?n = Some msg"
    using assms l by (auto simp: Radius_msg_parse_def Radius_msg_initialize_def Let_def split: if_splits)
  from parse_attributes_sound [OF this] l obtain as n where
    "drop 20 (take ?n data) = encode as" "\<forall>a \<in> set as. length (snd a) \<le> 253"
    "msg = ?m\<lparr>attr_size := n, msg_attrs := offsets 20 as\<rparr>" "length as \<le> n" "0 < n"
    by auto
  moreover have "take 20 (take ?n data) = take 20 data" using l(1) by (simp only: take_take min.absorb1)
  then have "take ?n data = take 20 data @ drop 20 (take ?n data)"
    using append_take_drop_id [of 20 "take ?n data"] by (simp only:)
  moreover have "length (take ?n data) = ?n" "length (take 20 data) = 20" using l by simp_all
  ultimately show ?thesis by (intro exI [of _ as]) (simp add: msg_rep_def)
qed

end
