(* ===== verification/Radius_Auth.thy ===== *)
theory Radius_Auth
  imports Radius_Correct
begin

text \<open>
  What the RADIUS messages protect: the Message-Authenticator and the Response Authenticator, the
  session keys and the user password, and the sub-attributes of a vendor.
\<close>

unbundle bit_operations_syntax

section \<open>Digests\<close>

lemma length_MD5Final [simp]: "length (MD5Final ctx) = 16"
  by (simp add: MD5Final_def Let_def md5_block_def length_concat comp_def sum_list_triv length_MD5Transform)

lemma length_md5_pieces [simp]: "length (md5_pieces ps) = 16"
  by (simp add: md5_pieces_def)

lemma length_hmac_md5 [simp]: "length (hmac_md5 key data) = 16"
  by (simp add: hmac_md5_def Let_def)

lemma md5_pieces_ref: "\<forall>p \<in> set ps. length p < 2 ^ 31 \<Longrightarrow> md5_pieces ps = md5_ref (concat ps)"
  using Final_correct ctx_ok_Updates [OF stack_ctx_ok, of ps] by (simp add: md5_pieces_def)

section \<open>Finishing a message\<close>

definition with_length :: "byte list \<Rightarrow> nat \<Rightarrow> byte list" where
  "with_length hdr n = take 2 hdr @ be16 n @ drop 4 hdr"

lemma length_be16 [simp]: "length (be16 n) = 2"
  by (simp add: be16_def)

lemma length_with_length [simp]: "length hdr = 20 \<Longrightarrow> length (with_length hdr n) = 20"
  by (simp add: with_length_def)

lemma length_field_with_length: "length hdr = 20 \<Longrightarrow> take 2 (drop 2 (with_length hdr n)) = be16 n"
  by (simp add: with_length_def)

lemma set_hdr_length_rep:
  assumes "msg_rep msg hdr as"
  shows "msg_rep (set_hdr_length msg) (with_length hdr (buf_used msg)) as"
proof -
  have l: "length hdr = 20" using assms by (simp add: msg_rep_def)
  have "msg_buf (set_hdr_length msg) = with_length hdr (buf_used msg) @ encode as @ drop (buf_used msg) (msg_buf msg)"
    unfolding set_hdr_length_def with_length_def move_at_def using l
    by (subst (1 2) msg_rep_buf [OF assms]) simp
  then show ?thesis
    by (rule msg_rep_intro) (use assms l msg_rep_used [OF assms] in \<open>simp_all add: msg_rep_def set_hdr_length_def\<close>)
qed

lemma replace_value:
  assumes rep: "msg_rep msg hdr (pre @ (t, v) # post)" and len: "length w = length v"
  shows "msg_rep (msg\<lparr>msg_buf := move_at (20 + length (encode pre) + 2) w (msg_buf msg)\<rparr>) hdr (pre @ (t, w) # post)"
proof -
  let ?rest = "drop (buf_used msg) (msg_buf msg)"
  have l: "length hdr = 20" using rep by (simp add: msg_rep_def)
  have b: "move_at (20 + length (encode pre) + 2) w (msg_buf msg) = hdr @ encode (pre @ (t, w) # post) @ ?rest"
    unfolding move_at_def using l len by (subst (1 2) msg_rep_buf [OF rep]) simp
  have o: "offsets 20 (pre @ (t, w) # post) = offsets 20 (pre @ (t, v) # post)"
    using len by (simp add: offsets_append)
  show ?thesis
    by (rule msg_rep_intro [where rest = ?rest])
      (use rep l len b o msg_rep_used [OF rep] in \<open>auto simp: msg_rep_def\<close>)
qed

lemma msg_rep_bytes: "msg_rep msg hdr as \<Longrightarrow> take (buf_used msg) (msg_buf msg) = hdr @ encode as"
  by (simp add: msg_rep_def)

lemma finish_rep:
  assumes rep: "msg_rep msg hdr as" and ok: "\<And>k. ok k"
  shows "\<exists>m. Radius_msg_finish ok msg (Some key) = Inr m \<and>
    (let h = with_length hdr (20 + length (encode as) + 18)
     in msg_rep m h (as @ [(80, hmac_md5 key (h @ encode (as @ [(80, replicate 16 0)])))]))"
proof -
  obtain m where m: "Radius_msg_add_attr ok msg 80 (replicate 16 0) = Inr (m, Some (20 + length (encode as)))"
      "msg_rep m hdr (as @ [(80, replicate 16 0)])"
    using add_attr_ok [of msg hdr as "replicate 16 0" ok 80, OF rep _ ok] by auto
  let ?h = "with_length hdr (20 + length (encode as) + 18)" and ?m = "set_hdr_length m"
  have "buf_used m = 20 + length (encode as) + 18" using msg_rep_used [OF m(2)] by simp
  then have r: "msg_rep ?m ?h (as @ [(80, replicate 16 0)])" using set_hdr_length_rep [OF m(2)] by simp
  have "msg_rep (?m\<lparr>msg_buf := move_at (20 + length (encode as) + 2)
      (hmac_md5 key (?h @ encode (as @ [(80, replicate 16 0)]))) (msg_buf ?m)\<rparr>) ?h
      (as @ [(80, hmac_md5 key (?h @ encode (as @ [(80, replicate 16 0)])))])"
    using replace_value [of ?m ?h as 80 "replicate 16 0" "[]"] r by simp
  then show ?thesis
    unfolding Radius_msg_finish_def option.case m(1) res_bind_simps prod.case Let_def msg_rep_bytes [OF r] by auto
qed

section \<open>Verifying a response\<close>

lemma filter_reads: "list_all2 (reads msg) ps as \<Longrightarrow>
    length (filter (\<lambda>a. attr_type msg a = t) ps) = length (filter (\<lambda>a. fst a = t) as)"
  by (induction rule: list_all2_induct) (simp_all add: reads_def)

lemma verify_refuses:
  assumes "msg_rep msg hdr as" and "length (filter (\<lambda>a. fst a = 80) as) \<noteq> 1"
  shows "Radius_msg_verify msg secret sent = Inr 1"
  using filter_reads [OF msg_rep_reads [OF assms(1)], of 80] assms(2)
  by (auto simp: Radius_msg_verify_def split: option.split list.split)

lemma filter_offsets:
  assumes "msg_rep msg hdr (pre @ (80, v) # post)"
    and "\<forall>a \<in> set (pre @ post). fst a \<noteq> 80"
  shows "filter (\<lambda>a. attr_type msg a = 80) (msg_attrs msg) = [20 + length (encode pre)]"
proof -
  let ?q = "20 + length (encode pre)"
  have o: "msg_attrs msg = offsets 20 pre @ ?q # offsets (?q + (2 + length v)) post"
    using assms(1) by (simp add: msg_rep_def offsets_append)
  have r: "list_all2 (reads msg) (msg_attrs msg) (pre @ (80, v) # post)" by (rule msg_rep_reads [OF assms(1)])
  have p: "list_all2 (reads msg) (offsets 20 pre) pre" "reads msg ?q (80, v)"
      "list_all2 (reads msg) (offsets (?q + (2 + length v)) post) post"
    using r unfolding o by (simp_all add: list_all2_append)
  have none: "filter (\<lambda>a. attr_type msg a = 80) ps = []"
    if "list_all2 (reads msg) ps bs" "\<forall>a \<in> set bs. fst a \<noteq> 80" for ps bs
    using filter_reads [OF that(1), of 80] that(2) by (simp add: filter_empty_conv)
  show ?thesis unfolding o using p assms(2) none [OF p(1)] none [OF p(3)] by (simp add: reads_def)
qed

text \<open>The condition under which a response is authentic.\<close>

definition response_ok ::
  "byte list \<Rightarrow> byte list \<Rightarrow> byte list \<Rightarrow> attribute list \<Rightarrow> byte list \<Rightarrow> attribute list \<Rightarrow> bool" where
  "response_ok secret req_auth hdr pre mac post \<longleftrightarrow>
     mac = hmac_md5 secret (take 4 hdr @ req_auth @ encode (pre @ (80, replicate 16 0) # post)) \<and>
     drop 4 hdr = md5_pieces [take 4 hdr, req_auth, encode (pre @ (80, mac) # post), secret]"

lemma take_of_append: "w = a @ b @ d \<Longrightarrow> d = c @ e \<Longrightarrow> length (a @ b @ c) = n \<Longrightarrow> take n w = a @ b @ c"
  by simp

lemma verify_iff:
  assumes rep: "msg_rep msg hdr (pre @ (80, mac) # post)" and mac: "length mac = 16"
    and none: "\<forall>a \<in> set (pre @ post). fst a \<noteq> 80" and sent: "msg_rep sent hdr0 as0"
  shows "Radius_msg_verify msg secret (Some sent) =
    Inr (if response_ok secret (drop 4 hdr0) hdr pre mac post then 0 else 1)"
proof -
  let ?q = "20 + length (encode pre)" and ?auth = "drop 4 hdr0"
  let ?m = "msg\<lparr>msg_buf := move_at (?q + 2) (replicate 16 0) (msg_buf msg)\<rparr>"
  have l: "length hdr = 20" "length hdr0 = 20" using rep sent by (simp_all add: msg_rep_def)
  have "reads msg ?q (80, mac)"
    using msg_rep_reads [OF rep] rep by (simp add: msg_rep_def offsets_append list_all2_append)
  then have "attr_length msg ?q = 18" "attr_value msg ?q = Inr mac" using mac by (simp_all add: reads_def)
  then have rd: "read_n (msg_buf msg) (?q + 2) 16 = Inr mac" by (simp add: attr_value_def)
  have z: "msg_rep ?m hdr (pre @ (80, replicate 16 0) # post)" by (rule replace_value [OF rep]) (simp add: mac)
  have "move_at 4 ?auth (msg_buf ?m) = take 4 hdr @ ?auth @ drop 20 (msg_buf ?m)"
    using msg_rep_header [OF z, of 4] l by (simp add: move_at_def)
  moreover have "drop 20 (msg_buf ?m) = encode (pre @ (80, replicate 16 0) # post) @ drop (buf_used ?m) (msg_buf ?m)"
    using arg_cong [OF msg_rep_buf [OF z], of "drop 20"] l by (simp only: drop_append) simp
  moreover have "length (take 4 hdr @ ?auth @ encode (pre @ (80, replicate 16 0) # post)) = buf_used msg"
    using msg_rep_used [OF z] l by simp
  ultimately have b: "take (buf_used msg) (move_at 4 ?auth (msg_buf ?m)) =
      take 4 hdr @ ?auth @ encode (pre @ (80, replicate 16 0) # post)"
    by (rule take_of_append)
  have "take 4 (msg_buf msg) = take 4 hdr" using msg_rep_header [OF rep, of 4] by simp
  moreover have "drop 20 (take (buf_used msg) (msg_buf msg)) = encode (pre @ (80, mac) # post)"
    unfolding msg_rep_bytes [OF rep] using l by simp
  ultimately have h: "response_hash msg secret sent =
      md5_pieces [take 4 hdr, ?auth, encode (pre @ (80, mac) # post), secret]"
    unfolding response_hash_def msg_rep_authenticator [OF sent] by simp
  show ?thesis
    unfolding Radius_msg_verify_def option.case filter_offsets [OF rep none] list.case rd res_bind_simps Let_def
      msg_rep_authenticator [OF sent] h msg_rep_authenticator [OF rep]
    using b by (auto simp: response_ok_def)
qed

text \<open>A Message-Authenticator that is too short at the end of the buffer is read and written past its end.\<close>

lemma verify_overrun:
  assumes rep: "msg_rep msg hdr (pre @ [(80, v)])" and "length v < 16" and "\<forall>a \<in> set pre. fst a \<noteq> 80"
    and "buf_used msg = length (msg_buf msg)"
  shows "Radius_msg_verify msg secret (Some sent) = Inl Out_Of_Bounds"
proof -
  have "length (msg_buf msg) = 20 + length (encode pre) + 2 + length v"
    using msg_rep_used [OF rep] assms(4) by simp
  then have "read_n (msg_buf msg) (20 + length (encode pre) + 2) 16 = Inl Out_Of_Bounds"
    using assms(2) by (simp add: read_n_def)
  then show ?thesis
    using filter_offsets [OF rep] assms(3) by (simp add: Radius_msg_verify_def)
qed

section \<open>Chained blocks\<close>

lemma xor_bytes_twice: "length xs \<le> length ys \<Longrightarrow> xor_bytes (xor_bytes xs ys) ys = xs"
  unfolding xor_bytes_def
  by (induction xs ys rule: list_induct2') (simp_all add: xor.assoc)

lemma length_xor_bytes [simp]: "length (xor_bytes xs ys) = min (length xs) (length ys)"
  by (simp add: xor_bytes_def)

lemma length_encrypt_blocks: "16 dvd length buf \<Longrightarrow> length (encrypt_blocks secret prev buf) = length buf"
proof (induction secret prev buf rule: encrypt_blocks.induct)
  case (1 secret prev buf)
  show ?case
  proof (cases "buf = []")
    case False
    then have "16 \<le> length buf" using 1(2) by (auto dest!: dvd_imp_le)
    with 1 False show ?thesis by (simp add: encrypt_blocks.simps [of secret prev buf] Let_def)
  qed (simp add: encrypt_blocks.simps)
qed

lemma decrypt_encrypt_blocks:
  "16 dvd length buf \<Longrightarrow> decrypt_blocks secret prev (encrypt_blocks secret prev buf) = buf"
proof (induction secret prev buf rule: encrypt_blocks.induct)
  case (1 secret prev buf)
  show ?case
  proof (cases "buf = []")
    case False
    then have l: "16 \<le> length buf" using 1(2) by (auto dest!: dvd_imp_le)
    define c where "c = xor_bytes (take 16 buf) (md5_pieces (secret # prev))"
    have lc: "length c = 16" using l by (simp add: c_def)
    have "decrypt_blocks secret [c] (encrypt_blocks secret [c] (drop 16 buf)) = drop 16 buf"
      using 1(1) [OF False c_def] 1(2) by (simp add: dvd_diff_nat)
    moreover have "encrypt_blocks secret prev buf = c @ encrypt_blocks secret [c] (drop 16 buf)"
      using False by (simp add: encrypt_blocks.simps [of secret prev buf] Let_def c_def)
    moreover have "xor_bytes c (md5_pieces (secret # prev)) = take 16 buf"
      unfolding c_def by (rule xor_bytes_twice) simp
    moreover have "c \<noteq> []" using lc by auto
    ultimately show ?thesis
      using lc by (simp add: decrypt_blocks.simps [of secret prev "c @ _"])
  qed (simp add: encrypt_blocks.simps decrypt_blocks.simps)
qed

text \<open>How a server wraps a key (RFC 2548, section 2.4.2): its length, the key and padding, in chained blocks.\<close>

definition pad16 :: "byte list \<Rightarrow> byte list" where
  "pad16 xs = xs @ replicate ((16 - length xs mod 16) mod 16) 0"

lemma pad16_dvd: "16 dvd length (pad16 xs)"
proof (cases "length xs mod 16 = 0")
  case True
  then show ?thesis by (simp add: pad16_def dvd_eq_mod_eq_0)
next
  case False
  have "length xs + (16 - length xs mod 16) = 16 * (length xs div 16) + 16"
    using mult_div_mod_eq [of 16 "length xs"] mod_less_divisor [of 16 "length xs"] by linarith
  with False show ?thesis by (simp add: pad16_def)
qed

definition ms_wrap :: "byte list \<Rightarrow> byte list \<Rightarrow> byte list \<Rightarrow> byte list \<Rightarrow> byte list" where
  "ms_wrap secret req_auth salt key =
     salt @ encrypt_blocks secret [req_auth, salt] (pad16 (of_nat (length key) # key))"

lemma decrypt_ms_wrap:
  assumes "length salt = 2" and "length key \<le> 255" and "ok 0" and "ok 1"
  shows "decrypt_ms_key ok (ms_wrap secret (authenticator sent) salt key) sent secret = Some key"
proof -
  let ?p = "pad16 (of_nat (length key) # key)"
  have d: "16 dvd length ?p" by (rule pad16_dvd)
  have lp: "length key + 1 \<le> length ?p" by (simp add: pad16_def)
  then have ge: "16 \<le> length ?p" using d by (auto dest!: dvd_imp_le)
  have le: "length (encrypt_blocks secret pr ?p) = length ?p" for pr by (rule length_encrypt_blocks [OF d])
  have n: "unat (of_nat (length key) :: byte) = length key" using assms(2) by (simp add: unat_of_nat)
  have "take (length key) (drop 1 ?p) = key" "?p ! 0 = of_nat (length key)" by (simp_all add: pad16_def)
  with d ge lp le n assms show ?thesis
    by (simp add: decrypt_ms_key_def ms_wrap_def Let_def decrypt_encrypt_blocks dvd_eq_mod_eq_0)
qed

text \<open>A server that undoes the chained blocks of the User-Password attribute reads the padded password.\<close>

lemma user_password_rep:
  assumes rep: "msg_rep msg hdr as" and "length data \<le> 128" and ok: "\<And>k. ok k"
  shows "\<exists>m v. Radius_msg_add_attr_user_password ok msg data secret = Inr (m, Some (20 + length (encode as))) \<and>
    msg_rep m hdr (as @ [(2, v)]) \<and> decrypt_blocks secret [drop 4 hdr] v = pad16 data"
proof -
  let ?v = "encrypt_blocks secret [drop 4 hdr] (pad16 data)"
  have p: "data @ replicate (if length data mod 16 \<noteq> 0 then 16 - length data mod 16 else 0) 0 = pad16 data"
    by (simp add: pad16_def)
  have "length (pad16 data) \<le> 253"
    using assms(2) mod_less_divisor [of 16 "16 - length data mod 16"] unfolding pad16_def by simp
  then have "length ?v \<le> 253" using length_encrypt_blocks [OF pad16_dvd] by simp
  from add_attr_ok [of msg hdr as ?v ok 2, OF rep this ok] obtain m where
    "Radius_msg_add_attr ok msg 2 ?v = Inr (m, Some (20 + length (encode as)))" "msg_rep m hdr (as @ [(2, ?v)])"
    by blast
  moreover have "Radius_msg_add_attr_user_password ok msg data secret = Radius_msg_add_attr ok msg 2 ?v"
    using assms(2) unfolding Radius_msg_add_attr_user_password_def Let_def p msg_rep_authenticator [OF rep] by simp
  ultimately show ?thesis using decrypt_encrypt_blocks [OF pad16_dvd] by auto
qed

section \<open>Vendor attributes\<close>

text \<open>Sub-attributes have the layout of attributes; the scan returns the first of the type.\<close>

lemma vendor_scan_encode:
  assumes "\<forall>a \<in> set subs. length (snd a) \<le> 253"
  shows "vendor_scan True ty (encode subs) =
    Inr (map_option (\<lambda>a. Some (snd a)) (List.find (\<lambda>a. fst a = ty) subs))"
  using assms
proof (induction subs)
  case Nil
  then show ?case by (simp add: vendor_scan.simps)
next
  case (Cons a subs)
  obtain t v where a: "a = (t, v)" by (cases a)
  have u: "unat (of_nat (2 + length v) :: byte) = 2 + length v" using Cons.prems a by (intro small_length) simp
  let ?e = "encode (a # subs)"
  have e: "length ?e = 2 + length v + length (encode subs)" "?e ! 1 = of_nat (2 + length v)" "?e ! 0 = t"
      "drop (2 + length v) ?e = encode subs" "take (length v) (drop 2 ?e) = v"
    using a by simp_all
  show ?case
    using Cons by (subst vendor_scan.simps) (simp only: Let_def e u, simp add: a)
qed

end
