(* ===== verification/Radius_Properties.thy ===== *)
theory Radius_Properties
  imports Radius_Auth
begin

text \<open>
  The properties of the RADIUS messages (\<open>8021xd/src/radius.c\<close>), stated with \<open>msg_rep msg hdr as\<close>: the
  buffer of the message holds the header \<open>hdr\<close> and the attributes \<open>as\<close>, and its pointers point at them.
\<close>

unbundle bit_operations_syntax

text \<open>A request with one attribute, for the witnesses.\<close>

definition sample_msg :: radius_msg where
  "sample_msg = \<lparr>msg_buf = [1, 7, 0, 24] @ replicate 16 5 @ [1, 4, 0x61, 0x62] @ replicate 40 0, buf_used = 24,
     msg_attrs = [20], attr_size = 16\<rparr>"

lemma sample_rep: "msg_rep sample_msg ([1, 7, 0, 24] @ replicate 16 5) [(1, [0x61, 0x62])]"
  by (rule msg_rep_intro [where rest = "replicate 40 0"]) (simp_all add: sample_msg_def)

text \<open>
  C30. What \<open>Radius_msg_parse\<close> accepts is well formed: the header is the first 20 bytes of the packet, the
  attributes tile the rest of it up to the length in the header, every pointer points at the attribute
  it stands for, and the arrays are large enough. Trailing bytes of the packet are ignored.
\<close>
theorem radius_parse_well_formed:
  assumes "Radius_msg_parse ok data = Some msg"
  shows "\<exists>as. msg_rep msg (take 20 data) as \<and> list_all2 (reads msg) (msg_attrs msg) as \<and>
    msg_buf msg = take (ntoh (take 2 (drop 2 data))) data"
  using parse_sound [OF assms] msg_rep_reads by blast

theorem radius_parse_well_formed_witness:
  "\<exists>as. msg_rep (the (Radius_msg_parse (\<lambda>_. True) ([2, 7, 0, 22] @ replicate 16 5 @ [24, 2, 99])))
     (take 20 ([2, 7, 0, 22] @ replicate 16 5 @ [24, 2, 99])) as"
proof -
  have p: "Radius_msg_parse (\<lambda>_. True) ([2, 7, 0, 22] @ replicate 16 5 @ [24, 2, 99]) =
      Some \<lparr>msg_buf = [2, 7, 0, 22] @ replicate 16 5 @ [24, 2], buf_used = 22, msg_attrs = [20], attr_size = 16\<rparr>"
    by code_simp
  from radius_parse_well_formed [OF p] show ?thesis unfolding p option.sel by blast
qed

text \<open>
  C15. A message that is finished with a secret and sent parses on the other side, with any bytes after it,
  to a message with the same code, identifier, authenticator and attributes, plus one Message-Authenticator.
\<close>
theorem radius_finish_parse:
  assumes "msg_rep msg hdr as" and "\<forall>k. ok k" and "buf_used msg + 18 < 65536"
  shows "\<exists>m m' h mac. Radius_msg_finish ok msg (Some key) = Inr m \<and>
    Radius_msg_parse ok (take (buf_used m) (msg_buf m) @ extra) = Some m' \<and>
    take 2 h = take 2 hdr \<and> drop 4 h = drop 4 hdr \<and> length mac = 16 \<and>
    msg_rep m h (as @ [(80, mac)]) \<and> msg_rep m' h (as @ [(80, mac)])"
proof -
  have ok: "\<And>k. ok k" using assms(2) by simp
  let ?n = "20 + length (encode as) + 18"
  obtain m mac where m: "Radius_msg_finish ok msg (Some key) = Inr m" "length mac = 16"
      "msg_rep m (with_length hdr ?n) (as @ [(80, mac)])"
    using finish_rep [of msg hdr as ok key, OF assms(1) ok] length_hmac_md5 unfolding Let_def by blast
  have l: "length hdr = 20" using assms(1) by (simp add: msg_rep_def)
  have bytes: "take (buf_used m) (msg_buf m) @ extra = with_length hdr ?n @ encode (as @ [(80, mac)]) @ extra"
    using msg_rep_bytes [OF m(3)] by simp
  have "\<exists>m'. Radius_msg_parse ok (take (buf_used m) (msg_buf m) @ extra) = Some m' \<and>
      msg_rep m' (with_length hdr ?n) (as @ [(80, mac)]) \<and> msg_buf m' = with_length hdr ?n @ encode (as @ [(80, mac)])"
    unfolding bytes
    by (rule parse_complete)
      (use assms(1,3) l m(2,3) ok msg_rep_used [OF assms(1)] in \<open>auto simp: length_field_with_length msg_rep_def\<close>)
  moreover have "take 2 (with_length hdr ?n) = take 2 hdr" "drop 4 (with_length hdr ?n) = drop 4 hdr"
    using l by (simp_all add: with_length_def)
  ultimately show ?thesis using m by blast
qed

theorem radius_finish_parse_witness:
  "\<exists>m m' h mac. Radius_msg_finish (\<lambda>_. True) sample_msg (Some [1, 2, 3]) = Inr m \<and>
    Radius_msg_parse (\<lambda>_. True) (take (buf_used m) (msg_buf m) @ [9]) = Some m' \<and> take 2 h = [1, 7] \<and>
    msg_rep m' h [(1, [0x61, 0x62]), (80, mac)]"
  using radius_finish_parse [OF sample_rep, of "\<lambda>_. True" "[1, 2, 3]" "[9]"]
  by (simp add: sample_msg_def) blast

text \<open>
  C29. An EAP packet of any length survives the transport in RADIUS: cut into attributes of at most 253
  bytes by \<open>Radius_msg_add_eap\<close> it is put together again by \<open>Radius_msg_get_eap\<close>.
\<close>
theorem radius_eap_roundtrip:
  assumes "msg_rep msg hdr as" and "\<forall>k. ok k" and "\<forall>a \<in> set as. fst a \<noteq> 79" and "data \<noteq> []"
  shows "\<exists>m. Radius_msg_add_eap ok msg data = Inr (m, True) \<and> Radius_msg_get_eap True m = Inr (Some data)"
proof -
  have ok: "\<And>k. ok k" using assms(2) by simp
  obtain m where m: "Radius_msg_add_eap ok msg data = Inr (m, True)" "msg_rep m hdr (as @ eap_attrs data)"
    using add_eap_ok [of msg hdr as ok, OF assms(1) ok] by blast
  have "filter (\<lambda>a. fst a = 79) as = []" using assms(3) by (simp add: filter_empty_conv)
  moreover have "concat (chop 253 data) = data" using concat_chop [of 252 data] by (simp add: eval_nat_numeral)
  ultimately have "concat (map snd (filter (\<lambda>a. fst a = 79) (as @ eap_attrs data))) = data"
    by (simp add: comp_def filter_map)
  with m assms(4) show ?thesis by (simp add: get_eap_rep [OF m(2)] Let_def)
qed

theorem radius_eap_roundtrip_witness:
  "\<exists>m. Radius_msg_add_eap (\<lambda>_. True) sample_msg (replicate 300 3) = Inr (m, True) \<and>
     Radius_msg_get_eap True m = Inr (Some (replicate 300 3))"
  using radius_eap_roundtrip [OF sample_rep, of "\<lambda>_. True" "replicate 300 3"] by simp

text \<open>
  C5. \<open>Radius_msg_verify\<close> decides authenticity: a response with one Message-Authenticator of 16 bytes is
  accepted exactly when that is the keyed hash of the response under the authenticator of the request, with
  zeros in its place, and the Response Authenticator is the hash of the response, the request's
  authenticator and the secret.
\<close>
theorem radius_verify_decides:
  assumes "msg_rep msg hdr (pre @ (80, mac) # post)" and "length mac = 16"
    and "\<forall>a \<in> set (pre @ post). fst a \<noteq> 80" and "msg_rep sent hdr0 as0"
  shows "Radius_msg_verify msg secret (Some sent) =
    Inr (if mac = hmac_md5 secret (take 4 hdr @ drop 4 hdr0 @ encode (pre @ (80, replicate 16 0) # post)) \<and>
            drop 4 hdr = md5_pieces [take 4 hdr, drop 4 hdr0, encode (pre @ (80, mac) # post), secret]
         then 0 else 1)"
  using verify_iff [OF assms] by (simp only: response_ok_def)

theorem radius_verify_decides_witness:
  "Radius_msg_verify \<lparr>msg_buf = [2, 7, 0, 38] @ replicate 16 5 @ [80, 18] @ replicate 16 6, buf_used = 38,
       msg_attrs = [20], attr_size = 16\<rparr> [1] (Some sample_msg) =
     Inr (if replicate 16 6 = hmac_md5 [1] ([2, 7, 0, 38] @ replicate 16 5 @ [80, 18] @ replicate 16 0) \<and>
            replicate 16 5 = md5_pieces [[2, 7, 0, 38], replicate 16 5, [80, 18] @ replicate 16 6, [1]]
          then 0 else 1)"
proof -
  have r: "msg_rep \<lparr>msg_buf = [2, 7, 0, 38] @ replicate 16 5 @ [80, 18] @ replicate 16 6, buf_used = 38,
      msg_attrs = [20], attr_size = 16\<rparr> ([2, 7, 0, 38] @ replicate 16 5) ([] @ (80, replicate 16 6) # [])"
    by (rule msg_rep_intro [where rest = "[]"]) simp_all
  show ?thesis using radius_verify_decides [OF r _ _ sample_rep, of "[1]"] by simp
qed

text \<open>
  A response that ends with a Message-Authenticator of fewer than 16 bytes passes the parser, and the
  check of its authenticity then reads and overwrites bytes past the end of the allocated buffer.
\<close>
theorem radius_verify_overrun:
  assumes "length hdr = 20" and "take 2 (drop 2 hdr) = be16 (22 + length v)" and "length v < 16" and "\<forall>k. ok k"
  shows "\<exists>msg. Radius_msg_parse ok (hdr @ [80, of_nat (2 + length v)] @ v) = Some msg \<and>
    Radius_msg_verify msg secret (Some sent) = Inl Out_Of_Bounds"
proof -
  have "\<exists>msg. Radius_msg_parse ok (hdr @ encode [(80, v)] @ []) = Some msg \<and> msg_rep msg hdr [(80, v)] \<and>
      msg_buf msg = hdr @ encode [(80, v)]"
    by (rule parse_complete) (use assms in auto)
  then obtain msg where m: "Radius_msg_parse ok (hdr @ [80, of_nat (2 + length v)] @ v) = Some msg"
      "msg_rep msg hdr ([] @ [(80, v)])" "msg_buf msg = hdr @ encode [(80, v)]" by auto
  have "buf_used msg = length (msg_buf msg)" using msg_rep_used [OF m(2)] m(3) assms(1) by simp
  with m(1) verify_overrun [OF m(2) assms(3)] show ?thesis by simp
qed

theorem radius_verify_overrun_witness:
  "\<exists>msg. Radius_msg_parse (\<lambda>_. True) ([2, 7, 0, 22] @ replicate 16 0 @ [80, 2]) = Some msg \<and>
     Radius_msg_verify msg [1] (Some sample_msg) = Inl Out_Of_Bounds"
  using radius_verify_overrun [of "[2, 7, 0, 22] @ replicate 16 0" "[]" "\<lambda>_. True" "[1]" sample_msg]
  by (simp add: be16_def)

text \<open>
  C31. A session key that a server wraps as RFC 2548 prescribes (length, key and padding in blocks chained by
  MD5 with the secret, the request's authenticator and a salt) is the key \<open>decrypt_ms_key\<close> returns.
\<close>
theorem ms_key_roundtrip:
  assumes "length salt = 2" and "length key \<le> 255" and "ok 0" and "ok 1"
  shows "decrypt_ms_key ok (ms_wrap secret (authenticator sent) salt key) sent secret = Some key"
  using assms by (rule decrypt_ms_wrap)

theorem ms_key_roundtrip_witness:
  "decrypt_ms_key (\<lambda>_. True) (ms_wrap [1, 2] (authenticator sample_msg) [0x80, 1] (replicate 32 9)) sample_msg [1, 2] =
     Some (replicate 32 9)"
  using ms_key_roundtrip [of "[0x80, 1]" "replicate 32 9" "\<lambda>_. True" "[1, 2]" sample_msg] by simp

text \<open>
  The search for the session keys does not return on every message the parser accepts: a Microsoft
  sub-attribute of length 0 and another type is visited again and again.
\<close>
theorem ms_keys_no_return:
  "\<exists>msg. Radius_msg_parse (\<lambda>_. True) ([2, 7, 0, 28] @ replicate 16 0 @ [26, 8, 0, 0, 1, 55, 1, 0]) = Some msg \<and>
     Radius_msg_get_ms_keys (\<lambda>_. True) (Some msg) (Some sample_msg) [1] = Inl No_Return"
proof -
  have "(case Radius_msg_parse (\<lambda>_. True) ([2, 7, 0, 28] @ replicate 16 0 @ [26, 8, 0, 0, 1, 55, 1, 0]) of
      None \<Rightarrow> False
    | Some msg \<Rightarrow> Radius_msg_get_ms_keys (\<lambda>_. True) (Some msg) (Some sample_msg) [1] = Inl No_Return)"
    by code_simp
  then show ?thesis by (auto split: option.splits)
qed

end
