(* ===== verification/Radius_Client.thy ===== *)
theory Radius_Client
  imports Radius
begin

text \<open>
  The RADIUS client of the 802.1X authenticator (\<open>8021xd/src/radius_client.c\<close>): the list of requests that
  wait for an answer, their retransmission with exponential backoff, the identifiers of the requests and
  the choice of the server of each wireless interface (the build has \<open>MULTIPLE_RADIUS\<close>). The requests
  are a HOL list in the order of the links; what a loop does after it has freed a cell it still points
  to is written out. All requests have the type \<open>RADIUS_AUTH\<close>. Sends and timers are outputs.
\<close>

section \<open>Data\<close>

abbreviation (input) RADIUS_CLIENT_FIRST_WAIT :: int where "RADIUS_CLIENT_FIRST_WAIT \<equiv> 1"
abbreviation (input) RADIUS_CLIENT_MAX_WAIT :: int where "RADIUS_CLIENT_MAX_WAIT \<equiv> 120"
abbreviation (input) RADIUS_CLIENT_MAX_RETRIES :: int where "RADIUS_CLIENT_MAX_RETRIES \<equiv> 10"
abbreviation (input) RADIUS_CLIENT_MAX_ENTRIES :: u32 where "RADIUS_CLIENT_MAX_ENTRIES \<equiv> 30"
abbreviation (input) RADIUS_CLIENT_NUM_FAILOVER :: int where "RADIUS_CLIENT_NUM_FAILOVER \<equiv> 4"
abbreviation (input) MAX_MBSSID_NUM :: nat where "MAX_MBSSID_NUM \<equiv> 16"

record hostapd_radius_server =
  srv_addr :: u32
  srv_port :: int
  shared_secret :: "byte list"

record radius_msg_list =
  rl_msg :: radius_msg
  first_try :: int
  next_try :: int
  attempts :: int
  next_wait :: int
  rl_secret :: "byte list"
  rl_ApIdx :: u8

text \<open>
  The client and the part of the configuration it changes: for each interface its servers in the order
  of priority and the position of the current one. The index of an interface is below 16.
\<close>

record radius_client =
  mbss_auth_serv_sock :: "u8 \<Rightarrow> int"
  msgs :: "radius_msg_list list"
  num_msgs :: u32
  next_radius_identifier :: u8
  mbss_auth_servers :: "u8 \<Rightarrow> hostapd_radius_server list"
  mbss_auth_server :: "u8 \<Rightarrow> nat"

datatype client_out =
    Send int "byte list"
  | Send_To int u32 int "byte list"
  | Arm_Client_Timer int
  | Cancel_Client_Timer
  | Arm_Retry_Timer int

definition msg_identifier :: "radius_msg \<Rightarrow> byte" where
  "msg_identifier msg = msg_buf msg ! 1"

definition msg_code :: "radius_msg \<Rightarrow> byte" where
  "msg_code msg = msg_buf msg ! 0"

definition sent_bytes :: "radius_msg \<Rightarrow> byte list" where
  "sent_bytes msg = take (buf_used msg) (msg_buf msg)"

section \<open>Retransmission\<close>

text \<open>The new entry, whether it is to be removed, and the output.\<close>

definition Radius_client_retransmit ::
  "radius_client \<Rightarrow> radius_msg_list \<Rightarrow> int \<Rightarrow> radius_msg_list \<times> bool \<times> client_out" where
  "Radius_client_retransmit c e now =
     (let w = next_wait e * 2;
        e' = e\<lparr>attempts := attempts e + 1, next_try := now + next_wait e,
               next_wait := (if RADIUS_CLIENT_MAX_WAIT < w then RADIUS_CLIENT_MAX_WAIT else w)\<rparr>
      in (e', RADIUS_CLIENT_MAX_RETRIES \<le> attempts e', Send (mbss_auth_serv_sock c (rl_ApIdx e)) (sent_bytes (rl_msg e))))"

text \<open>
  The loop of \<open>Radius_client_timer\<close>: the entries that stay, how many were removed, the interfaces with an
  entry that has failed too often, the time of the next attempt (0 when there is none) and the outputs.
\<close>

fun timer_loop ::
  "radius_client \<Rightarrow> int \<Rightarrow> radius_msg_list list \<Rightarrow> int \<Rightarrow>
   radius_msg_list list \<times> u32 \<times> u8 list \<times> int \<times> client_out list" where
  "timer_loop c now [] first = ([], 0, [], first, [])"
| "timer_loop c now (e # es) first =
     (let (e', drop_it, sent) = (if next_try e \<le> now
            then (case Radius_client_retransmit c e now of (e1, r, o1) \<Rightarrow> (e1, r, [o1])) else (e, False, []))
      in if drop_it
         then let (es', n, fo, f, os) = timer_loop c now es first in (es', n + 1, fo, f, sent @ os)
         else
           let first' = (if first = 0 \<or> next_try e' < first then next_try e' else first);
             (es', n, fo, f, os) = timer_loop c now es first'
           in (e' # es', n, (if RADIUS_CLIENT_NUM_FAILOVER < attempts e' then rl_ApIdx e' # fo else fo), f, sent @ os))"

definition Radius_client_flush :: "radius_client \<Rightarrow> radius_client \<times> client_out list" where
  "Radius_client_flush c = (c\<lparr>msgs := [], num_msgs := 0\<rparr>, [Cancel_Client_Timer])"

text \<open>\<open>oserv\<close> is \<open>None\<close> when there was no server before.\<close>

definition Radius_change_server ::
  "radius_client \<Rightarrow> hostapd_radius_server \<Rightarrow> hostapd_radius_server option \<Rightarrow> radius_client \<times> client_out list" where
  "Radius_change_server c nserv oserv =
     (if (case oserv of None \<Rightarrow> True | Some old \<Rightarrow> shared_secret nserv \<noteq> shared_secret old)
      then Radius_client_flush c
      else
        let ms = map (\<lambda>e. e\<lparr>next_try := first_try e + RADIUS_CLIENT_FIRST_WAIT, attempts := 0,
               next_wait := RADIUS_CLIENT_FIRST_WAIT * 2\<rparr>) (msgs c)
        in (c\<lparr>msgs := ms\<rparr>,
            if ms \<noteq> [] then [Cancel_Client_Timer, Arm_Client_Timer RADIUS_CLIENT_FIRST_WAIT] else []))"

text \<open>Move an interface to another of its servers.\<close>

definition switch_server :: "u8 \<Rightarrow> nat \<Rightarrow> radius_client \<Rightarrow> radius_client \<times> client_out list" where
  "switch_server i next c =
     Radius_change_server (c\<lparr>mbss_auth_server := (mbss_auth_server c)(i := next)\<rparr>)
       (mbss_auth_servers c i ! next) (Some (mbss_auth_servers c i ! mbss_auth_server c i))"

definition failover_step :: "u8 list \<Rightarrow> u8 \<Rightarrow> radius_client \<times> client_out list \<Rightarrow> radius_client \<times> client_out list" where
  "failover_step failed i = (\<lambda>(c, os).
     if i \<in> set failed \<and> 1 < length (mbss_auth_servers c i)
     then let next = (if length (mbss_auth_servers c i) - 1 < mbss_auth_server c i + 1 then 0 else mbss_auth_server c i + 1);
            (c', os') = switch_server i next c in (c', os @ os')
     else (c, os))"

definition Radius_client_timer :: "nat \<Rightarrow> int \<Rightarrow> radius_client \<Rightarrow> radius_client \<times> client_out list" where
  "Radius_client_timer SsidNum now c =
     (if msgs c = [] then (c, [])
      else
        let (es, n, failed, first, os) = timer_loop c now (msgs c) 0;
          c1 = c\<lparr>msgs := es, num_msgs := num_msgs c - n\<rparr>;
          os1 = os @ (if es \<noteq> [] then [Arm_Client_Timer ((if first < now then now else first) - now)] else [])
        in fold (failover_step failed) (map of_nat [0..<SsidNum]) (c1, os1))"

section \<open>Requests\<close>

definition new_request :: "int \<Rightarrow> radius_msg \<Rightarrow> byte list \<Rightarrow> u8 \<Rightarrow> radius_msg_list" where
  "new_request now msg secret ApIdx' = \<lparr>rl_msg = msg, first_try = now, next_try = now + RADIUS_CLIENT_FIRST_WAIT,
     attempts = 1, next_wait = RADIUS_CLIENT_FIRST_WAIT * 2, rl_secret = secret, rl_ApIdx = ApIdx'\<rparr>"

text \<open>The oldest entry is the last of the list; it is only removed when it is not the new one.\<close>

definition Radius_client_list_add ::
  "bool \<Rightarrow> bool \<Rightarrow> int \<Rightarrow> radius_client \<Rightarrow> radius_msg \<Rightarrow> byte list \<Rightarrow> u8 \<Rightarrow> radius_client \<times> client_out list" where
  "Radius_client_list_add terminated ok now c msg secret ApIdx' =
     (if terminated then (c, [])
      else if \<not> ok then (c, [])
      else
        let os = (if msgs c = [] then [Arm_Client_Timer RADIUS_CLIENT_FIRST_WAIT] else []);
          es = new_request now msg secret ApIdx' # msgs c
        in if RADIUS_CLIENT_MAX_ENTRIES \<le> num_msgs c
           then (c\<lparr>msgs := (if 1 < length es then butlast es else es)\<rparr>, os)
           else (c\<lparr>msgs := es, num_msgs := num_msgs c + 1\<rparr>, os))"

text \<open>
  The result of \<open>sendto\<close> is not used. \<open>oks\<close> are the outcomes of the allocations of \<open>Radius_msg_finish\<close>, then
  of the list entry.
\<close>

definition Radius_client_send ::
  "(nat \<Rightarrow> bool) \<Rightarrow> bool \<Rightarrow> int \<Rightarrow> radius_client \<Rightarrow> radius_msg \<Rightarrow> u8 \<Rightarrow> (radius_client \<times> client_out list) res" where
  "Radius_client_send ok terminated now c msg ApIdx' =
     (let srv = mbss_auth_servers c ApIdx' ! mbss_auth_server c ApIdx' in
      res_bind (Radius_msg_finish ok msg (Some (shared_secret srv))) (\<lambda>m.
        let (c', os) = Radius_client_list_add terminated (ok 2) now c m (shared_secret srv) ApIdx'
        in Inr (c', Send_To (mbss_auth_serv_sock c ApIdx') (srv_addr srv) (srv_port srv) (sent_bytes m) # os)))"

text \<open>
  The loop of \<open>Radius_client_get_id\<close>. It unlinks an entry with the identifier, frees it and goes on with
  \<open>prev\<close> pointing at it; \<open>freed\<close> says that \<open>prev\<close> is such an entry. The number of entries is not changed.
\<close>

fun get_id_loop :: "u8 \<Rightarrow> bool \<Rightarrow> radius_msg_list list \<Rightarrow> radius_msg_list list res" where
  "get_id_loop i freed [] = Inr []"
| "get_id_loop i freed (e # es) =
     (if msg_identifier (rl_msg e) = i
      then if freed then Inl Use_After_Free else get_id_loop i True es
      else res_bind (get_id_loop i False es) (\<lambda>r. Inr (e # r)))"

definition Radius_client_get_id :: "radius_client \<Rightarrow> (u8 \<times> radius_client) res" where
  "Radius_client_get_id c =
     (let i = next_radius_identifier c in
      res_bind (get_id_loop i False (msgs c)) (\<lambda>es.
        Inr (i, c\<lparr>next_radius_identifier := i + 1, msgs := es\<rparr>)))"

text \<open>The request an answer belongs to: the first with its identifier, taken off the list.\<close>

fun take_request :: "byte \<Rightarrow> radius_msg_list list \<Rightarrow> (radius_msg_list \<times> radius_msg_list list) option" where
  "take_request i [] = None"
| "take_request i (e # es) =
     (if msg_identifier (rl_msg e) = i then Some (e, es)
      else case take_request i es of None \<Rightarrow> None | Some (r, rest) \<Rightarrow> Some (r, e # rest))"

definition Radius_client_match ::
  "byte \<Rightarrow> radius_client \<Rightarrow> (radius_msg_list \<times> radius_client) option" where
  "Radius_client_match i c =
     (case take_request i (msgs c) of
        None \<Rightarrow> None | Some (req, rest) \<Rightarrow> Some (req, c\<lparr>msgs := rest, num_msgs := num_msgs c - 1\<rparr>))"

definition retry_step :: "u8 \<Rightarrow> radius_client \<times> client_out list \<Rightarrow> radius_client \<times> client_out list" where
  "retry_step i = (\<lambda>(c, os).
     if 0 \<le> mbss_auth_serv_sock c i \<and> mbss_auth_servers c i \<noteq> [] \<and> mbss_auth_server c i \<noteq> 0
     then let (c', os') = switch_server i 0 c in (c', os @ os') else (c, os))"

definition Radius_retry_primary_timer ::
  "nat \<Rightarrow> int \<Rightarrow> radius_client \<Rightarrow> radius_client \<times> client_out list" where
  "Radius_retry_primary_timer SsidNum interval c =
     (let (c', os) = fold retry_step (map of_nat [0..<SsidNum]) (c, [])
      in (c', os @ (if interval \<noteq> 0 then [Arm_Retry_Timer interval] else [])))"

section \<open>Invariants\<close>

text \<open>
  The list is never longer than its counter, which does not exceed the limit; every entry has attempts and
  a wait within bounds; and no two entries have the same identifier.
\<close>

definition entry_ok :: "radius_msg_list \<Rightarrow> bool" where
  "entry_ok e \<longleftrightarrow> 0 \<le> attempts e \<and> attempts e < 10 \<and> 2 \<le> next_wait e \<and> next_wait e \<le> 120"

abbreviation (input) ids :: "radius_msg_list list \<Rightarrow> byte list" where
  "ids es \<equiv> map (\<lambda>e. msg_identifier (rl_msg e)) es"

definition client_ok :: "radius_client \<Rightarrow> bool" where
  "client_ok c \<longleftrightarrow> length (msgs c) \<le> unat (num_msgs c) \<and> unat (num_msgs c) \<le> 30 \<and>
     (\<forall>e \<in> set (msgs c). entry_ok e) \<and> distinct (ids (msgs c))"

lemma client_ok_cong:
  "msgs c' = msgs c \<Longrightarrow> num_msgs c' = num_msgs c \<Longrightarrow> client_ok c' = client_ok c"
  by (simp add: client_ok_def)

lemma retransmit_ok:
  assumes "entry_ok e" and "Radius_client_retransmit c e now = (e', r, out)"
  shows "rl_msg e' = rl_msg e" and "\<not> r \<Longrightarrow> entry_ok e'"
  using assms by (auto simp: Radius_client_retransmit_def entry_ok_def Let_def)

text \<open>The loop of the timer keeps a part of the entries and counts the others.\<close>

lemma timer_loop_ok:
  assumes "timer_loop c now es first = (es', n, fo, f, os)" and "\<forall>e \<in> set es. entry_ok e" and "length es \<le> 30"
  shows "length es' + unat n = length es \<and> (\<forall>e \<in> set es'. entry_ok e) \<and> set (ids es') \<subseteq> set (ids es) \<and>
    (distinct (ids es) \<longrightarrow> distinct (ids es'))"
  using assms
proof (induction es arbitrary: first es' n fo f os)
  case (Cons e es)
  obtain e1 r out where r: "Radius_client_retransmit c e now = (e1, r, out)" by (cases "Radius_client_retransmit c e now")
  define e' where "e' = (if next_try e \<le> now then e1 else e)"
  have e: "entry_ok e" using Cons.prems by simp
  have m: "rl_msg e' = rl_msg e" using retransmit_ok(1) [OF e r] by (simp add: e'_def)
  obtain fs es1 n1 fo1 f1 os1 where loop: "timer_loop c now es fs = (es1, n1, fo1, f1, os1)"
      and cases: "next_try e \<le> now \<and> r \<and> es' = es1 \<and> n = n1 + 1 \<or>
        \<not> (next_try e \<le> now \<and> r) \<and> es' = e' # es1 \<and> n = n1"
  proof (cases "next_try e \<le> now \<and> r")
    case True
    obtain es1 n1 fo1 f1 os1 where "timer_loop c now es first = (es1, n1, fo1, f1, os1)"
      by (cases "timer_loop c now es first") auto
    with True r Cons.prems(1) that show ?thesis by auto
  next
    case False
    define fs where "fs = (if first = 0 \<or> next_try e' < first then next_try e' else first)"
    obtain es1 n1 fo1 f1 os1 where "timer_loop c now es fs = (es1, n1, fo1, f1, os1)"
      by (cases "timer_loop c now es fs") auto
    with False r Cons.prems(1) that show ?thesis by (auto simp: e'_def fs_def Let_def split: if_splits)
  qed
  have IH: "length es1 + unat n1 = length es \<and> (\<forall>e \<in> set es1. entry_ok e) \<and> set (ids es1) \<subseteq> set (ids es) \<and>
      (distinct (ids es) \<longrightarrow> distinct (ids es1))"
    using Cons.IH [OF loop] Cons.prems by simp
  from cases show ?case
  proof
    assume a: "next_try e \<le> now \<and> r \<and> es' = es1 \<and> n = n1 + 1"
    have "unat (n1 + 1) = unat n1 + 1" using IH Cons.prems(3) by (intro unat_plus_one_small) simp
    with a IH show ?thesis by auto
  next
    assume a: "\<not> (next_try e \<le> now \<and> r) \<and> es' = e' # es1 \<and> n = n1"
    have "entry_ok e'" using a e retransmit_ok(2) [OF e r] by (auto simp: e'_def)
    with a IH m show ?thesis by auto
  qed
qed simp

lemma flush_ok: "client_ok (fst (Radius_client_flush c))"
  by (simp add: Radius_client_flush_def client_ok_def)

lemma change_server_ok:
  assumes "client_ok c"
  shows "client_ok (fst (Radius_change_server c n old))"
proof -
  let ?f = "\<lambda>e :: radius_msg_list. e\<lparr>next_try := first_try e + 1, attempts := 0, next_wait := 1 * 2\<rparr>"
  have "client_ok (c\<lparr>msgs := map ?f (msgs c)\<rparr>)" using assms by (auto simp: client_ok_def entry_ok_def comp_def)
  then show ?thesis using flush_ok by (simp add: Radius_change_server_def Let_def)
qed

lemma switch_server_ok: "client_ok c \<Longrightarrow> client_ok (fst (switch_server i n c))"
  unfolding switch_server_def by (rule change_server_ok) (simp add: client_ok_def)

lemma failover_step_ok: "client_ok (fst x) \<Longrightarrow> client_ok (fst (failover_step failed i x))"
  by (cases x) (auto simp: failover_step_def Let_def split: prod.split dest: switch_server_ok [of _ i] simp: prod_eq_iff)

lemma retry_step_ok: "client_ok (fst x) \<Longrightarrow> client_ok (fst (retry_step i x))"
  using switch_server_ok [of "fst x" i 0] by (cases x) (auto simp: retry_step_def split: prod.split)

lemma fold_ok: "(\<And>i x. P (fst x) \<Longrightarrow> P (fst (f i x))) \<Longrightarrow> P (fst x) \<Longrightarrow> P (fst (fold f is x))"
  by (induction "is" arbitrary: x) simp_all

lemma timer_ok:
  assumes "client_ok c"
  shows "client_ok (fst (Radius_client_timer SsidNum now c))"
proof (cases "msgs c = []")
  case False
  obtain es n failed first os where l: "timer_loop c now (msgs c) 0 = (es, n, failed, first, os)"
    by (cases "timer_loop c now (msgs c) 0") auto
  have b: "length (msgs c) \<le> unat (num_msgs c)" "unat (num_msgs c) \<le> 30" "\<forall>e \<in> set (msgs c). entry_ok e"
      "distinct (ids (msgs c))"
    using assms by (auto simp: client_ok_def)
  have t: "length es + unat n = length (msgs c)" "\<forall>e \<in> set es. entry_ok e" "distinct (ids es)"
    using timer_loop_ok [OF l] b by auto
  have "unat (num_msgs c - n) = unat (num_msgs c) - unat n"
    using t(1) b(1) by (intro unat_sub) (simp add: word_le_nat_alt)
  then have "client_ok (c\<lparr>msgs := es, num_msgs := num_msgs c - n\<rparr>)" using t b by (auto simp: client_ok_def)
  then show ?thesis
    using False l unfolding Radius_client_timer_def Let_def by (simp add: fold_ok [where P = client_ok] failover_step_ok)
qed (use assms in \<open>simp add: Radius_client_timer_def\<close>)

lemma retry_ok: "client_ok c \<Longrightarrow> client_ok (fst (Radius_retry_primary_timer SsidNum interval c))"
  using fold_ok [of client_ok retry_step "(c, [])" "map of_nat [0..<SsidNum]"] retry_step_ok
  by (auto simp: Radius_retry_primary_timer_def split: prod.split)

text \<open>With distinct identifiers at most one entry is removed, so no freed entry is written.\<close>

lemma get_id_loop_none: "i \<notin> set (ids es) \<Longrightarrow> get_id_loop i freed es = Inr es"
  by (induction es arbitrary: freed) auto

lemma get_id_loop_distinct:
  "distinct (ids es) \<Longrightarrow> get_id_loop i False es = Inr (filter (\<lambda>e. msg_identifier (rl_msg e) \<noteq> i) es)"
proof (induction es)
  case (Cons e es)
  show ?case
  proof (cases "msg_identifier (rl_msg e) = i")
    case True
    then have n: "i \<notin> set (ids es)" using Cons.prems by auto
    then have "filter (\<lambda>e. msg_identifier (rl_msg e) \<noteq> i) es = es" by (intro filter_True) auto
    with True n show ?thesis by (simp add: get_id_loop_none)
  next
    case False
    with Cons show ?thesis by simp
  qed
qed simp

lemma distinct_ids_filter: "distinct (ids es) \<Longrightarrow> distinct (ids (filter P es))"
  by (induction es) auto

lemma get_id_ok:
  assumes "client_ok c"
  shows "\<exists>c'. Radius_client_get_id c = Inr (next_radius_identifier c, c') \<and> client_ok c' \<and>
    next_radius_identifier c \<notin> set (ids (msgs c')) \<and> num_msgs c' = num_msgs c"
proof -
  let ?i = "next_radius_identifier c"
  let ?es = "filter (\<lambda>e. msg_identifier (rl_msg e) \<noteq> ?i) (msgs c)"
  have d: "distinct (ids (msgs c))" using assms by (simp add: client_ok_def)
  have "Radius_client_get_id c = Inr (?i, c\<lparr>next_radius_identifier := ?i + 1, msgs := ?es\<rparr>)"
    by (simp add: Radius_client_get_id_def Let_def get_id_loop_distinct [OF d])
  moreover have "client_ok (c\<lparr>next_radius_identifier := ?i + 1, msgs := ?es\<rparr>)"
    using assms distinct_ids_filter [OF d] le_trans [OF length_filter_le] by (auto simp: client_ok_def)
  ultimately show ?thesis by auto
qed

lemma list_add_ok:
  assumes "client_ok c" and "msg_identifier msg \<notin> set (ids (msgs c))"
  shows "client_ok (fst (Radius_client_list_add terminated ok now c msg secret a))"
proof (cases "terminated \<or> \<not> ok")
  case False
  let ?n = "new_request now msg secret a"
  have e: "entry_ok ?n" "msg_identifier (rl_msg ?n) = msg_identifier msg"
    by (simp_all add: new_request_def entry_ok_def)
  have c: "length (msgs c) \<le> unat (num_msgs c)" "unat (num_msgs c) \<le> 30" "\<forall>e \<in> set (msgs c). entry_ok e"
      "distinct (ids (msgs c))"
    using assms by (auto simp: client_ok_def)
  have d: "distinct (ids (?n # msgs c))" using c(4) assms(2) e(2) by simp
  show ?thesis
  proof (cases "30 \<le> num_msgs c")
    case True
    then have n: "unat (num_msgs c) = 30" using c(2) by (simp add: word_le_nat_alt)
    let ?es = "if 1 < length (?n # msgs c) then butlast (?n # msgs c) else ?n # msgs c"
    have "set ?es \<subseteq> set (?n # msgs c)" by (auto dest: in_set_butlastD)
    moreover have "length ?es \<le> 30" using c(1) n by auto
    moreover have "distinct (ids ?es)" using d distinct_butlast [of "ids (?n # msgs c)"] by (auto simp: map_butlast)
    ultimately have "client_ok (c\<lparr>msgs := ?es\<rparr>)" using c n e(1) by (auto simp: client_ok_def)
    then show ?thesis using False True by (simp add: Radius_client_list_add_def Let_def)
  next
    case nF: False
    then have "unat (num_msgs c) < 30" by (simp add: word_le_nat_alt not_le)
    moreover from this have "unat (num_msgs c + 1) = unat (num_msgs c) + 1" by (intro unat_plus_one_small) simp
    ultimately have "client_ok (c\<lparr>msgs := ?n # msgs c, num_msgs := num_msgs c + 1\<rparr>)"
      using c d e by (simp add: client_ok_def)
    then show ?thesis using False nF by (simp add: Radius_client_list_add_def Let_def)
  qed
qed (use assms in \<open>auto simp: Radius_client_list_add_def\<close>)

lemma take_request_split:
  "take_request i es = Some (r, rest) \<Longrightarrow> \<exists>us vs. es = us @ r # vs \<and> rest = us @ vs \<and> i \<notin> set (ids us) \<and>
     msg_identifier (rl_msg r) = i"
proof (induction es arbitrary: r rest)
  case (Cons e es)
  show ?case
  proof (cases "msg_identifier (rl_msg e) = i")
    case True
    with Cons.prems show ?thesis by (intro exI [of _ "[]"] exI [of _ es]) auto
  next
    case False
    then obtain rest1 where r: "take_request i es = Some (r, rest1)" "rest = e # rest1"
      using Cons.prems by (auto split: option.splits)
    with Cons.IH [OF r(1)] obtain us vs where "es = us @ r # vs" "rest1 = us @ vs" "i \<notin> set (ids us)"
        "msg_identifier (rl_msg r) = i" by blast
    with False r(2) show ?thesis by (intro exI [of _ "e # us"] exI [of _ vs]) auto
  qed
qed simp

lemma match_ok:
  assumes "client_ok c" and "Radius_client_match i c = Some (req, c')"
  shows "client_ok c'"
proof -
  obtain rest where r: "take_request i (msgs c) = Some (req, rest)" "c' = c\<lparr>msgs := rest, num_msgs := num_msgs c - 1\<rparr>"
    using assms(2) by (auto simp: Radius_client_match_def split: option.splits)
  then obtain us vs where s: "msgs c = us @ req # vs" "rest = us @ vs" using take_request_split by blast
  then have "0 < unat (num_msgs c)" using assms(1) by (auto simp: client_ok_def)
  then have "unat (num_msgs c - 1) = unat (num_msgs c) - 1" by (rule unat_minus_one_small)
  with assms(1) r(2) s show ?thesis by (auto simp: client_ok_def)
qed

text \<open>
  The states of the client: requests are only added with the identifier that \<open>Radius_client_get_id\<close> has
  just returned, as \<open>ieee802_1x_encapsulate_radius\<close> does.
\<close>

inductive client_reach :: "radius_client \<Rightarrow> bool" where
  init: "msgs c = [] \<Longrightarrow> num_msgs c = 0 \<Longrightarrow> client_reach c"
| request: "client_reach c \<Longrightarrow> Radius_client_get_id c = Inr (i, c1) \<Longrightarrow> msg_identifier msg = i \<Longrightarrow>
    client_reach (fst (Radius_client_list_add terminated ok now c1 msg secret a))"
| id_only: "client_reach c \<Longrightarrow> Radius_client_get_id c = Inr (i, c1) \<Longrightarrow> client_reach c1"
| answer: "client_reach c \<Longrightarrow> Radius_client_match i c = Some (req, c') \<Longrightarrow> client_reach c'"
| timer: "client_reach c \<Longrightarrow> client_reach (fst (Radius_client_timer SsidNum now c))"
| retry: "client_reach c \<Longrightarrow> client_reach (fst (Radius_retry_primary_timer SsidNum interval c))"
| flush: "client_reach c \<Longrightarrow> client_reach (fst (Radius_client_flush c))"

lemma client_reach_ok: "client_reach c \<Longrightarrow> client_ok c"
proof (induction rule: client_reach.induct)
  case (init c)
  then show ?case by (simp add: client_ok_def)
next
  case (request c i c1 msg terminated ok now secret a)
  with get_id_ok show ?case by (intro list_add_ok) force+
next
  case (id_only c i c1)
  with get_id_ok show ?case by force
qed (auto intro: match_ok timer_ok retry_ok flush_ok)

text \<open>
  C33. In every state the RADIUS client can reach, at most 30 requests wait for an answer, no two of them have
  the same identifier, each has been sent fewer than ten times since its last server was chosen and waits
  between 2 and 120 seconds for its next turn, and the next identifier is handed out without touching freed
  memory.
\<close>
theorem radius_client_bounded:
  assumes "client_reach c"
  shows "length (msgs c) \<le> 30 \<and> distinct (map (\<lambda>e. msg_identifier (rl_msg e)) (msgs c)) \<and>
    (\<forall>e \<in> set (msgs c). 0 \<le> attempts e \<and> attempts e < 10 \<and> 2 \<le> next_wait e \<and> next_wait e \<le> 120) \<and>
    (\<exists>i c'. Radius_client_get_id c = Inr (i, c') \<and> i \<notin> set (map (\<lambda>e. msg_identifier (rl_msg e)) (msgs c')))"
  using client_reach_ok [OF assms] get_id_ok [OF client_reach_ok [OF assms]]
  by (auto simp: client_ok_def entry_ok_def)

definition idle_client :: radius_client where
  "idle_client = \<lparr>mbss_auth_serv_sock = (\<lambda>_. - 1), msgs = [], num_msgs = 0, next_radius_identifier = 0,
     mbss_auth_servers = (\<lambda>_. []), mbss_auth_server = (\<lambda>_. 0)\<rparr>"

theorem radius_client_bounded_witness:
  "length (msgs (fst (Radius_client_timer 1 5 idle_client))) \<le> 30"
proof -
  have "client_reach (fst (Radius_client_timer 1 5 idle_client))"
    by (intro client_reach.timer client_reach.init) (simp_all add: idle_client_def)
  then show ?thesis using radius_client_bounded by blast
qed

text \<open>
  The counter of waiting requests does not follow the list: when \<open>Radius_client_get_id\<close> meets a request
  that still waits under the identifier it hands out again, the request is dropped and the counter is not
  decremented, so that the limit of the list is reached with fewer requests.
\<close>
theorem radius_client_counter_drifts:
  assumes "client_reach c" and "e \<in> set (msgs c)" and "msg_identifier (rl_msg e) = next_radius_identifier c"
  shows "\<exists>i c'. Radius_client_get_id c = Inr (i, c') \<and> length (msgs c') < length (msgs c) \<and> num_msgs c' = num_msgs c"
proof -
  have d: "distinct (ids (msgs c))" using client_reach_ok [OF assms(1)] by (simp add: client_ok_def)
  have "length (filter (\<lambda>e. msg_identifier (rl_msg e) \<noteq> next_radius_identifier c) (msgs c)) < length (msgs c)"
    using assms(2,3) by (intro length_filter_less) auto
  then show ?thesis by (simp add: Radius_client_get_id_def Let_def get_id_loop_distinct [OF d])
qed

lemma reach_skip_ids:
  assumes "client_reach c" and "\<And>k. k < n \<Longrightarrow> next_radius_identifier c + of_nat k \<notin> set (ids (msgs c))"
  shows "client_reach (c\<lparr>next_radius_identifier := next_radius_identifier c + of_nat n\<rparr>)"
  using assms(2)
proof (induction n)
  case 0
  then show ?case using assms(1) by simp
next
  case (Suc n)
  let ?c = "c\<lparr>next_radius_identifier := next_radius_identifier c + of_nat n\<rparr>"
  have "client_reach ?c" using Suc by simp
  moreover have "Radius_client_get_id ?c = Inr (next_radius_identifier ?c, ?c\<lparr>next_radius_identifier := next_radius_identifier ?c + 1\<rparr>)"
    using Suc.prems [of n] by (simp add: Radius_client_get_id_def Let_def get_id_loop_none)
  ultimately have "client_reach (?c\<lparr>next_radius_identifier := next_radius_identifier ?c + 1\<rparr>)" by (rule client_reach.id_only)
  then show ?case by (simp add: add_ac)
qed

text \<open>A request under the identifier 0 that is not answered while 255 others are.\<close>

definition stale_client :: radius_client where
  "stale_client = idle_client\<lparr>msgs := [new_request 0 \<lparr>msg_buf = 1 # replicate 19 0, buf_used = 20, msg_attrs = [],
     attr_size = 16\<rparr> [] 0], num_msgs := 1\<rparr>"

lemma stale_client_reach: "client_reach stale_client"
proof -
  let ?m = "\<lparr>msg_buf = 1 # replicate 19 0, buf_used = 20, msg_attrs = [], attr_size = 16\<rparr>"
  let ?c = "idle_client\<lparr>next_radius_identifier := 1\<rparr>"
  have "client_reach idle_client" by (rule client_reach.init) (simp_all add: idle_client_def)
  moreover have "Radius_client_get_id idle_client = Inr (0, ?c)"
    by (simp add: Radius_client_get_id_def idle_client_def Let_def)
  ultimately have "client_reach (fst (Radius_client_list_add False True 0 ?c ?m [] 0))"
    by (rule client_reach.request) (simp add: msg_identifier_def)
  moreover have "fst (Radius_client_list_add False True 0 ?c ?m [] 0) = stale_client\<lparr>next_radius_identifier := 1\<rparr>"
    by (simp add: Radius_client_list_add_def stale_client_def idle_client_def Let_def)
  ultimately have r: "client_reach (stale_client\<lparr>next_radius_identifier := 1\<rparr>)" by simp
  have "1 + of_nat k \<noteq> (0 :: u8)" if "k < 255" for k
  proof -
    have "unat (of_nat (1 + k) :: u8) = 1 + k" using that by (simp only: unsigned_of_nat take_bit_eq_mod) simp
    then show ?thesis by auto
  qed
  then have "client_reach (stale_client\<lparr>next_radius_identifier := 1 + of_nat 255\<rparr>)"
    using reach_skip_ids [OF r, of 255] by (simp add: stale_client_def new_request_def msg_identifier_def)
  moreover have "1 + of_nat 255 = (0 :: u8)" by simp
  ultimately show ?thesis by (simp only:) (simp add: stale_client_def idle_client_def)
qed

theorem radius_client_counter_drifts_witness:
  "\<exists>i c'. Radius_client_get_id stale_client = Inr (i, c') \<and> length (msgs c') < length (msgs stale_client) \<and>
     num_msgs c' = num_msgs stale_client"
  by (rule radius_client_counter_drifts [OF stale_client_reach, of "hd (msgs stale_client)"])
    (simp_all add: stale_client_def idle_client_def new_request_def msg_identifier_def)

end
