(* ===== verification/Eloop.thy ===== *)
theory Eloop
  imports Prelude
begin

text \<open>
  The event loop of the 802.1X authenticator (\<open>8021xd/src/eloop.c\<close>): the list of timeouts, kept in the
  order in which they expire, the tables of sockets and signals, and the choice of the handlers that
  one turn of \<open>eloop_run\<close> calls. A handler is a value of a type \<open>'h\<close>, a context pointer a value of a type
  \<open>'d\<close>; \<open>None\<close> as an argument of \<open>eloop_cancel_timeout\<close> is \<open>ELOOP_ALL_CTX\<close>. The clock and the outcome of
  \<open>select\<close> are arguments. Times are unbounded integers: the code adds in 32 bits, so the model agrees with it as
  long as the clock and the times of expiry stay below 2^31 seconds (the year 2038).
\<close>

record timeval =
  tv_sec :: int
  tv_usec :: int

definition timer_less :: "timeval \<Rightarrow> timeval \<Rightarrow> bool" where
  "timer_less a b \<longleftrightarrow> (if tv_sec a = tv_sec b then tv_usec a < tv_usec b else tv_sec a < tv_sec b)"

record ('h, 'd) eloop_timeout =
  to_time :: timeval
  eloop_data :: 'd
  user_data :: 'd
  to_handler :: 'h

record ('h, 'd) eloop_sock =
  sock :: int
  sock_eloop_data :: 'd
  sock_user_data :: 'd
  sock_handler :: 'h

record ('h, 'd) eloop_signal =
  sig :: int
  sig_user_data :: 'd
  sig_handler :: 'h

record ('h, 'd) eloop_data =
  max_sock :: int
  readers :: "('h, 'd) eloop_sock list"
  timeouts :: "('h, 'd) eloop_timeout list"
  signals :: "('h, 'd) eloop_signal list"
  terminate :: bool
  reload :: bool

section \<open>Operations\<close>

definition eloop_init :: "('h, 'd) eloop_data" where
  "eloop_init = \<lparr>max_sock = 0, readers = [], timeouts = [], signals = [], terminate = False, reload = False\<rparr>"

definition eloop_register_read_sock ::
  "bool \<Rightarrow> int \<Rightarrow> 'h \<Rightarrow> 'd \<Rightarrow> 'd \<Rightarrow> ('h, 'd) eloop_data \<Rightarrow> int \<times> ('h, 'd) eloop_data" where
  "eloop_register_read_sock ok s h ed ud el =
     (if \<not> ok then (- 1, el)
      else (0, el\<lparr>readers := readers el @ [\<lparr>sock = s, sock_eloop_data = ed, sock_user_data = ud, sock_handler = h\<rparr>],
             max_sock := (if max_sock el < s then s else max_sock el)\<rparr>))"

text \<open>The carry loop: microseconds above a second.\<close>

function carry_usec :: "timeval \<Rightarrow> timeval" where
  "carry_usec t =
     (if 1000000 \<le> tv_usec t then carry_usec (t\<lparr>tv_sec := tv_sec t + 1, tv_usec := tv_usec t - 1000000\<rparr>) else t)"
  by pat_completeness auto
termination by (relation "measure (\<lambda>t. nat (tv_usec t))") auto

declare carry_usec.simps [simp del]

text \<open>The search for the first timeout that expires later, and the insertion before it.\<close>

fun insert_timeout :: "('h, 'd) eloop_timeout \<Rightarrow> ('h, 'd) eloop_timeout list \<Rightarrow> ('h, 'd) eloop_timeout list" where
  "insert_timeout t [] = [t]"
| "insert_timeout t (tmp # ts) =
     (if timer_less (to_time t) (to_time tmp) then t # tmp # ts else tmp # insert_timeout t ts)"

definition eloop_register_timeout ::
  "bool \<Rightarrow> timeval \<Rightarrow> nat \<Rightarrow> nat \<Rightarrow> 'h \<Rightarrow> 'd \<Rightarrow> 'd \<Rightarrow> ('h, 'd) eloop_data \<Rightarrow> int \<times> ('h, 'd) eloop_data" where
  "eloop_register_timeout ok now secs usecs h ed ud el =
     (if \<not> ok then (- 1, el)
      else
        let t = carry_usec (now\<lparr>tv_sec := tv_sec now + int secs, tv_usec := tv_usec now + int usecs\<rparr>);
          timeout = \<lparr>to_time = t, eloop_data = ed, user_data = ud, to_handler = h\<rparr>
        in (0, el\<lparr>timeouts := insert_timeout timeout (timeouts el)\<rparr>))"

definition timeout_matches :: "'h \<Rightarrow> 'd option \<Rightarrow> 'd option \<Rightarrow> ('h, 'd) eloop_timeout \<Rightarrow> bool" where
  "timeout_matches h ed ud t \<longleftrightarrow> to_handler t = h \<and> (ed = None \<or> ed = Some (eloop_data t)) \<and>
     (ud = None \<or> ud = Some (user_data t))"

fun cancel_walk ::
  "'h \<Rightarrow> 'd option \<Rightarrow> 'd option \<Rightarrow> ('h, 'd) eloop_timeout list \<Rightarrow> ('h, 'd) eloop_timeout list \<times> nat" where
  "cancel_walk h ed ud [] = ([], 0)"
| "cancel_walk h ed ud (t # ts) =
     (let (rest, removed) = cancel_walk h ed ud ts
      in if timeout_matches h ed ud t then (rest, removed + 1) else (t # rest, removed))"

definition eloop_cancel_timeout ::
  "'h \<Rightarrow> 'd option \<Rightarrow> 'd option \<Rightarrow> ('h, 'd) eloop_data \<Rightarrow> nat \<times> ('h, 'd) eloop_data" where
  "eloop_cancel_timeout h ed ud el =
     (let (ts, removed) = cancel_walk h ed ud (timeouts el) in (removed, el\<lparr>timeouts := ts\<rparr>))"

definition eloop_register_signal :: "bool \<Rightarrow> int \<Rightarrow> 'h \<Rightarrow> 'd \<Rightarrow> ('h, 'd) eloop_data \<Rightarrow> int \<times> ('h, 'd) eloop_data" where
  "eloop_register_signal ok s h ud el =
     (if \<not> ok then (- 1, el)
      else (0, el\<lparr>signals := signals el @ [\<lparr>sig = s, sig_user_data = ud, sig_handler = h\<rparr>]\<rparr>))"

text \<open>The handler a signal calls: the first that was registered for it.\<close>

definition eloop_handle_signal :: "int \<Rightarrow> ('h, 'd) eloop_data \<Rightarrow> ('h, 'd) eloop_signal option" where
  "eloop_handle_signal s el = List.find (\<lambda>x. sig x = s) (signals el)"

text \<open>How long one turn of the loop may sleep; \<open>None\<close> is forever.\<close>

definition timersub :: "timeval \<Rightarrow> timeval \<Rightarrow> timeval" where
  "timersub a b =
     (if tv_usec a - tv_usec b < 0
      then \<lparr>tv_sec = tv_sec a - tv_sec b - 1, tv_usec = tv_usec a - tv_usec b + 1000000\<rparr>
      else \<lparr>tv_sec = tv_sec a - tv_sec b, tv_usec = tv_usec a - tv_usec b\<rparr>)"

definition eloop_sleep :: "timeval \<Rightarrow> ('h, 'd) eloop_data \<Rightarrow> timeval option" where
  "eloop_sleep now el =
     (case timeouts el of
        [] \<Rightarrow> None
      | t # ts \<Rightarrow> Some (if \<not> timer_less now (to_time t) then \<lparr>tv_sec = 0, tv_usec = 0\<rparr> else timersub (to_time t) now))"

text \<open>The timeout that one turn takes off the list and whose handler it calls.\<close>

definition eloop_fire :: "timeval \<Rightarrow> ('h, 'd) eloop_data \<Rightarrow> ('h, 'd) eloop_timeout option \<times> ('h, 'd) eloop_data" where
  "eloop_fire now el =
     (case timeouts el of
        [] \<Rightarrow> (None, el)
      | t # ts \<Rightarrow> if \<not> timer_less now (to_time t) then (Some t, el\<lparr>timeouts := ts\<rparr>) else (None, el))"

text \<open>The readers whose handlers it calls, in the order of registration.\<close>

definition eloop_ready :: "(int \<Rightarrow> bool) \<Rightarrow> ('h, 'd) eloop_data \<Rightarrow> ('h, 'd) eloop_sock list" where
  "eloop_ready is_set el = filter (\<lambda>r. is_set (sock r)) (readers el)"

definition eloop_goes_on :: "('h, 'd) eloop_data \<Rightarrow> bool" where
  "eloop_goes_on el \<longleftrightarrow> \<not> terminate el \<and> (timeouts el \<noteq> [] \<or> readers el \<noteq> [])"

definition eloop_terminate :: "('h, 'd) eloop_data \<Rightarrow> ('h, 'd) eloop_data" where
  "eloop_terminate el = el\<lparr>terminate := True\<rparr>"

definition eloop_reload :: "('h, 'd) eloop_data \<Rightarrow> ('h, 'd) eloop_data" where
  "eloop_reload el = el\<lparr>reload := True\<rparr>"

section \<open>The order of the timeouts\<close>

definition timer_le :: "timeval \<Rightarrow> timeval \<Rightarrow> bool" where
  "timer_le a b \<longleftrightarrow> \<not> timer_less b a"

lemma timer_le_refl [simp]: "timer_le a a"
  by (simp add: timer_le_def timer_less_def)

lemma timer_le_trans: "timer_le a b \<Longrightarrow> timer_le b c \<Longrightarrow> timer_le a c"
  by (auto simp: timer_le_def timer_less_def split: if_splits)

lemma timer_less_le: "timer_less a b \<Longrightarrow> timer_le a b"
  by (auto simp: timer_le_def timer_less_def split: if_splits)

definition timeouts_sorted :: "('h, 'd) eloop_timeout list \<Rightarrow> bool" where
  "timeouts_sorted ts \<longleftrightarrow> sorted_wrt timer_le (map to_time ts)"

lemma set_insert_timeout [simp]: "set (insert_timeout t ts) = insert t (set ts)"
  by (induction ts) auto

lemma insert_timeout_sorted: "timeouts_sorted ts \<Longrightarrow> timeouts_sorted (insert_timeout t ts)"
proof (induction ts)
  case (Cons a ts)
  show ?case
  proof (cases "timer_less (to_time t) (to_time a)")
    case True
    then have "timer_le (to_time t) (to_time a)" by (rule timer_less_le)
    with True Cons.prems show ?thesis by (auto simp: timeouts_sorted_def intro: timer_le_trans)
  next
    case False
    then have "timer_le (to_time a) (to_time t)" by (simp add: timer_le_def)
    with False Cons show ?thesis by (auto simp: timeouts_sorted_def)
  qed
qed (simp add: timeouts_sorted_def)

text \<open>A new timeout goes behind the ones that expire at the same time.\<close>

lemma insert_timeout_split:
  "\<exists>us vs. ts = us @ vs \<and> insert_timeout t ts = us @ t # vs \<and> (\<forall>u \<in> set us. timer_le (to_time u) (to_time t))"
proof (induction ts)
  case (Cons a ts)
  show ?case
  proof (cases "timer_less (to_time t) (to_time a)")
    case False
    obtain us vs where "ts = us @ vs" "insert_timeout t ts = us @ t # vs" "\<forall>u \<in> set us. timer_le (to_time u) (to_time t)"
      using Cons by blast
    with False show ?thesis by (intro exI [of _ "a # us"] exI [of _ vs]) (simp add: timer_le_def)
  qed (rule exI [of _ "[]"], simp)
qed simp

lemma cancel_walk_filter:
  "cancel_walk h ed ud ts =
     (filter (\<lambda>t. \<not> timeout_matches h ed ud t) ts, length (filter (timeout_matches h ed ud) ts))"
  by (induction ts) auto

lemma filter_sorted: "timeouts_sorted ts \<Longrightarrow> timeouts_sorted (filter P ts)"
  by (induction ts) (auto simp: timeouts_sorted_def)

text \<open>The calls of the rest of the daemon.\<close>

datatype ('h, 'd) eloop_cmd =
    Register timeval nat nat 'h 'd 'd
  | Cancel 'h "'d option" "'d option"
  | Fire timeval

fun eloop_call :: "('h, 'd) eloop_cmd \<Rightarrow> ('h, 'd) eloop_data \<Rightarrow> ('h, 'd) eloop_data" where
  "eloop_call (Register now secs usecs h ed ud) el = snd (eloop_register_timeout True now secs usecs h ed ud el)"
| "eloop_call (Cancel h ed ud) el = snd (eloop_cancel_timeout h ed ud el)"
| "eloop_call (Fire now) el = snd (eloop_fire now el)"

lemma eloop_call_sorted: "timeouts_sorted (timeouts el) \<Longrightarrow> timeouts_sorted (timeouts (eloop_call c el))"
proof (cases c)
  case (Fire now)
  assume "timeouts_sorted (timeouts el)"
  with Fire show ?thesis by (cases "timeouts el") (auto simp: eloop_fire_def timeouts_sorted_def)
qed (auto simp: eloop_register_timeout_def eloop_cancel_timeout_def Let_def insert_timeout_sorted
    cancel_walk_filter filter_sorted)

lemma eloop_calls_sorted: "timeouts_sorted (timeouts (fold eloop_call cs eloop_init))"
proof (induction cs rule: rev_induct)
  case Nil
  show ?case by (simp add: eloop_init_def timeouts_sorted_def)
next
  case (snoc c cs)
  then show ?case by (simp add: eloop_call_sorted)
qed

lemma fire_earliest:
  assumes "timeouts_sorted (timeouts el)" and "eloop_fire now el = (Some t, el')"
  shows "timer_le (to_time t) now" and "\<forall>u \<in> set (timeouts el'). timer_le (to_time t) (to_time u)"
    and "timeouts el = t # timeouts el'"
  using assms by (auto simp: eloop_fire_def timeouts_sorted_def timer_le_def split: list.splits if_splits)

lemma fire_none:
  assumes "timeouts_sorted (timeouts el)" and "eloop_fire now el = (None, el')"
  shows "\<forall>u \<in> set (timeouts el). timer_less now (to_time u)"
proof (cases "timeouts el")
  case (Cons t ts)
  with assms have "timer_less now (to_time t)" by (auto simp: eloop_fire_def split: if_splits)
  moreover have "\<forall>u \<in> set ts. timer_le (to_time t) (to_time u)"
    using assms(1) Cons by (auto simp: timeouts_sorted_def)
  ultimately show ?thesis using Cons timer_le_trans by (auto simp: timer_le_def)
qed simp

lemma carry_usec_value:
  "tv_sec (carry_usec t) * 1000000 + tv_usec (carry_usec t) = tv_sec t * 1000000 + tv_usec t"
  "tv_usec (carry_usec t) < 1000000"
proof (induction t rule: carry_usec.induct)
  case (1 t)
  show "tv_sec (carry_usec t) * 1000000 + tv_usec (carry_usec t) = tv_sec t * 1000000 + tv_usec t"
    using 1(1) by (cases "1000000 \<le> tv_usec t") (simp_all add: carry_usec.simps [of t] algebra_simps)
  show "tv_usec (carry_usec t) < 1000000"
    using 1(2) by (cases "1000000 \<le> tv_usec t") (simp_all add: carry_usec.simps [of t])
qed

text \<open>
  C16. The event loop calls timeouts in the order in which they expire: after any sequence of
  registrations, cancellations and turns of the loop, the timeout a turn calls is due and none of the
  remaining ones expires before it, and a turn that calls none leaves only timeouts that are not due.
\<close>
theorem eloop_fires_in_order:
  "case eloop_fire now (fold eloop_call cs eloop_init) of
     (None, el) \<Rightarrow> \<forall>u. u \<in> set (timeouts el) \<longrightarrow> timer_less now (to_time u)
   | (Some t, el) \<Rightarrow> \<not> timer_less now (to_time t) \<and>
       (\<forall>u. u \<in> set (timeouts el) \<longrightarrow> \<not> timer_less (to_time u) (to_time t))"
proof (cases "eloop_fire now (fold eloop_call cs eloop_init)")
  case (Pair r el)
  note s = eloop_calls_sorted [of cs]
  show ?thesis
  proof (cases r)
    case None
    then have e: "eloop_fire now (fold eloop_call cs eloop_init) = (None, el)" using Pair by simp
    then have "timeouts el = timeouts (fold eloop_call cs eloop_init)"
      by (auto simp: eloop_fire_def split: list.splits if_splits)
    with fire_none [OF s e] e show ?thesis by simp
  next
    case (Some t)
    then have e: "eloop_fire now (fold eloop_call cs eloop_init) = (Some t, el)" using Pair by simp
    with fire_earliest [OF s e] show ?thesis by (simp add: timer_le_def)
  qed
qed

theorem eloop_fires_in_order_witness:
  "case eloop_fire \<lparr>tv_sec = 9, tv_usec = 0\<rparr>
       (fold eloop_call [Register \<lparr>tv_sec = 1, tv_usec = 900000\<rparr> 5 500000 (0 :: nat) () (),
          Register \<lparr>tv_sec = 2, tv_usec = 0\<rparr> 1 0 1 () ()] eloop_init) of
     (None, el) \<Rightarrow> False | (Some t, el) \<Rightarrow> to_handler t = 1 \<and> length (timeouts el) = 1"
  using eloop_fires_in_order [of "\<lparr>tv_sec = 9, tv_usec = 0\<rparr>"
    "[Register \<lparr>tv_sec = 1, tv_usec = 900000\<rparr> 5 500000 (0 :: nat) () (), Register \<lparr>tv_sec = 2, tv_usec = 0\<rparr> 1 0 1 () ()]"]
  by (simp add: eloop_register_timeout_def eloop_init_def eloop_fire_def carry_usec.simps timer_less_def Let_def)

end
