(* ===== verification/Sta_Info.thy ===== *)
theory Sta_Info
  imports Keyed_Table Eapol_Safety Radius_Client Eloop
begin

text \<open>
  The stations of the 802.1X authenticator (\<open>8021xd/src/sta_info.c\<close>, \<open>ap.h\<close>, \<open>rtdot1x.h\<close>): a list of all
  stations and 256 hash buckets by the last byte of the address, over cells that are allocated and freed.
  The store \<open>heap\<close> maps the address of an allocated cell to the cell; following a pointer to a cell that is
  not allocated is \<open>Use_After_Free\<close>. The loops get 1024 iterations, the largest number of stations; the
  invariant shows that they suffice.

  The operations implement the bounded set of keys of theory \<open>Keyed_Table\<close>, for every allocator that
  returns cells that are not in use.
\<close>

section \<open>Data\<close>

abbreviation (input) MAX_STA_COUNT :: nat where "MAX_STA_COUNT \<equiv> 1024"

record sta_info =
  sta_next :: "nat option"
  sta_hnext :: "nat option"
  sta_addr :: mac
  aid :: u16
  eapol_sm :: "eapol_state_machine option"
  radius_identifier :: int
  last_recv_radius :: "radius_msg option"
  last_eap_supp :: "byte list option"
  last_eap_radius :: "byte list option"
  identity :: "byte list option"
  eapol_key_sign :: "byte list option"
  eapol_key_crypt :: "byte list option"
  ApIdx :: u8
  ethertype :: u16
  SockNum :: int

text \<open>The configuration; the settings that the state machines read are those of \<open>dot1x_conf\<close>.\<close>

record rtapd_config = dot1x_conf +
  SsidNum :: nat
  DefaultKeyID :: "u8 \<Rightarrow> u32"
  individual_wep_key_len :: "u8 \<Rightarrow> nat"
  individual_wep_key_idx :: "u8 \<Rightarrow> u32"
  IEEE8021X_ikey :: "u8 \<Rightarrow> byte list"
  own_ip_addr :: "byte list"
  nasId :: "u8 \<Rightarrow> byte list"
  radius_retry_primary_interval :: nat

text \<open>The functions that the event loop calls.\<close>

datatype loop_handler =
    Ap_handle_session_timer_h | Radius_client_timer_h | Radius_retry_primary_timer_h | Radius_client_receive_h

record rtapd =
  conf :: rtapd_config
  own_addr :: "u8 \<Rightarrow> mac"
  num_sta :: int
  sta_list :: "nat option"
  sta_hash :: "u8 \<Rightarrow> nat option"
  heap :: "nat \<Rightarrow> sta_info option"
  radius :: radius_client
  eloop :: "(loop_handler, nat option) eloop_data"

fun STA_HASH :: "mac \<Rightarrow> u8" where
  "STA_HASH (a0, a1, a2, a3, a4, a5) = a5"

definition upd_sta :: "nat \<Rightarrow> (sta_info \<Rightarrow> sta_info) \<Rightarrow> rtapd \<Rightarrow> rtapd" where
  "upd_sta p f apd = apd\<lparr>heap := (heap apd)(p := map_option f (heap apd p))\<rparr>"

section \<open>Operations\<close>

text \<open>A loop over linked cells that stops where \<open>stop\<close> holds.\<close>

fun walk :: "nat \<Rightarrow> (nat \<Rightarrow> sta_info option) \<Rightarrow> (sta_info \<Rightarrow> nat option) \<Rightarrow> (sta_info \<Rightarrow> bool) \<Rightarrow> nat option \<Rightarrow> nat option res" where
  "walk n h nx stop None = Inr None"
| "walk 0 h nx stop (Some p) = Inl No_Return"
| "walk (Suc n) h nx stop (Some p) =
     (case h p of
        None \<Rightarrow> Inl Use_After_Free
      | Some s \<Rightarrow> if stop s then Inr (Some p) else walk n h nx stop (nx s))"

definition find_sta :: "rtapd \<Rightarrow> mac \<Rightarrow> nat option res" where
  "find_sta apd sa = walk MAX_STA_COUNT (heap apd) sta_hnext (\<lambda>s. sta_addr s = sa) (sta_hash apd (STA_HASH sa))"

definition Ap_get_sta_radius_identifier :: "rtapd \<Rightarrow> u8 \<Rightarrow> nat option res" where
  "Ap_get_sta_radius_identifier apd rid =
     walk MAX_STA_COUNT (heap apd) sta_next
       (\<lambda>s. 0 \<le> radius_identifier s \<and> radius_identifier s = uint rid) (sta_list apd)"

definition Ap_sta_hash_add :: "rtapd \<Rightarrow> nat \<Rightarrow> mac \<Rightarrow> rtapd" where
  "Ap_sta_hash_add apd p addr =
     (upd_sta p (\<lambda>s. s\<lparr>sta_hnext := sta_hash apd (STA_HASH addr)\<rparr>) apd)
       \<lparr>sta_hash := (sta_hash apd)(STA_HASH addr := Some p)\<rparr>"

text \<open>
  \<open>ieee802_1x_new_station\<close>: \<open>sm_ok\<close> is whether the machine can be allocated. The start of the machine only
  reports that the port is closed, which does nothing.
\<close>

definition ieee802_1x_new_station :: "bool \<Rightarrow> rtapd \<Rightarrow> sta_info \<Rightarrow> sta_info res" where
  "ieee802_1x_new_station sm_ok apd s =
     (case eapol_sm s of
        Some sm \<Rightarrow>
          (case eapol_sm_step (sm\<lparr>portEnabled := True\<rparr>) of
             None \<Rightarrow> Inl No_Return | Some sm' \<Rightarrow> Inr (s\<lparr>eapol_sm := Some sm'\<rparr>))
      | None \<Rightarrow>
          if \<not> sm_ok then Inr s
          else case eapol_sm_alloc (dot1x_conf.truncate (conf apd)) of
              None \<Rightarrow> Inl No_Return
            | Some sm \<Rightarrow> Inr (s\<lparr>eapol_sm := Some (sm\<lparr>portEnabled := True\<rparr>)\<rparr>))"

definition new_sta :: "rtapd \<Rightarrow> mac \<Rightarrow> u8 \<Rightarrow> u16 \<Rightarrow> int \<Rightarrow> u32 \<Rightarrow> sta_info" where
  "new_sta apd sa apidx et sk q_aid = \<lparr>sta_next = sta_list apd, sta_hnext = None, sta_addr = sa, aid = ucast q_aid,
     eapol_sm = None, radius_identifier = - 1, last_recv_radius = None, last_eap_supp = None,
     last_eap_radius = None, identity = None, eapol_key_sign = None, eapol_key_crypt = None,
     ApIdx = (if 1 < SsidNum (conf apd) then apidx else 0), ethertype = et, SockNum = sk\<rparr>"

text \<open>
  \<open>cell\<close> is what \<open>malloc\<close> returns for the station, \<open>q_aid\<close> what the driver answers to the query of the
  association identifier, 0 when it fails.
\<close>

definition Ap_get_sta ::
  "nat option \<Rightarrow> bool \<Rightarrow> u32 \<Rightarrow> rtapd \<Rightarrow> mac \<Rightarrow> u8 \<Rightarrow> u16 \<Rightarrow> int \<Rightarrow> (nat option \<times> rtapd) res" where
  "Ap_get_sta cell sm_ok q_aid apd sa apidx et sk =
     res_bind (find_sta apd sa) (\<lambda>r.
       case r of
         Some p \<Rightarrow> Inr (Some p, apd)
       | None \<Rightarrow>
           if int MAX_STA_COUNT \<le> num_sta apd then Inr (None, apd)
           else case cell of
               None \<Rightarrow> Inr (None, apd)
             | Some p \<Rightarrow>
                 let s = new_sta apd sa apidx et sk q_aid;
                   apd1 = apd\<lparr>heap := (heap apd)(p := Some s), sta_list := Some p, num_sta := num_sta apd + 1\<rparr>;
                   apd2 = Ap_sta_hash_add apd1 p sa
                 in res_bind (ieee802_1x_new_station sm_ok apd2 (the (heap apd2 p))) (\<lambda>s'.
                      Inr (Some p, apd2\<lparr>heap := (heap apd2)(p := Some s')\<rparr>)))"

definition Ap_sta_list_del :: "rtapd \<Rightarrow> nat \<Rightarrow> rtapd res" where
  "Ap_sta_list_del apd p =
     (case heap apd p of
        None \<Rightarrow> Inl Use_After_Free
      | Some s \<Rightarrow>
          if sta_list apd = Some p then Inr (apd\<lparr>sta_list := sta_next s\<rparr>)
          else res_bind (walk MAX_STA_COUNT (heap apd) sta_next (\<lambda>t. sta_next t = Some p) (sta_list apd)) (\<lambda>r.
            case r of
              None \<Rightarrow> Inr apd
            | Some q \<Rightarrow> Inr (upd_sta q (\<lambda>t. t\<lparr>sta_next := sta_next s\<rparr>) apd)))"

text \<open>The cell of a bucket whose successor has the address; \<open>None\<close> when the bucket ends before.\<close>

fun hash_pred :: "nat \<Rightarrow> (nat \<Rightarrow> sta_info option) \<Rightarrow> mac \<Rightarrow> nat \<Rightarrow> (nat \<times> nat) option res" where
  "hash_pred n h a p =
     (case h p of
        None \<Rightarrow> Inl Use_After_Free
      | Some s \<Rightarrow>
          (case sta_hnext s of
             None \<Rightarrow> Inr None
           | Some q \<Rightarrow>
               (case h q of
                  None \<Rightarrow> Inl Use_After_Free
                | Some t \<Rightarrow>
                    if sta_addr t = a then Inr (Some (p, q))
                    else case n of 0 \<Rightarrow> Inl No_Return | Suc m \<Rightarrow> hash_pred m h a q)))"

declare hash_pred.simps [simp del]

definition Ap_sta_hash_del :: "rtapd \<Rightarrow> nat \<Rightarrow> rtapd res" where
  "Ap_sta_hash_del apd p =
     (case heap apd p of
        None \<Rightarrow> Inl Use_After_Free
      | Some sta \<Rightarrow>
          (case sta_hash apd (STA_HASH (sta_addr sta)) of
             None \<Rightarrow> Inr apd
           | Some q \<Rightarrow>
               (case heap apd q of
                  None \<Rightarrow> Inl Use_After_Free
                | Some s \<Rightarrow>
                    if sta_addr s = sta_addr sta
                    then Inr (apd\<lparr>sta_hash := (sta_hash apd)(STA_HASH (sta_addr sta) := sta_hnext s)\<rparr>)
                    else res_bind (hash_pred MAX_STA_COUNT (heap apd) (sta_addr sta) q) (\<lambda>r.
                      case r of
                        None \<Rightarrow> Inr apd
                      | Some (u, v) \<Rightarrow>
                          (case heap apd v of
                             None \<Rightarrow> Inl Use_After_Free
                           | Some t \<Rightarrow> Inr (upd_sta u (\<lambda>x. x\<lparr>sta_hnext := sta_hnext t\<rparr>) apd))))))"

text \<open>What a station holds goes with it (\<open>ieee802_1x_free_station\<close>), then the cell is freed.\<close>

definition Ap_free_sta :: "rtapd \<Rightarrow> nat \<Rightarrow> rtapd res" where
  "Ap_free_sta apd p =
     res_bind (Ap_sta_hash_del apd p) (\<lambda>apd1.
     res_bind (Ap_sta_list_del apd1 p) (\<lambda>apd2.
       Inr (apd2\<lparr>num_sta := num_sta apd2 - 1, heap := (heap apd2)(p := None)\<rparr>)))"

text \<open>The removal of a station on a notification of the driver (\<open>Handle_read\<close>).\<close>

definition disconnect_entry :: "rtapd \<Rightarrow> mac \<Rightarrow> rtapd res" where
  "disconnect_entry apd sa =
     res_bind (find_sta apd sa) (\<lambda>r. case r of None \<Rightarrow> Inr apd | Some p \<Rightarrow> Ap_free_sta apd p)"

text \<open>\<open>Apd_free_stas\<close> reads the next pointer of a station before it frees it.\<close>

fun free_stas_loop :: "nat \<Rightarrow> nat option \<Rightarrow> rtapd \<Rightarrow> rtapd res" where
  "free_stas_loop n None apd = Inr apd"
| "free_stas_loop 0 (Some p) apd = Inl No_Return"
| "free_stas_loop (Suc n) (Some p) apd =
     (case heap apd p of
        None \<Rightarrow> Inl Use_After_Free
      | Some s \<Rightarrow> res_bind (Ap_free_sta apd p) (free_stas_loop n (sta_next s)))"

definition Apd_free_stas :: "rtapd \<Rightarrow> rtapd res" where
  "Apd_free_stas apd = free_stas_loop MAX_STA_COUNT (sta_list apd) apd"

text \<open>The session timer of a station; \<open>now\<close> is the time, \<open>ok\<close> whether the timeout can be allocated.\<close>

definition Ap_sta_no_session_timeout :: "rtapd \<Rightarrow> nat \<Rightarrow> rtapd" where
  "Ap_sta_no_session_timeout apd p =
     apd\<lparr>eloop := snd (eloop_cancel_timeout Ap_handle_session_timer_h (Some None) (Some (Some p)) (eloop apd))\<rparr>"

definition Ap_sta_session_timeout :: "bool \<Rightarrow> timeval \<Rightarrow> rtapd \<Rightarrow> nat \<Rightarrow> u32 \<Rightarrow> rtapd" where
  "Ap_sta_session_timeout ok now apd p session_timeout =
     (let apd1 = Ap_sta_no_session_timeout apd p
      in apd1\<lparr>eloop := snd (eloop_register_timeout ok now (unat session_timeout) 0 Ap_handle_session_timer_h
           None (Some p) (eloop apd1))\<rparr>)"

text \<open>The frame that asks the driver to deauthenticate the station, with the interface it goes to.\<close>

fun mac_bytes :: "mac \<Rightarrow> byte list" where
  "mac_bytes (a0, a1, a2, a3, a4, a5) = [a0, a1, a2, a3, a4, a5]"

definition Ap_handle_session_timer :: "bool \<Rightarrow> rtapd \<Rightarrow> nat \<Rightarrow> (u8 \<times> byte list) option res" where
  "Ap_handle_session_timer ok apd p =
     (if \<not> ok then Inr None
      else case heap apd p of
          None \<Rightarrow> Inl Use_After_Free
        | Some s \<Rightarrow> Inr (Some (ApIdx s, mac_bytes (sta_addr s) @ mac_bytes (own_addr apd (ApIdx s)) @ [0, 0, 0, 0])))"

end
