(* ===== verification/Ieee802_1x.thy ===== *)
theory Ieee802_1x
  imports Sta_Info
begin

text \<open>
  The frame handlers of the 802.1X authenticator (\<open>8021xd/src/ieee802_1x.c\<close>, the dispatch of
  \<open>rtdot1x.c\<close> and the reception of \<open>radius_client.c\<close>): EAPOL frames of the stations, answers of the
  RADIUS server, the frames and requests that the state machines of a station ask for. The optional
  parts for Hotspot 2.0 and MAC lists are not in the build.

  What the daemon does to the outside is a list of outputs. What the outside answers is an \<open>env\<close>: whether
  the n-th allocation or driver call of the handler succeeds, the n-th random bytes, the clock. A frame is the
  list of the bytes received; reading bytes that were not received is \<open>Out_Of_Bounds\<close>.

  The machines of a station do not read what their actions change, so the actions of a run of
  \<open>eapol_sm_step\<close> are performed after it, in order.
\<close>

unbundle bit_operations_syntax

section \<open>The outside\<close>

record env =
  mem :: "nat \<Rightarrow> bool"
  ioctl_ok :: "nat \<Rightarrow> bool"
  rand_bytes :: "nat \<Rightarrow> byte list option"
  now_tv :: timeval
  tv_bytes :: "byte list"
  rand_long :: "byte list"
  sta_head :: "byte list"
  new_sock :: "u8 \<Rightarrow> int"
  new_cell :: "nat option"
  sta_aid :: u32

definition env_skip :: "env \<Rightarrow> env" where
  "env_skip e = e\<lparr>mem := (\<lambda>k. mem e (k + 1000)), ioctl_ok := (\<lambda>k. ioctl_ok e (k + 10)),
     rand_bytes := (\<lambda>k. rand_bytes e (k + 10))\<rparr>"

record ndis_802_11_key =
  KeyIndex :: u32
  KeyLength :: nat
  KeyMaterial :: "byte list"
  key_addr :: mac

datatype daemon_out =
    Eth_Send int "byte list"
  | Dot1x_Radius_Data u8 "byte list"
  | Static_Wep_Copy u8 mac
  | Pmkid_Cache u8 ndis_802_11_key
  | Wpa_Key u8 ndis_802_11_key
  | Idle_Timeout u8 mac u32
  | Client client_out

abbreviation (input) ETH_P_PAE :: u16 where "ETH_P_PAE \<equiv> 0x888E"
abbreviation (input) ETH_P_PRE_AUTH :: u16 where "ETH_P_PRE_AUTH \<equiv> 0x88C7"
abbreviation (input) ETH_P_VLAN :: u16 where "ETH_P_VLAN \<equiv> 0x8100"
abbreviation (input) IEEE802_1X_TYPE_EAP_PACKET :: byte where "IEEE802_1X_TYPE_EAP_PACKET \<equiv> 0"
abbreviation (input) IEEE802_1X_TYPE_EAPOL_START :: byte where "IEEE802_1X_TYPE_EAPOL_START \<equiv> 1"
abbreviation (input) IEEE802_1X_TYPE_EAPOL_LOGOFF :: byte where "IEEE802_1X_TYPE_EAPOL_LOGOFF \<equiv> 2"
abbreviation (input) IEEE802_1X_TYPE_EAPOL_KEY :: byte where "IEEE802_1X_TYPE_EAPOL_KEY \<equiv> 3"
abbreviation (input) EAP_CODE_REQUEST :: byte where "EAP_CODE_REQUEST \<equiv> 1"
abbreviation (input) EAP_CODE_RESPONSE :: byte where "EAP_CODE_RESPONSE \<equiv> 2"
abbreviation (input) EAP_CODE_SUCCESS :: byte where "EAP_CODE_SUCCESS \<equiv> 3"
abbreviation (input) EAP_CODE_FAILURE :: byte where "EAP_CODE_FAILURE \<equiv> 4"
abbreviation (input) EAP_TYPE_IDENTITY :: byte where "EAP_TYPE_IDENTITY \<equiv> 1"
abbreviation (input) EAP_TYPE_NAK :: byte where "EAP_TYPE_NAK \<equiv> 3"

section \<open>Frames to a station\<close>

definition ieee802_1x_send :: "bool \<Rightarrow> rtapd \<Rightarrow> sta_info \<Rightarrow> byte \<Rightarrow> byte list \<Rightarrow> daemon_out list" where
  "ieee802_1x_send ok apd sta type data =
     (if \<not> ok then []
      else
        let pre_auth = (ethertype sta = ETH_P_PRE_AUTH);
          frame = mac_bytes (sta_addr sta) @ mac_bytes (own_addr apd (ApIdx sta)) @
            be16 (unat (if pre_auth then ETH_P_PRE_AUTH else ETH_P_PAE)) @
            [if pre_auth then 2 else 1, type] @ be16 (length data) @ data @ [0, 0]
        in [if pre_auth then Eth_Send (SockNum sta) frame else Dot1x_Radius_Data (ApIdx sta) frame])"

text \<open>Closing the port does nothing; \<open>auth_success\<close> is \<open>authSuccess\<close> of the machine.\<close>

definition ieee802_1x_set_sta_authorized :: "bool \<Rightarrow> sta_info \<Rightarrow> bool \<Rightarrow> daemon_out list" where
  "ieee802_1x_set_sta_authorized auth_success sta authorized =
     (if authorized \<and> auth_success \<and> (eapol_key_sign sta = None \<or> eapol_key_sign sta = Some []) \<and>
         (eapol_key_crypt sta = None \<or> eapol_key_crypt sta = Some [])
      then [Static_Wep_Copy (ApIdx sta) (sta_addr sta)] else [])"

definition ieee802_1x_new_auth_session :: "sta_info \<Rightarrow> sta_info" where
  "ieee802_1x_new_auth_session sta = sta\<lparr>last_recv_radius := None\<rparr>"

definition ieee802_1x_request_identity :: "env \<Rightarrow> rtapd \<Rightarrow> sta_info \<Rightarrow> u8 \<Rightarrow> sta_info \<times> daemon_out list" where
  "ieee802_1x_request_identity e apd sta i =
     (let sta1 = ieee802_1x_new_auth_session sta
      in (sta1, if \<not> mem e 0 then []
           else ieee802_1x_send (mem e 1) apd sta1 IEEE802_1X_TYPE_EAP_PACKET
             ([EAP_CODE_REQUEST, i] @ be16 5 @ [EAP_TYPE_IDENTITY])))"

definition ieee802_1x_tx_canned_eap :: "env \<Rightarrow> rtapd \<Rightarrow> sta_info \<Rightarrow> u8 \<Rightarrow> bool \<Rightarrow> daemon_out list" where
  "ieee802_1x_tx_canned_eap e apd sta i success =
     ieee802_1x_send (mem e 0) apd sta IEEE802_1X_TYPE_EAP_PACKET
       ([if success then EAP_CODE_SUCCESS else EAP_CODE_FAILURE, i] @ be16 4)"

definition ieee802_1x_tx_req :: "env \<Rightarrow> rtapd \<Rightarrow> sta_info \<Rightarrow> u8 \<Rightarrow> sta_info \<times> daemon_out list" where
  "ieee802_1x_tx_req e apd sta i =
     (case last_eap_radius sta of
        None \<Rightarrow> (sta, [])
      | Some eap \<Rightarrow>
          let eap1 = eap[1 := i]
          in (sta\<lparr>last_eap_radius := Some eap1\<rparr>,
              ieee802_1x_send (mem e 0) apd sta IEEE802_1X_TYPE_EAP_PACKET eap1))"

text \<open>
  An EAPOL-Key frame: the header that is hashed and the key descriptor of 44 bytes and the encrypted key.
  \<open>iv\<close> is \<open>None\<close> when there are no random numbers.
\<close>

definition ieee802_1x_tx_key_one ::
  "env \<Rightarrow> byte list option \<Rightarrow> rtapd \<Rightarrow> sta_info \<Rightarrow> u32 \<Rightarrow> bool \<Rightarrow> byte list \<Rightarrow> daemon_out list res" where
  "ieee802_1x_tx_key_one e iv apd sta index broadcast key_data =
     (if \<not> mem e 0 then Inr []
      else case iv of
          None \<Rightarrow> Inr []
        | Some key_iv \<Rightarrow>
            if \<not> mem e 1 then Inr []
            else
              let len = 44 + length key_data;
                sec = (of_int (tv_sec (now_tv e)) :: u32); usec = (of_int (tv_usec (now_tv e)) :: u32);
                ntp = be32 (sec + 0x83aa7e80) @ be32 (4295 * usec - drop_bit 5 usec - drop_bit 9 usec);
                crypt = (case eapol_key_crypt sta of None \<Rightarrow> [] | Some k \<Rightarrow> k);
                sign = (case eapol_key_sign sta of None \<Rightarrow> [] | Some k \<Rightarrow> k)
              in res_bind (rc4 key_data (key_iv @ crypt)) (\<lambda>ekey.
                   let key = (\<lambda>signature. [1] @ be16 (length key_data) @ ntp @ key_iv @
                         [ucast index OR (if broadcast then 0 else 0x80)] @ signature @ ekey);
                     hdr = [1, IEEE802_1X_TYPE_EAPOL_KEY] @ be16 len;
                     signature = hmac_md5 sign (hdr @ key (replicate 16 0))
                   in Inr (ieee802_1x_send (mem e 2) apd sta IEEE802_1X_TYPE_EAPOL_KEY (key signature))))"

definition add_wep_key :: "sta_info \<Rightarrow> ndis_802_11_key \<Rightarrow> daemon_out" where
  "add_wep_key sta k =
     (if ethertype sta = ETH_P_PRE_AUTH then Pmkid_Cache (ApIdx sta) k else Wpa_Key (ApIdx sta) k)"

definition key_material :: "byte list \<Rightarrow> byte list" where
  "key_material k = k @ replicate (64 - length k) 0"

text \<open>
  The broadcast key, then a random key for the station; each goes to the station and to the driver. The
  result of the second generator call is not checked: the key is what the buffer then holds.
\<close>

definition ieee802_1x_tx_key :: "env \<Rightarrow> byte list \<Rightarrow> rtapd \<Rightarrow> sta_info \<Rightarrow> daemon_out list res" where
  "ieee802_1x_tx_key e stack_bytes apd sta =
     (if eapol_key_sign sta = None \<or> eapol_key_crypt sta = None then Inr []
      else
        let a = ApIdx sta; len = individual_wep_key_len (conf apd) a;
          bkey = take len (IEEE8021X_ikey (conf apd) a)
        in res_bind (ieee802_1x_tx_key_one e (rand_bytes e 0) apd sta (DefaultKeyID (conf apd) a) True bkey) (\<lambda>o1.
             let o2 = add_wep_key sta \<lparr>KeyIndex = 0x80000000 OR DefaultKeyID (conf apd) a, KeyLength = len,
                   KeyMaterial = key_material bkey, key_addr = sta_addr sta\<rparr>
             in if \<not> ioctl_ok e 0 then Inr (o1 @ [o2])
                else
                  let ukey = take len (case rand_bytes e 1 of None \<Rightarrow> stack_bytes | Some r \<Rightarrow> r)
                  in res_bind (ieee802_1x_tx_key_one (env_skip e) (rand_bytes e 2) apd sta
                         (individual_wep_key_idx (conf apd) a) False ukey) (\<lambda>o3.
                       Inr (o1 @ [o2] @ o3 @ [add_wep_key sta \<lparr>KeyIndex = individual_wep_key_idx (conf apd) a,
                         KeyLength = len, KeyMaterial = key_material ukey, key_addr = sta_addr sta\<rparr>]))))"

section \<open>Requests to the server\<close>

definition hex_digit :: "u8 \<Rightarrow> byte" where
  "hex_digit d = (if d < 10 then 48 + d else 55 + d)"

text \<open>\<open>RADIUS_802_1X_ADDR_FORMAT\<close>: six pairs of upper case hexadecimal digits.\<close>

definition addr_text :: "mac \<Rightarrow> byte list" where
  "addr_text m = tl (concat (map (\<lambda>b. [45, hex_digit (drop_bit 4 b), hex_digit (b AND 15)]) (mac_bytes m)))"

text \<open>One attribute after the other; \<open>None\<close> when one could not be added.\<close>

definition then_add :: "(nat \<Rightarrow> bool) \<Rightarrow> byte \<Rightarrow> byte list \<Rightarrow> radius_msg option res \<Rightarrow> radius_msg option res" where
  "then_add ok t d b = res_bind b (\<lambda>m.
     case m of
       None \<Rightarrow> Inr None
     | Some msg \<Rightarrow> res_bind (Radius_msg_add_attr ok msg t d) (\<lambda>(m1, a). Inr (if a = None then None else Some m1)))"

definition then_add_eap :: "(nat \<Rightarrow> bool) \<Rightarrow> byte list option \<Rightarrow> radius_msg option res \<Rightarrow> radius_msg option res" where
  "then_add_eap ok eap b = res_bind b (\<lambda>m.
     case (m, eap) of
       (Some msg, Some d) \<Rightarrow> res_bind (Radius_msg_add_eap ok msg d) (\<lambda>(m1, done). Inr (if done then Some m1 else None))
     | _ \<Rightarrow> Inr m)"

definition then_copy_state :: "(nat \<Rightarrow> bool) \<Rightarrow> radius_msg option \<Rightarrow> radius_msg option res \<Rightarrow> radius_msg option res" where
  "then_copy_state ok prev_msg b = res_bind b (\<lambda>m.
     case (m, prev_msg) of
       (Some msg, Some r) \<Rightarrow>
         if msg_code r = RADIUS_CODE_ACCESS_CHALLENGE
         then res_bind (Radius_msg_copy_attr ok msg r RADIUS_ATTR_STATE) (\<lambda>(m1, res). Inr (if res < 0 then None else Some m1))
         else Inr m
     | _ \<Rightarrow> Inr m)"

definition access_request ::
  "env \<Rightarrow> rtapd \<Rightarrow> sta_info \<Rightarrow> u8 \<Rightarrow> byte list option \<Rightarrow> radius_msg option res" where
  "access_request e apd sta i eap =
     (case Radius_msg_new (mem e) RADIUS_CODE_ACCESS_REQUEST i of
        None \<Rightarrow> Inr None
      | Some msg0 \<Rightarrow>
          let ok = (\<lambda>n k. mem e (n + k)); a = ApIdx sta;
            b = Inr (Some (Radius_msg_make_authenticator (tv_bytes e) (rand_long e) msg0 (sta_head e)));
            b = (case identity sta of None \<Rightarrow> b | Some n \<Rightarrow> then_add (ok 3) RADIUS_ATTR_USER_NAME n b);
            b = then_add (ok 5) 4 (own_ip_addr (conf apd)) b;
            b = (if nasId (conf apd) a \<noteq> [] then then_add (ok 7) 32 (nasId (conf apd) a) b else b);
            b = then_add (ok 9) 5 (be32 (ucast (aid sta))) b;
            b = then_add (ok 11) 30 (addr_text (own_addr apd a)) b;
            b = then_add (ok 13) 31 (addr_text (sta_addr sta)) b;
            b = then_add (ok 15) 12 (be32 1400) b;
            b = then_add (ok 17) 61 (be32 19) b;
            b = then_add_eap (ok 40) eap b
          in then_copy_state (ok 19) (last_recv_radius sta) b)"

text \<open>What the client registers with the event loop; \<open>ok\<close> is whether a timeout can be allocated.\<close>

fun apply_client_out :: "bool \<Rightarrow> timeval \<Rightarrow> client_out \<Rightarrow> rtapd \<Rightarrow> rtapd" where
  "apply_client_out ok now (Arm_Client_Timer s) apd =
     apd\<lparr>eloop := snd (eloop_register_timeout ok now (nat s) 0 Radius_client_timer_h None None (eloop apd))\<rparr>"
| "apply_client_out ok now (Arm_Retry_Timer s) apd =
     apd\<lparr>eloop := snd (eloop_register_timeout ok now (nat s) 0 Radius_retry_primary_timer_h None None (eloop apd))\<rparr>"
| "apply_client_out ok now Cancel_Client_Timer apd =
     apd\<lparr>eloop := snd (eloop_cancel_timeout Radius_client_timer_h (Some None) (Some None) (eloop apd))\<rparr>"
| "apply_client_out ok now (Send s b) apd = apd"
| "apply_client_out ok now (Send_To s a q b) apd = apd"

definition apply_client_outs :: "bool \<Rightarrow> timeval \<Rightarrow> client_out list \<Rightarrow> rtapd \<Rightarrow> rtapd" where
  "apply_client_outs ok now os apd = fold (apply_client_out ok now) os apd"

definition ieee802_1x_encapsulate_radius ::
  "env \<Rightarrow> rtapd \<Rightarrow> nat \<Rightarrow> sta_info \<Rightarrow> byte list option \<Rightarrow> (rtapd \<times> daemon_out list) res" where
  "ieee802_1x_encapsulate_radius e apd p sta eap =
     res_bind (Radius_client_get_id (radius apd)) (\<lambda>(i, c).
       let sta1 = sta\<lparr>radius_identifier := uint i\<rparr>;
         apd1 = apd\<lparr>radius := c, heap := (heap apd)(p := Some sta1)\<rparr>
       in res_bind (access_request e apd1 sta1 i eap) (\<lambda>m.
            case m of
              None \<Rightarrow> Inr (apd1, [])
            | Some msg \<Rightarrow>
                res_bind (Radius_client_send (\<lambda>k. mem e (21 + k)) (terminate (eloop apd)) (tv_sec (now_tv e)) c msg (ApIdx sta1))
                  (\<lambda>(c', os). Inr (apply_client_outs (mem e 24) (now_tv e) os (apd1\<lparr>radius := c'\<rparr>), map Client os))))"

definition ieee802_1x_send_resp_to_server :: "env \<Rightarrow> rtapd \<Rightarrow> nat \<Rightarrow> sta_info \<Rightarrow> (rtapd \<times> daemon_out list) res" where
  "ieee802_1x_send_resp_to_server e apd p sta = ieee802_1x_encapsulate_radius e apd p sta (last_eap_supp sta)"

section \<open>The actions of the state machines\<close>

text \<open>The machine only opens the port in the state \<open>AUTHENTICATED\<close>, which it enters when \<open>authSuccess\<close> holds.\<close>

fun perform_action :: "env \<Rightarrow> byte list \<Rightarrow> nat \<Rightarrow> sm_action \<Rightarrow> rtapd \<Rightarrow> sta_info \<Rightarrow> (rtapd \<times> daemon_out list) res" where
  "perform_action e st p (Set_Authorized b) apd sta = Inr (apd, ieee802_1x_set_sta_authorized True sta b)"
| "perform_action e st p (Tx_Canned_Eap i b) apd sta = Inr (apd, ieee802_1x_tx_canned_eap e apd sta i b)"
| "perform_action e st p (Request_Identity i) apd sta =
     (let (sta1, os) = ieee802_1x_request_identity e apd sta i in Inr (apd\<lparr>heap := (heap apd)(p := Some sta1)\<rparr>, os))"
| "perform_action e st p (Tx_Req i) apd sta =
     (let (sta1, os) = ieee802_1x_tx_req e apd sta i in Inr (apd\<lparr>heap := (heap apd)(p := Some sta1)\<rparr>, os))"
| "perform_action e st p Send_Resp_To_Server apd sta = ieee802_1x_send_resp_to_server e apd p sta"
| "perform_action e st p (Tx_Key i) apd sta = res_bind (ieee802_1x_tx_key e st apd sta) (\<lambda>os. Inr (apd, os))"

fun perform_actions :: "env \<Rightarrow> byte list \<Rightarrow> nat \<Rightarrow> sm_action list \<Rightarrow> rtapd \<Rightarrow> (rtapd \<times> daemon_out list) res" where
  "perform_actions e st p [] apd = Inr (apd, [])"
| "perform_actions e st p (a # as) apd =
     (case heap apd p of
        None \<Rightarrow> Inl Use_After_Free
      | Some sta \<Rightarrow>
          res_bind (perform_action e st p a apd sta) (\<lambda>(apd1, o1).
          res_bind (perform_actions (env_skip e) st p as apd1) (\<lambda>(apd2, o2). Inr (apd2, o1 @ o2))))"

text \<open>\<open>eapol_sm_step\<close> for a station, and a one-second tick of its timers.\<close>

definition run_sm_with ::
  "(eapol_state_machine \<Rightarrow> eapol_state_machine option) \<Rightarrow> env \<Rightarrow> byte list \<Rightarrow> nat \<Rightarrow> rtapd \<Rightarrow> (rtapd \<times> daemon_out list) res" where
  "run_sm_with step e st p apd =
     (case heap apd p of
        None \<Rightarrow> Inl Use_After_Free
      | Some sta \<Rightarrow>
          (case eapol_sm sta of
             None \<Rightarrow> Inl Null_Deref
           | Some sm \<Rightarrow>
               (case step sm of
                  None \<Rightarrow> Inl No_Return
                | Some sm' \<Rightarrow> perform_actions e st p (drop (length (log sm)) (log sm'))
                    (apd\<lparr>heap := (heap apd)(p := Some (sta\<lparr>eapol_sm := Some sm'\<rparr>))\<rparr>))))"

definition run_sm :: "env \<Rightarrow> byte list \<Rightarrow> nat \<Rightarrow> rtapd \<Rightarrow> (rtapd \<times> daemon_out list) res" where
  "run_sm = run_sm_with eapol_sm_step"

definition tick_sm :: "env \<Rightarrow> byte list \<Rightarrow> nat \<Rightarrow> rtapd \<Rightarrow> (rtapd \<times> daemon_out list) res" where
  "tick_sm = run_sm_with eapol_port_timers_tick"

section \<open>EAPOL frames of a station\<close>

definition upd_sm :: "(eapol_state_machine \<Rightarrow> eapol_state_machine) \<Rightarrow> sta_info \<Rightarrow> sta_info" where
  "upd_sm f sta = sta\<lparr>eapol_sm := map_option f (eapol_sm sta)\<rparr>"

text \<open>
  An EAP response: \<open>hdr\<close> are its four header bytes, \<open>data\<close> the rest. The identity is also printed, which
  has no effect.
\<close>

definition handle_eap_response :: "env \<Rightarrow> sta_info \<Rightarrow> byte list \<Rightarrow> byte list \<Rightarrow> sta_info res" where
  "handle_eap_response e sta hdr data =
     (case eapol_sm sta of
        None \<Rightarrow> Inl Null_Deref
      | Some sm \<Rightarrow>
          if hdr ! 1 \<noteq> currentId sm then Inr sta
          else if data = [] then Inr sta
          else if \<not> mem e 0 then Inr (sta\<lparr>last_eap_supp := None\<rparr>)
          else
            let sta1 = sta\<lparr>last_eap_supp := Some (hdr @ data)\<rparr>
            in if data ! 0 = EAP_TYPE_IDENTITY
               then Inr ((upd_sm (apply_event Rx_Identity) sta1)\<lparr>identity := (if mem e 1 then Some (tl data) else None)\<rparr>)
               else Inr (upd_sm (apply_event (Rx_Response (data ! 0 = EAP_TYPE_NAK))) sta1))"

text \<open>\<open>frame\<close> is what was received, the EAP packet of \<open>len\<close> bytes is at \<open>off\<close>.\<close>

definition handle_eap :: "env \<Rightarrow> sta_info \<Rightarrow> byte list \<Rightarrow> nat \<Rightarrow> nat \<Rightarrow> sta_info res" where
  "handle_eap e sta frame off len =
     (if len < 4 then Inr sta
      else res_bind (read_n frame off 4) (\<lambda>hdr.
        let eap_len = ntoh (drop 2 hdr) in
        if eap_len < 4 then Inr sta
        else if len < eap_len then Inr sta
        else if hdr ! 0 = EAP_CODE_RESPONSE
          then res_bind (read_n frame (off + 4) (eap_len - 4)) (handle_eap_response e sta hdr)
          else Inr sta))"

text \<open>\<open>RTMPCompareMemory(buf, SNAP_802_1H, 6) == 0\<close>; it stops at the first byte that differs.\<close>

fun begins_with :: "byte list \<Rightarrow> byte list \<Rightarrow> bool res" where
  "begins_with frame [] = Inr True"
| "begins_with [] (y # ys) = Inl Out_Of_Bounds"
| "begins_with (x # xs) (y # ys) = (if x = y then begins_with xs ys else Inr False)"

abbreviation (input) SNAP_802_1H :: "byte list" where "SNAP_802_1H \<equiv> [0xaa, 0xaa, 0x03, 0x00, 0x00, 0x00]"

text \<open>The machine of a station that has none is allocated.\<close>

definition ensure_sm :: "bool \<Rightarrow> rtapd \<Rightarrow> sta_info \<Rightarrow> sta_info option res" where
  "ensure_sm ok apd sta =
     (case eapol_sm sta of
        Some _ \<Rightarrow> Inr (Some sta)
      | None \<Rightarrow>
          if \<not> ok then Inr None
          else case eapol_sm_alloc (dot1x_conf.truncate (conf apd)) of
              None \<Rightarrow> Inl No_Return | Some sm \<Rightarrow> Inr (Some (sta\<lparr>eapol_sm := Some sm\<rparr>)))"

definition set_sta :: "nat \<Rightarrow> sta_info \<Rightarrow> rtapd \<Rightarrow> rtapd" where
  "set_sta p sta apd = apd\<lparr>heap := (heap apd)(p := Some sta)\<rparr>"

text \<open>The switch over the type of the EAPOL packet and the run of the machines after it.\<close>

definition eapol_dispatch ::
  "env \<Rightarrow> byte list \<Rightarrow> rtapd \<Rightarrow> nat \<Rightarrow> sta_info \<Rightarrow> byte list \<Rightarrow> nat \<Rightarrow> byte \<Rightarrow> nat \<Rightarrow> (rtapd \<times> daemon_out list) res" where
  "eapol_dispatch e st apd p sta frame off type datalen =
     (if type = IEEE802_1X_TYPE_EAP_PACKET then
        res_bind (handle_eap e sta frame (off + 4) datalen) (\<lambda>sta1. run_sm (env_skip e) st p (set_sta p sta1 apd))
      else if type = IEEE802_1X_TYPE_EAPOL_START \<or> type = IEEE802_1X_TYPE_EAPOL_LOGOFF then
        let ev = (if type = IEEE802_1X_TYPE_EAPOL_START then Rx_Start else Rx_Logoff)
        in res_bind (run_sm (env_skip e) st p (set_sta p (upd_sm (apply_event ev) sta) apd)) (\<lambda>(apd1, o1).
           res_bind (run_sm (env_skip (env_skip e)) st p apd1) (\<lambda>(apd2, o2). Inr (apd2, o1 @ o2)))
      else run_sm (env_skip e) st p (set_sta p sta apd))"

definition ieee802_1x_receive ::
  "env \<Rightarrow> byte list \<Rightarrow> rtapd \<Rightarrow> mac \<Rightarrow> u8 \<Rightarrow> byte list \<Rightarrow> u16 \<Rightarrow> int \<Rightarrow> (rtapd \<times> daemon_out list) res" where
  "ieee802_1x_receive e st apd sa apidx frame et sk =
     res_bind (Ap_get_sta (new_cell e) (mem e 2) (sta_aid e) apd sa apidx et sk) (\<lambda>(r, apd1).
       case r of
         None \<Rightarrow> Inr (apd1, [])
       | Some p \<Rightarrow>
           res_bind (begins_with frame SNAP_802_1H) (\<lambda>snap.
             let off = (if snap then 8 else 0) in
             res_bind (read_n frame off 4) (\<lambda>hdr.
               let datalen = ntoh (drop 2 hdr) in
               if (of_nat (length frame) - 4 :: u32) < of_nat datalen then Inr (apd1, [])
               else case heap apd1 p of
                   None \<Rightarrow> Inl Use_After_Free
                 | Some sta0 \<Rightarrow>
                     res_bind (ensure_sm (mem e 3) apd1 sta0) (\<lambda>q.
                       case q of
                         None \<Rightarrow> Inr (apd1, [])
                       | Some sta \<Rightarrow>
                           if et \<noteq> ETH_P_PAE \<and> et \<noteq> ETH_P_PRE_AUTH then Inr (set_sta p sta apd1, [])
                           else if hdr ! 0 \<noteq> 1 \<and> hdr ! 0 \<noteq> 2 then Inr (set_sta p sta apd1, [])
                           else eapol_dispatch e st apd1 p sta frame off (hdr ! 1) datalen))))"

section \<open>Answers of the server\<close>

definition ieee802_1x_decapsulate_radius :: "bool \<Rightarrow> sta_info \<Rightarrow> sta_info res" where
  "ieee802_1x_decapsulate_radius ok sta =
     (case last_recv_radius sta of
        None \<Rightarrow> Inr sta
      | Some msg \<Rightarrow>
          res_bind (Radius_msg_get_eap ok msg) (\<lambda>r.
            case r of
              None \<Rightarrow> Inr (sta\<lparr>last_eap_radius := None\<rparr>)
            | Some eap \<Rightarrow>
                if length eap < 4 then Inr sta
                else case eapol_sm sta of
                    None \<Rightarrow> Inl Null_Deref
                  | Some sm \<Rightarrow> Inr ((upd_sm (apply_event (Server_Id (eap ! 1))) sta)\<lparr>last_eap_radius := Some eap\<rparr>)))"

text \<open>
  The keys of an acceptance go to the driver and are kept for EAPOL-Key frames. The first 24 bytes of the
  receive key are printed, whatever its length. A key that is not 32 bytes long is cut to one byte for
  the driver.
\<close>

definition opt_len :: "byte list option \<Rightarrow> nat" where
  "opt_len k = (case k of None \<Rightarrow> 0 | Some b \<Rightarrow> length b)"

definition ieee802_1x_get_keys ::
  "env \<Rightarrow> sta_info \<Rightarrow> radius_msg \<Rightarrow> radius_msg option \<Rightarrow> byte list \<Rightarrow> (sta_info \<times> daemon_out list) res" where
  "ieee802_1x_get_keys e sta msg req secret =
     res_bind (Radius_msg_get_ms_keys (mem e) (Some msg) req secret) (\<lambda>r.
       case r of
         None \<Rightarrow> Inr (sta, [])
       | Some keys \<Rightarrow>
           (case recv_key keys of
              None \<Rightarrow> Inr (sta, [])
            | Some recv \<Rightarrow>
                if recv = [] then Inr (sta, [])
                else if length recv < 24 then Inl Out_Of_Bounds
                else
                  let pre_auth = (ethertype sta = ETH_P_PRE_AUTH);
                    both = (\<not> pre_auth \<and> length recv = 32 \<and> opt_len (send_key keys) = 32);
                    material = key_material (if length recv = 32
                      then recv @ (if both then the (send_key keys) else []) else take 1 recv);
                    k = \<lparr>KeyIndex = 0, KeyLength = length recv + (if both then 32 else 0), KeyMaterial = material,
                         key_addr = sta_addr sta\<rparr>;
                    out = add_wep_key sta k
                  in if \<not> ioctl_ok e 0 then Inr (sta, [out])
                     else case send_key keys of
                         None \<Rightarrow> Inr (sta, [out])
                       | Some send \<Rightarrow> Inr ((upd_sm (apply_event Server_Keys) sta)
                           \<lparr>eapol_key_sign := Some send, eapol_key_crypt := Some recv\<rparr>, [out])))"

datatype RadiusRxResult =
    RADIUS_RX_PROCESSED | RADIUS_RX_QUEUED | RADIUS_RX_UNKNOWN | RADIUS_RX_INVALID_AUTHENTICATOR

text \<open>Whether an answer is taken without or after a check of its authenticity.\<close>

definition answer_accepted :: "radius_msg \<Rightarrow> byte list \<Rightarrow> radius_msg option \<Rightarrow> bool res" where
  "answer_accepted msg secret req =
     (let verified = res_bind (Radius_msg_verify msg secret req) (\<lambda>r. Inr (r = 0)) in
      if msg_code msg = RADIUS_CODE_ACCESS_REJECT
      then res_bind (Radius_msg_get_attr msg RADIUS_ATTR_MESSAGE_AUTHENTICATOR 0) (\<lambda>(ma, _).
             if ma < 0
             then res_bind (Radius_msg_get_attr msg RADIUS_ATTR_EAP_MESSAGE 0) (\<lambda>(em, _).
                    if em < 0 then Inr True else verified)
             else verified)
      else verified)"

definition dot1x_set_IdleTimeoutAction :: "sta_info \<Rightarrow> nat option \<Rightarrow> daemon_out list" where
  "dot1x_set_IdleTimeoutAction sta idle =
     (case idle of
        None \<Rightarrow> []
      | Some i \<Rightarrow> [Idle_Timeout (ApIdx sta) (sta_addr sta) (if (of_nat i :: u32) < 60 then 60 else of_nat i)])"

text \<open>The timers that an acceptance sets: the new daemon and machine, and whether the station is freed.\<close>

definition accept_timers ::
  "env \<Rightarrow> rtapd \<Rightarrow> nat \<Rightarrow> u32 option \<Rightarrow> nat \<Rightarrow> rtapd \<times> u32 option \<times> bool" where
  "accept_timers e apd p session action =
     (let arm = Ap_sta_session_timeout (mem e 10) (now_tv e) apd p; c = conf apd in
      case session of
        Some t \<Rightarrow>
          if action = 1 then (apd, Some t, False)
          else if session_timeout_set c = 1
            then (arm (if t < session_timeout_interval c then t else session_timeout_interval c), None, False)
          else (arm t, None, False)
      | None \<Rightarrow>
          if session_timeout_set c = 1 then (arm (session_timeout_interval c), None, False)
          else (apd, None, True))"

text \<open>The switch over the code: the daemon, the station, the outputs and whether the station is freed at the end.\<close>

definition answer_effect ::
  "env \<Rightarrow> rtapd \<Rightarrow> nat \<Rightarrow> sta_info \<Rightarrow> radius_msg \<Rightarrow> radius_msg option \<Rightarrow> byte list \<Rightarrow> nat option \<Rightarrow> nat option \<Rightarrow> nat option \<Rightarrow>
   (rtapd \<times> sta_info \<times> daemon_out list \<times> bool) res" where
  "answer_effect e apd p sta msg req secret session action idle =
     (let t = map_option of_nat session; act = (case action of None \<Rightarrow> 0 | Some a \<Rightarrow> a) in
      if msg_code msg = RADIUS_CODE_ACCESS_ACCEPT then
        let (apd1, period, free) = accept_timers e apd p t act
        in res_bind (ieee802_1x_get_keys e (upd_sm (apply_event (Server_Accept period)) sta) msg req secret) (\<lambda>(sta1, o2).
             Inr (apd1, sta1, dot1x_set_IdleTimeoutAction sta idle @ o2, free))
      else if msg_code msg = RADIUS_CODE_ACCESS_REJECT
        then Inr (apd, upd_sm (apply_event Server_Reject) sta, [], False)
      else Inr (apd, upd_sm (apply_event (Server_Challenge t)) sta, [], False))"

definition free_if :: "bool \<Rightarrow> rtapd \<Rightarrow> nat \<Rightarrow> rtapd res" where
  "free_if free apd p = (if free then Ap_free_sta apd p else Inr apd)"

definition ieee802_1x_receive_auth ::
  "env \<Rightarrow> byte list \<Rightarrow> rtapd \<Rightarrow> radius_msg \<Rightarrow> radius_msg option \<Rightarrow> byte list \<Rightarrow>
   (RadiusRxResult \<times> rtapd \<times> daemon_out list) res" where
  "ieee802_1x_receive_auth e st apd msg req secret =
     res_bind (Ap_get_sta_radius_identifier apd (msg_identifier msg)) (\<lambda>r.
       case r of
         None \<Rightarrow> Inr (RADIUS_RX_UNKNOWN, apd, [])
       | Some p \<Rightarrow>
           res_bind (answer_accepted msg secret req) (\<lambda>ok.
             if \<not> ok then Inr (RADIUS_RX_UNKNOWN, apd, [])
             else if msg_code msg \<notin> {RADIUS_CODE_ACCESS_ACCEPT, RADIUS_CODE_ACCESS_REJECT, RADIUS_CODE_ACCESS_CHALLENGE}
               then Inr (RADIUS_RX_UNKNOWN, apd, [])
             else
               case heap apd p of
                 None \<Rightarrow> Inl Use_After_Free
               | Some sta0 \<Rightarrow>
                   let sta = sta0\<lparr>radius_identifier := - 1, last_recv_radius := Some msg\<rparr> in
                   res_bind (Radius_msg_get_attr_int32 msg RADIUS_ATTR_SESSION_TIMEOUT) (\<lambda>session.
                   res_bind (Radius_msg_get_attr_int32 msg RADIUS_ATTR_TERMINATION_ACTION) (\<lambda>action.
                   res_bind (Radius_msg_get_attr_int32 msg 28) (\<lambda>idle.
                     if eapol_sm sta = None then Inl Null_Deref
                     else
                       res_bind (answer_effect e apd p sta msg req secret session action idle) (\<lambda>(apd1, sta1, o1, free).
                       res_bind (ieee802_1x_decapsulate_radius (mem e 11) sta1) (\<lambda>sta2.
                       res_bind (run_sm (env_skip e) st p (set_sta p sta2 apd1)) (\<lambda>(apd2, o2).
                       res_bind (free_if free apd2 p) (\<lambda>apd3.
                         Inr (RADIUS_RX_QUEUED, apd3, o1 @ o2))))))))))"

text \<open>
  A datagram from the server: it is parsed, the request it answers is taken off the list whether or not
  the answer is authentic, and the one handler of the daemon is called.
\<close>

definition Radius_client_receive ::
  "env \<Rightarrow> byte list \<Rightarrow> rtapd \<Rightarrow> byte list option \<Rightarrow> (rtapd \<times> daemon_out list) res" where
  "Radius_client_receive e st apd received =
     (case received of
        None \<Rightarrow> Inr (apd, [])
      | Some datagram \<Rightarrow>
          if length datagram = 3000 then Inr (apd, [])
          else case Radius_msg_parse (\<lambda>k. mem e (100 + k)) datagram of
              None \<Rightarrow> Inr (apd, [])
            | Some msg \<Rightarrow>
                (case Radius_client_match (msg_identifier msg) (radius apd) of
                   None \<Rightarrow> Inr (apd, [])
                 | Some (req, c) \<Rightarrow>
                     res_bind (ieee802_1x_receive_auth e st (apd\<lparr>radius := c\<rparr>) msg (Some (rl_msg req)) (rl_secret req))
                       (\<lambda>(_, apd1, os). Inr (apd1, os))))"

section \<open>A new configuration\<close>

text \<open>
  The sockets of the client, one for each interface with a server. \<open>Radius_client_init_auth\<close> returns whether
  it succeeded.
\<close>

definition Radius_client_init_auth :: "env \<Rightarrow> rtapd \<Rightarrow> u8 \<Rightarrow> rtapd \<times> bool" where
  "Radius_client_init_auth e apd i =
     (let c = radius apd; srv = mbss_auth_servers c i ! mbss_auth_server c i in
      if srv_addr srv = 0 then (apd, False)
      else
        let s = new_sock e i; c1 = c\<lparr>mbss_auth_serv_sock := (mbss_auth_serv_sock c)(i := s)\<rparr>
        in if s < 0 then (apd\<lparr>radius := c1\<rparr>, False)
           else
             let (c2, os) = Radius_change_server c1 srv None;
               apd1 = apply_client_outs True (now_tv e) os (apd\<lparr>radius := c2\<rparr>);
               (r, el) = eloop_register_read_sock (mem e (200 + unat i)) s Radius_client_receive_h None None (eloop apd1)
             in (apd1\<lparr>eloop := el\<rparr>, r = 0))"

definition init_auth_step :: "env \<Rightarrow> u8 \<Rightarrow> rtapd \<times> nat \<Rightarrow> rtapd \<times> nat" where
  "init_auth_step e i = (\<lambda>(apd, ready).
     if mbss_auth_serv_sock (radius apd) i < 0
     then if mbss_auth_servers (radius apd) i \<noteq> []
          then let (apd1, ok) = Radius_client_init_auth e apd i in (apd1, if ok then ready + 1 else ready)
          else (apd, ready)
     else (apd, ready + 1))"

definition close_all :: "radius_client \<Rightarrow> radius_client" where
  "close_all c = c\<lparr>mbss_auth_serv_sock := (\<lambda>i. - 1)\<rparr>"

text \<open>\<open>first\<close> is whether the client does not exist yet.\<close>

definition Radius_client_init :: "env \<Rightarrow> bool \<Rightarrow> rtapd \<Rightarrow> rtapd \<times> bool" where
  "Radius_client_init e first apd =
     (if first \<and> \<not> mem e 198 then (apd, False)
      else
        let c = radius apd;
          apd0 = (if first then apd\<lparr>radius := close_all (c\<lparr>msgs := [], num_msgs := 0, next_radius_identifier := 0\<rparr>)\<rparr> else apd);
          (apd1, ready) = fold (init_auth_step e) (map of_nat [0..<SsidNum (conf apd)]) (apd0, 0);
          interval = radius_retry_primary_interval (conf apd)
        in if ready = 0 then (apd1, False)
           else (if interval \<noteq> 0 \<and> first
                 then apply_client_out (mem e 199) (now_tv e) (Arm_Retry_Timer (int interval)) apd1 else apd1, True))"

text \<open>
  \<open>newconf\<close> is what \<open>Config_read\<close> returns: the settings and the servers of each interface, of which the
  first is the current one.
\<close>

definition Handle_reload_config ::
  "env \<Rightarrow> (rtapd_config \<times> (u8 \<Rightarrow> hostapd_radius_server list)) option \<Rightarrow> rtapd \<Rightarrow> rtapd res" where
  "Handle_reload_config e newconf apd =
     (case newconf of
        None \<Rightarrow> Inr apd
      | Some (cf, servers) \<Rightarrow>
          let (c, os) = Radius_client_flush (radius apd);
            apd1 = (apply_client_outs True (now_tv e) os (apd\<lparr>radius := c\<rparr>))\<lparr>conf := cf\<rparr>;
            apd2 = apd1\<lparr>radius := (radius apd1)\<lparr>mbss_auth_servers := servers, mbss_auth_server := (\<lambda>i. 0)\<rparr>\<rparr>
          in res_bind (Apd_free_stas apd2) (\<lambda>apd3.
               Inr (fst (Radius_client_init e False (apd3\<lparr>radius := close_all (radius apd3)\<rparr>)))))"

section \<open>The dispatch of received frames\<close>

definition frame_mac :: "byte list \<Rightarrow> mac" where
  "frame_mac b = (b ! 0, b ! 1, b ! 2, b ! 3, b ! 4, b ! 5)"

definition own_interface :: "rtapd \<Rightarrow> mac \<Rightarrow> nat option" where
  "own_interface apd da = List.find (\<lambda>i. da = own_addr apd (of_nat i)) [0..<SsidNum (conf apd)]"

text \<open>
  A frame of the driver or of the network. \<open>left\<close> is unsigned, so frames shorter than the header are not
  refused; they read bytes that were not received. A failed reception ends the event loop.
\<close>

definition Handle_read ::
  "env \<Rightarrow> byte list \<Rightarrow> (rtapd_config \<times> (u8 \<Rightarrow> hostapd_radius_server list)) option \<Rightarrow> rtapd \<Rightarrow> int \<Rightarrow> byte list option \<Rightarrow>
   (rtapd \<times> daemon_out list) res" where
  "Handle_read e st newconf apd sk received =
     (case received of
        None \<Rightarrow> Inr (apd\<lparr>eloop := eloop_terminate (eloop apd)\<rparr>, [])
      | Some buf \<Rightarrow>
          if length buf = 14 then Inr (apd, [])
          else res_bind (read_n buf 0 14) (\<lambda>hdr.
            let da = frame_mac hdr; sa = frame_mac (drop 6 hdr); et = (of_nat (ntoh (drop 12 hdr)) :: u16);
              rest = drop 14 buf;
              et1 = (if et = ETH_P_VLAN \<and> 4 \<le> length rest then of_nat (ntoh (take 2 (drop 2 rest))) else et);
              vlan = (et = ETH_P_VLAN \<and> (et1 = ETH_P_PRE_AUTH \<or> et1 = ETH_P_PAE))
            in if et1 \<noteq> ETH_P_PRE_AUTH \<and> et1 \<noteq> ETH_P_PAE then Inr (apd, [])
               else case own_interface apd da of
                   None \<Rightarrow> Inr (apd, [])
                 | Some i \<Rightarrow>
                     let pos = (if vlan then drop 4 rest else rest)
                     in if length pos = 9 \<and> take 5 pos = [221, 7, 0, 0x0c, 0x43]
                        then if pos ! 5 = 0 then res_bind (disconnect_entry apd sa) (\<lambda>apd1. Inr (apd1, []))
                             else if pos ! 5 = 1 then res_bind (Handle_reload_config e newconf apd) (\<lambda>apd1. Inr (apd1, []))
                             else Inr (apd, [])
                        else ieee802_1x_receive e st apd sa (of_nat i) pos et1 sk))"

section \<open>Timeouts\<close>

text \<open>
  One turn of the event loop takes the first timeout that has expired off its list and calls the handler.
  The ticks of the state machines are not among these timeouts; they are \<open>tick_sm\<close>.
\<close>

definition client_done :: "env \<Rightarrow> rtapd \<Rightarrow> radius_client \<times> client_out list \<Rightarrow> rtapd \<times> daemon_out list" where
  "client_done e apd r = (case r of (c, os) \<Rightarrow> (apply_client_outs (mem e 0) (now_tv e) os (apd\<lparr>radius := c\<rparr>), map Client os))"

definition run_handler ::
  "env \<Rightarrow> loop_handler \<Rightarrow> nat option \<Rightarrow> rtapd \<Rightarrow> (rtapd \<times> daemon_out list) res" where
  "run_handler e h ctx apd =
     (case h of
        Ap_handle_session_timer_h \<Rightarrow>
          (case ctx of
             None \<Rightarrow> Inl Null_Deref
           | Some p \<Rightarrow> res_bind (Ap_handle_session_timer (mem e 0) apd p) (\<lambda>r.
               Inr (apd, case r of None \<Rightarrow> [] | Some (i, frame) \<Rightarrow> [Dot1x_Radius_Data i frame])))
      | Radius_client_timer_h \<Rightarrow>
          Inr (client_done e apd (Radius_client_timer (SsidNum (conf apd)) (tv_sec (now_tv e)) (radius apd)))
      | Radius_retry_primary_timer_h \<Rightarrow>
          Inr (client_done e apd (Radius_retry_primary_timer (SsidNum (conf apd))
            (int (radius_retry_primary_interval (conf apd))) (radius apd)))
      | Radius_client_receive_h \<Rightarrow> Inr (apd, []))"

definition eloop_timeout_turn :: "env \<Rightarrow> rtapd \<Rightarrow> (rtapd \<times> daemon_out list) res" where
  "eloop_timeout_turn e apd =
     (case eloop_fire (now_tv e) (eloop apd) of
        (None, el) \<Rightarrow> Inr (apd, [])
      | (Some t, el) \<Rightarrow> run_handler e (to_handler t) (user_data t) (apd\<lparr>eloop := el\<rparr>))"

end
