(* ===== verification/Sta_Table.thy ===== *)
theory Sta_Table
  imports Sta_Info
begin

text \<open>
  The station table is a map from addresses to cells: the invariant that ties the list, the buckets and the
  allocated cells together, and the proof that it fulfils the contract of theory \<open>Keyed_Table\<close>, for every
  allocator that returns free cells.
\<close>

section \<open>The invariant\<close>

definition lnx :: "(nat \<Rightarrow> sta_info option) \<Rightarrow> nat \<Rightarrow> nat option" where
  "lnx h p = Option.bind (h p) sta_next"

definition hnx :: "(nat \<Rightarrow> sta_info option) \<Rightarrow> nat \<Rightarrow> nat option" where
  "hnx h p = Option.bind (h p) sta_hnext"

definition bucket :: "(nat \<Rightarrow> sta_info option) \<Rightarrow> u8 \<Rightarrow> nat set" where
  "bucket h b = {p. \<exists>s. h p = Some s \<and> STA_HASH (sta_addr s) = b}"

definition list_ok :: "rtapd \<Rightarrow> nat list \<Rightarrow> bool" where
  "list_ok apd xs \<longleftrightarrow> chain (lnx (heap apd)) (sta_list apd) xs \<and> set xs = dom (heap apd) \<and>
     num_sta apd = int (length xs) \<and> length xs \<le> MAX_STA_COUNT"

definition hash_ok :: "rtapd \<Rightarrow> bool" where
  "hash_ok apd \<longleftrightarrow> (\<forall>b. \<exists>ys. chain (hnx (heap apd)) (sta_hash apd b) ys \<and> set ys = bucket (heap apd) b)"

definition addrs_distinct :: "(nat \<Rightarrow> sta_info option) \<Rightarrow> bool" where
  "addrs_distinct h \<longleftrightarrow> (\<forall>p q s t. h p = Some s \<longrightarrow> h q = Some t \<longrightarrow> sta_addr s = sta_addr t \<longrightarrow> p = q)"

definition sta_inv :: "rtapd \<Rightarrow> bool" where
  "sta_inv apd \<longleftrightarrow> (\<exists>xs. list_ok apd xs) \<and> hash_ok apd \<and> addrs_distinct (heap apd) \<and>
     conf_ok (dot1x_conf.truncate (conf apd))"

definition sta_map :: "rtapd \<Rightarrow> mac \<Rightarrow> nat option" where
  "sta_map apd a = (if \<exists>p s. heap apd p = Some s \<and> sta_addr s = a
     then Some (THE p. \<exists>s. heap apd p = Some s \<and> sta_addr s = a) else None)"

lemma sta_map_Some:
  assumes "addrs_distinct (heap apd)"
  shows "sta_map apd a = Some p \<longleftrightarrow> (\<exists>s. heap apd p = Some s \<and> sta_addr s = a)"
proof
  assume "\<exists>s. heap apd p = Some s \<and> sta_addr s = a"
  moreover from this have "(THE p. \<exists>s. heap apd p = Some s \<and> sta_addr s = a) = p"
    using assms by (intro the_equality) (auto simp: addrs_distinct_def)
  ultimately show "sta_map apd a = Some p" by (auto simp: sta_map_def)
next
  assume p: "sta_map apd a = Some p"
  then obtain q s where q: "heap apd q = Some s" "sta_addr s = a" by (auto simp: sta_map_def split: if_splits)
  then have "(THE p. \<exists>s. heap apd p = Some s \<and> sta_addr s = a) = q"
    using assms by (intro the_equality) (auto simp: addrs_distinct_def)
  with p q show "\<exists>s. heap apd p = Some s \<and> sta_addr s = a" by (auto simp: sta_map_def split: if_splits)
qed

lemma sta_map_addr:
  "addrs_distinct (heap apd) \<Longrightarrow> sta_map apd a = Some p \<longleftrightarrow> map_option sta_addr (heap apd p) = Some a"
  by (simp add: sta_map_Some)

lemma sta_map_None: "sta_map apd a = None \<longleftrightarrow> (\<forall>p s. heap apd p = Some s \<longrightarrow> sta_addr s \<noteq> a)"
  by (auto simp: sta_map_def)

lemma bucket_member: "h p = Some s \<Longrightarrow> p \<in> bucket h (STA_HASH (sta_addr s))"
  by (simp add: bucket_def)

lemma bucket_alt: "bucket h b = {p. \<exists>a. (\<exists>s. h p = Some s \<and> sta_addr s = a) \<and> STA_HASH a = b}"
  unfolding bucket_def by blast

section \<open>Walks\<close>

lemma walk_chain:
  assumes "chain (\<lambda>p. Option.bind (h p) nx) p xs" and "set xs \<subseteq> dom h" and "length xs \<le> n"
  shows "walk n h nx stop p = Inr (List.find (\<lambda>q. stop (the (h q))) xs)"
  using assms
proof (induction xs arbitrary: n p)
  case (Cons x xs)
  then obtain m s where "n = Suc m" "h x = Some s" by (cases n) auto
  with Cons show ?case by auto
qed simp

lemma chain_bounded:
  assumes "list_ok apd xs" and "chain nx p ys" and "set ys \<subseteq> dom (heap apd)"
  shows "length ys \<le> MAX_STA_COUNT"
proof -
  have sub: "set ys \<subseteq> set xs" using assms(1,3) by (simp add: list_ok_def)
  have "length ys = card (set ys)" using chain_distinct [OF assms(2)] by (simp add: distinct_card)
  also have "\<dots> \<le> card (set xs)" by (rule card_mono [OF finite_set sub])
  also have "\<dots> \<le> length xs" by (rule card_length)
  finally show ?thesis using assms(1) by (simp add: list_ok_def)
qed

lemma hnx_fold: "(\<lambda>p. Option.bind (h p) sta_hnext) = hnx h" "(\<lambda>p. Option.bind (h p) sta_next) = lnx h"
  by (simp_all add: fun_eq_iff hnx_def lnx_def)

lemma find_sta_map:
  assumes "sta_inv apd"
  shows "find_sta apd a = Inr (sta_map apd a)"
proof -
  obtain xs where xs: "list_ok apd xs" using assms by (auto simp: sta_inv_def)
  have d: "addrs_distinct (heap apd)" using assms by (simp add: sta_inv_def)
  obtain ys where ys: "chain (hnx (heap apd)) (sta_hash apd (STA_HASH a)) ys" "set ys = bucket (heap apd) (STA_HASH a)"
    using assms by (auto simp: sta_inv_def hash_ok_def)
  have sub: "set ys \<subseteq> dom (heap apd)" using ys(2) by (auto simp: bucket_def)
  have w: "find_sta apd a = Inr (List.find (\<lambda>q. sta_addr (the (heap apd q)) = a) ys)"
    unfolding find_sta_def
    by (rule walk_chain) (use ys sub chain_bounded [OF xs ys(1) sub] in \<open>auto simp: hnx_fold\<close>)
  show ?thesis
  proof (cases "List.find (\<lambda>q. sta_addr (the (heap apd q)) = a) ys")
    case None
    then have "\<forall>q \<in> set ys. sta_addr (the (heap apd q)) \<noteq> a" by (simp add: find_None_iff)
    then have "sta_addr s \<noteq> a" if "heap apd p = Some s" for p s
      using that ys(2) bucket_member [of "heap apd" p s] \<open>\<forall>q \<in> set ys. _\<close>
      by (metis option.sel)
    then have "sta_map apd a = None" by (simp add: sta_map_None)
    with w None show ?thesis by simp
  next
    case (Some q)
    then have "q \<in> set ys" "sta_addr (the (heap apd q)) = a" by (auto simp: find_Some_iff)
    moreover from this obtain s where "heap apd q = Some s" using ys(2) unfolding bucket_def by blast
    ultimately have "sta_map apd a = Some q" by (simp add: sta_map_Some [OF d])
    with w Some show ?thesis by simp
  qed
qed

section \<open>Insertion\<close>

lemma chain_new_cell:
  assumes "chain nx p xs" and "x \<notin> set xs" and "\<And>q. q \<noteq> x \<Longrightarrow> nx' q = nx q" and "nx' x = p"
  shows "chain nx' (Some x) (x # xs)"
  using assms chain_cong [of xs nx' nx p] by (metis chain.simps(2))

definition with_sta :: "rtapd \<Rightarrow> nat \<Rightarrow> sta_info \<Rightarrow> rtapd" where
  "with_sta apd p s = apd\<lparr>heap := (heap apd)(p := Some s), sta_list := Some p, num_sta := num_sta apd + 1,
     sta_hash := (sta_hash apd)(STA_HASH (sta_addr s) := Some p)\<rparr>"

lemma with_sta_inv:
  assumes inv: "sta_inv apd" and fresh: "heap apd p = None" and room: "num_sta apd < int MAX_STA_COUNT"
    and absent: "sta_map apd (sta_addr s) = None"
    and links: "sta_next s = sta_list apd" "sta_hnext s = sta_hash apd (STA_HASH (sta_addr s))"
  shows "sta_inv (with_sta apd p s)" and "sta_map (with_sta apd p s) = (sta_map apd)(sta_addr s \<mapsto> p)"
proof -
  let ?a = "with_sta apd p s" and ?h = "(heap apd)(p := Some s)"
  obtain xs where xs: "list_ok apd xs" using inv by (auto simp: sta_inv_def)
  have px: "p \<notin> set xs" using xs fresh by (auto simp: list_ok_def)
  have "chain (lnx ?h) (Some p) (p # xs)"
    by (rule chain_new_cell [of "lnx (heap apd)" "sta_list apd"])
      (use xs px links in \<open>auto simp: list_ok_def lnx_def\<close>)
  then have l: "list_ok ?a (p # xs)" using xs room by (auto simp: list_ok_def with_sta_def)
  have "\<exists>ys. chain (hnx ?h) (sta_hash ?a b) ys \<and> set ys = bucket ?h b" for b
  proof -
    obtain ys where ys: "chain (hnx (heap apd)) (sta_hash apd b) ys" "set ys = bucket (heap apd) b"
      using inv by (auto simp: sta_inv_def hash_ok_def)
    have py: "p \<notin> set ys" using ys(2) fresh by (auto simp: bucket_def)
    show ?thesis
    proof (cases "b = STA_HASH (sta_addr s)")
      case True
      have "chain (hnx ?h) (Some p) (p # ys)"
        by (rule chain_new_cell [of "hnx (heap apd)" "sta_hash apd b"]) (use ys py links True in \<open>auto simp: hnx_def\<close>)
      moreover have "set (p # ys) = bucket ?h b" using ys(2) True by (auto simp: bucket_def)
      ultimately show ?thesis using True by (intro exI [of _ "p # ys"]) (simp add: with_sta_def del: chain.simps)
    next
      case False
      have "chain (hnx ?h) (sta_hash apd b) ys"
        using ys(1) py by (subst chain_cong [of ys "hnx ?h" "hnx (heap apd)"]) (auto simp: hnx_def)
      moreover have "set ys = bucket ?h b" using ys(2) False fresh by (auto simp: bucket_def)
      ultimately show ?thesis using False by (auto simp: with_sta_def)
    qed
  qed
  then have h: "hash_ok ?a" by (auto simp: hash_ok_def with_sta_def)
  have d: "addrs_distinct (heap apd)" using inv by (simp add: sta_inv_def)
  have d': "addrs_distinct ?h"
    using d absent unfolding addrs_distinct_def sta_map_None by (metis fun_upd_apply option.inject)
  show "sta_inv ?a" using l h d' inv by (auto simp: sta_inv_def with_sta_def)
  show "sta_map ?a = (sta_map apd)(sta_addr s \<mapsto> p)"
  proof
    fix a
    have d'': "addrs_distinct (heap ?a)" using d' by (simp add: with_sta_def)
    have "sta_map ?a a = Some q \<longleftrightarrow> ((sta_map apd)(sta_addr s \<mapsto> p)) a = Some q" for q
      unfolding sta_map_Some [OF d''] using sta_map_Some [OF d, of a q] fresh absent
      by (auto simp: with_sta_def sta_map_None)
    then show "sta_map ?a a = ((sta_map apd)(sta_addr s \<mapsto> p)) a" by (metis not_None_eq)
  qed
qed

text \<open>A change of a cell that leaves its address and its links alone.\<close>

definition same_links :: "sta_info \<Rightarrow> sta_info \<Rightarrow> bool" where
  "same_links s t \<longleftrightarrow> sta_next t = sta_next s \<and> sta_hnext t = sta_hnext s \<and> sta_addr t = sta_addr s"

lemma inv_cong:
  assumes "sta_inv apd" and "sta_list apd' = sta_list apd" "sta_hash apd' = sta_hash apd" "num_sta apd' = num_sta apd"
    and "conf apd' = conf apd" and "\<And>p. rel_option same_links (heap apd p) (heap apd' p)"
  shows "sta_inv apd'" and "sta_map apd' = sta_map apd"
proof -
  have r: "heap apd p = None \<longleftrightarrow> heap apd' p = None"
      "\<And>s. heap apd p = Some s \<Longrightarrow> \<exists>t. heap apd' p = Some t \<and> same_links s t"
      "\<And>t. heap apd' p = Some t \<Longrightarrow> \<exists>s. heap apd p = Some s \<and> same_links s t" for p
    using assms(6) [of p] by (cases "heap apd p"; cases "heap apd' p"; simp)+
  have dom: "dom (heap apd') = dom (heap apd)" using r(1) by (auto simp: dom_def)
  have "lnx (heap apd') p = lnx (heap apd) p" "hnx (heap apd') p = hnx (heap apd) p" for p
    using assms(6) [of p]
    by (cases "heap apd p"; cases "heap apd' p"; simp add: lnx_def hnx_def same_links_def)+
  then have nx: "lnx (heap apd') = lnx (heap apd)" "hnx (heap apd') = hnx (heap apd)" by auto
  have ad: "(\<exists>s. heap apd' p = Some s \<and> sta_addr s = a) \<longleftrightarrow> (\<exists>s. heap apd p = Some s \<and> sta_addr s = a)" for p a
    using r(2,3) [of p] by (auto simp: same_links_def)
  have b: "bucket (heap apd') = bucket (heap apd)" unfolding bucket_alt fun_eq_iff ad by simp
  have "addrs_distinct (heap apd')"
    unfolding addrs_distinct_def
  proof (intro allI impI)
    fix p q s t
    assume "heap apd' p = Some s" "heap apd' q = Some t" "sta_addr s = sta_addr t"
    then obtain s0 t0 where "heap apd p = Some s0" "heap apd q = Some t0" "sta_addr s0 = sta_addr t0"
      using ad [of p "sta_addr s"] ad [of q "sta_addr t"] by auto
    with assms(1) show "p = q" unfolding sta_inv_def addrs_distinct_def by blast
  qed
  then show "sta_inv apd'" using assms(1-5) nx dom b by (auto simp: sta_inv_def list_ok_def hash_ok_def)
  show "sta_map apd' = sta_map apd" unfolding sta_map_def ad ..
qed

lemma new_station_links:
  assumes "ieee802_1x_new_station sm_ok apd s = Inr s'"
  shows "same_links s s'"
proof (cases "eapol_sm s")
  case None
  with assms show ?thesis
    by (cases "eapol_sm_alloc (dot1x_conf.truncate (conf apd))"; cases sm_ok)
      (auto simp: ieee802_1x_new_station_def same_links_def)
next
  case (Some sm)
  with assms show ?thesis
    by (cases "eapol_sm_step (sm\<lparr>portEnabled := True\<rparr>)") (auto simp: ieee802_1x_new_station_def same_links_def)
qed

lemma new_station_returns:
  assumes "conf_ok (dot1x_conf.truncate (conf apd))" and "eapol_sm s = None"
  shows "\<exists>s'. ieee802_1x_new_station sm_ok apd s = Inr s'"
proof -
  obtain sm where "eapol_sm_alloc (dot1x_conf.truncate (conf apd)) = Some sm" using alloc_returns [OF assms(1)] by blast
  with assms(2) show ?thesis by (simp add: ieee802_1x_new_station_def)
qed

lemma hash_add_with_sta:
  "sta_addr s = sa \<Longrightarrow>
   Ap_sta_hash_add (apd\<lparr>heap := (heap apd)(p := Some s), sta_list := Some p, num_sta := num_sta apd + 1\<rparr>) p sa =
   with_sta apd p (s\<lparr>sta_hnext := sta_hash apd (STA_HASH sa)\<rparr>)"
  by (simp add: Ap_sta_hash_add_def upd_sta_def with_sta_def)

lemma get_sta_absent:
  assumes inv: "sta_inv apd" and absent: "sta_map apd sa = None" and room: "num_sta apd < int MAX_STA_COUNT"
    and fresh: "heap apd p = None"
  shows "\<exists>apd'. Ap_get_sta (Some p) sm_ok q_aid apd sa apidx et sk = Inr (Some p, apd') \<and> sta_inv apd' \<and>
    sta_map apd' = (sta_map apd)(sa \<mapsto> p)"
proof -
  let ?s = "(new_sta apd sa apidx et sk q_aid)\<lparr>sta_hnext := sta_hash apd (STA_HASH sa)\<rparr>"
  let ?a = "with_sta apd p ?s"
  have w: "sta_inv ?a" "sta_map ?a = (sta_map apd)(sa \<mapsto> p)"
    using with_sta_inv [OF inv fresh room, of ?s] absent by (simp_all add: new_sta_def)
  obtain s' where s': "ieee802_1x_new_station sm_ok ?a ?s = Inr s'"
    using new_station_returns [of ?a ?s] w(1) by (auto simp: sta_inv_def new_sta_def)
  let ?b = "?a\<lparr>heap := (heap ?a)(p := Some s')\<rparr>"
  have "rel_option same_links (heap ?a q) (heap ?b q)" for q
    using new_station_links [OF s'] by (auto simp: with_sta_def option.rel_refl same_links_def)
  from inv_cong [OF w(1) _ _ _ _ this] w(2) have "sta_inv ?b" "sta_map ?b = (sta_map apd)(sa \<mapsto> p)" by simp_all
  moreover have "Ap_get_sta (Some p) sm_ok q_aid apd sa apidx et sk = Inr (Some p, ?b)"
  proof -
    have "sta_addr (new_sta apd sa apidx et sk q_aid) = sa" by (simp add: new_sta_def)
    note step = hash_add_with_sta [OF this, of apd p]
    have "heap ?a p = Some ?s" by (simp add: with_sta_def)
    then show ?thesis
      unfolding Ap_get_sta_def Let_def find_sta_map [OF inv] absent res_bind_simps option.case step
      using room s' by simp
  qed
  ultimately show ?thesis by blast
qed

section \<open>Removal\<close>

lemma hash_pred_chain:
  assumes "chain (hnx h) (Some p) (p # ys)" and "set (p # ys) \<subseteq> dom h" and "length ys \<le> n"
  shows "hash_pred n h a p = Inr (case dropWhile (\<lambda>q. sta_addr (the (h q)) \<noteq> a) ys of
      [] \<Rightarrow> None
    | q # _ \<Rightarrow> Some (last (p # takeWhile (\<lambda>q. sta_addr (the (h q)) \<noteq> a) ys), q))"
  using assms
proof (induction ys arbitrary: n p)
  case Nil
  then obtain s where "h p = Some s" "sta_hnext s = None" by (auto simp: hnx_def)
  then show ?case by (simp add: hash_pred.simps)
next
  case (Cons y ys)
  obtain s t where s: "h p = Some s" "sta_hnext s = Some y" "h y = Some t"
    using Cons.prems(1,2) by (auto simp: hnx_def)
  obtain m where n: "n = Suc m" using Cons.prems(3) by (cases n) auto
  have IH: "hash_pred m h a y = Inr (case dropWhile (\<lambda>q. sta_addr (the (h q)) \<noteq> a) ys of
      [] \<Rightarrow> None
    | q # _ \<Rightarrow> Some (last (y # takeWhile (\<lambda>q. sta_addr (the (h q)) \<noteq> a) ys), q))"
    using Cons.prems s n by (intro Cons.IH) (auto simp: hnx_def)
  show ?case
    using s n IH
    by (subst hash_pred.simps, cases "sta_addr t = a";
        cases "dropWhile (\<lambda>q. sta_addr (the (h q)) \<noteq> a) ys") (simp_all del: dropWhile_eq_Nil_conv)
qed

lemma chain_unlink_any:
  assumes "chain nx p (xs @ y # ys)" and "xs \<noteq> []" and "\<And>q. q \<noteq> last xs \<Longrightarrow> nx' q = nx q" and "nx' (last xs) = nx y"
  shows "chain nx' p (xs @ ys)"
proof -
  have "nx' = nx(last xs := nx y)" using assms(3,4) by (auto simp: fun_eq_iff)
  with chain_unlink_cell [OF assms(1,2)] show ?thesis by simp
qed

lemma chain_last_next: "chain nx p (us @ y # vs) \<Longrightarrow> us \<noteq> [] \<Longrightarrow> nx (last us) = Some y"
  by (induction us arbitrary: p) (auto split: if_splits)

lemma chain_pred_last:
  assumes "chain nx p xs" and "xs = us @ y # vs" and "q \<in> set us" and "nx q = Some y" and "y \<notin> set us"
  shows "q = last us"
  using assms
proof (induction us arbitrary: p xs)
  case (Cons u us)
  show ?case
  proof (cases "us = []")
    case True
    with Cons.prems show ?thesis by simp
  next
    case False
    have c: "chain nx (nx u) (us @ y # vs)" using Cons.prems by simp
    show ?thesis
    proof (cases "q \<in> set us")
      case True
      with Cons.IH [OF c refl] Cons.prems False show ?thesis by simp
    next
      case nq: False
      then have "nx u = Some y" using Cons.prems by simp
      moreover obtain w ws where "us = w # ws" using False by (cases us) auto
      ultimately show ?thesis using c Cons.prems(5) by simp
    qed
  qed
qed simp

lemma find_unique: "x \<in> set xs \<Longrightarrow> (\<And>y. y \<in> set xs \<Longrightarrow> P y \<longleftrightarrow> y = x) \<Longrightarrow> List.find P xs = Some x"
  by (induction xs) auto

lemma find_append_Some: "List.find P xs = Some x \<Longrightarrow> List.find P (xs @ ys) = Some x"
  by (induction xs) auto

lemma dom_map_option_addr: "(\<And>q. map_option f (h q) = map_option f (h' q)) \<Longrightarrow> dom h = dom h'"
  by (auto simp: dom_def) (metis option.map_disc_iff option.exhaust)+

lemma bucket_addr: "p \<in> bucket h b \<longleftrightarrow> (\<exists>a. map_option sta_addr (h p) = Some a \<and> STA_HASH a = b)"
  unfolding bucket_def by (cases "h p") (simp_all del: split_paired_Ex)

lemma distinct_sub:
  assumes "addrs_distinct h" and "\<And>q a. map_option sta_addr (h' q) = Some a \<Longrightarrow> map_option sta_addr (h q) = Some a"
  shows "addrs_distinct h'"
  unfolding addrs_distinct_def
proof (intro allI impI)
  fix p q s t
  assume "h' p = Some s" "h' q = Some t" "sta_addr s = sta_addr t"
  then obtain s0 t0 where "h p = Some s0" "h q = Some t0" "sta_addr s0 = sta_addr t0"
    using assms(2) [of p "sta_addr s"] assms(2) [of q "sta_addr t"] by auto
  with assms(1) show "p = q" unfolding addrs_distinct_def by blast
qed

text \<open>Taking a cell out of its bucket leaves all other buckets and the list as they are.\<close>

lemma hash_del_result:
  assumes inv: "sta_inv apd" and p: "heap apd p = Some s"
  shows "\<exists>apd'. Ap_sta_hash_del apd p = Inr apd' \<and> sta_list apd' = sta_list apd \<and> num_sta apd' = num_sta apd \<and>
    conf apd' = conf apd \<and> lnx (heap apd') = lnx (heap apd) \<and>
    (\<forall>q. map_option sta_addr (heap apd' q) = map_option sta_addr (heap apd q)) \<and>
    map_option sta_next (heap apd' p) = Some (sta_next s) \<and>
    (\<forall>b. \<exists>ys. chain (hnx (heap apd')) (sta_hash apd' b) ys \<and> set ys = bucket (heap apd) b - {p})"
proof -
  let ?h = "heap apd" and ?b = "STA_HASH (sta_addr s)"
  have dist: "addrs_distinct ?h" using inv by (simp add: sta_inv_def)
  obtain xs where xs: "list_ok apd xs" using inv by (auto simp: sta_inv_def)
  obtain ys where ys: "chain (hnx ?h) (sta_hash apd ?b) ys" "set ys = bucket ?h ?b"
    using inv by (auto simp: sta_inv_def hash_ok_def)
  have sub: "set ys \<subseteq> dom ?h" using ys(2) by (auto simp: bucket_def)
  have "p \<in> set ys" using ys(2) p by (auto simp: bucket_def)
  then obtain us vs where split: "ys = us @ p # vs" "p \<notin> set us" by (meson split_list_first)
  have ne: "sta_addr (the (?h q)) \<noteq> sta_addr s" if "q \<in> set us" for q
    using that split sub p dist unfolding addrs_distinct_def by (metis Un_iff domD option.sel set_append subsetD)
  have pv: "p \<notin> set vs" using chain_distinct [OF ys(1)] split(1) by simp
  have other: "\<exists>zs. chain (hnx ?h) (sta_hash apd b) zs \<and> set zs = bucket ?h b - {p}" if "b \<noteq> ?b" for b
    using inv that p by (fastforce simp: sta_inv_def hash_ok_def bucket_def)
  show ?thesis
  proof (cases us)
    case Nil
    then have hd: "sta_hash apd ?b = Some p" "chain (hnx ?h) (sta_hnext s) vs"
      using ys(1) split(1) p by (auto simp: hnx_def)
    let ?a = "apd\<lparr>sta_hash := (sta_hash apd)(?b := sta_hnext s)\<rparr>"
    have "Ap_sta_hash_del apd p = Inr ?a" using p hd(1) by (simp add: Ap_sta_hash_del_def)
    moreover have "set vs = bucket ?h ?b - {p}" using ys(2) split Nil pv by auto
    ultimately show ?thesis using p hd(2) other by (intro exI [of _ ?a]) auto
  next
    case (Cons u us')
    then obtain t where t: "sta_hash apd ?b = Some u" "?h u = Some t" "sta_addr t \<noteq> sta_addr s"
      using ys(1) split(1) sub ne [of u] by (auto simp: dom_def)
    have len: "length (us' @ p # vs) \<le> MAX_STA_COUNT"
      using chain_bounded [OF xs ys(1) sub] split(1) Cons by simp
    have dw: "dropWhile (\<lambda>q. sta_addr (the (?h q)) \<noteq> sta_addr s) (us' @ p # vs) = p # vs"
        "takeWhile (\<lambda>q. sta_addr (the (?h q)) \<noteq> sta_addr s) (us' @ p # vs) = us'"
      using ne p Cons by (simp_all add: dropWhile_append2 takeWhile_append2)
    have "chain (hnx ?h) (Some u) (u # us' @ p # vs)" using ys(1) split(1) Cons t(1) by simp
    then have pr: "hash_pred MAX_STA_COUNT ?h (sta_addr s) u = Inr (Some (last us, p))"
      using hash_pred_chain [of ?h u "us' @ p # vs" MAX_STA_COUNT "sta_addr s"] sub split(1) Cons len dw by simp
    let ?l = "last us"
    let ?a = "upd_sta ?l (\<lambda>x. x\<lparr>sta_hnext := sta_hnext s\<rparr>) apd"
    have res: "Ap_sta_hash_del apd p = Inr ?a" using p t pr by (simp add: Ap_sta_hash_del_def)
    have lus: "?l \<in> set us" using Cons by simp
    then obtain w where w: "?h ?l = Some w" using sub split(1) by auto
    have lp: "?l \<noteq> p" using lus split(2) by auto
    have hb: "?l \<in> bucket ?h ?b" using lus ys(2) split(1) by auto
    have "chain (hnx (heap ?a)) (sta_hash apd ?b) (us @ vs)"
      by (rule chain_unlink_any [of "hnx ?h" _ us p vs])
        (use ys(1) split(1) Cons p w in \<open>auto simp: hnx_def upd_sta_def\<close>)
    moreover have "set (us @ vs) = bucket ?h ?b - {p}" using ys(2) split pv by auto
    moreover have "\<exists>zs. chain (hnx (heap ?a)) (sta_hash apd b) zs \<and> set zs = bucket ?h b - {p}" if nb: "b \<noteq> ?b" for b
    proof -
      obtain zs where z: "chain (hnx ?h) (sta_hash apd b) zs" "set zs = bucket ?h b - {p}" using other [OF nb] by blast
      then have "?l \<notin> set zs" using hb nb by (auto simp: bucket_def)
      then have "chain (hnx (heap ?a)) (sta_hash apd b) zs"
        using z(1) by (subst chain_cong [of zs _ "hnx ?h"]) (auto simp: hnx_def upd_sta_def)
      with z(2) show ?thesis by blast
    qed
    ultimately have "\<exists>zs. chain (hnx (heap ?a)) (sta_hash ?a b) zs \<and> set zs = bucket ?h b - {p}" for b
      by (cases "b = ?b") (auto simp: upd_sta_def)
    then show ?thesis
      using res p w lp by (intro exI [of _ ?a]) (auto simp: upd_sta_def lnx_def fun_eq_iff)
  qed
qed

lemma list_del_result:
  assumes l: "list_ok apd xs" and p: "heap apd p = Some s"
  shows "\<exists>apd' ys. Ap_sta_list_del apd p = Inr apd' \<and> sta_hash apd' = sta_hash apd \<and> num_sta apd' = num_sta apd \<and>
    conf apd' = conf apd \<and> hnx (heap apd') = hnx (heap apd) \<and>
    (\<forall>q. map_option sta_addr (heap apd' q) = map_option sta_addr (heap apd q)) \<and>
    chain (lnx (heap apd')) (sta_list apd') ys \<and> set ys = dom (heap apd) - {p} \<and> length ys + 1 = length xs"
proof -
  let ?h = "heap apd"
  have c: "chain (lnx ?h) (sta_list apd) xs" "set xs = dom ?h" "length xs \<le> MAX_STA_COUNT"
    using l by (auto simp: list_ok_def)
  have "p \<in> set xs" using c(2) p by auto
  then obtain us vs where split: "xs = us @ p # vs" "p \<notin> set us" by (meson split_list_first)
  have pv: "p \<notin> set vs" using chain_distinct [OF c(1)] split(1) by simp
  have sets: "set (us @ vs) = dom ?h - {p}" using c(2) split pv by auto
  show ?thesis
  proof (cases us)
    case Nil
    then have hd: "sta_list apd = Some p" "chain (lnx ?h) (sta_next s) vs"
      using c(1) split(1) p by (auto simp: lnx_def)
    then have "Ap_sta_list_del apd p = Inr (apd\<lparr>sta_list := sta_next s\<rparr>)" using p by (simp add: Ap_sta_list_del_def)
    with hd(2) sets split(1) Nil show ?thesis
      by (intro exI [of _ "apd\<lparr>sta_list := sta_next s\<rparr>"] exI [of _ vs]) auto
  next
    case (Cons u us')
    let ?l = "last us"
    have head: "sta_list apd = Some u" using c(1) split(1) Cons by simp
    have up: "u \<noteq> p" using split(2) Cons by auto
    have w: "walk MAX_STA_COUNT ?h sta_next (\<lambda>t. sta_next t = Some p) (sta_list apd) =
        Inr (List.find (\<lambda>q. sta_next (the (?h q)) = Some p) xs)"
      by (rule walk_chain) (use c in \<open>auto simp: hnx_fold\<close>)
    have next_in: "q = ?l" if "q \<in> set us" "lnx ?h q = Some p" for q
      using chain_pred_last [OF c(1) split(1) that(1) that(2)] split(2) .
    have ll: "lnx ?h ?l = Some p" using chain_last_next [of "lnx ?h" "sta_list apd" us p vs] c(1) split(1) Cons by simp
    have lus: "?l \<in> set us" using Cons by simp
    then obtain t where t: "?h ?l = Some t" using c(2) split(1) by auto
    have "List.find (\<lambda>q. sta_next (the (?h q)) = Some p) us = Some ?l"
    proof -
      have P: "sta_next (the (?h q)) = Some p \<longleftrightarrow> q = ?l" if "q \<in> set us" for q
      proof -
        have "q \<in> dom ?h" using that c(2) split(1) by auto
        then show ?thesis using next_in [OF that] ll by (auto simp: lnx_def)
      qed
      from lus P show ?thesis by (intro find_unique) auto
    qed
    then have f: "List.find (\<lambda>q. sta_next (the (?h q)) = Some p) xs = Some ?l"
      unfolding split(1) by (rule find_append_Some)
    let ?a = "upd_sta ?l (\<lambda>t. t\<lparr>sta_next := sta_next s\<rparr>) apd"
    have res: "Ap_sta_list_del apd p = Inr ?a" using p head up w f by (simp add: Ap_sta_list_del_def)
    have "chain (lnx (heap ?a)) (sta_list ?a) (us @ vs)"
      by (rule chain_unlink_any [of "lnx ?h" _ us p vs])
        (use c(1) split(1) Cons p t in \<open>auto simp: lnx_def upd_sta_def\<close>)
    then show ?thesis
      using res sets split(1) t
      by (intro exI [of _ ?a] exI [of _ "us @ vs"]) (auto simp: upd_sta_def hnx_def fun_eq_iff)
  qed
qed

lemma free_sta_result:
  assumes inv: "sta_inv apd" and p: "heap apd p = Some s"
  shows "\<exists>apd'. Ap_free_sta apd p = Inr apd' \<and> sta_inv apd' \<and> sta_map apd' = (sta_map apd)(sta_addr s := None) \<and>
    heap apd' p = None"
proof -
  let ?h = "heap apd"
  obtain xs where xs: "list_ok apd xs" using inv by (auto simp: sta_inv_def)
  obtain a1 where a1: "Ap_sta_hash_del apd p = Inr a1" "sta_list a1 = sta_list apd" "num_sta a1 = num_sta apd"
      "conf a1 = conf apd" "lnx (heap a1) = lnx ?h" "\<And>q. map_option sta_addr (heap a1 q) = map_option sta_addr (?h q)"
      "\<And>b. \<exists>ys. chain (hnx (heap a1)) (sta_hash a1 b) ys \<and> set ys = bucket ?h b - {p}"
    using hash_del_result [OF inv p] by blast
  have dom1: "dom (heap a1) = dom ?h" using a1(6) by (metis dom_map_option_addr)
  obtain s1 where s1: "heap a1 p = Some s1" using a1(6) [of p] p by (cases "heap a1 p") auto
  have l1: "list_ok a1 xs" using xs a1 dom1 by (simp add: list_ok_def)
  obtain a2 ys where a2: "Ap_sta_list_del a1 p = Inr a2" "sta_hash a2 = sta_hash a1" "num_sta a2 = num_sta a1"
      "conf a2 = conf a1" "hnx (heap a2) = hnx (heap a1)"
      "\<And>q. map_option sta_addr (heap a2 q) = map_option sta_addr (heap a1 q)"
      "chain (lnx (heap a2)) (sta_list a2) ys" "set ys = dom (heap a1) - {p}" "length ys + 1 = length xs"
    using list_del_result [OF l1 s1] by blast
  let ?a = "a2\<lparr>num_sta := num_sta a2 - 1, heap := (heap a2)(p := None)\<rparr>"
  have addr: "map_option sta_addr (heap ?a q) = (if q = p then None else map_option sta_addr (?h q))" for q
    using a1(6) [of q] a2(6) [of q] by simp
  have dom2: "dom (heap ?a) = dom ?h - {p}" 
    using dom_map_option_addr [of sta_addr "heap a2" "heap a1", OF a2(6)] dom1 by simp
  have "chain (lnx (heap ?a)) (sta_list ?a) ys"
    using a2(7,8) by (subst chain_cong [of ys _ "lnx (heap a2)"]) (auto simp: lnx_def)
  then have l: "list_ok ?a ys" using xs a1 a2 dom1 dom2 by (auto simp: list_ok_def)
  have bk: "bucket (heap ?a) b = bucket ?h b - {p}" for b
    using addr by (auto simp: bucket_addr split: if_splits)
  have "\<exists>zs. chain (hnx (heap ?a)) (sta_hash ?a b) zs \<and> set zs = bucket (heap ?a) b" for b
  proof -
    obtain zs where z: "chain (hnx (heap a1)) (sta_hash a1 b) zs" "set zs = bucket ?h b - {p}" using a1(7) by blast
    then have "chain (hnx (heap ?a)) (sta_hash ?a b) zs"
      using a2(2,5) by (subst chain_cong [of zs _ "hnx (heap a1)"]) (auto simp: hnx_def fun_eq_iff)
    with z(2) bk show ?thesis by blast
  qed
  then have h: "hash_ok ?a" by (simp add: hash_ok_def)
  have d: "addrs_distinct ?h" using inv by (simp add: sta_inv_def)
  have d': "addrs_distinct (heap ?a)" by (rule distinct_sub [OF d]) (simp only: addr option.distinct split: if_splits)
  have "sta_inv ?a" using l h d' inv a1 a2 by (auto simp: sta_inv_def)
  moreover have "sta_map ?a = (sta_map apd)(sta_addr s := None)"
  proof
    fix a
    have one: "q = p" if oq: "map_option sta_addr (?h q) = Some (sta_addr s)" for q
    proof -
      obtain t where "?h q = Some t" "sta_addr t = sta_addr s" using oq by (cases "?h q") simp_all
      with d p show ?thesis unfolding addrs_distinct_def by blast
    qed
    have "sta_map ?a a = Some q \<longleftrightarrow> ((sta_map apd)(sta_addr s := None)) a = Some q" for q
    proof (cases "a = sta_addr s")
      case True
      then show ?thesis using one [of q] unfolding sta_map_addr [OF d'] addr by (simp split: if_splits) blast
    next
      case False
      have "map_option sta_addr (?h p) \<noteq> Some a" using False p by simp
      with False show ?thesis
        unfolding fun_upd_apply if_not_P [OF False] sta_map_addr [OF d'] sta_map_addr [OF d] addr by auto
    qed
    then show "sta_map ?a a = ((sta_map apd)(sta_addr s := None)) a" by (metis not_None_eq)
  qed
  moreover have "Ap_free_sta apd p = Inr ?a" using a1(1) a2(1) by (simp add: Ap_free_sta_def)
  ultimately show ?thesis by (intro exI [of _ ?a]) simp
qed

section \<open>The contract\<close>

lemma sta_map_size:
  assumes "sta_inv apd"
  shows "finite (dom (sta_map apd))" and "num_sta apd = int (card (dom (sta_map apd)))"
proof -
  obtain xs where xs: "list_ok apd xs" using assms by (auto simp: sta_inv_def)
  have d: "addrs_distinct (heap apd)" using assms by (simp add: sta_inv_def)
  let ?f = "\<lambda>p. sta_addr (the (heap apd p))"
  have dom: "set xs = dom (heap apd)" using xs by (simp add: list_ok_def)
  have inj: "inj_on ?f (set xs)"
  proof (rule inj_onI)
    fix p q
    assume "p \<in> set xs" "q \<in> set xs" "?f p = ?f q"
    moreover from this obtain s t where "heap apd p = Some s" "heap apd q = Some t" using dom by auto
    ultimately show "p = q" using d unfolding addrs_distinct_def by (metis option.sel)
  qed
  have img: "dom (sta_map apd) = ?f ` set xs"
  proof (rule set_eqI)
    fix a
    have "a \<in> dom (sta_map apd) \<longleftrightarrow> (\<exists>p s. heap apd p = Some s \<and> sta_addr s = a)"
      unfolding domIff not_None_eq sta_map_Some [OF d] ..
    also have "\<dots> \<longleftrightarrow> (\<exists>p \<in> dom (heap apd). a = ?f p)" by (force simp: dom_def)
    also have "\<dots> \<longleftrightarrow> a \<in> ?f ` set xs" unfolding dom image_iff ..
    finally show "a \<in> dom (sta_map apd) \<longleftrightarrow> a \<in> ?f ` set xs" .
  qed
  show "finite (dom (sta_map apd))" unfolding img by simp
  have "card (dom (sta_map apd)) = length xs"
    unfolding img card_image [OF inj] using xs chain_distinct by (intro distinct_card) (auto simp: list_ok_def)
  then show "num_sta apd = int (card (dom (sta_map apd)))" using xs by (simp add: list_ok_def)
qed

lemma num_sta_bound: "sta_inv apd \<Longrightarrow> num_sta apd \<le> int MAX_STA_COUNT"
  by (auto simp: sta_inv_def list_ok_def)

lemma disconnect_result:
  assumes "sta_inv apd"
  shows "\<exists>apd'. disconnect_entry apd sa = Inr apd' \<and> sta_inv apd' \<and> sta_map apd' = (sta_map apd)(sa := None)"
proof (cases "sta_map apd sa")
  case None
  then show ?thesis using assms by (auto simp: disconnect_entry_def find_sta_map fun_upd_idem)
next
  case (Some p)
  have "addrs_distinct (heap apd)" using assms by (simp add: sta_inv_def)
  with Some obtain s where s: "heap apd p = Some s" "sta_addr s = sa" by (metis sta_map_Some)
  with free_sta_result [OF assms s(1)] Some assms show ?thesis
    by (auto simp: disconnect_entry_def find_sta_map)
qed

text \<open>A station that is not in the table is added to it by \<open>Ap_get_sta\<close>.\<close>

definition sta_add :: "(rtapd \<Rightarrow> nat) \<Rightarrow> bool \<Rightarrow> u32 \<Rightarrow> u8 \<Rightarrow> u16 \<Rightarrow> int \<Rightarrow> rtapd \<Rightarrow> mac \<Rightarrow> rtapd res" where
  "sta_add cell sm_ok q_aid apidx et sk apd sa =
     res_bind (Ap_get_sta (Some (cell apd)) sm_ok q_aid apd sa apidx et sk) (\<lambda>(r, apd'). Inr apd')"

text \<open>What the table relies on: an allocator returns a cell that is not in use.\<close>

locale sta_allocator =
  fixes cell :: "rtapd \<Rightarrow> nat"
  assumes cell_free: "sta_inv apd \<Longrightarrow> heap apd (cell apd) = None"
begin

lemma sta_add_absent:
  assumes "sta_inv apd" and "sta_map apd sa = None" and "card (dom (sta_map apd)) < MAX_STA_COUNT"
  shows "\<exists>apd' i. sta_add cell sm_ok q_aid apidx et sk apd sa = Inr apd' \<and> sta_inv apd' \<and>
    sta_map apd' = (sta_map apd)(sa \<mapsto> i)"
proof -
  have "num_sta apd < int MAX_STA_COUNT" using assms(3) sta_map_size(2) [OF assms(1)] by simp
  from get_sta_absent [OF assms(1,2) this cell_free [OF assms(1)]] show ?thesis
    unfolding sta_add_def by (metis (no_types, lifting) case_prod_conv res_bind_simps(2))
qed

lemma sta_add_full:
  assumes "sta_inv apd" and "sta_map apd sa = None" and "card (dom (sta_map apd)) = MAX_STA_COUNT"
  shows "sta_add cell sm_ok q_aid apidx et sk apd sa = Inr apd"
  using assms sta_map_size(2) [OF assms(1)] by (simp add: sta_add_def Ap_get_sta_def find_sta_map)

end

sublocale sta_allocator \<subseteq> keyed_table sta_inv sta_map "MAX_STA_COUNT" find_sta
  "sta_add cell sm_ok q_aid apidx et sk" disconnect_entry
  for sm_ok q_aid apidx et sk
proof unfold_locales
  fix apd :: rtapd and sa :: mac
  assume i: "sta_inv apd"
  show "find_sta apd sa = Inr (sta_map apd sa)" by (rule find_sta_map [OF i])
  show "finite (dom (sta_map apd))" by (rule sta_map_size(1) [OF i])
  show "card (dom (sta_map apd)) \<le> MAX_STA_COUNT" using num_sta_bound [OF i] sta_map_size(2) [OF i] by simp
  show "\<exists>apd'. disconnect_entry apd sa = Inr apd' \<and> sta_inv apd' \<and> sta_map apd' = (sta_map apd)(sa := None)"
    by (rule disconnect_result [OF i])
  assume a: "sta_map apd sa = None"
  show "card (dom (sta_map apd)) < MAX_STA_COUNT \<Longrightarrow> \<exists>apd' i. sta_add cell sm_ok q_aid apidx et sk apd sa = Inr apd' \<and>
      sta_inv apd' \<and> sta_map apd' = (sta_map apd)(sa \<mapsto> i)"
    by (rule sta_add_absent [OF i a])
  show "card (dom (sta_map apd)) = MAX_STA_COUNT \<Longrightarrow> sta_add cell sm_ok q_aid apidx et sk apd sa = Inr apd"
    by (rule sta_add_full [OF i a])
qed

context sta_allocator
begin

lemma station_runs:
  "sta_inv apd \<Longrightarrow> \<exists>apd'. run_table find_sta (sta_add cell sm_ok q_aid apidx et sk) disconnect_entry cs apd = Inr apd' \<and>
    sta_inv apd' \<and> dom (sta_map apd') = spec_run MAX_STA_COUNT cs (dom (sta_map apd))"
  by (rule run_refines)

end

text \<open>An allocator: the first of the first 1025 cells that is free.\<close>

definition first_free :: "rtapd \<Rightarrow> nat" where
  "first_free apd = hd (filter (\<lambda>i. heap apd i = None) [0..<MAX_STA_COUNT + 1])"

interpretation ff: sta_allocator first_free
proof
  fix apd
  assume "sta_inv apd"
  then obtain xs where xs: "set xs = dom (heap apd)" "length xs \<le> MAX_STA_COUNT" by (auto simp: sta_inv_def list_ok_def)
  have "filter (\<lambda>i. heap apd i = None) [0..<MAX_STA_COUNT + 1] \<noteq> []"
  proof
    assume "filter (\<lambda>i. heap apd i = None) [0..<MAX_STA_COUNT + 1] = []"
    then have "{0..<MAX_STA_COUNT + 1} \<subseteq> set xs" unfolding xs(1) filter_empty_conv dom_def by auto
    then have "card {0..<MAX_STA_COUNT + 1} \<le> card (set xs)" by (intro card_mono) auto
    with card_length [of xs] xs(2) show False by simp
  qed
  then have "first_free apd \<in> set (filter (\<lambda>i. heap apd i = None) [0..<MAX_STA_COUNT + 1])"
    unfolding first_free_def by (rule hd_in_set)
  then show "heap apd (first_free apd) = None" by simp
qed

text \<open>The daemon before the first station.\<close>

definition no_stations :: "rtapd \<Rightarrow> bool" where
  "no_stations apd \<longleftrightarrow> heap apd = (\<lambda>_. None) \<and> sta_list apd = None \<and> sta_hash apd = (\<lambda>_. None) \<and> num_sta apd = 0"

lemma no_stations_inv:
  assumes "no_stations apd" and "conf_ok (dot1x_conf.truncate (conf apd))"
  shows "sta_inv apd" and "sta_map apd = (\<lambda>_. None)"
  using assms by (auto simp: no_stations_def sta_inv_def list_ok_def hash_ok_def addrs_distinct_def bucket_def sta_map_def)

end
