(* ===== verification/Dot1x_Daemon.thy ===== *)
theory Dot1x_Daemon
  imports Ieee802_1x Sta_Table Radius_Auth
begin

text \<open>
  The 802.1X daemon as a whole: the state machines of all stations under everything that the daemon
  does. \<open>machines\<close> is the view of the daemon that only has them. Every handler changes it by events and
  runs of single machines, so what theory \<open>Eapol_Safety\<close> shows of a machine holds of every station, and an
  Access-Accept is an event only of an answer that \<open>Radius_msg_verify\<close> accepted.
\<close>

section \<open>The machines of the stations\<close>

definition machines :: "rtapd \<Rightarrow> nat \<Rightarrow> eapol_state_machine option" where
  "machines apd p = Option.bind (heap apd p) eapol_sm"

lemma machines_cong [simp]:
  "machines (apd\<lparr>radius := c\<rparr>) = machines apd" "machines (apd\<lparr>eloop := l\<rparr>) = machines apd"
  "machines (apd\<lparr>conf := cf\<rparr>) = machines apd" "machines (apd\<lparr>sta_list := sl\<rparr>) = machines apd"
  "machines (apd\<lparr>sta_hash := sh\<rparr>) = machines apd" "machines (apd\<lparr>num_sta := n\<rparr>) = machines apd"
  by (simp_all add: machines_def fun_eq_iff)

lemma machines_heap [simp]:
  "machines (apd\<lparr>heap := (heap b)(p := s)\<rparr>) = (machines b)(p := Option.bind s eapol_sm)"
  by (simp add: machines_def fun_eq_iff)

lemma machines_set_sta [simp]: "machines (set_sta p s apd) = (machines apd)(p := eapol_sm s)"
  by (simp add: set_sta_def)

lemma machines_upd_sta [simp]: "(\<And>s. eapol_sm (f s) = eapol_sm s) \<Longrightarrow> machines (upd_sta p f apd) = machines apd"
  by (cases "heap apd p") (auto simp: upd_sta_def machines_def fun_eq_iff)

lemma machines_at: "heap apd p = Some s \<Longrightarrow> machines apd p = eapol_sm s"
  by (simp add: machines_def)

lemma machines_keep: "heap apd p = Some s \<Longrightarrow> (machines apd)(p := eapol_sm s) = machines apd"
  by (simp add: machines_at fun_upd_idem)

lemma machines_client_out [simp]: "machines (apply_client_out ok now x apd) = machines apd"
  by (cases x) simp_all

lemma machines_client_outs [simp]: "machines (apply_client_outs ok now os apd) = machines apd"
  unfolding apply_client_outs_def by (induction os arbitrary: apd) simp_all

text \<open>
  The machine that opens a port has \<open>authSuccess\<close> set when it does, as \<open>perform_action\<close> has it for
  \<open>ieee802_1x_set_sta_authorized\<close>; ports are under automatic control.
\<close>

lemma opening_has_success:
  assumes "auto_mode sm" and "openings (sm_AUTH_PAE_Step sm) \<noteq> openings sm"
  shows "authSuccess (sm_AUTH_PAE_Step sm)"
proof -
  have a: "portControl sm = Auto" "pae_state (auth_pae sm) \<noteq> AUTH_PAE_FORCE_AUTH"
    using assms by (simp_all add: auto_mode_def)
  have e: "openings (sm_AUTH_PAE_INITIALIZE_Enter sm) = openings sm"
    "openings (sm_AUTH_PAE_DISCONNECTED_Enter sm) = openings sm"
    "openings (sm_AUTH_PAE_CONNECTING_Enter sm) = openings sm"
    "openings (sm_AUTH_PAE_HELD_Enter sm) = openings sm"
    "openings (sm_AUTH_PAE_AUTHENTICATING_Enter sm) = openings sm"
    "openings (sm_AUTH_PAE_ABORTING_Enter sm) = openings sm"
    "openings (sm_AUTH_PAE_FORCE_UNAUTH_Enter sm) = openings sm"
    "authSuccess (sm_AUTH_PAE_AUTHENTICATED_Enter sm) = authSuccess sm"
    by (simp_all add: openings_def pae_enter_defs upd_defs Let_def)
  show ?thesis
    using a e assms(2) unfolding sm_AUTH_PAE_Step_def Let_def
    by (cases "pae_state (auth_pae sm)") (simp_all split: if_splits)
qed

section \<open>What the handlers do to them\<close>

lemma encapsulate_machines:
  assumes "ieee802_1x_encapsulate_radius e apd p sta eap = Inr (apd', os)" and "heap apd p = Some sta"
  shows "machines apd' = machines apd"
  using assms(1) machines_keep [OF assms(2)]
  by (auto simp: ieee802_1x_encapsulate_radius_def Let_def elim!: res_bind_eq_InrE split: option.splits)

lemma perform_action_machines:
  assumes "perform_action e st p a apd sta = Inr (apd', os)" and "heap apd p = Some sta"
  shows "machines apd' = machines apd"
  using assms machines_keep [OF assms(2)]
  by (cases a) (auto simp: ieee802_1x_send_resp_to_server_def ieee802_1x_request_identity_def ieee802_1x_tx_req_def
      ieee802_1x_new_auth_session_def Let_def elim!: res_bind_eq_InrE encapsulate_machines split: option.splits)

lemma perform_actions_machines:
  "perform_actions e st p as apd = Inr (apd', os) \<Longrightarrow> machines apd' = machines apd"
proof (induction e st p as apd arbitrary: apd' os rule: perform_actions.induct)
  case (2 e st p a as apd)
  then obtain sta apd1 o1 o2 where h: "heap apd p = Some sta" "perform_action e st p a apd sta = Inr (apd1, o1)"
      "perform_actions (env_skip e) st p as apd1 = Inr (apd', o2)"
    by (auto elim!: res_bind_eq_InrE split: option.splits)
  from "2.IH" [OF h(1,3)] perform_action_machines [OF h(2,1)] show ?case by simp
qed simp

lemma run_sm_with_machines:
  assumes "run_sm_with step e st p apd = Inr (apd', os)"
  obtains sm sm' where "machines apd p = Some sm" and "step sm = Some sm'" and "machines apd' = (machines apd)(p \<mapsto> sm')"
  using assms by (fastforce simp: run_sm_with_def machines_def split: option.splits dest: perform_actions_machines)

text \<open>Links and counters are not part of the machines; a freed station has none.\<close>

lemma hash_del_machines: "Ap_sta_hash_del apd p = Inr apd' \<Longrightarrow> machines apd' = machines apd"
  by (auto simp: Ap_sta_hash_del_def split: option.splits if_splits elim!: res_bind_eq_InrE)

lemma list_del_machines: "Ap_sta_list_del apd p = Inr apd' \<Longrightarrow> machines apd' = machines apd"
  by (auto simp: Ap_sta_list_del_def split: option.splits if_splits elim!: res_bind_eq_InrE)

lemma free_sta_machines: "Ap_free_sta apd p = Inr apd' \<Longrightarrow> machines apd' = (machines apd)(p := None)"
  by (auto simp: Ap_free_sta_def elim!: res_bind_eq_InrE dest!: hash_del_machines list_del_machines)

lemma free_stas_machines:
  "free_stas_loop n q apd = Inr apd' \<Longrightarrow> machines apd' p = Some sm \<Longrightarrow> machines apd p = Some sm"
proof (induction n q apd arbitrary: apd' rule: free_stas_loop.induct)
  case (3 n r apd)
  then obtain s apd1 where s: "heap apd r = Some s" "Ap_free_sta apd r = Inr apd1"
      "free_stas_loop n (sta_next s) apd1 = Inr apd'"
    by (auto elim!: res_bind_eq_InrE split: option.splits)
  from "3.IH" [OF s(1,3) "3.prems"(2)] free_sta_machines [OF s(2)] show ?case by (auto split: if_splits)
qed auto

text \<open>A new station has a machine that was just started, or none.\<close>

definition started :: "eapol_state_machine option \<Rightarrow> bool" where
  "started m \<longleftrightarrow> (\<forall>sm. m = Some sm \<longrightarrow> sm_reach 0 sm)"

lemma started_None [simp]: "started None"
  by (simp add: started_def)

lemma started_alloc: "eapol_sm_alloc c = Some sm \<Longrightarrow> started (Some sm)"
  by (auto simp: started_def intro: sm_reach.alloc)

lemma started_enabled: "eapol_sm_alloc c = Some sm \<Longrightarrow> started (Some (sm\<lparr>portEnabled := True\<rparr>))"
  using sm_reach.event [OF sm_reach.alloc, of c sm Port_Enable] by (simp add: started_def accepts_def)

lemma new_station_started:
  "ieee802_1x_new_station sm_ok apd s = Inr s' \<Longrightarrow> eapol_sm s = None \<Longrightarrow> started (eapol_sm s')"
  by (auto simp: ieee802_1x_new_station_def started_enabled split: if_splits option.splits)

lemma get_sta_machines:
  assumes "Ap_get_sta cell sm_ok q_aid apd sa apidx et sk = Inr (r, apd')"
  obtains (old) "machines apd' = machines apd"
  | (new) p m where "machines apd' = (machines apd)(p := m)" and "started m"
proof -
  obtain r0 where r0: "find_sta apd sa = Inr r0" using assms by (auto simp: Ap_get_sta_def elim: res_bind_eq_InrE)
  show thesis
  proof (cases "r0 = None \<and> num_sta apd < int MAX_STA_COUNT \<and> cell \<noteq> None")
    case False
    with assms r0 show thesis by (intro old) (auto simp: Ap_get_sta_def split: option.splits if_splits)
  next
    case True
    then obtain p where p: "cell = Some p" by blast
    let ?s = "(new_sta apd sa apidx et sk q_aid)\<lparr>sta_hnext := sta_hash apd (STA_HASH sa)\<rparr>"
    let ?w = "with_sta apd p ?s"
    have w: "Ap_sta_hash_add (apd\<lparr>heap := (heap apd)(p := Some (new_sta apd sa apidx et sk q_aid)), sta_list := Some p,
        num_sta := num_sta apd + 1\<rparr>) p sa = ?w"
      by (rule hash_add_with_sta) (simp add: new_sta_def)
    obtain s' where s': "ieee802_1x_new_station sm_ok ?w ?s = Inr s'" "apd' = ?w\<lparr>heap := (heap ?w)(p := Some s')\<rparr>"
      using assms True p r0 by (auto simp: Ap_get_sta_def Let_def w elim!: res_bind_eq_InrE) (simp add: with_sta_def)
    have "started (eapol_sm s')" using new_station_started [OF s'(1)] by (simp add: new_sta_def)
    moreover have "machines apd' = (machines apd)(p := eapol_sm s')" by (simp add: s'(2) with_sta_def machines_def fun_eq_iff)
    ultimately show thesis by (rule new [rotated])
  qed
qed

section \<open>Machines that a number of acceptances explains\<close>

definition reach_upto :: "nat \<Rightarrow> eapol_state_machine \<Rightarrow> bool" where
  "reach_upto n sm \<longleftrightarrow> (\<exists>k \<le> n. sm_reach k sm)"

lemma reach_upto_mono: "reach_upto n sm \<Longrightarrow> n \<le> m \<Longrightarrow> reach_upto m sm"
  unfolding reach_upto_def by (meson le_trans)

lemma reach_upto_event: "reach_upto n sm \<Longrightarrow> reach_upto (n + accepts ev) (apply_event ev sm)"
  unfolding reach_upto_def by (meson add_le_mono1 sm_reach.event)

lemma reach_upto_alloc: "eapol_sm_alloc c = Some sm \<Longrightarrow> reach_upto n sm"
  unfolding reach_upto_def using sm_reach.alloc by blast

lemma reach_upto_run: "reach_upto n sm \<Longrightarrow> eapol_sm_step sm = Some sm' \<Longrightarrow> reach_upto n sm'"
  unfolding reach_upto_def by (meson sm_reach.run)

lemma reach_upto_tick: "reach_upto n sm \<Longrightarrow> eapol_port_timers_tick sm = Some sm' \<Longrightarrow> reach_upto n sm'"
  unfolding reach_upto_def by (meson sm_reach.tick)

definition earned_by :: "nat \<Rightarrow> rtapd \<Rightarrow> bool" where
  "earned_by n apd \<longleftrightarrow> (\<forall>p sm. machines apd p = Some sm \<longrightarrow> reach_upto n sm)"

definition sta_earned :: "nat \<Rightarrow> sta_info \<Rightarrow> bool" where
  "sta_earned n sta \<longleftrightarrow> (\<forall>sm. eapol_sm sta = Some sm \<longrightarrow> reach_upto n sm)"

lemma earned_by_cong: "earned_by n apd \<Longrightarrow> machines apd' = machines apd \<Longrightarrow> earned_by n apd'"
  by (simp add: earned_by_def)

lemma earned_by_upd:
  "machines apd' = (machines apd)(p := m) \<Longrightarrow> earned_by n apd \<Longrightarrow> (\<And>sm. m = Some sm \<Longrightarrow> reach_upto n sm) \<Longrightarrow>
   earned_by n apd'"
  by (auto simp: earned_by_def)

lemma earned_by_started: "machines apd' = (machines apd)(p := m) \<Longrightarrow> started m \<Longrightarrow> earned_by n apd \<Longrightarrow> earned_by n apd'"
  by (erule earned_by_upd) (auto simp: started_def reach_upto_def)

lemma earned_by_mono: "earned_by n apd \<Longrightarrow> n \<le> m \<Longrightarrow> earned_by m apd"
  unfolding earned_by_def by (meson reach_upto_mono)

lemma run_sm_earned: "run_sm e st p apd = Inr (apd', os) \<Longrightarrow> earned_by n apd \<Longrightarrow> earned_by n apd'"
  unfolding run_sm_def
  by (erule run_sm_with_machines, erule earned_by_upd) (auto simp: earned_by_def intro: reach_upto_run)

lemma tick_sm_earned: "tick_sm e st p apd = Inr (apd', os) \<Longrightarrow> earned_by n apd \<Longrightarrow> earned_by n apd'"
  unfolding tick_sm_def
  by (erule run_sm_with_machines, erule earned_by_upd) (auto simp: earned_by_def intro: reach_upto_tick)

lemma sta_earned_at: "earned_by n apd \<Longrightarrow> heap apd p = Some sta \<Longrightarrow> sta_earned n sta"
  unfolding earned_by_def sta_earned_def by (metis machines_at)

lemma sta_earned_mono: "sta_earned n sta \<Longrightarrow> n \<le> m \<Longrightarrow> sta_earned m sta"
  unfolding sta_earned_def by (meson reach_upto_mono)

lemma sta_earned_set: "sta_earned n sta \<Longrightarrow> earned_by n apd \<Longrightarrow> earned_by n (set_sta p sta apd)"
  by (rule earned_by_upd [OF machines_set_sta]) (auto simp: sta_earned_def)

lemma sta_earned_event: "sta_earned n sta \<Longrightarrow> sta_earned (n + accepts ev) (upd_sm (apply_event ev) sta)"
  by (auto simp: sta_earned_def upd_sm_def intro: reach_upto_event)

lemma sta_earned_silent: "sta_earned n sta \<Longrightarrow> accepts ev = 0 \<Longrightarrow> sta_earned n (upd_sm (apply_event ev) sta)"
  using sta_earned_event [of n sta ev] by simp

lemma sta_earned_fields [simp]:
  "sta_earned n (sta\<lparr>identity := i\<rparr>) = sta_earned n sta" "sta_earned n (sta\<lparr>last_eap_supp := l\<rparr>) = sta_earned n sta"
  "sta_earned n (sta\<lparr>last_eap_radius := l\<rparr>) = sta_earned n sta" "sta_earned n (sta\<lparr>radius_identifier := ri\<rparr>) = sta_earned n sta"
  "sta_earned n (sta\<lparr>last_recv_radius := lr\<rparr>) = sta_earned n sta"
  "sta_earned n (sta\<lparr>eapol_key_sign := k\<rparr>) = sta_earned n sta" "sta_earned n (sta\<lparr>eapol_key_crypt := k\<rparr>) = sta_earned n sta"
  by (simp_all add: sta_earned_def)

section \<open>The handlers\<close>

lemma handle_eap_earned:
  assumes "handle_eap e sta frame off len = Inr sta'" and "sta_earned n sta"
  shows "sta_earned n sta'"
proof -
  have "sta_earned n x" if "handle_eap_response e sta hdr data = Inr x" for hdr data x
    using that assms(2)
    by (auto simp: handle_eap_response_def Let_def accepts_def split: option.splits if_splits intro!: sta_earned_silent)
  with assms show ?thesis by (auto simp: handle_eap_def Let_def split: if_splits elim!: res_bind_eq_InrE)
qed

lemma eapol_dispatch_earned:
  assumes "eapol_dispatch e st apd p sta frame off type datalen = Inr (apd', os)" and "sta_earned n sta" and "earned_by n apd"
  shows "earned_by n apd'"
  using assms(1) sta_earned_set [OF _ assms(3)] sta_earned_silent [OF assms(2)] assms(2)
  by (auto simp: eapol_dispatch_def Let_def accepts_def split: if_splits
      elim!: res_bind_eq_InrE dest!: run_sm_earned handle_eap_earned)

lemma ensure_sm_earned: "ensure_sm ok apd sta = Inr (Some sta') \<Longrightarrow> sta_earned n sta \<Longrightarrow> sta_earned n sta'"
  by (auto simp: ensure_sm_def sta_earned_def split: option.splits if_splits intro: reach_upto_alloc)

lemma ieee802_1x_receive_earned:
  assumes "ieee802_1x_receive e st apd sa apidx frame et sk = Inr (apd', os)" and "earned_by n apd"
  shows "earned_by n apd'"
proof -
  obtain r apd1 where g: "Ap_get_sta (new_cell e) (mem e 2) (sta_aid e) apd sa apidx et sk = Inr (r, apd1)"
    using assms(1) by (auto simp: ieee802_1x_receive_def elim!: res_bind_eq_InrE)
  have e1: "earned_by n apd1"
    by (rule get_sta_machines [OF g]) (use assms(2) earned_by_cong earned_by_started in blast)+
  have s: "sta_earned n s" if "ensure_sm ok apd1 s0 = Inr (Some s)" "heap apd1 p = Some s0" for ok s0 s p
    by (rule ensure_sm_earned [OF that(1) sta_earned_at [OF e1 that(2)]])
  have d: "earned_by n x" if "ensure_sm ok apd1 s0 = Inr (Some s)" "heap apd1 p = Some s0"
      "eapol_dispatch e st apd1 p s frame off type datalen = Inr (x, os)" for ok s0 s p off type datalen x
    by (rule eapol_dispatch_earned [OF that(3) s [OF that(1,2)] e1])
  show ?thesis
    using assms(1) g e1 unfolding ieee802_1x_receive_def Let_def
    by (auto elim!: res_bind_eq_InrE split: option.splits if_splits) (blast intro: d sta_earned_set [OF s e1])+
qed

section \<open>Answers of the server\<close>

text \<open>An Access-Accept whose authenticity was verified.\<close>

definition authentic_accept :: "radius_msg \<Rightarrow> byte list \<Rightarrow> radius_msg option \<Rightarrow> bool" where
  "authentic_accept msg secret req \<longleftrightarrow>
     msg_code msg = RADIUS_CODE_ACCESS_ACCEPT \<and> Radius_msg_verify msg secret req = Inr 0"

lemma accepted_authentic:
  "answer_accepted msg secret req = Inr True \<Longrightarrow> msg_code msg \<noteq> RADIUS_CODE_ACCESS_REJECT \<Longrightarrow>
   Radius_msg_verify msg secret req = Inr 0"
  by (auto simp: answer_accepted_def Let_def elim!: res_bind_eq_InrE)

lemma get_keys_earned:
  "ieee802_1x_get_keys e sta msg req secret = Inr (sta', os) \<Longrightarrow> sta_earned n sta \<Longrightarrow> sta_earned n sta'"
  by (auto simp: ieee802_1x_get_keys_def Let_def accepts_def elim!: res_bind_eq_InrE split: option.splits if_splits
      intro!: sta_earned_silent)

lemma decapsulate_earned:
  "ieee802_1x_decapsulate_radius ok sta = Inr sta' \<Longrightarrow> sta_earned n sta \<Longrightarrow> sta_earned n sta'"
  by (auto simp: ieee802_1x_decapsulate_radius_def accepts_def elim!: res_bind_eq_InrE split: option.splits if_splits
      intro!: sta_earned_silent)

lemma session_timeout_machines [simp]: "machines (Ap_sta_session_timeout ok now apd p t) = machines apd"
  by (simp add: Ap_sta_session_timeout_def Ap_sta_no_session_timeout_def Let_def)

lemma accept_timers_machines: "accept_timers e apd p t act = (apd', q, free) \<Longrightarrow> machines apd' = machines apd"
  by (auto simp: accept_timers_def Let_def split: option.splits if_splits)

text \<open>The end of the handler: the EAP packet of the answer, the run of the machines, the removal.\<close>

lemma answer_end_earned:
  assumes "ieee802_1x_decapsulate_radius ok sta = Inr sta'" and "run_sm e st p (set_sta p sta' apd) = Inr (apd1, os)"
    and "free_if free apd1 p = Inr apd'" and "sta_earned n sta" and "earned_by n apd"
  shows "earned_by n apd'"
proof -
  have "earned_by n apd1"
    by (rule run_sm_earned [OF assms(2) sta_earned_set [OF decapsulate_earned [OF assms(1,4)] assms(5)]])
  with assms(3) show ?thesis
    using free_sta_machines [of apd1 p apd'] by (auto simp: earned_by_def free_if_def split: if_splits)
qed

lemma answer_effect_earned:
  assumes "answer_effect e apd p sta msg req secret session action idle = Inr (apd1, sta1, o1, free)"
    and "sta_earned n sta" and "Radius_msg_verify msg secret req = Inr 0 \<or> msg_code msg = RADIUS_CODE_ACCESS_REJECT"
  shows "machines apd1 = machines apd" and "sta_earned (n + of_bool (authentic_accept msg secret req)) sta1"
proof -
  obtain q where "machines apd1 = machines apd \<and> (sta1 = upd_sm (apply_event Server_Reject) sta \<or>
      sta1 = upd_sm (apply_event (Server_Challenge (map_option of_nat session))) sta \<or> authentic_accept msg secret req \<and>
      (\<exists>os. ieee802_1x_get_keys e (upd_sm (apply_event (Server_Accept q)) sta) msg req secret = Inr (sta1, os)))"
    using assms(1,3)
    by (auto simp: answer_effect_def Let_def authentic_accept_def elim!: res_bind_eq_InrE
        split: if_splits prod.splits dest: accept_timers_machines)
  then show "machines apd1 = machines apd" "sta_earned (n + of_bool (authentic_accept msg secret req)) sta1"
    using get_keys_earned sta_earned_mono [OF sta_earned_event [OF assms(2)]]
    by (auto simp: accepts_def)
qed

lemma receive_auth_earned:
  assumes "ieee802_1x_receive_auth e st apd msg req secret = Inr (r, apd', os)" and "earned_by n apd"
  shows "earned_by (n + of_bool (authentic_accept msg secret req)) apd'"
proof (cases "r = RADIUS_RX_QUEUED")
  case False
  have "earned_by (n + of_bool (authentic_accept msg secret req)) apd" using assms(2) by (rule earned_by_mono) simp
  with False assms(1) show ?thesis
    by (auto simp: ieee802_1x_receive_auth_def Let_def elim!: res_bind_eq_InrE split: option.splits if_splits)
next
  case True
  then obtain p sta0 session action idle apd1 sta1 o1 free sta2 apd2 o2
    where acc: "answer_accepted msg secret req = Inr True" and p: "heap apd p = Some sta0"
      and b: "answer_effect e apd p (sta0\<lparr>radius_identifier := - 1, last_recv_radius := Some msg\<rparr>) msg req secret
        session action idle = Inr (apd1, sta1, o1, free)"
      and d: "ieee802_1x_decapsulate_radius (mem e 11) sta1 = Inr sta2"
      and r: "run_sm (env_skip e) st p (set_sta p sta2 apd1) = Inr (apd2, o2)"
      and f: "free_if free apd2 p = Inr apd'"
    using assms(1) unfolding ieee802_1x_receive_auth_def Let_def
    by (auto elim!: res_bind_eq_InrE split: option.splits if_splits)
  have v: "Radius_msg_verify msg secret req = Inr 0 \<or> msg_code msg = RADIUS_CODE_ACCESS_REJECT"
    using accepted_authentic [OF acc] by blast
  have "sta_earned n (sta0\<lparr>radius_identifier := - 1, last_recv_radius := Some msg\<rparr>)"
    using sta_earned_at [OF assms(2) p] by simp
  note x = answer_effect_earned [OF b this v]
  have "earned_by (n + of_bool (authentic_accept msg secret req)) apd1"
    using earned_by_cong [OF assms(2) x(1)] by (rule earned_by_mono) simp
  with answer_end_earned [OF d r f x(2)] show ?thesis .
qed

text \<open>How many authentic acceptances a received datagram is: 0 or 1.\<close>

definition accepts_in :: "env \<Rightarrow> rtapd \<Rightarrow> byte list option \<Rightarrow> nat" where
  "accepts_in e apd received =
     (case received of
        None \<Rightarrow> 0
      | Some datagram \<Rightarrow>
          (case Radius_msg_parse (\<lambda>k. mem e (100 + k)) datagram of
             None \<Rightarrow> 0
           | Some msg \<Rightarrow>
               (case Radius_client_match (msg_identifier msg) (radius apd) of
                  None \<Rightarrow> 0
                | Some (req, c) \<Rightarrow> of_bool (authentic_accept msg (rl_secret req) (Some (rl_msg req))))))"

lemma client_receive_earned:
  assumes "Radius_client_receive e st apd received = Inr (apd', os)" and "earned_by n apd"
  shows "earned_by (n + accepts_in e apd received) apd'"
proof (cases "apd' = apd")
  case True
  then show ?thesis using earned_by_mono [OF assms(2)] by simp
next
  case False
  then obtain d msg req c r where "received = Some d" "Radius_msg_parse (\<lambda>k. mem e (100 + k)) d = Some msg"
      "Radius_client_match (msg_identifier msg) (radius apd) = Some (req, c)"
      and a: "ieee802_1x_receive_auth e st (apd\<lparr>radius := c\<rparr>) msg (Some (rl_msg req)) (rl_secret req) = Inr (r, apd', os)"
    using assms(1)
    by (auto simp: Radius_client_receive_def elim!: res_bind_eq_InrE split: option.splits if_splits)
  moreover have "earned_by n (apd\<lparr>radius := c\<rparr>)" using assms(2) by (rule earned_by_cong) simp
  ultimately show ?thesis using receive_auth_earned [OF a] by (simp add: accepts_in_def)
qed

section \<open>The other steps\<close>

lemma init_auth_machines [simp]: "machines (fst (Radius_client_init_auth e apd i)) = machines apd"
  by (simp add: Radius_client_init_auth_def Let_def split: prod.split)

lemma init_auth_step_machines: "machines (fst (init_auth_step e i x)) = machines (fst x)"
  using init_auth_machines [of e "fst x" i]
  by (cases x) (auto simp: init_auth_step_def simp del: init_auth_machines split: prod.split)

lemma fold_init_auth_machines: "machines (fst (fold (init_auth_step e) is x)) = machines (fst x)"
  by (induction "is" arbitrary: x) (simp_all add: init_auth_step_machines)

lemma client_init_machines [simp]: "machines (fst (Radius_client_init e first apd)) = machines apd"
  using fold_init_auth_machines [of e "map of_nat [0..<SsidNum (conf apd)]"]
  by (auto simp: Radius_client_init_def Let_def split: prod.split) (metis fst_conv machines_cong(1))+

lemma reload_earned: "Handle_reload_config e newconf apd = Inr apd' \<Longrightarrow> earned_by n apd \<Longrightarrow> earned_by n apd'"
  by (auto simp: Handle_reload_config_def Apd_free_stas_def earned_by_def Radius_client_flush_def
      elim!: res_bind_eq_InrE split: option.splits prod.splits dest!: free_stas_machines)

lemma disconnect_earned: "disconnect_entry apd sa = Inr apd' \<Longrightarrow> earned_by n apd \<Longrightarrow> earned_by n apd'"
  by (auto simp: disconnect_entry_def earned_by_def elim!: res_bind_eq_InrE split: option.splits if_splits
      dest!: free_sta_machines)

lemma handle_read_earned:
  assumes "Handle_read e st newconf apd sk received = Inr (apd', os)" and "earned_by n apd"
  shows "earned_by n apd'"
proof -
  have t: "earned_by n (apd\<lparr>eloop := l\<rparr>)" for l using assms(2) by (rule earned_by_cong) simp
  show ?thesis
    using assms t unfolding Handle_read_def Let_def
    by (auto elim!: res_bind_eq_InrE split: option.splits if_splits
        dest: disconnect_earned reload_earned ieee802_1x_receive_earned)
qed

lemma timeout_turn_machines: "eloop_timeout_turn e apd = Inr (apd', os) \<Longrightarrow> machines apd' = machines apd"
  by (auto simp: eloop_timeout_turn_def run_handler_def client_done_def elim!: res_bind_eq_InrE
      split: option.splits prod.splits loop_handler.splits)

section \<open>Runs of the daemon\<close>

text \<open>
  The states of the daemon after any frames, datagrams, ticks and timeouts, in any order, with \<open>n\<close> authentic
  acceptances among the datagrams.
\<close>

inductive daemon :: "nat \<Rightarrow> rtapd \<Rightarrow> bool" where
  start: "no_stations apd \<Longrightarrow> daemon 0 apd"
| frame: "daemon n apd \<Longrightarrow> Handle_read e st newconf apd sk received = Inr (apd', os) \<Longrightarrow> daemon n apd'"
| datagram: "daemon n apd \<Longrightarrow> Radius_client_receive e st apd received = Inr (apd', os) \<Longrightarrow>
    daemon (n + accepts_in e apd received) apd'"
| tick: "daemon n apd \<Longrightarrow> tick_sm e st p apd = Inr (apd', os) \<Longrightarrow> daemon n apd'"
| timeout: "daemon n apd \<Longrightarrow> eloop_timeout_turn e apd = Inr (apd', os) \<Longrightarrow> daemon n apd'"

lemma daemon_earned: "daemon n apd \<Longrightarrow> earned_by n apd"
proof (induction rule: daemon.induct)
  case (start apd)
  then show ?case by (simp add: earned_by_def machines_def no_stations_def)
qed (blast intro: handle_read_earned client_receive_earned tick_sm_earned earned_by_cong timeout_turn_machines)+

lemma daemon_openings:
  assumes "daemon n apd" and "heap apd p = Some sta" and "eapol_sm sta = Some sm"
  shows "openings sm \<le> n"
proof -
  have "machines apd p = Some sm" using assms(2,3) by (simp add: machines_at)
  then obtain k where "k \<le> n" "sm_reach k sm" using daemon_earned [OF assms(1)] by (auto simp: earned_by_def reach_upto_def)
  then show ?thesis using reach_earned [of k sm] by (auto simp: earned_def)
qed

end
