(* ===== verification/Dot1x_Properties.thy ===== *)
theory Dot1x_Properties
  imports Dot1x_Daemon Eapol_Properties
begin

text \<open>
  The properties of the 802.1X daemon that span its components: the station table, the state machines, the
  RADIUS messages and client, the event loop and the handlers of frames and datagrams.
\<close>

section \<open>The requests\<close>

text \<open>A message under construction that has been built so far, with these attributes.\<close>

definition carries :: "radius_msg option res \<Rightarrow> byte list \<Rightarrow> attribute list \<Rightarrow> bool" where
  "carries b hdr as \<longleftrightarrow> (\<exists>m. b = Inr (Some m) \<and> msg_rep m hdr as)"

lemma carries_add:
  assumes "carries b hdr as" and "length d \<le> 253" and "\<And>k. ok k"
  shows "carries (then_add ok t d b) hdr (as @ [(t, d)])"
proof -
  obtain m where m: "b = Inr (Some m)" "msg_rep m hdr as" using assms(1) by (auto simp: carries_def)
  from add_attr_ok [OF m(2) assms(2), of ok t] assms(3) m(1) show ?thesis by (auto simp: carries_def then_add_def)
qed

lemma carries_eap:
  assumes "carries b hdr as" and "\<And>k. ok k"
  shows "carries (then_add_eap ok (Some d) b) hdr (as @ eap_attrs d)"
proof -
  obtain m where m: "b = Inr (Some m)" "msg_rep m hdr as" using assms(1) by (auto simp: carries_def)
  from add_eap_ok [OF m(2), of ok d] assms(2) m(1) show ?thesis by (auto simp: carries_def then_add_eap_def)
qed

definition state_attrs :: "radius_msg option \<Rightarrow> attribute list \<Rightarrow> attribute list" where
  "state_attrs prev_msg bs =
     (case prev_msg of
        None \<Rightarrow> []
      | Some r \<Rightarrow> if msg_code r = RADIUS_CODE_ACCESS_CHALLENGE
          then (case List.find (\<lambda>a. fst a = RADIUS_ATTR_STATE) bs of None \<Rightarrow> [] | Some a \<Rightarrow> [a]) else [])"

lemma carries_state:
  assumes "carries b hdr as" and "\<And>k. ok k" and "\<And>r. prev_msg = Some r \<Longrightarrow> msg_rep r hdr' bs"
  shows "carries (then_copy_state ok prev_msg b) hdr (as @ state_attrs prev_msg bs)"
proof -
  obtain m where m: "b = Inr (Some m)" "msg_rep m hdr as" using assms(1) by (auto simp: carries_def)
  show ?thesis
  proof (cases "\<exists>r. prev_msg = Some r \<and> msg_code r = RADIUS_CODE_ACCESS_CHALLENGE")
    case True
    then obtain r where r: "prev_msg = Some r" "msg_code r = RADIUS_CODE_ACCESS_CHALLENGE" by blast
    from copy_attr_rep [OF m(2) assms(3) [OF r(1)], of ok RADIUS_ATTR_STATE] assms(2) m r show ?thesis
      by (auto simp: carries_def then_copy_state_def state_attrs_def split: option.splits)
  next
    case False
    with m show ?thesis by (auto simp: carries_def then_copy_state_def state_attrs_def split: option.splits)
  qed
qed

lemma length_addr_text [simp]: "length (addr_text m) = 17"
  by (cases m) (simp add: addr_text_def)

lemma length_be32 [simp]: "length (be32 w) = 4"
  by (simp add: be32_def)

lemma make_authenticator_rep:
  assumes "msg_rep msg (c # i # replicate 18 0) []"
  shows "msg_rep (Radius_msg_make_authenticator tv l msg data) (c # i # 0 # 0 # md5_pieces [tv, data, l]) []"
proof -
  have b: "msg_buf msg = (c # i # replicate 18 0) @ drop 20 (msg_buf msg)" "buf_used msg = 20"
    using msg_rep_buf [OF assms] msg_rep_used [OF assms] by simp_all
  have t: "take 4 (msg_buf msg) = [c, i, 0, 0]" using msg_rep_header [OF assms, of 4] by (simp add: numeral_eq_Suc)
  show ?thesis
    using assms b t
    by (intro msg_rep_intro [where rest = "drop 20 (msg_buf msg)"])
       (auto simp: msg_rep_def Radius_msg_make_authenticator_def move_at_def)
qed

text \<open>The attributes of a request; \<open>bs\<close> are those of the answer it replies to.\<close>

definition request_attrs :: "rtapd \<Rightarrow> sta_info \<Rightarrow> byte list \<Rightarrow> attribute list \<Rightarrow> attribute list" where
  "request_attrs apd sta eap bs =
     (case identity sta of None \<Rightarrow> [] | Some n \<Rightarrow> [(1, n)]) @ [(4, own_ip_addr (conf apd))] @
     (if nasId (conf apd) (ApIdx sta) = [] then [] else [(32, nasId (conf apd) (ApIdx sta))]) @
     [(5, be32 (ucast (aid sta))), (30, addr_text (own_addr apd (ApIdx sta))), (31, addr_text (sta_addr sta)),
      (12, be32 1400), (61, be32 19)] @ eap_attrs eap @ state_attrs (last_recv_radius sta) bs"

lemma access_request_carries:
  assumes mem: "\<And>k. mem e k" and len: "length (own_ip_addr (conf apd)) \<le> 253" "length (nasId (conf apd) (ApIdx sta)) \<le> 253"
      "\<And>n. identity sta = Some n \<Longrightarrow> length n \<le> 253"
    and st: "\<And>r. last_recv_radius sta = Some r \<Longrightarrow> msg_rep r hdr' bs"
  shows "carries (access_request e apd sta i (Some eap))
    (RADIUS_CODE_ACCESS_REQUEST # i # 0 # 0 # md5_pieces [tv_bytes e, sta_head e, rand_long e]) (request_attrs apd sta eap bs)"
proof -
  let ?hdr = "RADIUS_CODE_ACCESS_REQUEST # i # 0 # 0 # md5_pieces [tv_bytes e, sta_head e, rand_long e]"
  obtain m0 where m0: "Radius_msg_new (mem e) RADIUS_CODE_ACCESS_REQUEST i = Some m0"
      "msg_rep m0 (RADIUS_CODE_ACCESS_REQUEST # i # replicate 18 0) []"
    using new_rep [of "mem e" RADIUS_CODE_ACCESS_REQUEST i] mem by blast
  let ?b = "Inr (Some (Radius_msg_make_authenticator (tv_bytes e) (rand_long e) m0 (sta_head e))) :: radius_msg option res"
  have b0: "carries ?b ?hdr []" using make_authenticator_rep [OF m0(2)] by (simp add: carries_def)
  have b1: "carries (case identity sta of None \<Rightarrow> ?b | Some n \<Rightarrow> then_add (\<lambda>k. mem e (3 + k)) RADIUS_ATTR_USER_NAME n ?b) ?hdr
      (case identity sta of None \<Rightarrow> [] | Some n \<Rightarrow> [(1, n)])"
    using b0 carries_add [OF b0 len(3), of _ "\<lambda>k. mem e (3 + k)"] mem by (auto split: option.split)
  have b2: "carries (if nasId (conf apd) (ApIdx sta) \<noteq> [] then then_add ok 32 (nasId (conf apd) (ApIdx sta)) b else b) ?hdr
      (as @ (if nasId (conf apd) (ApIdx sta) = [] then [] else [(32, nasId (conf apd) (ApIdx sta))]))"
    if "carries b ?hdr as" "\<And>k. ok k" for b as ok
    using that(1) carries_add [OF that(1) len(2) that(2)] by simp
  have "carries (access_request e apd sta i (Some eap)) ?hdr
     (((((((((case identity sta of None \<Rightarrow> [] | Some n \<Rightarrow> [(1, n)]) @ [(4, own_ip_addr (conf apd))]) @
     (if nasId (conf apd) (ApIdx sta) = [] then [] else [(32, nasId (conf apd) (ApIdx sta))])) @
     [(5, be32 (ucast (aid sta)))]) @ [(30, addr_text (own_addr apd (ApIdx sta)))]) @ [(31, addr_text (sta_addr sta))]) @
      [(12, be32 1400)]) @ [(61, be32 19)]) @ eap_attrs eap @ state_attrs (last_recv_radius sta) bs)"
    unfolding access_request_def m0(1) option.case Let_def append_assoc [symmetric]
    by (intro carries_state carries_eap carries_add b2 b1) (use mem len(1) st in auto)
  then show ?thesis by (simp add: request_attrs_def)
qed

text \<open>
  C14. An Access-Request carries the response of the station unchanged: when memory is available, the request
  has the code, the identifier and a hash as authenticator, its attributes are the identity of the
  station, the addresses, the port and the State of the challenge it answers, and \<open>Radius_msg_get_eap\<close> finds
  exactly the EAP packet that the station has sent, of any length.
\<close>
theorem request_carries_response:
  assumes "\<forall>k. mem e k" and "length (own_ip_addr (conf apd)) \<le> 253" and "length (nasId (conf apd) (ApIdx sta)) \<le> 253"
    and "\<forall>n. identity sta = Some n \<longrightarrow> length n \<le> 253" and "\<forall>r. last_recv_radius sta = Some r \<longrightarrow> msg_rep r hdr' bs"
    and "eap \<noteq> []"
  shows "\<exists>m. access_request e apd sta i (Some eap) = Inr (Some m) \<and>
    msg_rep m (RADIUS_CODE_ACCESS_REQUEST # i # 0 # 0 # md5_pieces [tv_bytes e, sta_head e, rand_long e])
      (request_attrs apd sta eap bs) \<and>
    Radius_msg_get_eap True m = Inr (Some eap)"
proof -
  obtain m where m: "access_request e apd sta i (Some eap) = Inr (Some m)"
      "msg_rep m (RADIUS_CODE_ACCESS_REQUEST # i # 0 # 0 # md5_pieces [tv_bytes e, sta_head e, rand_long e])
        (request_attrs apd sta eap bs)"
    using access_request_carries [of e apd sta hdr' bs i eap] assms(1-5) by (auto simp: carries_def)
  have "filter (\<lambda>a. fst a = 79) (state_attrs q bs) = []" for q
  proof (cases "List.find (\<lambda>a. fst a = RADIUS_ATTR_STATE) bs")
    case (Some a)
    then have a: "fst a = RADIUS_ATTR_STATE" unfolding find_Some_iff by blast
    have "state_attrs q bs = [] \<or> state_attrs q bs = [a]" by (cases q) (simp_all add: state_attrs_def Some)
    with a show ?thesis by auto
  next
    case None
    have "state_attrs q bs = []" by (cases q) (simp_all add: state_attrs_def None)
    then show ?thesis by simp
  qed
  moreover have "concat (chop 253 eap) = eap" using concat_chop [of 252 eap] by (simp add: eval_nat_numeral)
  ultimately have "concat (map snd (filter (\<lambda>a. fst a = 79) (request_attrs apd sta eap bs))) = eap"
    by (cases "identity sta") (simp_all add: request_attrs_def comp_def filter_map)
  with m assms(6) show ?thesis by (simp add: get_eap_rep [OF m(2)] Let_def)
qed

section \<open>Frames and answers\<close>

text \<open>
  A frame that is not in SNAP encapsulation and as long as its header says is read within its bounds.
\<close>

lemma handle_eap_in_bounds:
  assumes "off + len \<le> length frame" and "eapol_sm sta \<noteq> None"
  shows "\<exists>sta'. handle_eap e sta frame off len = Inr sta'"
  using assms by (auto simp: handle_eap_def read_n_def handle_eap_response_def Let_def)

text \<open>
  A frame in SNAP encapsulation is not: the eight bytes of the SNAP header are skipped but still counted as
  part of the packet, so the length check lets a frame pass that ends before its EAP header, and the daemon
  reads bytes it has not received.
\<close>
theorem snap_frame_overread:
  assumes "find_sta apd sa = Inr (Some p)" and "heap apd p = Some sta" and "eapol_sm sta = Some sm"
    and "version = 1 \<or> version = 2" and "length rest < 4" and "et = 0x888E \<or> et = 0x88C7"
  shows "ieee802_1x_receive e st apd sa i
    ([0xaa, 0xaa, 0x03, 0x00, 0x00, 0x00, 0x88, 0x8E, version, 0] @ be16 (length rest + 8) @ rest) et sk = Inl Out_Of_Bounds"
proof -
  define f where "f = [0xaa, 0xaa, 0x03, 0x00, 0x00, 0x00, 0x88, 0x8E, version, 0] @ be16 (length rest + 8) @ rest"
  define hdr where "hdr = [version, 0] @ be16 (length rest + 8)"
  have l: "length f = 12 + length rest" by (simp add: f_def be16_def)
  have "f = [0xaa, 0xaa, 0x03, 0x00, 0x00, 0x00, 0x88, 0x8E] @ hdr @ rest" "length hdr = 4"
    by (simp_all add: f_def hdr_def be16_def)
  then have h: "read_n f 8 4 = Inr hdr" by (simp add: read_n_def)
  have n: "ntoh (drop 2 hdr) = length rest + 8" using assms(5) by (simp add: hdr_def ntoh_be16)
  have v: "hdr ! 0 = version" "hdr ! 1 = 0" by (simp_all add: hdr_def)
  have snap: "begins_with f [0xaa, 0xaa, 0x03, 0x00, 0x00, 0x00] = Inr True" by (simp add: f_def)
  have g: "Ap_get_sta c ok aid' apd sa i et sk = Inr (Some p, apd)" for c ok aid' by (simp add: Ap_get_sta_def assms(1))
  have "handle_eap e sta f 12 (length rest + 8) = Inl Out_Of_Bounds"
    using assms(5) l by (simp add: handle_eap_def read_n_def)
  then have d: "eapol_dispatch e st apd p sta f 8 0 (length rest + 8) = Inl Out_Of_Bounds" by (simp add: eapol_dispatch_def)
  have w: "(of_nat (12 + length rest) - 4 :: u32) = of_nat (length rest + 8)" by simp
  have "ieee802_1x_receive e st apd sa i f et sk = Inl Out_Of_Bounds"
    unfolding ieee802_1x_receive_def g res_bind_simps prod.case option.case snap Let_def if_True h n l w v
    using assms(2-4,6) d by (auto simp: ensure_sm_def)
  then show ?thesis by (simp only: f_def)
qed

text \<open>
  C34. An Access-Reject needs no secret: a datagram of twenty bytes with the code of a rejection, without any
  attribute, passes the check of its authenticity under every secret and for every request, and rejects the
  station.
\<close>
theorem forged_reject_accepted:
  assumes "length auth = 16" and "\<forall>k. ok k"
  shows "\<exists>msg. Radius_msg_parse ok ([RADIUS_CODE_ACCESS_REJECT, i, 0, 20] @ auth @ extra) = Some msg \<and>
    answer_accepted msg secret req = Inr True \<and>
    answer_effect e apd p sta msg req secret session action idle =
      Inr (apd, upd_sm (apply_event Server_Reject) sta, [], False)"
proof -
  let ?h = "[RADIUS_CODE_ACCESS_REJECT, i, 0, 20] @ auth"
  have "\<exists>msg. Radius_msg_parse ok (?h @ encode [] @ extra) = Some msg \<and> msg_rep msg ?h [] \<and> msg_buf msg = ?h @ encode []"
    by (rule parse_complete) (use assms in \<open>auto simp: be16_def\<close>)
  then obtain msg where m: "Radius_msg_parse ok (?h @ extra) = Some msg" "msg_rep msg ?h []" "msg_buf msg = ?h" by auto
  have "msg_code msg = RADIUS_CODE_ACCESS_REJECT" using m(3) by (simp add: msg_code_def)
  then show ?thesis
    using m by (simp add: answer_accepted_def answer_effect_def Let_def get_attr_rep [OF m(2)])
qed

section \<open>The daemon\<close>

text \<open>A daemon with one interface, and the outside of it, for the witnesses.\<close>

definition sample_apd :: rtapd where
  "sample_apd = \<lparr>conf = \<lparr>quiet_interval = 60, session_timeout_set = 0, session_timeout_interval = 0, SsidNum = 1,
       DefaultKeyID = (\<lambda>_. 0), individual_wep_key_len = (\<lambda>_. 5), individual_wep_key_idx = (\<lambda>_. 3),
       IEEE8021X_ikey = (\<lambda>_. [1, 2, 3, 4, 5]), own_ip_addr = [192, 168, 1, 1], nasId = (\<lambda>_. []),
       radius_retry_primary_interval = 0\<rparr>,
     own_addr = (\<lambda>_. (2, 0, 0, 0, 0, 1)), num_sta = 0, sta_list = None, sta_hash = (\<lambda>_. None), heap = (\<lambda>_. None),
     radius = idle_client, eloop = eloop_init\<rparr>"

definition sample_env :: env where
  "sample_env = \<lparr>mem = (\<lambda>_. True), ioctl_ok = (\<lambda>_. True), rand_bytes = (\<lambda>_. Some (replicate 16 7)),
     now_tv = \<lparr>tv_sec = 100, tv_usec = 0\<rparr>, tv_bytes = [], rand_long = [], sta_head = [], new_sock = (\<lambda>_. 9),
     new_cell = Some 7, sta_aid = 1\<rparr>"

definition sample_sa :: mac where
  "sample_sa = (2, 0, 0, 0, 0, 2)"

text \<open>The station that a frame of an unsupported version creates, and the daemon after it.\<close>

definition odd_frame :: "byte list" where
  "odd_frame = [2, 0, 0, 0, 0, 1, 2, 0, 0, 0, 0, 2, 0x88, 0x8E, 9, 1, 0, 0]"

definition sample_sta :: sta_info where
  "sample_sta = (new_sta sample_apd sample_sa 0 0x888E 5 1)\<lparr>eapol_sm := Some (fresh_sm\<lparr>portEnabled := True\<rparr>)\<rparr>"

definition one_sta :: rtapd where
  "one_sta = sample_apd\<lparr>num_sta := 1, sta_list := Some 7, sta_hash := (\<lambda>_. None)(2 := Some 7),
     heap := (\<lambda>_. None)(7 \<mapsto> sample_sta)\<rparr>"

lemma sample_conf: "dot1x_conf.truncate (conf sample_apd) = conf_default"
  by (simp add: sample_apd_def conf_default_def dot1x_conf.truncate_def)

lemma sample_get_sta: "Ap_get_sta (Some 7) True 1 sample_apd sample_sa 0 0x888E 5 = Inr (Some 7, one_sta)"
proof -
  let ?s = "new_sta sample_apd sample_sa 0 0x888E 5 1"
  have f: "find_sta sample_apd sample_sa = Inr None" "num_sta sample_apd = 0" "sta_hash sample_apd = (\<lambda>_. None)"
    by (simp_all add: find_sta_def sample_apd_def)
  have s: "?s\<lparr>sta_hnext := None\<rparr> = ?s" "eapol_sm ?s = None" "sta_addr ?s = sample_sa" by (simp_all add: new_sta_def)
  have "conf (with_sta sample_apd 7 ?s) = conf sample_apd" by (simp add: with_sta_def)
  then have n: "ieee802_1x_new_station True (with_sta sample_apd 7 ?s) ?s = Inr sample_sta"
    by (simp add: ieee802_1x_new_station_def s sample_conf fresh_sm_alloc sample_sta_def)
  have h: "Ap_sta_hash_add (sample_apd\<lparr>heap := (heap sample_apd)(7 := Some ?s), sta_list := Some 7,
      num_sta := num_sta sample_apd + 1\<rparr>) 7 sample_sa = with_sta sample_apd 7 ?s"
    using hash_add_with_sta [OF s(3), of sample_apd 7] by (simp only: f(3) s(1))
  have w: "heap (with_sta sample_apd 7 ?s) 7 = Some ?s" by (simp add: with_sta_def)
  have "(with_sta sample_apd 7 ?s)\<lparr>heap := (heap (with_sta sample_apd 7 ?s))(7 := Some sample_sta)\<rparr> = one_sta"
    by (simp add: with_sta_def one_sta_def s(3) f) (simp add: sample_sa_def sample_apd_def)
  then show ?thesis
    unfolding Ap_get_sta_def f(1) res_bind_simps option.case Let_def h w option.sel n by (simp add: f(2))
qed

lemma odd_frame_read: "Handle_read sample_env [] None sample_apd 5 (Some odd_frame) = Inr (one_sta, [])"
proof -
  have "ieee802_1x_receive sample_env [] sample_apd sample_sa 0 [9, 1, 0, 0] 0x888E 5 = Inr (one_sta, [])"
    using sample_get_sta
    by (simp add: ieee802_1x_receive_def sample_env_def read_n_def ntoh_def Let_def)
       (simp add: one_sta_def sample_sta_def ensure_sm_def set_sta_def)
  moreover have "own_interface sample_apd (2, 0, 0, 0, 0, 1) = Some 0" by (simp add: own_interface_def sample_apd_def)
  ultimately show ?thesis
    by (simp add: Handle_read_def odd_frame_def read_n_def frame_mac_def ntoh_def sample_sa_def)
qed

lemma sample_no_stations: "no_stations sample_apd"
  by (simp add: no_stations_def sample_apd_def)

lemma one_sta_inv: "sta_inv one_sta"
  using get_sta_absent [where apd = sample_apd and sa = sample_sa and p = 7 and sm_ok = True and q_aid = 1 and apidx = 0 and
      et = "0x888E" and sk = 5] no_stations_inv [OF sample_no_stations]
    sample_get_sta sample_conf conf_default_ok
  by (auto simp: sample_apd_def)

text \<open>
  C1. The port of a station is opened only by the server: in every state that the daemon can reach, by any
  frames of any stations, any datagrams, ticks and timeouts in any order, the port of every station has been
  opened at most as many times as the daemon has received Access-Accepts whose authenticators
  were verified with the secret and the request they answer.
\<close>
theorem ports_open_only_when_accepted:
  assumes "daemon n apd" and "heap apd p = Some sta" and "eapol_sm sta = Some sm"
  shows "length (filter (\<lambda>a. a = Set_Authorized True) (log sm)) \<le> n"
  using daemon_openings [OF assms] by (simp add: openings_def)

theorem ports_open_only_when_accepted_witness:
  "length (filter (\<lambda>a. a = Set_Authorized True) (log (fresh_sm\<lparr>portEnabled := True\<rparr>))) \<le> 0"
  using ports_open_only_when_accepted [OF daemon.frame [OF daemon.start [OF sample_no_stations] odd_frame_read], of 7 sample_sta]
  by (simp add: one_sta_def sample_sta_def)

text \<open>
  C8. The station table is a set of at most 1024 addresses: for every allocator that returns cells that are
  not in use, any sequence of lookups, insertions of unknown stations and removals returns, keeps the list,
  the hash chains and the counter consistent, and leaves exactly the stations that the bounded set has.
\<close>
theorem station_table_refines:
  assumes "sta_allocator cell" and "no_stations apd" and "conf_ok (dot1x_conf.truncate (conf apd))"
  shows "\<exists>apd'. run_table find_sta (sta_add cell sm_ok q_aid apidx et sk) disconnect_entry cs apd = Inr apd' \<and>
    sta_inv apd' \<and> dom (sta_map apd') = spec_run 1024 cs {} \<and> num_sta apd' = int (card (spec_run 1024 cs {}))"
proof -
  note inv = no_stations_inv [OF assms(2,3)]
  obtain apd' where a: "run_table find_sta (sta_add cell sm_ok q_aid apidx et sk) disconnect_entry cs apd = Inr apd'"
      "sta_inv apd'" "dom (sta_map apd') = spec_run 1024 cs (dom (sta_map apd))"
    using sta_allocator.station_runs [OF assms(1) inv(1)] by blast
  with sta_map_size(2) [OF a(2)] inv(2) show ?thesis by auto
qed

theorem station_table_refines_witness:
  "\<exists>apd'. run_table find_sta (sta_add first_free True 1 0 0x888E 5) disconnect_entry
      [Seen sample_sa, Seen (2, 0, 0, 0, 1, 2), Gone sample_sa] sample_apd = Inr apd' \<and>
    dom (sta_map apd') = {(2, 0, 0, 0, 1, 2)}"
  using station_table_refines [OF ff.sta_allocator_axioms sample_no_stations,
      where sm_ok = True and q_aid = 1 and apidx = 0 and et = "0x888E" and sk = 5 and
        cs = "[Seen sample_sa, Seen (2, 0, 0, 0, 1, 2), Gone sample_sa]"] sample_conf conf_default_ok
  by (auto simp: spec_run_def sample_sa_def)

section \<open>Timers of stations that are gone\<close>

lemma free_sta_eloop: "Ap_free_sta apd p = Inr apd' \<Longrightarrow> eloop apd' = eloop apd"
  by (auto simp: Ap_free_sta_def Ap_sta_hash_del_def Ap_sta_list_del_def upd_sta_def
      elim!: res_bind_eq_InrE split: option.splits if_splits)

lemma disconnect_known:
  assumes "sta_inv apd" and "heap apd p = Some sta"
  shows "\<exists>apd'. disconnect_entry apd (sta_addr sta) = Inr apd' \<and> heap apd' p = None \<and> eloop apd' = eloop apd"
proof -
  have "sta_map apd (sta_addr sta) = Some p"
    using assms sta_map_Some [of apd "sta_addr sta" p] unfolding sta_inv_def by blast
  moreover obtain apd' where a: "Ap_free_sta apd p = Inr apd'" "heap apd' p = None" using free_sta_result [OF assms] by blast
  ultimately show ?thesis using free_sta_eloop [OF a(1)] by (simp add: disconnect_entry_def find_sta_map [OF assms(1)])
qed

text \<open>
  The session timer of a station survives the station: when the driver reports that a station has
  left, its cell is freed but its session timer stays registered, and when the timer expires the
  handler uses the freed cell.
\<close>
theorem session_timer_use_after_free:
  assumes "sta_inv apd" and "heap apd p = Some sta" and "timeouts (eloop apd) = []" and "mem e 0"
    and "0 \<le> tv_usec now" and "tv_usec now < 1000000"
    and "now_tv e = now\<lparr>tv_sec := tv_sec now + int (unat t)\<rparr>"
  shows "\<exists>apd'. disconnect_entry (Ap_sta_session_timeout True now apd p t) (sta_addr sta) = Inr apd' \<and>
    eloop_timeout_turn e apd' = Inl Use_After_Free"
proof -
  let ?a = "Ap_sta_session_timeout True now apd p t"
  have "sta_inv ?a"
    by (rule inv_cong(1) [OF assms(1)])
      (simp_all add: Ap_sta_session_timeout_def Ap_sta_no_session_timeout_def Let_def same_links_def option.rel_refl)
  moreover have "heap ?a p = Some sta"
    using assms(2) by (simp add: Ap_sta_session_timeout_def Ap_sta_no_session_timeout_def Let_def)
  ultimately obtain apd' where a: "disconnect_entry ?a (sta_addr sta) = Inr apd'" "heap apd' p = None" "eloop apd' = eloop ?a"
    using disconnect_known by blast
  have "timeouts (eloop ?a) = [\<lparr>to_time = now_tv e, eloop_data = None, user_data = Some p,
      to_handler = Ap_handle_session_timer_h\<rparr>]"
    using assms(3,6,7) by (simp add: Ap_sta_session_timeout_def Ap_sta_no_session_timeout_def eloop_cancel_timeout_def
        eloop_register_timeout_def carry_usec.simps Let_def)
  then have "eloop_timeout_turn e apd' = Inl Use_After_Free"
    using a(2,3) assms(4)
    by (simp add: eloop_timeout_turn_def eloop_fire_def timer_less_def run_handler_def Ap_handle_session_timer_def)
  with a(1) show ?thesis by blast
qed

theorem session_timer_use_after_free_witness:
  "\<exists>apd'. disconnect_entry (Ap_sta_session_timeout True \<lparr>tv_sec = 40, tv_usec = 0\<rparr> one_sta 7 60) (sta_addr sample_sta) = Inr apd' \<and>
    eloop_timeout_turn sample_env apd' = Inl Use_After_Free"
  by (rule session_timer_use_after_free [OF one_sta_inv])
     (simp_all add: one_sta_def sample_apd_def eloop_init_def sample_env_def)

section \<open>Witnesses\<close>

theorem request_carries_response_witness:
  "\<exists>m. access_request sample_env sample_apd sample_sta 3 (Some (replicate 300 1)) = Inr (Some m) \<and>
    Radius_msg_get_eap True m = Inr (Some (replicate 300 1))"
proof -
  have "\<exists>m. access_request sample_env sample_apd sample_sta 3 (Some (replicate 300 1)) = Inr (Some m) \<and>
    msg_rep m (RADIUS_CODE_ACCESS_REQUEST # 3 # 0 # 0 # md5_pieces [tv_bytes sample_env, sta_head sample_env, rand_long sample_env])
      (request_attrs sample_apd sample_sta (replicate 300 1) []) \<and>
    Radius_msg_get_eap True m = Inr (Some (replicate 300 1))"
    by (rule request_carries_response [where hdr' = "[]"])
       (simp_all add: sample_env_def sample_apd_def sample_sta_def new_sta_def)
  then show ?thesis by blast
qed

theorem snap_frame_overread_witness:
  "ieee802_1x_receive sample_env [] one_sta sample_sa 0
    ([0xaa, 0xaa, 0x03, 0x00, 0x00, 0x00, 0x88, 0x8E, 1, 0] @ be16 (length ([] :: byte list) + 8) @ []) 0x888E 5 = Inl Out_Of_Bounds"
proof (rule snap_frame_overread)
  have "find_sta one_sta sample_sa = Inr (sta_map one_sta sample_sa)" by (rule find_sta_map [OF one_sta_inv])
  moreover have "sta_map one_sta sample_sa = Some 7"
    using one_sta_inv unfolding sta_inv_def
    by (subst sta_map_Some) (simp_all add: one_sta_def sample_sta_def new_sta_def)
  ultimately show "find_sta one_sta sample_sa = Inr (Some 7)" by simp
  show "heap one_sta 7 = Some sample_sta" by (simp add: one_sta_def)
qed (simp_all add: sample_sta_def)

theorem forged_reject_accepted_witness:
  "\<exists>msg. Radius_msg_parse (\<lambda>_. True) ([RADIUS_CODE_ACCESS_REJECT, 9, 0, 20] @ replicate 16 0 @ []) = Some msg \<and>
    answer_accepted msg [1, 2, 3] None = Inr True"
  using forged_reject_accepted [of "replicate 16 0" "\<lambda>_. True" 9 "[]" "[1, 2, 3]" None] by fastforce

end
