(* ===== verification/Dot1x_Config.thy ===== *)
theory Dot1x_Config
  imports Sta_Info Eapol_Safety
begin

text \<open>
  The configuration of the 802.1X daemon (\<open>config.c\<close>): what the driver answers to a query is copied into the
  settings of the daemon and the lists of RADIUS servers, and checked. The struct that the driver fills is an
  argument, as are the outcomes of allocations and ioctl calls and the random keys. The daemon is built with
  a list of servers for each interface. A secret is the bytes that its users read, \<open>shared_secret_len\<close> many;
  where these are not in the string that \<open>strdup\<close> allocated (it is taken to succeed), the model faults at once. The names of the networks
  are only printed. The arrays of the struct have the lengths of their declarations.
\<close>

section \<open>Data\<close>

record radius_srv_info =
  radius_ip :: u32
  radius_port :: u32
  radius_key :: "byte list"
  radius_key_len :: u8

record dot1x_bss_info =
  radius_srv_num :: u8
  radius_srv_info :: "radius_srv_info list"
  ieee8021xWEP :: u8
  key_index :: u8
  key_length :: u8
  key_material :: "byte list"
  bss_nasId :: "byte list"
  bss_nasId_len :: u8

record dot1x_cmm_conf =
  mbss_num :: u8
  cmm_own_ip_addr :: "byte list"
  retry_interval :: u32
  cmm_session_timeout_interval :: u32
  cmm_quiet_interval :: u32
  EAPifname :: "byte list list"
  EAPifname_len :: "u8 list"
  PreAuthifname :: "byte list list"
  PreAuthifname_len :: "u8 list"
  Dot1xBssInfo :: "dot1x_bss_info list"

text \<open>The interfaces whose sockets the start-up opens.\<close>

record if_names =
  eap_if_name :: "byte list list"
  preauth_if_name :: "byte list list"

record config_env =
  conf_alloc_ok :: bool
  query_alloc_ok :: bool
  realloc_ok :: "nat \<Rightarrow> nat \<Rightarrow> bool"
  driver_conf :: "dot1x_cmm_conf option"
  driver_ssid_len :: "nat \<Rightarrow> nat option"
  random_ikey :: "nat \<Rightarrow> byte list"

text \<open>How many addresses, ports and secrets of servers were found.\<close>

record found =
  radius_count :: nat
  radius_port_count :: nat
  radius_key_count :: nat

section \<open>The servers\<close>

definition Config_read_radius_addr ::
  "bool \<Rightarrow> hostapd_radius_server list \<Rightarrow> u32 \<Rightarrow> int \<Rightarrow> hostapd_radius_server list option" where
  "Config_read_radius_addr ok servers addr def_port =
     (if addr = 0 then None
      else if \<not> ok then None
      else Some (servers @ [\<lparr>srv_addr = addr, srv_port = def_port, shared_secret = []\<rparr>]))"

definition upd_last :: "('a \<Rightarrow> 'a) \<Rightarrow> 'a list \<Rightarrow> 'a list" where
  "upd_last f xs = butlast xs @ [f (last xs)]"

text \<open>The secret: \<open>strdup\<close> of the key, of which \<open>radius_key_len\<close> bytes are used.\<close>

definition secret_of :: "radius_srv_info \<Rightarrow> byte list res" where
  "secret_of info =
     (let s = takeWhile (\<lambda>b. b \<noteq> 0) (radius_key info); n = unat (radius_key_len info)
      in if length s < length (radius_key info) \<and> n \<le> length s + 1 then Inr (take n (s @ [0])) else Inl Out_Of_Bounds)"

text \<open>
  One entry of the driver. The current server is the last one that was added; when the address of the entry
  is zero, its port and secret go to the server before.
\<close>

definition read_server ::
  "bool \<Rightarrow> dot1x_bss_info \<Rightarrow> nat \<Rightarrow> hostapd_radius_server list \<times> found \<Rightarrow> (hostapd_radius_server list \<times> found) res" where
  "read_server ok bss idx = (\<lambda>(servers, n).
     if length (radius_srv_info bss) \<le> idx then Inl Out_Of_Bounds
     else
       let info = radius_srv_info bss ! idx;
         (servers1, n1) = (case Config_read_radius_addr ok servers (radius_ip info) 1812 of
             None \<Rightarrow> (servers, n)
           | Some s \<Rightarrow> (s, n\<lparr>radius_count := radius_count n + 1\<rparr>))
       in if servers1 = [] \<or> srv_addr (last servers1) = 0 then Inr (servers1, n1)
          else
            let (servers2, n2) =
              (if 0 < radius_port info
               then (upd_last (\<lambda>s. s\<lparr>srv_port := sint (radius_port info)\<rparr>) servers1, n1\<lparr>radius_port_count := radius_port_count n1 + 1\<rparr>)
               else (servers1, n1))
            in if 0 < radius_key_len info
               then res_bind (secret_of info) (\<lambda>key.
                 Inr (upd_last (\<lambda>s. s\<lparr>shared_secret := key\<rparr>) servers2, n2\<lparr>radius_key_count := radius_key_count n2 + 1\<rparr>))
               else Inr (servers2, n2))"

fun read_servers ::
  "(nat \<Rightarrow> bool) \<Rightarrow> dot1x_bss_info \<Rightarrow> nat list \<Rightarrow> hostapd_radius_server list \<times> found \<Rightarrow> (hostapd_radius_server list \<times> found) res" where
  "read_servers ok bss [] sn = Inr sn"
| "read_servers ok bss (idx # is) sn = res_bind (read_server (ok idx) bss idx sn) (read_servers ok bss is)"

text \<open>The interfaces in turn.\<close>

fun read_all_servers ::
  "(nat \<Rightarrow> nat \<Rightarrow> bool) \<Rightarrow> dot1x_bss_info list \<Rightarrow> nat list \<Rightarrow> (u8 \<Rightarrow> hostapd_radius_server list) \<times> found \<Rightarrow>
   ((u8 \<Rightarrow> hostapd_radius_server list) \<times> found) res" where
  "read_all_servers ok bsss [] sn = Inr sn"
| "read_all_servers ok bsss (i # is) (servers, n) =
     (let bss = bsss ! i in
      res_bind (read_servers (ok i) bss [0..<unat (radius_srv_num bss)] (servers (of_nat i), n)) (\<lambda>(s, n1).
        read_all_servers ok bsss is (servers(of_nat i := s), n1)))"

section \<open>The settings\<close>

abbreviation WEP8021X_KEY_LEN :: nat where
  "WEP8021X_KEY_LEN \<equiv> 13"

abbreviation IFNAMSIZ :: nat where
  "IFNAMSIZ \<equiv> 16"

definition row :: "nat \<Rightarrow> byte list \<Rightarrow> byte list" where
  "row n bytes = bytes @ replicate (n - length bytes) 0"

definition read_bss :: "dot1x_bss_info \<Rightarrow> u8 \<Rightarrow> rtapd_config \<Rightarrow> rtapd_config res" where
  "read_bss bss i cf =
     (let n = unat (key_length bss);
        cf1 = (if ieee8021xWEP bss \<noteq> 0
               then cf\<lparr>DefaultKeyID := (DefaultKeyID cf)(i := ucast (key_index bss)),
                 individual_wep_key_idx := (individual_wep_key_idx cf)(i := if key_index bss = 3 then 0 else 3)\<rparr>
               else cf);
        cf2 = (if ieee8021xWEP bss \<noteq> 0 \<and> (n = 5 \<or> n = 13)
               then cf1\<lparr>individual_wep_key_len := (individual_wep_key_len cf1)(i := n),
                 IEEE8021X_ikey := (IEEE8021X_ikey cf1)(i := row WEP8021X_KEY_LEN (take n (key_material bss)))\<rparr>
               else cf1);
        m = unat (bss_nasId_len bss)
      in if m = 0 then Inr cf2
         else if length (bss_nasId bss) < m then Inl Out_Of_Bounds
         else Inr (cf2\<lparr>nasId := (nasId cf2)(i := take m (bss_nasId bss))\<rparr>))"

text \<open>A name of an interface is taken when its length is not zero.\<close>

definition read_name :: "byte list \<Rightarrow> u8 \<Rightarrow> byte list list \<Rightarrow> byte list list res" where
  "read_name name len names =
     (if len = 0 then Inr names
      else if IFNAMSIZ < unat len then Inl Out_Of_Bounds
      else Inr (names @ [row IFNAMSIZ (take (unat len) name)]))"

fun read_interfaces ::
  "dot1x_cmm_conf \<Rightarrow> nat list \<Rightarrow> rtapd_config \<times> if_names \<Rightarrow> (rtapd_config \<times> if_names) res" where
  "read_interfaces c [] cn = Inr cn"
| "read_interfaces c (i # is) (cf, names) =
     res_bind (read_bss (Dot1xBssInfo c ! i) (of_nat i) cf) (\<lambda>cf1.
       res_bind (read_name (EAPifname c ! i) (EAPifname_len c ! i) (eap_if_name names)) (\<lambda>eap.
         res_bind (read_name (PreAuthifname c ! i) (PreAuthifname_len c ! i) (preauth_if_name names)) (\<lambda>pre.
           read_interfaces c is (cf1, \<lparr>eap_if_name = eap, preauth_if_name = pre\<rparr>))))"

definition br0 :: "byte list" where
  "br0 = row IFNAMSIZ (map of_char ''br0'')"

text \<open>\<open>errors\<close> and \<open>flag\<close> are the counter and the bits that the caller checks.\<close>

definition Query_config_from_driver ::
  "config_env \<Rightarrow> rtapd_config \<Rightarrow> (rtapd_config \<times> (u8 \<Rightarrow> hostapd_radius_server list) \<times> if_names \<times> nat \<times> u32) option res" where
  "Query_config_from_driver e conf0 =
     (if \<not> query_alloc_ok e then Inr None
      else case driver_conf e of
        None \<Rightarrow> Inr None
      | Some c \<Rightarrow>
          let m_num = (if 16 < unat (mbss_num c) then 1 else unat (mbss_num c));
            own = cmm_own_ip_addr c \<noteq> [0, 0, 0, 0]
          in res_bind (read_all_servers (realloc_ok e) (Dot1xBssInfo c) [0..<m_num]
               (\<lambda>i. [], \<lparr>radius_count = 0, radius_port_count = 0, radius_key_count = 0\<rparr>)) (\<lambda>(servers, n).
             let ip = radius_count n \<noteq> 0; port = radius_count n = radius_port_count n; key = radius_count n = radius_key_count n;
               flag = (if own then 0x01 else 0) OR (if ip then 0x02 else 0) OR (if port then 0x04 else 0) OR (if key then 0x08 else 0);
               errors = (if own then 0 else 1) + (if ip then 0 else 1) + (if port then 0 else 1) + (if key then 0 else 1);
               timeout = cmm_session_timeout_interval c; quiet = cmm_quiet_interval c;
               cf1 = conf0\<lparr>SsidNum := m_num, own_ip_addr := cmm_own_ip_addr c, radius_retry_primary_interval := unat (retry_interval c),
                 session_timeout_set := (if timeout = 0 then 0 else 1),
                 session_timeout_interval := (if timeout \<noteq> 0 \<and> sint timeout < 60 then 3600 else timeout),
                 quiet_interval := (if sint quiet < 60 then 60 else quiet)\<rparr>
             in res_bind (read_interfaces c [0..<m_num] (cf1, \<lparr>eap_if_name = [], preauth_if_name = []\<rparr>)) (\<lambda>(cf2, names).
               let names' = \<lparr>eap_if_name = (if eap_if_name names = [] then [br0] else eap_if_name names),
                 preauth_if_name = (if preauth_if_name names = [] then [br0] else preauth_if_name names)\<rparr>
               in Inr (Some (cf2, servers, names', errors, flag)))))"

definition default_conf :: "(nat \<Rightarrow> byte list) \<Rightarrow> rtapd_config" where
  "default_conf ikey = \<lparr>quiet_interval = 0, session_timeout_set = 0xffff, session_timeout_interval = 0, SsidNum = 1,
     DefaultKeyID = (\<lambda>i. 0), individual_wep_key_len = (\<lambda>i. WEP8021X_KEY_LEN), individual_wep_key_idx = (\<lambda>i. 3),
     IEEE8021X_ikey = (\<lambda>i. ikey (unat i)), own_ip_addr = [0, 0, 0, 0],
     nasId = (\<lambda>i. map of_char ''RalinkAP'' @ [48 + i]), radius_retry_primary_interval = 0\<rparr>"

text \<open>The ioctl that reads the name of a network gives its length; 32 bytes were provided.\<close>

definition ssids_fit :: "config_env \<Rightarrow> nat \<Rightarrow> bool" where
  "ssids_fit e n \<longleftrightarrow> list_all (\<lambda>i. case driver_ssid_len e i of None \<Rightarrow> True | Some len \<Rightarrow> len \<le> 32) [0..<n]"

definition Config_read ::
  "config_env \<Rightarrow> (rtapd_config \<times> (u8 \<Rightarrow> hostapd_radius_server list) \<times> if_names) option res" where
  "Config_read e =
     (if \<not> conf_alloc_ok e then Inr None
      else res_bind (Query_config_from_driver e (default_conf (random_ikey e))) (\<lambda>r.
        case r of
          None \<Rightarrow> Inr None
        | Some (cf, servers, names, errors, flag) \<Rightarrow>
            if \<not> ssids_fit e (SsidNum cf) then Inl Out_Of_Bounds
            else if errors \<noteq> 0 \<or> flag AND 0x0f \<noteq> 0x0f then Inr None
            else Inr (Some (cf, servers, names))))"

section \<open>What an accepted configuration is like\<close>

definition server_ok :: "hostapd_radius_server \<Rightarrow> bool" where
  "server_ok s \<longleftrightarrow> srv_addr s \<noteq> 0 \<and> srv_port s \<noteq> 0"

lemma upd_last_all: "xs \<noteq> [] \<Longrightarrow> \<forall>x \<in> set xs. P x \<Longrightarrow> P (f (last xs)) \<Longrightarrow> \<forall>x \<in> set (upd_last f xs). P x"
  by (auto simp: upd_last_def dest: in_set_butlastD)

lemma upd_last_nonempty [simp]: "upd_last f xs \<noteq> []"
  by (simp add: upd_last_def)

lemma sint_pos_nonzero: "0 < (w :: u32) \<Longrightarrow> sint w \<noteq> 0"
  by (metis signed_eq_0_iff less_irrefl)

text \<open>The servers of one interface stay acceptable, and one that was counted is there.\<close>

lemma read_server_ok:
  assumes "read_server ok bss idx (servers, n) = Inr (servers', n')" and "\<forall>s \<in> set servers. server_ok s"
  shows "(\<forall>s \<in> set servers'. server_ok s) \<and> (servers \<noteq> [] \<longrightarrow> servers' \<noteq> []) \<and>
    (radius_count n' \<noteq> radius_count n \<longrightarrow> servers' \<noteq> [])"
proof -
  let ?info = "radius_srv_info bss ! idx"
  obtain servers1 n1 where one: "(case Config_read_radius_addr ok servers (radius_ip ?info) 1812 of
      None \<Rightarrow> (servers, n) | Some s \<Rightarrow> (s, n\<lparr>radius_count := radius_count n + 1\<rparr>)) = (servers1, n1)" by fastforce
  then have ok1: "\<forall>s \<in> set servers1. server_ok s" and grow: "servers \<noteq> [] \<longrightarrow> servers1 \<noteq> []"
    and count: "radius_count n1 \<noteq> radius_count n \<longrightarrow> servers1 \<noteq> []"
    using assms(2) by (auto simp: Config_read_radius_addr_def server_ok_def split: if_splits)
  show ?thesis
  proof (cases "servers1 = [] \<or> srv_addr (last servers1) = 0")
    case True
    with assms(1) one ok1 grow count show ?thesis by (simp add: read_server_def Let_def split: if_splits)
  next
    case False
    define servers2 where "servers2 = (if 0 < radius_port ?info
      then upd_last (\<lambda>s. s\<lparr>srv_port := sint (radius_port ?info)\<rparr>) servers1 else servers1)"
    have ok2: "\<forall>s \<in> set servers2. server_ok s"
    proof (cases "0 < radius_port ?info")
      case True
      then have "server_ok ((last servers1)\<lparr>srv_port := sint (radius_port ?info)\<rparr>)"
        using False sint_pos_nonzero [OF True] by (simp add: server_ok_def)
      then show ?thesis using upd_last_all [of servers1 server_ok] False ok1 True by (simp add: servers2_def)
    qed (simp add: servers2_def ok1)
    have ne: "servers2 \<noteq> []" using False by (simp add: servers2_def)
    have "server_ok ((last servers2)\<lparr>shared_secret := key\<rparr>)" for key
      using ok2 last_in_set [OF ne] by (simp add: server_ok_def)
    then have ok3: "\<forall>s \<in> set (upd_last (\<lambda>s. s\<lparr>shared_secret := key\<rparr>) servers2). server_ok s" for key
      using upd_last_all [OF ne ok2] by blast
    from assms(1) one False have "servers' = servers2 \<or> (\<exists>key. servers' = upd_last (\<lambda>s. s\<lparr>shared_secret := key\<rparr>) servers2)"
      by (auto simp: read_server_def Let_def servers2_def elim!: res_bind_eq_InrE split: if_splits)
    then show ?thesis using ok2 ok3 ne by auto
  qed
qed

lemma read_servers_ok:
  "read_servers ok bss is (servers, n) = Inr (servers', n') \<Longrightarrow> \<forall>s \<in> set servers. server_ok s \<Longrightarrow>
   (\<forall>s \<in> set servers'. server_ok s) \<and> (servers \<noteq> [] \<longrightarrow> servers' \<noteq> []) \<and> (radius_count n' \<noteq> radius_count n \<longrightarrow> servers' \<noteq> [])"
proof (induction "is" arbitrary: servers n)
  case (Cons i "is")
  from Cons.prems(1) obtain s1 n1 where "read_server (ok i) bss i (servers, n) = Inr (s1, n1)"
    and rest: "read_servers ok bss is (s1, n1) = Inr (servers', n')" by (auto elim!: res_bind_eq_InrE)
  with read_server_ok Cons.prems(2) have one: "(\<forall>s \<in> set s1. server_ok s) \<and> (servers \<noteq> [] \<longrightarrow> s1 \<noteq> []) \<and>
    (radius_count n1 \<noteq> radius_count n \<longrightarrow> s1 \<noteq> [])" by blast
  with Cons.IH [OF rest] show ?case by (cases "radius_count n1 = radius_count n") auto
qed simp

lemma read_all_servers_ok:
  "read_all_servers ok bsss is (servers, n) = Inr (servers', n') \<Longrightarrow> \<forall>i. \<forall>s \<in> set (servers i). server_ok s \<Longrightarrow>
   (\<forall>i. \<forall>s \<in> set (servers' i). server_ok s) \<and> ((\<exists>i. servers i \<noteq> []) \<or> radius_count n' \<noteq> radius_count n \<longrightarrow> (\<exists>i. servers' i \<noteq> []))"
proof (induction "is" arbitrary: servers n)
  case (Cons i "is")
  from Cons.prems(1) obtain s1 n1 where
    one: "read_servers (ok i) (bsss ! i) [0..<unat (radius_srv_num (bsss ! i))] (servers (of_nat i), n) = Inr (s1, n1)"
    and rest: "read_all_servers ok bsss is (servers(of_nat i := s1), n1) = Inr (servers', n')"
    by (auto simp: Let_def elim!: res_bind_eq_InrE)
  from read_servers_ok [OF one] Cons.prems(2) have s1: "\<forall>s \<in> set s1. server_ok s"
    "servers (of_nat i) \<noteq> [] \<longrightarrow> s1 \<noteq> []" "radius_count n1 \<noteq> radius_count n \<longrightarrow> s1 \<noteq> []" by simp_all
  have "\<forall>j. \<forall>s \<in> set ((servers(of_nat i := s1)) j). server_ok s" using s1(1) Cons.prems(2) by simp
  from Cons.IH [OF rest this] have IH: "\<forall>i. \<forall>s \<in> set (servers' i). server_ok s"
    "(\<exists>j. (servers(of_nat i := s1)) j \<noteq> []) \<or> radius_count n' \<noteq> radius_count n1 \<longrightarrow> (\<exists>i. servers' i \<noteq> [])" by blast+
  moreover have "(\<exists>j. (servers(of_nat i := s1)) j \<noteq> [])" if "(\<exists>j. servers j \<noteq> []) \<or> radius_count n1 \<noteq> radius_count n"
    using that s1(2,3) by (metis fun_upd_other fun_upd_same)
  ultimately show ?case by metis
qed simp

text \<open>The loop over the interfaces leaves the settings of the timers and the number of interfaces alone.\<close>

lemma read_interfaces_keep:
  "read_interfaces c is (cf, names) = Inr (cf', names') \<Longrightarrow>
   dot1x_conf.truncate cf' = dot1x_conf.truncate cf \<and> SsidNum cf' = SsidNum cf"
proof (induction "is" arbitrary: cf names)
  case (Cons i "is")
  from Cons.prems obtain cf1 names1 where one: "read_bss (Dot1xBssInfo c ! i) (of_nat i) cf = Inr cf1"
    and rest: "read_interfaces c is (cf1, names1) = Inr (cf', names')" by (auto elim!: res_bind_eq_InrE)
  have "dot1x_conf.truncate cf1 = dot1x_conf.truncate cf \<and> SsidNum cf1 = SsidNum cf"
    using one by (auto simp: read_bss_def Let_def dot1x_conf.defs split: if_splits)
  with Cons.IH [OF rest] show ?case by simp
qed simp

lemma flag_bits:
  "((if a then 0x01 else 0) OR (if b then 0x02 else 0) OR (if c then 0x04 else 0) OR (if d then 0x08 else 0) :: u32) AND 0x0f = 0x0f \<longleftrightarrow>
   a \<and> b \<and> c \<and> d"
  by (cases a; cases b; cases c; cases d) simp_all

lemma query_result:
  assumes "Query_config_from_driver e cf0 = Inr (Some (cf, servers, names, errors, flag))" and "flag AND 0x0f = 0x0f"
  shows "session_timeout_set cf = 1 \<longrightarrow> 60 \<le> sint (session_timeout_interval cf)" and "60 \<le> sint (quiet_interval cf)"
    and "SsidNum cf \<le> 16" and "\<forall>i. \<forall>s \<in> set (servers i). server_ok s" and "\<exists>i. servers i \<noteq> []"
    and "eap_if_name names \<noteq> []"
proof -
  let ?zero = "\<lparr>radius_count = 0, radius_port_count = 0, radius_key_count = 0\<rparr>"
  obtain c where c: "driver_conf e = Some c" using assms(1) by (auto simp: Query_config_from_driver_def split: if_splits option.splits)
  define m where "m = (if 16 < unat (mbss_num c) then 1 else unat (mbss_num c))"
  define timeout where "timeout = cmm_session_timeout_interval c"
  define quiet where "quiet = cmm_quiet_interval c"
  define cf1 where "cf1 = cf0\<lparr>SsidNum := m, own_ip_addr := cmm_own_ip_addr c, radius_retry_primary_interval := unat (retry_interval c),
    session_timeout_set := (if timeout = 0 then 0 else 1),
    session_timeout_interval := (if timeout \<noteq> 0 \<and> sint timeout < 60 then 3600 else timeout),
    quiet_interval := (if sint quiet < 60 then 60 else quiet)\<rparr>"
  from assms(1) c obtain n names0 where all: "read_all_servers (realloc_ok e) (Dot1xBssInfo c) [0..<m] (\<lambda>i. [], ?zero) = Inr (servers, n)"
    and ifs: "read_interfaces c [0..<m] (cf1, \<lparr>eap_if_name = [], preauth_if_name = []\<rparr>) = Inr (cf, names0)"
    and names: "names = \<lparr>eap_if_name = (if eap_if_name names0 = [] then [br0] else eap_if_name names0),
      preauth_if_name = (if preauth_if_name names0 = [] then [br0] else preauth_if_name names0)\<rparr>"
    and flag: "flag = (if cmm_own_ip_addr c \<noteq> [0, 0, 0, 0] then 0x01 else 0) OR (if radius_count n \<noteq> 0 then 0x02 else 0) OR
      (if radius_count n = radius_port_count n then 0x04 else 0) OR (if radius_count n = radius_key_count n then 0x08 else 0)"
    by (auto simp: Query_config_from_driver_def Let_def m_def timeout_def quiet_def cf1_def elim!: res_bind_eq_InrE split: if_splits)
  have count: "radius_count n \<noteq> 0" using assms(2) unfolding flag flag_bits by simp
  from read_all_servers_ok [OF all] count show "\<forall>i. \<forall>s \<in> set (servers i). server_ok s" "\<exists>i. servers i \<noteq> []" by simp_all
  from read_interfaces_keep [OF ifs] have same: "dot1x_conf.truncate cf = dot1x_conf.truncate cf1" "SsidNum cf = SsidNum cf1" by simp_all
  then have eq: "session_timeout_set cf = session_timeout_set cf1" "session_timeout_interval cf = session_timeout_interval cf1"
    "quiet_interval cf = quiet_interval cf1" by (simp_all add: dot1x_conf.defs)
  show "session_timeout_set cf = 1 \<longrightarrow> 60 \<le> sint (session_timeout_interval cf)" "60 \<le> sint (quiet_interval cf)" "SsidNum cf \<le> 16"
    unfolding eq same(2) by (auto simp: cf1_def m_def)
  show "eap_if_name names \<noteq> []" by (simp add: names)
qed

section \<open>Results\<close>

text \<open>
  C32. A configuration that \<open>Config_read\<close> accepts, whatever the driver answers, is one the daemon can work with: at
  least one interface has a server, all servers have an address and a port, there are at most 16 interfaces,
  the quiet period is at least a minute, the session timeout is off or at least a minute, and a state
  machine that is made with it exists and never hangs.
\<close>

theorem config_read_sound:
  assumes "Config_read e = Inr (Some (cf, servers, names))"
  shows "(\<exists>i. servers i \<noteq> []) \<and> (\<forall>i. \<forall>s \<in> set (servers i). srv_addr s \<noteq> 0 \<and> srv_port s \<noteq> 0) \<and> SsidNum cf \<le> 16 \<and>
    60 \<le> sint (quiet_interval cf) \<and> (session_timeout_set cf = 1 \<longrightarrow> 60 \<le> sint (session_timeout_interval cf)) \<and>
    (\<exists>sm. eapol_sm_alloc (dot1x_conf.truncate cf) = Some sm \<and> sm_live sm)"
proof -
  obtain errors flag where q: "Query_config_from_driver e (default_conf (random_ikey e)) = Inr (Some (cf, servers, names, errors, flag))"
    and f: "flag AND 0x0f = 0x0f"
    using assms by (auto simp: Config_read_def elim!: res_bind_eq_InrE split: if_splits option.splits)
  note r = query_result [OF q f]
  have ok: "conf_ok (dot1x_conf.truncate cf)" using r(1) by (auto simp: conf_ok_def dot1x_conf.defs)
  then obtain sm where "eapol_sm_alloc (dot1x_conf.truncate cf) = Some sm" by (rule alloc_returns)
  with ok r show ?thesis by (auto simp: server_ok_def intro: sm_live.live_alloc)
qed

text \<open>A configuration with two interfaces. The second entry of the first one has no address.\<close>

definition srv :: "u32 \<Rightarrow> u32 \<Rightarrow> byte list \<Rightarrow> radius_srv_info" where
  "srv ip port key = \<lparr>radius_ip = ip, radius_port = port, radius_key = row 64 key, radius_key_len = of_nat (length key)\<rparr>"

definition bss :: "radius_srv_info list \<Rightarrow> dot1x_bss_info" where
  "bss srvs = \<lparr>radius_srv_num = of_nat (length srvs), radius_srv_info = srvs @ replicate (2 - length srvs) (srv 0 0 []), ieee8021xWEP = 0, key_index = 0, key_length = 0,
     key_material = replicate 13 0, bss_nasId = replicate 16 0, bss_nasId_len = 0\<rparr>"

definition two_ifs :: config_env where
  "two_ifs = \<lparr>conf_alloc_ok = True, query_alloc_ok = True, realloc_ok = \<lambda>_ _. True,
     driver_conf = Some \<lparr>mbss_num = 2, cmm_own_ip_addr = [192, 168, 1, 1], retry_interval = 0,
       cmm_session_timeout_interval = 30, cmm_quiet_interval = 10,
       EAPifname = replicate 16 (replicate 16 0), EAPifname_len = replicate 16 0,
       PreAuthifname = replicate 16 (replicate 16 0), PreAuthifname_len = replicate 16 0,
       Dot1xBssInfo = [bss [srv 0x0101A8C0 1812 [1, 2, 3], srv 0 0 [9]], bss [srv 0x0201A8C0 1812 []]] @ replicate 14 (bss [])\<rparr>,
     driver_ssid_len = \<lambda>_. Some 4, random_ikey = \<lambda>_. replicate 13 7\<rparr>"

lemma secret_of_srv: "0 \<notin> set key \<Longrightarrow> length key < 64 \<Longrightarrow> secret_of (srv ip port key) = Inr key"
proof -
  assume k: "0 \<notin> set key" "length key < 64"
  then have "unat (of_nat (length key) :: u8) = length key" by (simp add: unat_of_nat)
  moreover have "takeWhile (\<lambda>b. b \<noteq> 0) (row 64 key) = key"
  proof -
    have "takeWhile (\<lambda>b. b \<noteq> 0) (key @ replicate (64 - length key) 0) = key @ takeWhile (\<lambda>b. b \<noteq> 0) (replicate (64 - length key) 0)"
      using k(1) by (intro takeWhile_append2) auto
    also have "takeWhile (\<lambda>b. b \<noteq> 0) (replicate (64 - length key) (0 :: byte)) = []" by (cases "64 - length key") auto
    finally show ?thesis by (simp add: row_def)
  qed
  moreover have "length (row 64 key) = 64" using k(2) by (simp add: row_def)
  ultimately show ?thesis using k(2) by (simp add: secret_of_def srv_def)
qed

text \<open>
  The check of the secrets counts them: the secret of the entry without an address replaces that of the server
  before it and counts for the server of the other interface, which has none.
\<close>

lemma config_counts_compensate:
  "\<exists>cf servers names. Config_read two_ifs = Inr (Some (cf, servers, names)) \<and>
    map shared_secret (servers 0) = [[9]] \<and> map shared_secret (servers 1) = [[]]"
proof -
  let ?A = "\<lparr>srv_addr = 0x0101A8C0, srv_port = 1812, shared_secret = [9]\<rparr>"
  let ?B = "\<lparr>srv_addr = 0x0201A8C0, srv_port = 1812, shared_secret = []\<rparr>"
  let ?z = "\<lparr>radius_count = 0, radius_port_count = 0, radius_key_count = 0\<rparr>"
  have k: "secret_of (srv 0x0101A8C0 1812 [1, 2, 3]) = Inr [1, 2, 3]" "secret_of (srv 0 0 [9]) = Inr [9]"
    by (simp_all add: secret_of_srv)
  have one: "read_servers (\<lambda>_. True) (bss [srv 0x0101A8C0 1812 [1, 2, 3], srv 0 0 [9]]) [0, 1] ([], ?z) =
      Inr ([?A], \<lparr>radius_count = 1, radius_port_count = 1, radius_key_count = 2\<rparr>)"
    using k by (simp add: read_server_def bss_def Let_def Config_read_radius_addr_def upd_last_def) (simp add: srv_def)
  have two: "read_servers (\<lambda>_. True) (bss [srv 0x0201A8C0 1812 []]) [0] ([], \<lparr>radius_count = 1, radius_port_count = 1, radius_key_count = 2\<rparr>) =
      Inr ([?B], \<lparr>radius_count = 2, radius_port_count = 2, radius_key_count = 2\<rparr>)"
    by (simp add: read_server_def bss_def Let_def Config_read_radius_addr_def upd_last_def) (simp add: srv_def)
  have l: "[0..<2] = [0, 1]" "[0..<1] = [0]" by (simp_all add: upt_rec)
  have n: "unat (radius_srv_num (bss [srv 0x0101A8C0 1812 [1, 2, 3], srv 0 0 [9]])) = 2" "unat (radius_srv_num (bss [srv 0x0201A8C0 1812 []])) = 1"
    by (simp_all add: bss_def)
  have all: "read_all_servers (\<lambda>_ _. True)
      ([bss [srv 0x0101A8C0 1812 [1, 2, 3], srv 0 0 [9]], bss [srv 0x0201A8C0 1812 []]] @ replicate 14 (bss [])) [0, 1] (\<lambda>i. [], ?z) =
      Inr ((\<lambda>i. [])(0 := [?A], 1 := [?B]), \<lparr>radius_count = 2, radius_port_count = 2, radius_key_count = 2\<rparr>)"
    using one two by (simp add: n l Let_def)
  have plain_bss: "read_bss (bss srvs) i cf = Inr cf" for srvs i cf by (simp add: read_bss_def bss_def Let_def)
  have no_name: "read_name name 0 names = Inr names" for name names by (simp add: read_name_def)
  show ?thesis
    using all by (simp add: Config_read_def Query_config_from_driver_def two_ifs_def Let_def l plain_bss no_name ssids_fit_def default_conf_def)
qed

theorem config_read_sound_witness:
  "\<exists>cf servers names sm. Config_read two_ifs = Inr (Some (cf, servers, names)) \<and>
    eapol_sm_alloc (dot1x_conf.truncate cf) = Some sm \<and> sm_live sm"
  using config_counts_compensate config_read_sound [of two_ifs] by blast

end
