(* ===== verification/Crc32.thy ===== *)
theory Crc32
  imports Prelude
begin

text \<open>
  The checksum of the configuration sections (\<open>nvram/src/crc32.c\<close>) and the cyclic redundancy check it is
  meant to compute, bit by bit with the reflected polynomial \<open>0xEDB88320\<close>.
\<close>

unbundle bit_operations_syntax

section \<open>The code\<close>

definition crc_table :: "u32 list" where
  "crc_table =
    [0x00000000, 0x77073096, 0xee0e612c, 0x990951ba, 0x076dc419, 0x706af48f, 0xe963a535, 0x9e6495a3,
     0x0edb8832, 0x79dcb8a4, 0xe0d5e91e, 0x97d2d988, 0x09b64c2b, 0x7eb17cbd, 0xe7b82d07, 0x90bf1d91,
     0x1db71064, 0x6ab020f2, 0xf3b97148, 0x84be41de, 0x1adad47d, 0x6ddde4eb, 0xf4d4b551, 0x83d385c7,
     0x136c9856, 0x646ba8c0, 0xfd62f97a, 0x8a65c9ec, 0x14015c4f, 0x63066cd9, 0xfa0f3d63, 0x8d080df5,
     0x3b6e20c8, 0x4c69105e, 0xd56041e4, 0xa2677172, 0x3c03e4d1, 0x4b04d447, 0xd20d85fd, 0xa50ab56b,
     0x35b5a8fa, 0x42b2986c, 0xdbbbc9d6, 0xacbcf940, 0x32d86ce3, 0x45df5c75, 0xdcd60dcf, 0xabd13d59,
     0x26d930ac, 0x51de003a, 0xc8d75180, 0xbfd06116, 0x21b4f4b5, 0x56b3c423, 0xcfba9599, 0xb8bda50f,
     0x2802b89e, 0x5f058808, 0xc60cd9b2, 0xb10be924, 0x2f6f7c87, 0x58684c11, 0xc1611dab, 0xb6662d3d,
     0x76dc4190, 0x01db7106, 0x98d220bc, 0xefd5102a, 0x71b18589, 0x06b6b51f, 0x9fbfe4a5, 0xe8b8d433,
     0x7807c9a2, 0x0f00f934, 0x9609a88e, 0xe10e9818, 0x7f6a0dbb, 0x086d3d2d, 0x91646c97, 0xe6635c01,
     0x6b6b51f4, 0x1c6c6162, 0x856530d8, 0xf262004e, 0x6c0695ed, 0x1b01a57b, 0x8208f4c1, 0xf50fc457,
     0x65b0d9c6, 0x12b7e950, 0x8bbeb8ea, 0xfcb9887c, 0x62dd1ddf, 0x15da2d49, 0x8cd37cf3, 0xfbd44c65,
     0x4db26158, 0x3ab551ce, 0xa3bc0074, 0xd4bb30e2, 0x4adfa541, 0x3dd895d7, 0xa4d1c46d, 0xd3d6f4fb,
     0x4369e96a, 0x346ed9fc, 0xad678846, 0xda60b8d0, 0x44042d73, 0x33031de5, 0xaa0a4c5f, 0xdd0d7cc9,
     0x5005713c, 0x270241aa, 0xbe0b1010, 0xc90c2086, 0x5768b525, 0x206f85b3, 0xb966d409, 0xce61e49f,
     0x5edef90e, 0x29d9c998, 0xb0d09822, 0xc7d7a8b4, 0x59b33d17, 0x2eb40d81, 0xb7bd5c3b, 0xc0ba6cad,
     0xedb88320, 0x9abfb3b6, 0x03b6e20c, 0x74b1d29a, 0xead54739, 0x9dd277af, 0x04db2615, 0x73dc1683,
     0xe3630b12, 0x94643b84, 0x0d6d6a3e, 0x7a6a5aa8, 0xe40ecf0b, 0x9309ff9d, 0x0a00ae27, 0x7d079eb1,
     0xf00f9344, 0x8708a3d2, 0x1e01f268, 0x6906c2fe, 0xf762575d, 0x806567cb, 0x196c3671, 0x6e6b06e7,
     0xfed41b76, 0x89d32be0, 0x10da7a5a, 0x67dd4acc, 0xf9b9df6f, 0x8ebeeff9, 0x17b7be43, 0x60b08ed5,
     0xd6d6a3e8, 0xa1d1937e, 0x38d8c2c4, 0x4fdff252, 0xd1bb67f1, 0xa6bc5767, 0x3fb506dd, 0x48b2364b,
     0xd80d2bda, 0xaf0a1b4c, 0x36034af6, 0x41047a60, 0xdf60efc3, 0xa867df55, 0x316e8eef, 0x4669be79,
     0xcb61b38c, 0xbc66831a, 0x256fd2a0, 0x5268e236, 0xcc0c7795, 0xbb0b4703, 0x220216b9, 0x5505262f,
     0xc5ba3bbe, 0xb2bd0b28, 0x2bb45a92, 0x5cb36a04, 0xc2d7ffa7, 0xb5d0cf31, 0x2cd99e8b, 0x5bdeae1d,
     0x9b64c2b0, 0xec63f226, 0x756aa39c, 0x026d930a, 0x9c0906a9, 0xeb0e363f, 0x72076785, 0x05005713,
     0x95bf4a82, 0xe2b87a14, 0x7bb12bae, 0x0cb61b38, 0x92d28e9b, 0xe5d5be0d, 0x7cdcefb7, 0x0bdbdf21,
     0x86d3d2d4, 0xf1d4e242, 0x68ddb3f8, 0x1fda836e, 0x81be16cd, 0xf6b9265b, 0x6fb077e1, 0x18b74777,
     0x88085ae6, 0xff0f6a70, 0x66063bca, 0x11010b5c, 0x8f659eff, 0xf862ae69, 0x616bffd3, 0x166ccf45,
     0xa00ae278, 0xd70dd2ee, 0x4e048354, 0x3903b3c2, 0xa7672661, 0xd06016f7, 0x4969474d, 0x3e6e77db,
     0xaed16a4a, 0xd9d65adc, 0x40df0b66, 0x37d83bf0, 0xa9bcae53, 0xdebb9ec5, 0x47b2cf7f, 0x30b5ffe9,
     0xbdbdf21c, 0xcabac28a, 0x53b39330, 0x24b4a3a6, 0xbad03605, 0xcdd70693, 0x54de5729, 0x23d967bf,
     0xb3667a2e, 0xc4614ab8, 0x5d681b02, 0x2a6f2b94, 0xb40bbe37, 0xc30c8ea1, 0x5a05df1b, 0x2d02ef8d]"

definition DO1 :: "u32 \<Rightarrow> byte \<Rightarrow> u32" where
  "DO1 crc b = crc_table ! unat ((crc XOR ucast b) AND 0xff) XOR drop_bit 8 crc"

fun DO8 :: "u32 \<Rightarrow> byte list \<Rightarrow> u32" where
  "DO8 crc (b0 # b1 # b2 # b3 # b4 # b5 # b6 # b7 # rest) =
     DO1 (DO1 (DO1 (DO1 (DO1 (DO1 (DO1 (DO1 crc b0) b1) b2) b3) b4) b5) b6) b7"
| "DO8 crc buf = crc"

fun crc_loop :: "u32 \<Rightarrow> byte list \<Rightarrow> u32" where
  "crc_loop crc buf = (if 8 \<le> length buf then crc_loop (DO8 crc buf) (drop 8 buf) else fold (\<lambda>b c. DO1 c b) buf crc)"

declare crc_loop.simps [simp del]

text \<open>\<open>buf\<close> are the \<open>len\<close> bytes that are read.\<close>

definition crc32 :: "u32 \<Rightarrow> byte list \<Rightarrow> u32" where
  "crc32 crc buf = crc_loop (crc XOR 0xffffffff) buf XOR 0xffffffff"

section \<open>The reference\<close>

definition crc_bit :: "u32 \<Rightarrow> u32" where
  "crc_bit c = (if bit c 0 then drop_bit 1 c XOR 0xEDB88320 else drop_bit 1 c)"

definition crc_byte :: "u32 \<Rightarrow> byte \<Rightarrow> u32" where
  "crc_byte c b = (crc_bit ^^ 8) (c XOR ucast b)"

definition crc32_ref :: "byte list \<Rightarrow> u32" where
  "crc32_ref data = NOT (fold (\<lambda>b c. crc_byte c b) data 0xffffffff)"

section \<open>The table\<close>

lemma crc_bit_xor: "crc_bit (x XOR y) = crc_bit x XOR crc_bit y"
  by (auto simp: crc_bit_def bit_xor_iff drop_bit_xor ac_simps)

lemma crc_bits_xor: "(crc_bit ^^ n) (x XOR y) = (crc_bit ^^ n) x XOR (crc_bit ^^ n) y"
  by (induction n) (simp_all add: crc_bit_xor)

lemma crc_bits_high: "(\<And>i. i < n \<Longrightarrow> \<not> bit c i) \<Longrightarrow> (crc_bit ^^ n) c = drop_bit n c"
proof (induction n)
  case (Suc n)
  then have "(crc_bit ^^ n) c = drop_bit n c" by simp
  moreover have "\<not> bit (drop_bit n c) 0" using Suc.prems [of n] by (simp add: bit_drop_bit_eq)
  then have "crc_bit (drop_bit n c) = drop_bit (Suc n) c" by (simp add: crc_bit_def)
  ultimately show ?case by (simp only: funpow.simps comp_apply)
qed simp

text \<open>The table doubles with every bit of the index, because the reference is linear.\<close>

definition dbl :: "u32 \<Rightarrow> u32 list \<Rightarrow> u32 list" where
  "dbl t xs = xs @ map (\<lambda>x. t XOR x) xs"

definition table_upto :: "nat \<Rightarrow> u32 list \<Rightarrow> bool" where
  "table_upto k xs \<longleftrightarrow> length xs = 2 ^ k \<and> (\<forall>i < 2 ^ k. xs ! i = (crc_bit ^^ 8) (of_nat i))"

lemma power_plus_xor: "(i :: nat) < 2 ^ k \<Longrightarrow> 2 ^ k + i = 2 ^ k XOR i"
proof (rule disjunctive_add_eq_xor, rule bit_eqI)
  fix n
  assume "i < 2 ^ k"
  then have "take_bit k i = i" by (simp add: take_bit_nat_eq_self_iff)
  then have "bit i n \<Longrightarrow> n < k" by (metis bit_take_bit_iff)
  then show "bit (2 ^ k AND i) n \<longleftrightarrow> bit (0 :: nat) n" by (auto simp: bit_and_iff bit_exp_iff)
qed

lemma table_dbl:
  assumes "table_upto k xs"
  shows "table_upto (Suc k) (dbl ((crc_bit ^^ 8) (2 ^ k)) xs)"
proof -
  have "dbl ((crc_bit ^^ 8) (2 ^ k)) xs ! i = (crc_bit ^^ 8) (of_nat i)" if "i < 2 ^ Suc k" for i
  proof (cases "i < 2 ^ k")
    case True
    with assms show ?thesis by (simp add: table_upto_def dbl_def nth_append)
  next
    case False
    define j where "j = i - 2 ^ k"
    have j: "i = 2 ^ k + j" "j < 2 ^ k" using False that by (simp_all add: j_def)
    have "(of_nat i :: u32) = of_nat (2 ^ k XOR j)" using j power_plus_xor by simp
    then have "(of_nat i :: u32) = 2 ^ k XOR of_nat j" by (simp only: of_nat_xor_eq of_nat_power of_nat_numeral)
    then show ?thesis
      using assms j by (simp add: table_upto_def dbl_def nth_append crc_bits_xor)
  qed
  with assms show ?thesis by (simp add: table_upto_def dbl_def)
qed

lemma crc_powers:
  "(crc_bit ^^ 8) (2 ^ 0) = 0x77073096" "(crc_bit ^^ 8) (2 ^ 1) = 0xee0e612c" "(crc_bit ^^ 8) (2 ^ 2) = 0x076dc419"
  "(crc_bit ^^ 8) (2 ^ 3) = 0x0edb8832" "(crc_bit ^^ 8) (2 ^ 4) = 0x1db71064" "(crc_bit ^^ 8) (2 ^ 5) = 0x3b6e20c8"
  "(crc_bit ^^ 8) (2 ^ 6) = 0x76dc4190" "(crc_bit ^^ 8) (2 ^ 7) = 0xedb88320"
  by code_simp+

lemma crc_table_dbl: "crc_table = dbl 0xedb88320 (dbl 0x76dc4190 (dbl 0x3b6e20c8 (dbl 0x1db71064
    (dbl 0x0edb8832 (dbl 0x076dc419 (dbl 0xee0e612c (dbl 0x77073096 [0])))))))"
  by code_simp

lemma crc_table_bits: "table_upto 8 crc_table"
proof -
  have "table_upto 0 [0]" by (simp add: table_upto_def crc_bits_high)
  note d = table_dbl [OF this, unfolded crc_powers]
  note d = table_dbl [OF d, folded One_nat_def, unfolded crc_powers]
  have "table_upto 8 crc_table"
    unfolding crc_table_dbl
    using table_dbl [of 7, unfolded crc_powers] table_dbl [of 6, unfolded crc_powers] table_dbl [of 5, unfolded crc_powers]
      table_dbl [of 4, unfolded crc_powers] table_dbl [of 3, unfolded crc_powers] table_dbl [of 2, unfolded crc_powers] d
    by (simp add: numeral_2_eq_2 [symmetric])
  then show ?thesis .
qed

lemma split_low_byte: "(c :: u32) = (c AND 0xff) XOR (c AND NOT 0xff)"
  by (rule bit_word_eqI) (auto simp: bit_simps)

lemma DO1_crc_byte: "DO1 c b = crc_byte c b"
proof -
  let ?x = "c XOR ucast b"
  have low: "unat (?x AND 0xff) < 256"
  proof -
    have "?x AND 0xff = take_bit 8 ?x" using take_bit_eq_mask [of 8 ?x] by (simp add: mask_eq_exp_minus_1 del: take_bit_xor)
    then show ?thesis using take_bit_nat_less_exp [of 8 "unat ?x"] by (simp add: unsigned_take_bit_eq del: take_bit_xor)
  qed
  have t: "crc_table ! unat (?x AND 0xff) = (crc_bit ^^ 8) (?x AND 0xff)"
    using low crc_table_bits unfolding table_upto_def by simp
  have m: "bit (0xff :: u32) i \<longleftrightarrow> i < 8" for i using bit_mask_iff [of 8 i, where 'a = u32] by (auto simp: mask_eq_exp_minus_1)
  have h: "(crc_bit ^^ 8) (?x AND NOT 0xff) = drop_bit 8 (?x AND NOT 0xff)"
    by (rule crc_bits_high) (simp only: bit_and_iff bit_not_iff m, blast)
  have "drop_bit 8 (?x AND NOT 0xff) = drop_bit 8 c"
  proof (rule bit_word_eqI)
    fix n
    have "\<not> bit b (8 + n)" using bit_imp_le_length [of b "8 + n"] by auto
    moreover have "bit c (8 + n) \<Longrightarrow> 8 + n < 32" using bit_imp_le_length [of c "8 + n"] by auto
    ultimately show "bit (drop_bit 8 (?x AND NOT 0xff)) n = bit (drop_bit 8 c) n"
      by (simp only: bit_drop_bit_eq comp_apply bit_and_iff bit_xor_iff bit_not_iff bit_ucast_iff m possible_bit_word) auto
  qed
  then have "crc_byte c b = (crc_bit ^^ 8) (?x AND 0xff) XOR drop_bit 8 c"
    unfolding crc_byte_def by (subst split_low_byte) (simp only: crc_bits_xor h)
  with t show ?thesis by (simp only: DO1_def)
qed

lemma DO8_fold: "8 \<le> length buf \<Longrightarrow> DO8 crc buf = fold (\<lambda>b c. DO1 c b) (take 8 buf) crc"
  by (cases "(crc, buf)" rule: DO8.cases) (auto simp: numeral_eq_Suc)

lemma crc_loop_fold: "crc_loop crc buf = fold (\<lambda>b c. DO1 c b) buf crc"
proof (induction crc buf rule: crc_loop.induct)
  case (1 crc buf)
  show ?case
  proof (cases "8 \<le> length buf")
    case True
    have "fold (\<lambda>b c. DO1 c b) (take 8 buf @ drop 8 buf) crc = crc_loop (DO8 crc buf) (drop 8 buf)"
      using "1.IH" True by (simp only: fold_append comp_apply DO8_fold)
    with True show ?thesis by (subst crc_loop.simps) simp
  qed (subst crc_loop.simps, simp)
qed

lemma xor_ones: "(x :: u32) XOR 0xffffffff = NOT x"
proof -
  have "(0xffffffff :: u32) = - 1" by simp
  then show ?thesis by (simp only: bit.xor_one_right)
qed

lemma crc32_reference: "crc32 0 data = crc32_ref data"
  by (simp only: crc32_def crc32_ref_def crc_loop_fold DO1_crc_byte xor.left_neutral) (rule xor_ones)

section \<open>Errors are noticed\<close>

lemma xor_cancel_left: "(c :: u32) XOR x = c XOR y \<Longrightarrow> x = y"
  by (metis xor.left_commute xor_self_eq xor.right_neutral)

lemma xor_cancel_right: "(x :: u32) XOR c = y XOR c \<Longrightarrow> x = y"
  by (rule xor_cancel_left [of c]) (simp only: xor.commute)

text \<open>A step can be undone: the highest bit of the result is the lowest bit before it.\<close>

lemma crc_bit_inj: "crc_bit x = crc_bit y \<Longrightarrow> x = y"
proof -
  have b0: "bit (crc_bit z) 31 \<longleftrightarrow> bit z 0" for z :: u32
    by (auto simp: crc_bit_def bit_xor_iff bit_drop_bit_eq dest: bit_imp_le_length)
  assume e: "crc_bit x = crc_bit y"
  then have b: "bit x 0 = bit y 0" using b0 by metis
  then have d: "drop_bit 1 x = drop_bit 1 y"
    using e xor_cancel_right by (auto simp: crc_bit_def split: if_splits)
  show "x = y"
  proof (rule bit_word_eqI)
    fix n
    show "bit x n = bit y n"
    proof (cases n)
      case (Suc m)
      have "bit (drop_bit 1 x) m = bit (drop_bit 1 y) m" using d by simp
      with Suc show ?thesis by (simp add: bit_drop_bit_eq)
    qed (use b in simp)
  qed
qed

lemma crc_bits_inj: "(crc_bit ^^ n) x = (crc_bit ^^ n) y \<Longrightarrow> x = y"
  by (induction n) (auto dest: crc_bit_inj)

lemma ucast_byte_inj: "(ucast (a :: byte) :: u32) = ucast b \<Longrightarrow> a = b"
proof -
  have i: "ucast (ucast c :: u32) = c" for c :: byte by (rule ucast_up_ucast_id) (simp add: is_up)
  assume "(ucast a :: u32) = ucast b"
  then show "a = b" by (metis i)
qed

lemma crc_byte_inj: "crc_byte c a = crc_byte c b \<Longrightarrow> a = b" "crc_byte c a = crc_byte d a \<Longrightarrow> c = d"
  unfolding crc_byte_def by (blast dest: crc_bits_inj xor_cancel_left xor_cancel_right ucast_byte_inj)+

lemma crc_fold_inj: "fold (\<lambda>b c. crc_byte c b) zs c = fold (\<lambda>b c. crc_byte c b) zs d \<Longrightarrow> c = d"
  by (induction zs arbitrary: c d) (auto dest: crc_byte_inj(2))

lemma crc32_notices_byte:
  assumes "crc32_ref (xs @ a # ys) = crc32_ref (xs @ b # ys)"
  shows "a = b"
proof -
  have "NOT (NOT (fold (\<lambda>b c. crc_byte c b) (xs @ a # ys) 0xffffffff)) = NOT (NOT (fold (\<lambda>b c. crc_byte c b) (xs @ b # ys) 0xffffffff))"
    using assms unfolding crc32_ref_def by (rule arg_cong)
  then show ?thesis by (auto dest!: crc_fold_inj crc_byte_inj(1))
qed

end
