(* ===== verification/Flash.thy ===== *)
theory Flash
  imports Prelude
begin

text \<open>
  Reading and writing a flash partition (\<open>nvram/src/flash.c\<close>). A partition is a list of bytes with an erase
  size. The driver of the flash memory is outside: \<open>program old new\<close> is the content of an erased or written
  cell after a write; what the code relies on is that erased cells take the written value. The outcomes of the
  system calls are arguments, numbered in the order of the turns of the loop; a call that succeeds is complete.
  The partition is a whole number of erase blocks. The device is opened at position 0.
\<close>

unbundle bit_operations_syntax

section \<open>The device\<close>

record mtd =
  mtd_bytes :: "byte list"
  erasesize :: nat

definition mtd_erase :: "nat \<Rightarrow> nat \<Rightarrow> byte list \<Rightarrow> byte list" where
  "mtd_erase start n bytes = move_at start (replicate n 0xff) bytes"

definition mtd_program :: "(byte \<Rightarrow> byte \<Rightarrow> byte) \<Rightarrow> nat \<Rightarrow> byte list \<Rightarrow> byte list \<Rightarrow> byte list" where
  "mtd_program program pos new bytes = move_at pos (map2 program (take (length new) (drop pos bytes)) new) bytes"

record flash_env =
  open_ok :: bool
  info_ok :: bool
  bak_ok :: "nat \<Rightarrow> bool"
  read_ok :: "nat \<Rightarrow> bool"
  erase_ok :: "nat \<Rightarrow> bool"
  write_ok :: "nat \<Rightarrow> bool"

section \<open>The code\<close>

definition flash_read :: "flash_env \<Rightarrow> mtd \<Rightarrow> nat \<Rightarrow> nat \<Rightarrow> byte list option" where
  "flash_read e dev from len =
     (if \<not> open_ok e then None
      else if \<not> info_ok e then None
      else if length (mtd_bytes dev) < len then None
      else if \<not> read_ok e 0 then None
      else Some (take len (drop from (mtd_bytes dev))))"

lemma piece_less: "0 < e \<Longrightarrow> to AND (e - 1) < (e :: nat)"
proof -
  assume "0 < e"
  have "int (to AND (e - 1)) \<le> int (e - 1)" using AND_upper2 [of "int (e - 1)" "int to"] by (simp add: of_nat_and_eq)
  with \<open>0 < e\<close> show ?thesis by linarith
qed

text \<open>
  The loop of \<open>flash_write\<close>: \<open>n\<close> is the number of the turn, \<open>pos\<close> the position in the device, \<open>buf\<close> what is still to be
  written, \<open>ret\<close> the result of the last call, \<open>freed\<close> whether \<open>bak\<close> points to a block that was freed. With an erase size
  of 0 the loop does not end. The position matters because a whole block is written where the device
  stands, without a call of \<open>lseek\<close>.
\<close>

function flash_write_loop ::
  "(byte \<Rightarrow> byte \<Rightarrow> byte) \<Rightarrow> flash_env \<Rightarrow> nat \<Rightarrow> nat \<Rightarrow> byte list \<Rightarrow> nat \<Rightarrow> bool \<Rightarrow> int \<Rightarrow> mtd \<Rightarrow> (int \<times> mtd) res" where
  "flash_write_loop program e n pos buf to freed ret dev =
     (if buf = [] then Inr (ret, dev)
      else if erasesize dev = 0 then Inl No_Return
      else if length buf AND (erasesize dev - 1) \<noteq> 0 \<or> length buf < erasesize dev then
        let piece = to AND (erasesize dev - 1); bakaddr = to - piece;
          bak = take (erasesize dev) (drop bakaddr (mtd_bytes dev));
          piece_size = min (length buf) (erasesize dev - piece);
          new = move_at piece (take piece_size buf) bak;
          erased = dev\<lparr>mtd_bytes := mtd_erase bakaddr (erasesize dev) (mtd_bytes dev)\<rparr>;
          written = erased\<lparr>mtd_bytes := mtd_program program bakaddr new (mtd_bytes erased)\<rparr>
        in if \<not> bak_ok e n \<or> \<not> read_ok e n \<or> \<not> erase_ok e n then Inr (- 1, dev)
           else if \<not> write_ok e n then Inr (- 1, erased)
           else flash_write_loop program e (n + 1) (bakaddr + erasesize dev) (drop piece_size buf) (to + piece_size)
             True (int (erasesize dev)) written
      else
        let erased = dev\<lparr>mtd_bytes := mtd_erase to (erasesize dev) (mtd_bytes dev)\<rparr>;
          written = erased\<lparr>mtd_bytes := mtd_program program pos (take (erasesize dev) buf) (mtd_bytes erased)\<rparr>
        in if \<not> erase_ok e n then Inr (- 1, dev)
           else if \<not> write_ok e n then if freed then Inl Use_After_Free else Inr (- 1, erased)
           else flash_write_loop program e (n + 1) (pos + erasesize dev) (drop (erasesize dev) buf) (to + erasesize dev)
             freed (int (erasesize dev)) written)"
  by pat_completeness auto

termination
proof (relation "measure (\<lambda>(program, e, n, pos, buf, to, freed, ret, dev). length buf)", goal_cases)
  case (2 program e n pos buf to freed ret dev piece bakaddr bak piece_size new erased written)
  then show ?case using piece_less [of "erasesize dev" to] by auto
qed auto

declare flash_write_loop.simps [simp del]

definition flash_write ::
  "(byte \<Rightarrow> byte \<Rightarrow> byte) \<Rightarrow> flash_env \<Rightarrow> mtd \<Rightarrow> byte list \<Rightarrow> nat \<Rightarrow> (int \<times> mtd) res" where
  "flash_write program e dev buf to =
     (if \<not> open_ok e \<or> \<not> info_ok e \<or> length (mtd_bytes dev) < length buf then Inr (- 1, dev)
      else flash_write_loop program e 0 0 buf to False 0 dev)"

section \<open>What is written\<close>

lemma and_pred_power: "x AND (2 ^ k - 1) = x mod (2 ^ k :: nat)"
  by (metis mask_eq_exp_minus_1 take_bit_eq_mask take_bit_eq_mod)

text \<open>What the code relies on of the device: erased cells take what is written to them.\<close>

definition takes_erased :: "(byte \<Rightarrow> byte \<Rightarrow> byte) \<Rightarrow> bool" where
  "takes_erased program \<longleftrightarrow> (\<forall>b. program 0xff b = b)"

definition all_ok :: "flash_env \<Rightarrow> bool" where
  "all_ok e \<longleftrightarrow> open_ok e \<and> info_ok e \<and> (\<forall>j. bak_ok e j \<and> read_ok e j \<and> erase_ok e j \<and> write_ok e j)"

text \<open>Erasing and writing the same bytes replaces them.\<close>

lemma program_erased:
  assumes "takes_erased program" and "off + length new \<le> length bytes"
  shows "mtd_program program off new (mtd_erase off (length new) bytes) = move_at off new bytes"
proof -
  have "map2 program (replicate n 0xff) xs = xs" if "length xs = n" for xs n
    using that assms(1) by (induction xs arbitrary: n) (auto simp: takes_erased_def)
  then have m: "map2 program (replicate (length new) 0xff) new = new" by simp
  have "take (length new) (drop off (mtd_erase off (length new) bytes)) = replicate (length new) 0xff"
    using assms(2) by (simp add: mtd_erase_def drop_move_at)
  then show ?thesis
    using assms(2) m by (simp add: mtd_program_def mtd_erase_def move_at_move_at)
qed

text \<open>A piece inside an erase block: the rest of the block is written back as it was.\<close>

lemma write_piece:
  assumes "takes_erased program" and "bak + n \<le> length bytes" and "piece + length new \<le> n"
  shows "mtd_program program bak (move_at piece new (take n (drop bak bytes))) (mtd_erase bak n bytes) =
    move_at (bak + piece) new bytes"
proof -
  let ?b = "move_at piece new (take n (drop bak bytes))"
  have l: "length ?b = n" using assms(2,3) by simp
  have p: "min n piece = piece" "min piece n = piece" using assms(3) by simp_all
  have "take (bak + piece) bytes = take bak bytes @ take piece (drop bak bytes)" by (rule take_add)
  moreover have "drop (piece + length new) (take n (drop bak bytes)) @ drop (bak + n) bytes = drop (bak + piece + length new) bytes"
    using append_take_drop_id [of "n - (piece + length new)" "drop (bak + piece + length new) bytes"] assms(3)
    by (simp add: drop_take ac_simps)
  ultimately have "move_at bak ?b bytes = move_at (bak + piece) new bytes"
    unfolding move_at_def [of bak] l by (simp add: move_at_def p)
  then show ?thesis using program_erased [OF assms(1), of bak ?b bytes] assms(2) l by simp
qed

lemma block_fits: "E dvd n \<Longrightarrow> t < n \<Longrightarrow> t - t mod E + E \<le> (n :: nat)"
proof -
  assume d: "E dvd n" and t: "t < n"
  then obtain q where q: "n = E * q" by blast
  have "t div E < q" using t q by (simp add: mult.commute less_mult_imp_div_less)
  then have "E * (t div E) + E \<le> E * q" by (metis Suc_leI mult_Suc_right mult_le_mono2 add.commute)
  then show ?thesis using q by (simp add: minus_mod_eq_mult_div)
qed

text \<open>One turn of the loop writes a first part of the data, and then the device stands behind it.\<close>

lemma flash_write_turn:
  assumes "takes_erased program" and "all_ok e" and "buf \<noteq> []"
    and "erasesize dev = 2 ^ k" and "2 ^ k dvd length (mtd_bytes dev)" and "to + length buf \<le> length (mtd_bytes dev)"
    and "pos = to \<or> \<not> 2 ^ k dvd length buf"
  obtains size freed' pos' where "0 < size" and "size \<le> length buf" and "size = length buf \<or> pos' = to + size"
    and "flash_write_loop program e n pos buf to freed ret dev =
      flash_write_loop program e (n + 1) pos' (drop size buf) (to + size) freed' (2 ^ k)
        (dev\<lparr>mtd_bytes := move_at to (take size buf) (mtd_bytes dev)\<rparr>)"
proof -
  note ok = assms(2) [unfolded all_ok_def]
  let ?E = "2 ^ k :: nat"
  have E: "erasesize dev = ?E" "0 < ?E" using assms(4) by simp_all
  have n: "0 < length buf" using assms(3) by simp
  have cond: "length buf AND (erasesize dev - 1) \<noteq> 0 \<or> length buf < erasesize dev \<longleftrightarrow> \<not> ?E dvd length buf"
    using n nat_dvd_not_less [of "length buf" ?E] unfolding E(1) and_pred_power by (auto simp: dvd_eq_mod_eq_0)
  show thesis
  proof (cases "?E dvd length buf")
    case True
    then have le: "?E \<le> length buf" and pos: "pos = to" using n assms(7) by (auto dest: dvd_imp_le)
    have "mtd_program program to (take ?E buf) (mtd_erase to ?E (mtd_bytes dev)) = move_at to (take ?E buf) (mtd_bytes dev)"
      using program_erased [OF assms(1), of to "take ?E buf" "mtd_bytes dev"] assms(6) le by simp
    then show thesis
      using assms(3) cond True ok E pos le
      by (intro that [of ?E "to + ?E" freed]) (simp, simp, simp, subst flash_write_loop.simps, simp add: Let_def)
  next
    case False
    let ?p = "to mod ?E" and ?m = "min (length buf) (?E - to mod ?E)"
    have p: "?p < ?E" and b: "to - ?p + ?p = to" by simp_all
    have fits: "to - ?p + ?E \<le> length (mtd_bytes dev)" using block_fits [OF assms(5), of to] assms(6) n by simp
    have "?p + length (take ?m buf) \<le> ?E" using p unfolding length_take by linarith
    then have w: "mtd_program program (to - ?p) (move_at ?p (take ?m buf) (take ?E (drop (to - ?p) (mtd_bytes dev))))
        (mtd_erase (to - ?p) ?E (mtd_bytes dev)) = move_at to (take ?m buf) (mtd_bytes dev)"
      using write_piece [OF assms(1) fits, of ?p "take ?m buf"] unfolding b by blast
    have "flash_write_loop program e n pos buf to freed ret dev =
        flash_write_loop program e (n + 1) (to - ?p + ?E) (drop ?m buf) (to + ?m) True (2 ^ k)
          (dev\<lparr>mtd_bytes := move_at to (take ?m buf) (mtd_bytes dev)\<rparr>)"
      using assms(3) cond False ok E w unfolding and_pred_power
      by (subst flash_write_loop.simps) (simp add: Let_def and_pred_power [unfolded One_nat_def])
    moreover have "?m = length buf \<or> to - ?p + ?E = to + ?m" using p b by (simp add: min_def)
    ultimately show thesis using that [of ?m "to - ?p + ?E" True] n p by simp
  qed
qed

lemma flash_write_loop_correct:
  assumes "takes_erased program" and "all_ok e"
  shows "erasesize dev = 2 ^ k \<Longrightarrow> 2 ^ k dvd length (mtd_bytes dev) \<Longrightarrow> to + length buf \<le> length (mtd_bytes dev) \<Longrightarrow>
    buf = [] \<or> pos = to \<or> \<not> 2 ^ k dvd length buf \<Longrightarrow>
    flash_write_loop program e n pos buf to freed ret dev =
      Inr (if buf = [] then ret else 2 ^ k, dev\<lparr>mtd_bytes := move_at to buf (mtd_bytes dev)\<rparr>)"
proof (induction "length buf" arbitrary: n pos buf to freed ret dev rule: less_induct)
  case less
  show ?case
  proof (cases "buf = []")
    case True
    then show ?thesis using less.prems(3) by (subst flash_write_loop.simps) simp
  next
    case False
    with less.prems(4) have "pos = to \<or> \<not> 2 ^ k dvd length buf" by simp
    from flash_write_turn [OF assms False less.prems(1-3) this, of n freed ret]
    obtain size freed' pos' where size: "0 < size" "size \<le> length buf" "size = length buf \<or> pos' = to + size"
      and turn: "flash_write_loop program e n pos buf to freed ret dev =
        flash_write_loop program e (n + 1) pos' (drop size buf) (to + size) freed' (2 ^ k)
          (dev\<lparr>mtd_bytes := move_at to (take size buf) (mtd_bytes dev)\<rparr>)" .
    have "move_at (to + size) (drop size buf) (move_at to (take size buf) (mtd_bytes dev)) = move_at to buf (mtd_bytes dev)"
      using move_at_adjacent [of to "take size buf" "drop size buf" "mtd_bytes dev"] size(2) less.prems(3) by simp
    then show ?thesis
      unfolding turn using less.prems False size by (subst less.hyps) auto
  qed
qed

text \<open>Away from the start of the device, data of whole blocks goes to the wrong place.\<close>

lemma flash_write_whole_block:
  assumes "takes_erased program" and "all_ok e" and "erasesize dev = 2 ^ k" and "length buf = 2 ^ k"
    and "length (mtd_bytes dev) = n * 2 ^ k" and "0 < i" and "i < n"
  shows "flash_write program e dev buf (i * 2 ^ k) = Inr (2 ^ k,
    dev\<lparr>mtd_bytes := mtd_program program 0 buf (mtd_erase (i * 2 ^ k) (2 ^ k) (mtd_bytes dev))\<rparr>)"
proof -
  have "buf \<noteq> []" using assms(4) by auto
  moreover have "(2 :: nat) ^ k \<le> n * 2 ^ k" using assms(6,7) by simp
  ultimately show ?thesis
    using assms(2-5) and_pred_power [of "2 ^ k" k]
    by (simp add: flash_write_def all_ok_def flash_write_loop.simps [of program e 0] flash_write_loop.simps [of _ _ "Suc 0"] Let_def)
qed

end
