(* ===== verification/Nvram.thy ===== *)
theory Nvram
  imports Crc32 Flash
begin

text \<open>
  The configuration store (\<open>nvram/src/nvram.c\<close>, \<open>main_nvram.c\<close>, \<open>mtd_size\<close> of \<open>flash.c\<close>). The partition \<open>Config\<close> is
  divided into sections; a section is a checksum and text \<open>name=value\<close>, each ended by a zero byte. Every run
  of the program reads a cache file into memory (\<open>nvram_parse\<close>), works on it there and writes the whole of it
  back (\<open>nvram_commit\<close>), to the file and on demand to the flash memory.

  Strings are byte lists without the final zero. The target is little endian and its \<open>char\<close> is signed. The
  table of sections is an argument, because \<open>layout.h\<close> lets a product replace it; \<open>nvlayout\<close> is the one that
  is built. The content of memory that is allocated and not set is an argument too (\<open>slots\<close>, \<open>buffer\<close>).
  \<open>strdup\<close> is taken to succeed; strings that are no longer reachable are not freed by the code. Warnings on
  the error stream are left out.
\<close>

unbundle bit_operations_syntax

section \<open>Data\<close>

text \<open>A pointer to a string: null, set, or never set.\<close>

datatype cptr = Null | Str "byte list" | Wild

record entry_t =
  ent_name :: cptr
  ent_value :: cptr

record section_t =
  sec_name :: "byte list"
  sec_offset :: nat
  sec_size :: nat
  sec_flag :: u32
  sec_crc :: u32
  sec_cache :: "entry_t list"

record layout_t =
  lay_name :: "byte list"
  lay_offset :: nat
  lay_size :: nat
  lay_flag :: u32

abbreviation MAX_ENTRY :: nat where
  "MAX_ENTRY \<equiv> 500"

abbreviation NV_RO :: u32 where
  "NV_RO \<equiv> 1"

abbreviation OK :: int where
  "OK \<equiv> 0"

abbreviation NG :: int where
  "NG \<equiv> - 1"

definition ascii :: "string \<Rightarrow> byte list" where
  "ascii s = map of_char s"

definition nvlayout :: "layout_t list" where
  "nvlayout =
     [\<lparr>lay_name = ascii ''uboot'', lay_offset = 0x0, lay_size = 0x1000, lay_flag = NV_RO\<rparr>,
      \<lparr>lay_name = ascii ''readonly'', lay_offset = 0x1000, lay_size = 0x1000, lay_flag = NV_RO\<rparr>,
      \<lparr>lay_name = ascii ''test1'', lay_offset = 0x2000, lay_size = 0x4000, lay_flag = 0\<rparr>,
      \<lparr>lay_name = ascii ''test2'', lay_offset = 0x6000, lay_size = 0x2000, lay_flag = 0\<rparr>,
      \<lparr>lay_name = ascii ''test3'', lay_offset = 0x8000, lay_size = 0x8000, lay_flag = 0\<rparr>]"

text \<open>What outlives a run, and the state of a run: the static variables and the lines printed.\<close>

record disk =
  cache_file :: "byte list option"
  config_mtd :: mtd

record nvram = disk +
  nvram_mtd_size :: nat
  nvramcache :: "section_t list option"
  printed :: "byte list list"

text \<open>
  The outside of a run: the lines of \<open>/proc/mtd\<close>, the outcomes of opening and allocating, the content of
  fresh memory, the outcomes of \<open>fwrite\<close> and of the calls on the flash device. The fields \<open>dump_\<close> are those of
  \<open>nvram_filecache\<close>; \<open>data_ok\<close>, \<open>cache_ok\<close> and \<open>slots\<close> have the number of the call of \<open>nvram_parse\<close> in the run. A cache
  file that exists can be opened.
\<close>

record nvram_env =
  proc_mtd :: "byte list list option"
  create_ok :: bool
  dump_buffer_ok :: bool
  dump_buffer :: "byte list"
  dump_put_ok :: "nat \<Rightarrow> bool"
  dump_env :: "nat \<Rightarrow> flash_env"
  data_ok :: "nat \<Rightarrow> bool"
  cache_ok :: "nat \<Rightarrow> bool"
  slots :: "nat \<Rightarrow> nat \<Rightarrow> entry_t list"
  buffer_ok :: bool
  buffer :: "byte list"
  put_ok :: "nat \<Rightarrow> bool"
  programs :: "byte \<Rightarrow> byte \<Rightarrow> byte"
  write_env :: flash_env

section \<open>Entries of a section\<close>

fun nvram_section :: "section_t list \<Rightarrow> byte list \<Rightarrow> nat option" where
  "nvram_section [] name = None"
| "nvram_section (s # ss) name = (if sec_name s = name then Some 0 else map_option Suc (nvram_section ss name))"

text \<open>The slot whose name is the key, and the first free slot.\<close>

fun find_name :: "byte list \<Rightarrow> entry_t list \<Rightarrow> nat option res" where
  "find_name key [] = Inr None"
| "find_name key (e # es) =
     (case ent_name e of
        Wild \<Rightarrow> Inl Wild_Pointer
      | Null \<Rightarrow> res_bind (find_name key es) (\<lambda>r. Inr (map_option Suc r))
      | Str s \<Rightarrow> if s = key then Inr (Some 0) else res_bind (find_name key es) (\<lambda>r. Inr (map_option Suc r)))"

fun find_room :: "entry_t list \<Rightarrow> nat option" where
  "find_room [] = None"
| "find_room (e # es) = (if ent_name e = Null then Some 0 else map_option Suc (find_room es))"

definition nvram_buf_del :: "nvram \<Rightarrow> byte list \<Rightarrow> byte list \<Rightarrow> (int \<times> nvram) res" where
  "nvram_buf_del st section key =
     (case nvramcache st of
        None \<Rightarrow> Inl Null_Deref
      | Some secs \<Rightarrow>
          case nvram_section secs section of
            None \<Rightarrow> Inr (NG, st)
          | Some n \<Rightarrow>
              let sect = secs ! n; cache = sec_cache sect in
              if flag_set (sec_flag sect) NV_RO then Inr (NG, st)
              else res_bind (find_name key cache) (\<lambda>r.
                case r of
                  None \<Rightarrow> Inr (NG, st)
                | Some i \<Rightarrow>
                    if ent_value (cache ! i) = Wild then Inl Wild_Pointer
                    else Inr (OK, st\<lparr>nvramcache := Some (secs[n := sect\<lparr>sec_cache :=
                      cache[i := \<lparr>ent_name = Null, ent_value = Null\<rparr>]\<rparr>])\<rparr>)))"

definition nvram_buf_set :: "nvram \<Rightarrow> byte list \<Rightarrow> byte list \<Rightarrow> byte list \<Rightarrow> (int \<times> nvram) res" where
  "nvram_buf_set st section key val =
     (case nvramcache st of
        None \<Rightarrow> Inl Null_Deref
      | Some secs \<Rightarrow>
          case nvram_section secs section of
            None \<Rightarrow> Inr (NG, st)
          | Some n \<Rightarrow>
              let sect = secs ! n; cache = sec_cache sect;
                put = (\<lambda>i. st\<lparr>nvramcache := Some (secs[n := sect\<lparr>sec_cache :=
                  cache[i := \<lparr>ent_name = Str key, ent_value = Str val\<rparr>]\<rparr>])\<rparr>)
              in if flag_set (sec_flag sect) NV_RO then Inr (NG, st)
              else res_bind (find_name key cache) (\<lambda>r.
                case r of
                  Some i \<Rightarrow> Inr (OK, put i)
                | None \<Rightarrow>
                    case find_room cache of
                      None \<Rightarrow> Inr (NG, st)
                    | Some i \<Rightarrow> if ent_value (cache ! i) \<noteq> Null then Inl Assertion else Inr (OK, put i)))"

definition nvram_buf_get :: "nvram \<Rightarrow> byte list \<Rightarrow> byte list \<Rightarrow> (cptr \<times> nvram) res" where
  "nvram_buf_get st section key =
     (case nvramcache st of
        None \<Rightarrow> Inl Null_Deref
      | Some secs \<Rightarrow>
          case nvram_section secs section of
            None \<Rightarrow> Inr (Null, st)
          | Some n \<Rightarrow>
              let cache = sec_cache (secs ! n) in
              res_bind (find_name key cache) (\<lambda>r.
                case r of
                  None \<Rightarrow> Inr (Null, st)
                | Some i \<Rightarrow>
                    case ent_value (cache ! i) of
                      Wild \<Rightarrow> Inl Wild_Pointer
                    | Null \<Rightarrow> Inr (Null, st\<lparr>printed := printed st @ [ascii ''(null)'']\<rparr>)
                    | Str v \<Rightarrow> Inr (Str v, st\<lparr>printed := printed st @ [v]\<rparr>)))"

section \<open>From the file to memory\<close>

text \<open>C strings in a buffer: the string that starts at \<open>p\<close>, and the place of a byte in it.\<close>

definition c_str :: "byte list \<Rightarrow> nat \<Rightarrow> byte list res" where
  "c_str data p =
     (let s = takeWhile (\<lambda>b. b \<noteq> 0) (drop p data)
      in if p + length s < length data then Inr s else Inl Out_Of_Bounds)"

definition strchr :: "byte list \<Rightarrow> nat \<Rightarrow> byte \<Rightarrow> nat option res" where
  "strchr data p c =
     (let q = p + length (takeWhile (\<lambda>b. b \<noteq> 0 \<and> b \<noteq> c) (drop p data))
      in if length data \<le> q then Inl Out_Of_Bounds else Inr (if data ! q = c then Some q else None))"

text \<open>The loop over the text of a section, which ends at \<open>lim\<close>; 61 is the equals sign, which is overwritten.\<close>

function parse_entries ::
  "nat \<Rightarrow> byte list \<Rightarrow> nat \<Rightarrow> nat \<Rightarrow> entry_t list \<Rightarrow> (entry_t list \<times> byte list) res" where
  "parse_entries lim data p j cache =
     (if p < lim \<and> j < MAX_ENTRY then
        if length data \<le> p then Inl Out_Of_Bounds
        else if sint (data ! p) < 32 \<or> 128 < sint (data ! p) then Inr (cache, data)
        else case strchr data p 61 of
          Inl e \<Rightarrow> Inl e
        | Inr None \<Rightarrow> Inr (cache, data)
        | Inr (Some q) \<Rightarrow>
            case c_str (data[q := 0]) p of
              Inl e \<Rightarrow> Inl e
            | Inr name \<Rightarrow>
                case c_str (data[q := 0]) (q + 1) of
                  Inl e \<Rightarrow> Inl e
                | Inr val \<Rightarrow>
                    parse_entries lim (data[q := 0]) (q + 1 + length val + 1) (j + 1)
                      (cache[j := \<lparr>ent_name = Str name, ent_value = Str val\<rparr>])
      else Inr (cache, data))"
  by pat_completeness auto
termination
  by (relation "measure (\<lambda>(lim, data, p, j, cache). MAX_ENTRY - j)") auto

declare parse_entries.simps [simp del]

text \<open>
  One section. \<open>fresh\<close> is the content of its slots before: the size given to \<open>memset\<close> is the size of a size, so
  that they are not cleared. A wrong checksum leads to a warning only. For a section of fewer than 4 bytes, which
  no layout has (the sections of \<open>nvlayout\<close> have 4096 bytes and more), the size less 4 would wrap around in the code; here and in
  \<open>commit_section\<close> it is 0. \<open>fread\<close> is taken to deliver the whole file, as the assertion after it demands.
\<close>

definition parse_section :: "layout_t \<Rightarrow> entry_t list \<Rightarrow> byte list \<Rightarrow> (section_t \<times> byte list) res" where
  "parse_section lay fresh data =
     (if length data < lay_offset lay + 4 \<or> length data < lay_offset lay + lay_size lay then Inl Out_Of_Bounds
      else res_bind (parse_entries (lay_offset lay + lay_size lay) data (lay_offset lay + 4) 0 fresh)
        (\<lambda>(cache, data'). Inr
          (\<lparr>sec_name = lay_name lay, sec_offset = lay_offset lay, sec_size = lay_size lay, sec_flag = lay_flag lay,
            sec_crc = crc32 0 (take (lay_size lay - 4) (drop (lay_offset lay + 4) data)), sec_cache = cache\<rparr>, data')))"

fun parse_sections :: "(nat \<Rightarrow> entry_t list) \<Rightarrow> nat \<Rightarrow> layout_t list \<Rightarrow> byte list \<Rightarrow> section_t list res" where
  "parse_sections fresh i [] data = Inr []"
| "parse_sections fresh i (lay # lays) data =
     res_bind (parse_section lay (fresh i) data) (\<lambda>(sect, data').
       res_bind (parse_sections fresh (Suc i) lays data') (\<lambda>secs. Inr (sect # secs)))"

text \<open>\<open>file\<close> is the content of the file, if it can be opened. The section that is asked for is not used.\<close>

definition nvram_parse :: "layout_t list \<Rightarrow> nvram_env \<Rightarrow> nat \<Rightarrow> byte list option \<Rightarrow> nvram \<Rightarrow> (int \<times> nvram) res" where
  "nvram_parse lays e call file st =
     (case file of
        None \<Rightarrow> Inr (NG, st)
      | Some data \<Rightarrow>
          if \<not> data_ok e call then Inr (NG, st)
          else if \<not> cache_ok e call then Inl Null_Deref
          else res_bind (parse_sections (slots e call) 0 lays data) (\<lambda>secs. Inr (OK, st\<lparr>nvramcache := Some secs\<rparr>)))"

section \<open>From memory to the file\<close>

text \<open>The text of the entries is put at \<open>p\<close>; no result when it would reach \<open>lim\<close>.\<close>

fun commit_entries :: "nat \<Rightarrow> entry_t list \<Rightarrow> nat \<Rightarrow> byte list \<Rightarrow> (nat \<times> byte list) option res" where
  "commit_entries lim [] p buf = Inr (Some (p, buf))"
| "commit_entries lim (e # es) p buf =
     (case ent_name e of
        Null \<Rightarrow> commit_entries lim es p buf
      | Wild \<Rightarrow> Inl Wild_Pointer
      | Str name \<Rightarrow>
          case ent_value e of
            Null \<Rightarrow> Inl Assertion
          | Wild \<Rightarrow> Inl Wild_Pointer
          | Str val \<Rightarrow>
              let l = length name + length val + 2 in
              if lim \<le> p + l then Inr None
              else if length buf < p + l then Inl Out_Of_Bounds
              else commit_entries lim es (p + l) (move_at p (name @ [61] @ val @ [0]) buf))"

definition commit_section :: "section_t \<Rightarrow> byte list \<Rightarrow> (section_t \<times> byte list) option res" where
  "commit_section sect buf =
     (let off = sec_offset sect in
      res_bind (commit_entries (off + 4 + sec_size sect) (sec_cache sect) (off + 4) buf) (\<lambda>r.
        case r of
          None \<Rightarrow> Inr None
        | Some (p, buf1) \<Rightarrow>
            if length buf1 \<le> p then Inl Out_Of_Bounds
            else if length buf1 < off + sec_size sect \<or> length buf1 < off + 4 then Inl Out_Of_Bounds
            else
              let buf2 = buf1[p := 0]; crc = crc32 0 (take (sec_size sect - 4) (drop (off + 4) buf2))
              in Inr (Some (sect\<lparr>sec_crc := crc\<rparr>, move_at off (u32_bytes crc) buf2))))"

text \<open>Write at a position of a file; a gap before it is filled with zeros.\<close>

definition file_put :: "nat \<Rightarrow> byte list \<Rightarrow> byte list \<Rightarrow> byte list" where
  "file_put pos bytes file = move_at pos bytes (file @ replicate (pos - length file) 0)"

fun commit_sections ::
  "nvram_env \<Rightarrow> nat \<Rightarrow> section_t list \<Rightarrow> byte list \<Rightarrow> byte list \<Rightarrow> (int \<times> section_t list \<times> byte list \<times> byte list) res" where
  "commit_sections e i [] buf file = Inr (OK, [], buf, file)"
| "commit_sections e i (s # ss) buf file =
     res_bind (commit_section s buf) (\<lambda>r.
       case r of
         None \<Rightarrow> Inr (NG, s # ss, buf, file)
       | Some (s', buf') \<Rightarrow>
           if \<not> put_ok e i then Inl Assertion
           else res_bind (commit_sections e (Suc i) ss buf'
               (file_put (sec_offset s) (take (sec_size s) (drop (sec_offset s) buf')) file))
             (\<lambda>(rc, ss', buf'', file'). Inr (rc, s' # ss', buf'', file')))"

text \<open>When the file cannot be opened, \<open>fclose\<close> is called with a null pointer.\<close>

definition nvram_commit :: "nvram_env \<Rightarrow> bool \<Rightarrow> nvram \<Rightarrow> (int \<times> nvram) res" where
  "nvram_commit e flash st =
     (case cache_file st of
        None \<Rightarrow> Inl Null_Deref
      | Some file \<Rightarrow>
          if \<not> buffer_ok e then Inr (NG, st)
          else case nvramcache st of
            None \<Rightarrow> Inl Null_Deref
          | Some secs \<Rightarrow>
              res_bind (commit_sections e 0 secs (take (nvram_mtd_size st) (buffer e)) file) (\<lambda>(rc, secs', buf, file').
                let st' = st\<lparr>nvramcache := Some secs', cache_file := Some file'\<rparr> in
                if rc \<noteq> OK \<or> \<not> flash then Inr (rc, st')
                else res_bind (flash_write (programs e) (write_env e) (config_mtd st) buf 0) (\<lambda>(i, dev).
                  if i \<le> 0 then Inl Assertion else Inr (OK, st'\<lparr>config_mtd := dev\<rparr>))))"

section \<open>The commands\<close>

definition nvram_get :: "nvram \<Rightarrow> byte list \<Rightarrow> byte list \<Rightarrow> (cptr \<times> nvram) res" where
  "nvram_get st section key = nvram_buf_get st section key"

definition nvram_del :: "nvram_env \<Rightarrow> nvram \<Rightarrow> byte list \<Rightarrow> byte list \<Rightarrow> (int \<times> nvram) res" where
  "nvram_del e st section key =
     res_bind (nvram_buf_del st section key) (\<lambda>(rc, st').
       if rc = OK then nvram_commit e False st' else Inr (NG, st'))"

definition nvram_set :: "nvram_env \<Rightarrow> nvram \<Rightarrow> byte list \<Rightarrow> byte list \<Rightarrow> byte list \<Rightarrow> (int \<times> nvram) res" where
  "nvram_set e st section key val =
     res_bind (nvram_buf_set st section key val) (\<lambda>(rc, st').
       if rc = OK then nvram_commit e False st' else Inr (NG, st'))"

definition cptr_text :: "cptr \<Rightarrow> byte list res" where
  "cptr_text p = (case p of Wild \<Rightarrow> Inl Wild_Pointer | Null \<Rightarrow> Inr (ascii ''(null)'') | Str s \<Rightarrow> Inr s)"

fun show_entries :: "entry_t list \<Rightarrow> byte list list res" where
  "show_entries [] = Inr []"
| "show_entries (e # es) =
     (if ent_name e = Null then show_entries es
      else res_bind (cptr_text (ent_name e)) (\<lambda>name. res_bind (cptr_text (ent_value e)) (\<lambda>val.
        res_bind (show_entries es) (\<lambda>ls. Inr ((name @ [61] @ val) # ls)))))"

fun show_sections :: "byte list option \<Rightarrow> section_t list \<Rightarrow> byte list list res" where
  "show_sections section [] = Inr []"
| "show_sections section (s # ss) =
     (if section \<noteq> None \<and> section \<noteq> Some (sec_name s) then show_sections section ss
      else res_bind (show_entries (sec_cache s)) (\<lambda>ls.
        res_bind (show_sections section ss) (\<lambda>ls'. Inr (ls @ ls'))))"

definition nvram_show :: "nvram \<Rightarrow> byte list option \<Rightarrow> (int \<times> nvram) res" where
  "nvram_show st section =
     (case nvramcache st of
        None \<Rightarrow> Inl Null_Deref
      | Some secs \<Rightarrow> res_bind (show_sections section secs) (\<lambda>ls. Inr (OK, st\<lparr>printed := printed st @ ls\<rparr>)))"

text \<open>Clearing a section writes it to the file; the entries in memory stay.\<close>

definition nvram_clear :: "nvram_env \<Rightarrow> nvram \<Rightarrow> byte list option \<Rightarrow> (int \<times> nvram) res" where
  "nvram_clear e st section =
     (case cache_file st of
        None \<Rightarrow> Inr (NG, st)
      | Some file \<Rightarrow>
          case (nvramcache st, section) of
            (Some secs, Some name) \<Rightarrow>
              (case nvram_section secs name of
                 None \<Rightarrow> Inr (NG, st)
               | Some n \<Rightarrow>
                   let sect = secs ! n; crc = crc32 0 (replicate (sec_size sect - 4) 0);
                     buf = move_at 0 (u32_bytes crc) (replicate (sec_size sect) 0)
                   in if flag_set (sec_flag sect) NV_RO then Inr (NG, st)
                   else if \<not> buffer_ok e then Inr (NG, st)
                   else if sec_size sect < 4 then Inl Out_Of_Bounds
                   else if \<not> put_ok e 0 then Inl Assertion
                   else Inr (OK, st\<lparr>nvramcache := Some (secs[n := sect\<lparr>sec_crc := crc\<rparr>]),
                     cache_file := Some (file_put (sec_offset sect) buf file)\<rparr>))
          | _ \<Rightarrow> Inl Null_Deref)"

text \<open>\<open>defile\<close> is the content of the file that is loaded.\<close>

definition nvram_loadfile :: "layout_t list \<Rightarrow> nvram_env \<Rightarrow> nvram \<Rightarrow> byte list option \<Rightarrow> (int \<times> nvram) res" where
  "nvram_loadfile lays e st defile =
     res_bind (nvram_parse lays e 1 defile st) (\<lambda>(rc, st').
       if rc = OK then nvram_commit e True st' else Inr (NG, st'))"

text \<open>The size of a partition from the lines of \<open>/proc/mtd\<close>, as \<open>strtoul\<close> reads it; 32 is the space.\<close>

fun has_sub :: "byte list \<Rightarrow> byte list \<Rightarrow> bool" where
  "has_sub [] name \<longleftrightarrow> name = []"
| "has_sub (b # bs) name \<longleftrightarrow> take (length name) (b # bs) = name \<or> has_sub bs name"

definition strtoul_digit :: "byte \<Rightarrow> nat option" where
  "strtoul_digit b =
     (let n = unat b in
      if 48 \<le> n \<and> n \<le> 57 then Some (n - 48)
      else if 97 \<le> n \<and> n \<le> 102 then Some (n - 87)
      else if 65 \<le> n \<and> n \<le> 70 then Some (n - 55)
      else None)"

fun hex_value :: "nat \<Rightarrow> byte list \<Rightarrow> nat" where
  "hex_value acc [] = acc"
| "hex_value acc (b # bs) = (case strtoul_digit b of None \<Rightarrow> acc | Some d \<Rightarrow> hex_value (16 * acc + d) bs)"

text \<open>The lines have a plain hexadecimal number after the first space.\<close>

fun mtd_size :: "byte list list option \<Rightarrow> byte list \<Rightarrow> nat res" where
  "mtd_size None name = Inl Null_Deref"
| "mtd_size (Some []) name = Inr 0"
| "mtd_size (Some (line # ls)) name =
     (if has_sub line name then
        case dropWhile (\<lambda>b. b \<noteq> 32) line of
          [] \<Rightarrow> Inl Assertion
        | _ # number \<Rightarrow> Inr (min (hex_value 0 number) (2 ^ 32 - 1))
      else mtd_size (Some ls) name)"

text \<open>The sections are copied from the flash memory one by one; one that cannot be read is skipped.\<close>

fun dump_sections ::
  "nvram_env \<Rightarrow> nat \<Rightarrow> layout_t list \<Rightarrow> nat \<Rightarrow> mtd \<Rightarrow> byte list \<Rightarrow> (int \<times> byte list) res" where
  "dump_sections e i [] n dev file = Inr (OK, file)"
| "dump_sections e i (lay # lays) n dev file =
     (case flash_read (dump_env e i) dev (lay_offset lay) (lay_size lay) of
        None \<Rightarrow> dump_sections e (Suc i) lays n dev file
      | Some bytes \<Rightarrow>
          if n < length bytes then Inl Out_Of_Bounds
          else if length bytes \<noteq> lay_size lay then dump_sections e (Suc i) lays n dev file
          else if \<not> dump_put_ok e (Suc i) then Inr (NG, file)
          else dump_sections e (Suc i) lays n dev (file_put (lay_offset lay) bytes file))"

definition nvram_filecache :: "layout_t list \<Rightarrow> nvram_env \<Rightarrow> nvram \<Rightarrow> (int \<times> nvram) res" where
  "nvram_filecache lays e st =
     res_bind (mtd_size (proc_mtd e) (ascii ''Config'')) (\<lambda>n.
       let st1 = st\<lparr>nvram_mtd_size := n\<rparr> in
       if n = 0 then Inr (NG, st1)
       else if cache_file st \<noteq> None then Inr (OK, st1)
       else if \<not> create_ok e then Inr (NG, st1)
       else if \<not> dump_buffer_ok e then Inr (NG, st1\<lparr>cache_file := Some []\<rparr>)
       else if \<not> dump_put_ok e 0 then Inl Assertion
       else res_bind (dump_sections e 0 lays n (config_mtd st) (take n (dump_buffer e))) (\<lambda>(rc, file).
         Inr (rc, st1\<lparr>cache_file := Some file\<rparr>)))"

text \<open>The program. \<open>args\<close> are the arguments after the name of the program, \<open>files\<close> the contents of other files.\<close>

definition same_word :: "byte list \<Rightarrow> string \<Rightarrow> bool" where
  "same_word arg word \<longleftrightarrow> map (\<lambda>b. if 65 \<le> unat b \<and> unat b \<le> 90 then b + 32 else b) arg = ascii word"

definition nvram_command ::
  "layout_t list \<Rightarrow> nvram_env \<Rightarrow> (byte list \<Rightarrow> byte list option) \<Rightarrow> byte list list \<Rightarrow> nvram \<Rightarrow> (int \<times> nvram) res" where
  "nvram_command lays e files args st =
     (let cmd = args ! 0; argc = length args + 1 in
      if same_word cmd ''commit'' then nvram_commit e True st
      else if same_word cmd ''set'' then
        if argc = 5 then nvram_set e st (args ! 1) (args ! 2) (args ! 3) else Inr (OK, st)
      else if same_word cmd ''get'' then
        if argc < 4 then Inr (OK, st)
        else res_bind (nvram_get st (args ! 1) (args ! 2)) (\<lambda>(p, st'). Inr (OK, st'))
      else if same_word cmd ''del'' then
        if argc < 4 then Inr (OK, st)
        else res_bind (nvram_del e st (args ! 1) (args ! 2)) (\<lambda>(rc, st'). Inr (OK, st'))
      else if same_word cmd ''show'' then
        nvram_show st (if argc < 3 then None else Some (args ! 1))
      else if same_word cmd ''clear'' then
        nvram_clear e st (if argc < 3 then None else Some (args ! 1))
      else if same_word cmd ''layout'' then Inr (OK, st)
      else if same_word cmd ''loadfile'' then
        if argc < 4 then Inr (OK, st) else nvram_loadfile lays e st (files (args ! 2))
      else Inr (OK, st))"

definition nvram_main ::
  "layout_t list \<Rightarrow> nvram_env \<Rightarrow> (byte list \<Rightarrow> byte list option) \<Rightarrow> byte list list \<Rightarrow> disk \<Rightarrow> (int \<times> nvram) res" where
  "nvram_main lays e files args d =
     (let st = \<lparr>cache_file = cache_file d, config_mtd = config_mtd d, nvram_mtd_size = 0, nvramcache = None, printed = []\<rparr> in
      if args = [] then Inr (OK, st)
      else res_bind (nvram_filecache lays e st) (\<lambda>(rc, st1).
        if rc \<noteq> OK then Inr (NG, st1)
        else res_bind (nvram_parse lays e 0 (cache_file st1) st1) (\<lambda>(rc, st2).
          if rc \<noteq> OK then Inr (NG, st2) else nvram_command lays e files args st2)))"

end
