(* ===== verification/Nvram_Store.thy ===== *)
theory Nvram_Store
  imports Nvram
begin

text \<open>
  A section of the configuration in memory as a map from names to values. The locale \<open>value_store\<close> states what
  users of such a store rely on; the operations of \<open>nvram.c\<close> on the slots of a writable section fulfil it.
\<close>

section \<open>The contract\<close>

datatype ('k, 'v) store_cmd = Put 'k 'v | Remove 'k

text \<open>A map of at most \<open>cap\<close> names: a new name is refused when it is full.\<close>

fun store_spec :: "nat \<Rightarrow> ('k, 'v) store_cmd \<Rightarrow> ('k \<rightharpoonup> 'v) \<Rightarrow> ('k \<rightharpoonup> 'v)" where
  "store_spec cap (Put k v) m = (if k \<in> dom m \<or> card (dom m) < cap then m(k \<mapsto> v) else m)"
| "store_spec cap (Remove k) m = m(k := None)"

fun run_store ::
  "('s \<Rightarrow> 'k \<Rightarrow> 'v \<Rightarrow> (int \<times> 's) res) \<Rightarrow> ('s \<Rightarrow> 'k \<Rightarrow> (int \<times> 's) res) \<Rightarrow> ('k, 'v) store_cmd list \<Rightarrow> 's \<Rightarrow> 's res" where
  "run_store put del [] s = Inr s"
| "run_store put del (Put k v # cs) s = res_bind (put s k v) (\<lambda>(rc, s'). run_store put del cs s')"
| "run_store put del (Remove k # cs) s = res_bind (del s k) (\<lambda>(rc, s'). run_store put del cs s')"

locale value_store =
  fixes sinv :: "'s \<Rightarrow> bool"
    and smap :: "'s \<Rightarrow> 'k \<rightharpoonup> 'v"
    and cap :: nat
    and get :: "'s \<Rightarrow> 'k \<Rightarrow> 'v option res"
    and put :: "'s \<Rightarrow> 'k \<Rightarrow> 'v \<Rightarrow> (int \<times> 's) res"
    and del :: "'s \<Rightarrow> 'k \<Rightarrow> (int \<times> 's) res"
  assumes get_smap: "sinv s \<Longrightarrow> get s k = Inr (smap s k)"
    and put_room: "sinv s \<Longrightarrow> k \<in> dom (smap s) \<or> card (dom (smap s)) < cap \<Longrightarrow>
      \<exists>s'. put s k v = Inr (0, s') \<and> sinv s' \<and> smap s' = (smap s)(k \<mapsto> v)"
    and put_full: "sinv s \<Longrightarrow> k \<notin> dom (smap s) \<Longrightarrow> cap \<le> card (dom (smap s)) \<Longrightarrow> put s k v = Inr (- 1, s)"
    and del_known: "sinv s \<Longrightarrow> k \<in> dom (smap s) \<Longrightarrow>
      \<exists>s'. del s k = Inr (0, s') \<and> sinv s' \<and> smap s' = (smap s)(k := None)"
    and del_unknown: "sinv s \<Longrightarrow> k \<notin> dom (smap s) \<Longrightarrow> del s k = Inr (- 1, s)"
begin

lemma put_refines: "sinv s \<Longrightarrow> \<exists>rc s'. put s k v = Inr (rc, s') \<and> sinv s' \<and> smap s' = store_spec cap (Put k v) (smap s)"
  using put_room [of s k v] put_full [of s k v] by (cases "k \<in> dom (smap s) \<or> card (dom (smap s)) < cap") auto

lemma del_refines: "sinv s \<Longrightarrow> \<exists>rc s'. del s k = Inr (rc, s') \<and> sinv s' \<and> smap s' = store_spec cap (Remove k) (smap s)"
proof (cases "k \<in> dom (smap s)")
  case False
  moreover from False have "(smap s)(k := None) = smap s" by auto
  moreover assume "sinv s"
  ultimately show ?thesis using del_unknown by simp
qed (use del_known in fastforce)

lemma run_refines: "sinv s \<Longrightarrow> \<exists>s'. run_store put del cs s = Inr s' \<and> sinv s' \<and> smap s' = fold (store_spec cap) cs (smap s)"
proof (induction cs arbitrary: s)
  case Nil
  then show ?case by simp
next
  case (Cons c cs)
  show ?case
  proof (cases c)
    case (Put k v)
    then obtain rc s1 where "put s k v = Inr (rc, s1)" "sinv s1" "smap s1 = store_spec cap c (smap s)"
      using put_refines [OF Cons.prems] by blast
    with Cons.IH [of s1] Put show ?thesis by (simp del: store_spec.simps)
  next
    case (Remove k)
    then obtain rc s1 where "del s k = Inr (rc, s1)" "sinv s1" "smap s1 = store_spec cap c (smap s)"
      using del_refines [OF Cons.prems] by blast
    with Cons.IH [of s1] Remove show ?thesis by (simp del: store_spec.simps)
  qed
qed

text \<open>What is read after any use of the store.\<close>

lemma get_after_run: "sinv s \<Longrightarrow> res_bind (run_store put del cs s) (\<lambda>s'. get s' k) = Inr (fold (store_spec cap) cs (smap s) k)"
  using run_refines [of s cs] get_smap by fastforce

end

section \<open>The slots of a section\<close>

fun pairs :: "entry_t list \<Rightarrow> (byte list \<times> byte list) list" where
  "pairs [] = []"
| "pairs (e # es) = (case (ent_name e, ent_value e) of (Str n, Str v) \<Rightarrow> (n, v) # pairs es | _ \<Rightarrow> pairs es)"

text \<open>A slot that is free or in use, with both pointers.\<close>

definition slot_ok :: "entry_t \<Rightarrow> bool" where
  "slot_ok e \<longleftrightarrow> (case (ent_name e, ent_value e) of (Null, Null) \<Rightarrow> True | (Str n, Str v) \<Rightarrow> True | _ \<Rightarrow> False)"

abbreviation free_slot :: entry_t where
  "free_slot \<equiv> \<lparr>ent_name = Null, ent_value = Null\<rparr>"

abbreviation used_slot :: "byte list \<Rightarrow> byte list \<Rightarrow> entry_t" where
  "used_slot k v \<equiv> \<lparr>ent_name = Str k, ent_value = Str v\<rparr>"

definition tidy :: "entry_t list \<Rightarrow> bool" where
  "tidy cache \<longleftrightarrow> length cache = MAX_ENTRY \<and> (\<forall>e \<in> set cache. slot_ok e) \<and> distinct (map fst (pairs cache))"

lemma slot_ok_cases:
  assumes "slot_ok e"
  obtains "e = free_slot" | k v where "e = used_slot k v"
  using assms by (cases e) (auto simp: slot_ok_def split: cptr.splits)

lemma slot_ok_slots [simp]: "slot_ok free_slot" "slot_ok (used_slot k v)"
  by (simp_all add: slot_ok_def)

lemma pairs_append [simp]: "pairs (xs @ ys) = pairs xs @ pairs ys"
  by (induction xs rule: pairs.induct) (auto split: cptr.split)

lemma length_pairs: "length (pairs es) \<le> length es"
  by (induction es) (auto split: cptr.split)

lemma find_name_None:
  "\<forall>e \<in> set es. slot_ok e \<Longrightarrow> key \<notin> fst ` set (pairs es) \<Longrightarrow> find_name key es = Inr None"
  by (induction es) (auto elim!: slot_ok_cases)

lemma find_name_Some:
  assumes "\<forall>e \<in> set es. slot_ok e" and "key \<in> fst ` set (pairs es)"
  obtains xs v ys where "es = xs @ used_slot key v # ys" and "key \<notin> fst ` set (pairs xs)"
    and "find_name key es = Inr (Some (length xs))"
proof -
  have "\<exists>xs v ys. es = xs @ used_slot key v # ys \<and> key \<notin> fst ` set (pairs xs) \<and> find_name key es = Inr (Some (length xs))"
    using assms
  proof (induction es)
    case (Cons e es)
    from Cons.prems(1) have "slot_ok e" by simp
    then show ?case
    proof (cases rule: slot_ok_cases)
      case 1
      with Cons obtain xs v ys where "es = xs @ used_slot key v # ys" "key \<notin> fst ` set (pairs xs)"
        "find_name key es = Inr (Some (length xs))" by auto
      with 1 have "e # es = (e # xs) @ used_slot key v # ys \<and> key \<notin> fst ` set (pairs (e # xs)) \<and>
        find_name key (e # es) = Inr (Some (length (e # xs)))" by simp
      then show ?thesis by blast
    next
      case (2 k w)
      show ?thesis
      proof (cases "k = key")
        case True
        with 2 have "e # es = [] @ used_slot key w # es \<and> key \<notin> fst ` set (pairs []) \<and>
          find_name key (e # es) = Inr (Some (length ([] :: entry_t list)))" by simp
        then show ?thesis by blast
      next
        case False
        with Cons 2 obtain xs v ys where "es = xs @ used_slot key v # ys" "key \<notin> fst ` set (pairs xs)"
          "find_name key es = Inr (Some (length xs))" by auto
        with 2 False have "e # es = (e # xs) @ used_slot key v # ys \<and> key \<notin> fst ` set (pairs (e # xs)) \<and>
          find_name key (e # es) = Inr (Some (length (e # xs)))" by simp
        then show ?thesis by blast
      qed
    qed
  qed simp
  then show ?thesis using that by blast
qed

lemma find_room_Some:
  "\<forall>e \<in> set es. slot_ok e \<Longrightarrow> find_room es = Some i \<Longrightarrow> \<exists>xs ys. es = xs @ free_slot # ys \<and> i = length xs"
proof (induction es arbitrary: i)
  case (Cons e es)
  from Cons.prems(1) have "slot_ok e" by simp
  then show ?case
  proof (cases rule: slot_ok_cases)
    case 1
    with Cons.prems(2) show ?thesis by (intro exI [of _ "[]"] exI [of _ es]) simp
  next
    case (2 k v)
    with Cons obtain xs ys j where "es = xs @ free_slot # ys" "i = Suc j" "j = length xs" by auto
    then have "e # es = (e # xs) @ free_slot # ys \<and> i = length (e # xs)" by simp
    then show ?thesis by blast
  qed
qed simp

lemma find_room_None: "\<forall>e \<in> set es. slot_ok e \<Longrightarrow> find_room es = None \<longleftrightarrow> length (pairs es) = length es"
proof (induction es)
  case (Cons e es)
  from Cons.prems have "slot_ok e" by simp
  then show ?case using Cons length_pairs [of es] by (cases rule: slot_ok_cases) auto
qed simp

lemma card_dom_pairs: "distinct (map fst ps) \<Longrightarrow> card (dom (map_of ps)) = length ps"
  by (simp add: dom_map_of_conv_image_fst flip: set_map) (metis distinct_card length_map list.set_map)

section \<open>Operations on a section\<close>

text \<open>Free a slot, or put an entry into one: the map changes at its name only and the slots stay tidy.\<close>

lemma tidy_free:
  assumes "tidy (xs @ used_slot k v # ys)"
  shows "tidy (xs @ free_slot # ys)" and "map_of (pairs (xs @ free_slot # ys)) = (map_of (pairs (xs @ used_slot k v # ys)))(k := None)"
proof -
  have k: "k \<notin> fst ` set (pairs xs)" "k \<notin> fst ` set (pairs ys)" using assms by (auto simp: tidy_def)
  show "tidy (xs @ free_slot # ys)" using assms by (auto simp: tidy_def)
  show "map_of (pairs (xs @ free_slot # ys)) = (map_of (pairs (xs @ used_slot k v # ys)))(k := None)"
    using k by (intro ext) (auto simp: map_add_def map_of_eq_None_iff [symmetric] split: option.split)
qed

lemma tidy_replace:
  assumes "tidy (xs @ used_slot k v # ys)"
  shows "tidy (xs @ used_slot k w # ys)" and "map_of (pairs (xs @ used_slot k w # ys)) = (map_of (pairs (xs @ used_slot k v # ys)))(k \<mapsto> w)"
proof -
  have k: "k \<notin> fst ` set (pairs xs)" using assms by (auto simp: tidy_def)
  show "tidy (xs @ used_slot k w # ys)" using assms by (auto simp: tidy_def)
  show "map_of (pairs (xs @ used_slot k w # ys)) = (map_of (pairs (xs @ used_slot k v # ys)))(k \<mapsto> w)"
    using k by (intro ext) (auto simp: map_add_def map_of_eq_None_iff [symmetric] split: option.split)
qed

lemma tidy_fill:
  assumes "tidy (xs @ free_slot # ys)" and "k \<notin> fst ` set (pairs (xs @ free_slot # ys))"
  shows "tidy (xs @ used_slot k v # ys)" and "map_of (pairs (xs @ used_slot k v # ys)) = (map_of (pairs (xs @ free_slot # ys)))(k \<mapsto> v)"
proof -
  have k: "k \<notin> fst ` set (pairs xs)" using assms(2) by auto
  show "tidy (xs @ used_slot k v # ys)" using assms by (auto simp: tidy_def)
  show "map_of (pairs (xs @ used_slot k v # ys)) = (map_of (pairs (xs @ free_slot # ys)))(k \<mapsto> v)"
    using k by (intro ext) (auto simp: map_add_def map_of_eq_None_iff [symmetric] split: option.split)
qed

lemma nvram_section_Some: "nvram_section secs name = Some n \<Longrightarrow> n < length secs \<and> sec_name (secs ! n) = name"
  by (induction secs arbitrary: n) (auto split: if_splits)

lemma nvram_section_update [simp]:
  "sec_name s = sec_name (secs ! n) \<Longrightarrow> nvram_section (secs[n := s]) name = nvram_section secs name"
  by (induction secs arbitrary: n) (auto split: nat.split)

text \<open>A writable section that is in memory, and its map.\<close>

definition writable :: "byte list \<Rightarrow> nvram \<Rightarrow> bool" where
  "writable section st \<longleftrightarrow> (\<exists>secs n. nvramcache st = Some secs \<and> nvram_section secs section = Some n \<and>
     \<not> flag_set (sec_flag (secs ! n)) NV_RO \<and> tidy (sec_cache (secs ! n)))"

definition section_map :: "byte list \<Rightarrow> nvram \<Rightarrow> byte list \<rightharpoonup> byte list" where
  "section_map section st = (case nvramcache st of None \<Rightarrow> Map.empty | Some secs \<Rightarrow>
     (case nvram_section secs section of None \<Rightarrow> Map.empty | Some n \<Rightarrow> map_of (pairs (sec_cache (secs ! n)))))"

text \<open>The value that \<open>nvram_get\<close> returns, \<open>None\<close> for the null pointer.\<close>

definition read_value :: "byte list \<Rightarrow> nvram \<Rightarrow> byte list \<Rightarrow> byte list option res" where
  "read_value section st key = res_bind (nvram_get st section key) (\<lambda>(p, st'). Inr (case p of Str v \<Rightarrow> Some v | _ \<Rightarrow> None))"

lemma writableE:
  assumes "writable section st"
  obtains secs n where "nvramcache st = Some secs" "nvram_section secs section = Some n" "n < length secs"
    "\<not> flag_set (sec_flag (secs ! n)) NV_RO" "tidy (sec_cache (secs ! n))"
    "section_map section st = map_of (pairs (sec_cache (secs ! n)))"
  using assms nvram_section_Some by (auto simp: writable_def section_map_def)

lemma writable_put:
  assumes "nvramcache st = Some secs" and "nvram_section secs section = Some n"
    and "\<not> flag_set (sec_flag (secs ! n)) NV_RO" and "tidy cache"
  shows "writable section (st\<lparr>nvramcache := Some (secs[n := (secs ! n)\<lparr>sec_cache := cache\<rparr>])\<rparr>)"
    and "section_map section (st\<lparr>nvramcache := Some (secs[n := (secs ! n)\<lparr>sec_cache := cache\<rparr>])\<rparr>) = map_of (pairs cache)"
  using assms nvram_section_Some [OF assms(2)] by (simp_all add: writable_def section_map_def)

lemma get_section:
  assumes "nvramcache st = Some secs" and "\<And>n. nvram_section secs section = Some n \<Longrightarrow> tidy (sec_cache (secs ! n))"
  shows "nvram_get st section key =
    Inr (case section_map section st key of None \<Rightarrow> (Null, st) | Some v \<Rightarrow> (Str v, st\<lparr>printed := printed st @ [v]\<rparr>))"
proof (cases "nvram_section secs section")
  case None
  then show ?thesis using assms(1) by (simp add: nvram_get_def nvram_buf_get_def section_map_def)
next
  case (Some n)
  then have ok: "\<forall>e \<in> set (sec_cache (secs ! n)). slot_ok e" using assms(2) by (simp add: tidy_def)
  have m: "section_map section st = map_of (pairs (sec_cache (secs ! n)))" using assms(1) Some by (simp add: section_map_def)
  show ?thesis
  proof (cases "key \<in> fst ` set (pairs (sec_cache (secs ! n)))")
    case True
    from find_name_Some [OF ok this] obtain xs v ys where c: "sec_cache (secs ! n) = xs @ used_slot key v # ys"
      "key \<notin> fst ` set (pairs xs)" "find_name key (sec_cache (secs ! n)) = Inr (Some (length xs))" .
    then have "map_of (pairs (sec_cache (secs ! n))) key = Some v"
      by (simp add: map_add_def map_of_eq_None_iff [THEN iffD2])
    with c assms(1) Some m show ?thesis by (simp add: nvram_get_def nvram_buf_get_def)
  next
    case False
    with find_name_None [OF ok] have "find_name key (sec_cache (secs ! n)) = Inr None" by blast
    moreover have "map_of (pairs (sec_cache (secs ! n))) key = None" using False by (simp add: map_of_eq_None_iff)
    ultimately show ?thesis using assms(1) Some m by (simp add: nvram_get_def nvram_buf_get_def)
  qed
qed

lemma buf_get_smap: "writable section st \<Longrightarrow> read_value section st key = Inr (section_map section st key)"
proof (elim writableE)
  fix secs n
  assume "nvramcache st = Some secs" "nvram_section secs section = Some n" "tidy (sec_cache (secs ! n))"
  then have "nvram_get st section key =
    Inr (case section_map section st key of None \<Rightarrow> (Null, st) | Some v \<Rightarrow> (Str v, st\<lparr>printed := printed st @ [v]\<rparr>))"
    by (intro get_section) auto
  then show ?thesis by (simp add: read_value_def split: option.split)
qed

lemma buf_del_known:
  assumes "writable section st" and "key \<in> dom (section_map section st)"
  shows "\<exists>st'. nvram_buf_del st section key = Inr (OK, st') \<and> writable section st' \<and>
    section_map section st' = (section_map section st)(key := None)"
proof -
  obtain secs n where st: "nvramcache st = Some secs" "nvram_section secs section = Some n" "n < length secs"
    "\<not> flag_set (sec_flag (secs ! n)) NV_RO" "tidy (sec_cache (secs ! n))"
    and m: "section_map section st = map_of (pairs (sec_cache (secs ! n)))" using assms(1) by (rule writableE)
  have ok: "\<forall>e \<in> set (sec_cache (secs ! n)). slot_ok e" using st(5) by (simp add: tidy_def)
  have "key \<in> fst ` set (pairs (sec_cache (secs ! n)))" using assms(2) m by (simp add: dom_map_of_conv_image_fst)
  from find_name_Some [OF ok this] obtain xs v ys where c: "sec_cache (secs ! n) = xs @ used_slot key v # ys"
    "find_name key (sec_cache (secs ! n)) = Inr (Some (length xs))" .
  have "nvram_buf_del st section key = Inr (OK, st\<lparr>nvramcache := Some (secs[n := (secs ! n)\<lparr>sec_cache := xs @ free_slot # ys\<rparr>])\<rparr>)"
    using st c by (simp add: nvram_buf_del_def Let_def)
  moreover note t = tidy_free [OF st(5) [unfolded c(1)]]
  ultimately show ?thesis using writable_put [OF st(1,2,4) t(1)] t(2) m c(1) by simp
qed

lemma buf_del_unknown:
  assumes "writable section st" and "key \<notin> dom (section_map section st)"
  shows "nvram_buf_del st section key = Inr (NG, st)"
proof -
  obtain secs n where st: "nvramcache st = Some secs" "nvram_section secs section = Some n"
    "\<not> flag_set (sec_flag (secs ! n)) NV_RO" "tidy (sec_cache (secs ! n))"
    and m: "section_map section st = map_of (pairs (sec_cache (secs ! n)))" using assms(1) by (rule writableE)
  then have "find_name key (sec_cache (secs ! n)) = Inr None"
    using assms(2) by (intro find_name_None) (simp_all add: tidy_def dom_map_of_conv_image_fst)
  then show ?thesis using st by (simp add: nvram_buf_del_def Let_def)
qed

text \<open>Setting a value changes one slot, which was free or had the name.\<close>

lemma buf_set_slot:
  assumes "writable section st" and "key \<in> dom (section_map section st) \<or> card (dom (section_map section st)) < MAX_ENTRY"
  obtains secs n xs old ys where "nvramcache st = Some secs" and "nvram_section secs section = Some n" and "n < length secs"
    and "sec_cache (secs ! n) = xs @ old # ys" and "old = free_slot \<or> (\<exists>v. old = used_slot key v)"
    and "nvram_buf_set st section key val =
      Inr (OK, st\<lparr>nvramcache := Some (secs[n := (secs ! n)\<lparr>sec_cache := xs @ used_slot key val # ys\<rparr>])\<rparr>)"
    and "tidy (xs @ used_slot key val # ys)" and "map_of (pairs (xs @ used_slot key val # ys)) = (section_map section st)(key \<mapsto> val)"
proof -
  obtain secs n where st: "nvramcache st = Some secs" "nvram_section secs section = Some n" "n < length secs"
    "\<not> flag_set (sec_flag (secs ! n)) NV_RO" and t: "tidy (sec_cache (secs ! n))"
    and m: "section_map section st = map_of (pairs (sec_cache (secs ! n)))" using assms(1) by (rule writableE)
  have ok: "\<forall>e \<in> set (sec_cache (secs ! n)). slot_ok e" using t by (simp add: tidy_def)
  show thesis
  proof (cases "key \<in> fst ` set (pairs (sec_cache (secs ! n)))")
    case True
    from find_name_Some [OF ok this] obtain xs v ys where c: "sec_cache (secs ! n) = xs @ used_slot key v # ys"
      "find_name key (sec_cache (secs ! n)) = Inr (Some (length xs))" .
    have "nvram_buf_set st section key val =
        Inr (OK, st\<lparr>nvramcache := Some (secs[n := (secs ! n)\<lparr>sec_cache := xs @ used_slot key val # ys\<rparr>])\<rparr>)"
      using st c by (simp add: nvram_buf_set_def Let_def)
    with tidy_replace [OF t [unfolded c(1)], of val] st c(1) m show thesis by (intro that [of secs n xs "used_slot key v" ys]) simp_all
  next
    case False
    then have "card (dom (section_map section st)) < MAX_ENTRY" using assms(2) m by (simp add: dom_map_of_conv_image_fst)
    moreover have "card (dom (section_map section st)) = length (pairs (sec_cache (secs ! n)))"
      unfolding m using t by (intro card_dom_pairs) (simp add: tidy_def)
    ultimately obtain i where "find_room (sec_cache (secs ! n)) = Some i"
      using find_room_None [OF ok] t by (fastforce simp: tidy_def)
    moreover from this obtain xs ys where c: "sec_cache (secs ! n) = xs @ free_slot # ys" "i = length xs"
      using find_room_Some [OF ok] by blast
    ultimately have "nvram_buf_set st section key val =
        Inr (OK, st\<lparr>nvramcache := Some (secs[n := (secs ! n)\<lparr>sec_cache := xs @ used_slot key val # ys\<rparr>])\<rparr>)"
      using st find_name_None [OF ok False] by (simp add: nvram_buf_set_def Let_def)
    with tidy_fill [OF t [unfolded c(1)] False [unfolded c(1)], of val] st c(1) m
    show thesis by (intro that [of secs n xs free_slot ys]) simp_all
  qed
qed

lemma buf_set_room:
  assumes "writable section st" and "key \<in> dom (section_map section st) \<or> card (dom (section_map section st)) < MAX_ENTRY"
  shows "\<exists>st'. nvram_buf_set st section key val = Inr (OK, st') \<and> writable section st' \<and>
    section_map section st' = (section_map section st)(key \<mapsto> val)"
proof -
  obtain secs n xs ys where st: "nvramcache st = Some secs" "nvram_section secs section = Some n"
    and set: "nvram_buf_set st section key val =
      Inr (OK, st\<lparr>nvramcache := Some (secs[n := (secs ! n)\<lparr>sec_cache := xs @ used_slot key val # ys\<rparr>])\<rparr>)"
    and t: "tidy (xs @ used_slot key val # ys)" "map_of (pairs (xs @ used_slot key val # ys)) = (section_map section st)(key \<mapsto> val)"
    by (rule buf_set_slot [OF assms])
  have "\<not> flag_set (sec_flag (secs ! n)) NV_RO" using assms(1) st by (auto simp: writable_def)
  from writable_put [OF st this t(1)] set t(2) show ?thesis by simp
qed

lemma buf_set_full:
  assumes "writable section st" and "key \<notin> dom (section_map section st)" and "MAX_ENTRY \<le> card (dom (section_map section st))"
  shows "nvram_buf_set st section key val = Inr (NG, st)"
proof -
  obtain secs n where st: "nvramcache st = Some secs" "nvram_section secs section = Some n"
    "\<not> flag_set (sec_flag (secs ! n)) NV_RO" and t: "tidy (sec_cache (secs ! n))"
    and m: "section_map section st = map_of (pairs (sec_cache (secs ! n)))" using assms(1) by (rule writableE)
  have ok: "\<forall>e \<in> set (sec_cache (secs ! n)). slot_ok e" using t by (simp add: tidy_def)
  have "find_name key (sec_cache (secs ! n)) = Inr None"
    using assms(2) m by (intro find_name_None [OF ok]) (simp add: dom_map_of_conv_image_fst)
  moreover have "card (dom (section_map section st)) = length (pairs (sec_cache (secs ! n)))"
    unfolding m using t by (intro card_dom_pairs) (simp add: tidy_def)
  then have "find_room (sec_cache (secs ! n)) = None"
    using find_room_None [OF ok] length_pairs [of "sec_cache (secs ! n)"] t assms(3) by (simp add: tidy_def)
  ultimately show ?thesis using st by (simp add: nvram_buf_set_def Let_def)
qed

interpretation section_store: value_store "writable sname" "section_map sname" MAX_ENTRY "read_value sname"
  "\<lambda>st. nvram_buf_set st sname" "\<lambda>st. nvram_buf_del st sname" for sname
proof
  fix st :: nvram and key val :: "byte list"
  assume st: "writable sname st"
  show "read_value sname st key = Inr (section_map sname st key)" using st by (rule buf_get_smap)
  show "\<exists>st'. nvram_buf_set st sname key val = Inr (0, st') \<and> writable sname st' \<and> section_map sname st' = (section_map sname st)(key \<mapsto> val)"
    if "key \<in> dom (section_map sname st) \<or> card (dom (section_map sname st)) < MAX_ENTRY" using st that by (rule buf_set_room)
  show "nvram_buf_set st sname key val = Inr (- 1, st)"
    if "key \<notin> dom (section_map sname st)" "MAX_ENTRY \<le> card (dom (section_map sname st))" using st that by (rule buf_set_full)
  show "\<exists>st'. nvram_buf_del st sname key = Inr (0, st') \<and> writable sname st' \<and> section_map sname st' = (section_map sname st)(key := None)"
    if "key \<in> dom (section_map sname st)" using st that by (rule buf_del_known)
  show "nvram_buf_del st sname key = Inr (- 1, st)" if "key \<notin> dom (section_map sname st)"
    using st that by (rule buf_del_unknown)
qed

end
