(* ===== verification/Nvram_File.thy ===== *)
theory Nvram_File
  imports Nvram_Store
begin

text \<open>
  The form of the configuration in the file: what \<open>nvram_commit\<close> writes for the sections in memory, and that
  \<open>nvram_parse\<close> reads it back.
\<close>

unbundle bit_operations_syntax

section \<open>The text of entries\<close>

definition entry_text :: "byte list \<times> byte list \<Rightarrow> byte list" where
  "entry_text = (\<lambda>(n, v). n @ [61] @ v @ [0])"

definition text_of :: "(byte list \<times> byte list) list \<Rightarrow> byte list" where
  "text_of ps = concat (map entry_text ps)"

lemma text_of_simps [simp]:
  "text_of [] = []"
  "text_of ((n, v) # ps) = n @ [61] @ v @ [0] @ text_of ps"
  by (simp_all add: text_of_def entry_text_def)

text \<open>An entry that survives: no zero byte, no equals sign in the name, and a first byte that is printable.\<close>

definition plain :: "byte list \<times> byte list \<Rightarrow> bool" where
  "plain = (\<lambda>(n, v). 0 \<notin> set n \<and> 61 \<notin> set n \<and> 0 \<notin> set v \<and> 32 \<le> sint (hd (n @ [61])))"

lemma commit_entries_text:
  assumes "\<forall>e \<in> set es. slot_ok e" and "p + length (text_of (pairs es)) < lim" and "p + length (text_of (pairs es)) \<le> length buf"
  shows "commit_entries lim es p buf = Inr (Some (p + length (text_of (pairs es)), move_at p (text_of (pairs es)) buf))"
  using assms
proof (induction es arbitrary: p buf)
  case (Cons e es)
  from Cons.prems(1) have "slot_ok e" by simp
  then show ?case
  proof (cases rule: slot_ok_cases)
    case 1
    with Cons show ?thesis by simp
  next
    case (2 k v)
    let ?t = "k @ [61] @ v @ [0]"
    have "p + length ?t + length (text_of (pairs es)) \<le> length buf" using Cons.prems(3) 2 by simp
    from move_at_adjacent [OF this]
    have "move_at (p + (length k + length v + 2)) (text_of (pairs es)) (move_at p ?t buf) = move_at p (?t @ text_of (pairs es)) buf"
      by (simp add: ac_simps numeral_2_eq_2)
    moreover have "commit_entries lim es (p + (length k + length v + 2)) (move_at p ?t buf) =
        Inr (Some (p + (length k + length v + 2) + length (text_of (pairs es)),
          move_at (p + (length k + length v + 2)) (text_of (pairs es)) (move_at p ?t buf)))"
      using Cons.prems 2 by (intro Cons.IH) simp_all
    ultimately show ?thesis using Cons.prems 2 by (simp add: Let_def)
  qed
qed simp

section \<open>Reading the text\<close>

lemma takeWhile_stop: "\<forall>x \<in> set xs. P x \<Longrightarrow> \<not> P y \<Longrightarrow> takeWhile P (xs @ y # ys) = xs"
  by (induction xs) auto

lemma c_str_at: "0 \<notin> set s \<Longrightarrow> c_str (pre @ s @ 0 # post) (length pre) = Inr s"
proof -
  assume "0 \<notin> set s"
  then have "takeWhile (\<lambda>b. b \<noteq> 0) (s @ 0 # post) = s" by (intro takeWhile_stop) auto
  then show ?thesis by (simp add: c_str_def)
qed

lemma strchr_at: "0 \<notin> set s \<Longrightarrow> c \<notin> set s \<Longrightarrow> c \<noteq> 0 \<Longrightarrow> strchr (pre @ s @ c # post) (length pre) c = Inr (Some (length pre + length s))"
proof -
  assume "0 \<notin> set s" and "c \<notin> set s" and "c \<noteq> 0"
  then have "takeWhile (\<lambda>b. b \<noteq> 0 \<and> b \<noteq> c) (s @ c # post) = s" by (intro takeWhile_stop) auto
  then show ?thesis by (simp add: strchr_def Let_def nth_append)
qed

lemma signed_byte_le: "sint (b :: byte) \<le> 128"
  using sint_lt [of b] by simp

lemma parse_one_entry:
  assumes "plain (n, v)" and "j < MAX_ENTRY" and "length pre < lim"
  shows "parse_entries lim (pre @ n @ 61 # v @ 0 # post) (length pre) j cache =
    parse_entries lim (pre @ n @ 0 # v @ 0 # post) (length (pre @ n @ 0 # v @ [0])) (j + 1) (cache[j := used_slot n v])"
proof -
  let ?data = "pre @ n @ 61 # v @ 0 # post"
  have p: "0 \<notin> set n" "61 \<notin> set n" "0 \<notin> set v" "32 \<le> sint (hd (n @ [61]))" using assms(1) by (simp_all add: plain_def)
  have hd: "?data ! length pre = hd (n @ [61])" by (cases n) (simp_all add: nth_append)
  have go: "\<not> (sint (?data ! length pre) < 32 \<or> 128 < sint (?data ! length pre))"
    unfolding hd using p(4) signed_byte_le [of "hd (n @ [61])"] by linarith
  have q: "strchr ?data (length pre) 61 = Inr (Some (length pre + length n))" using p by (intro strchr_at) simp_all
  have upd: "?data[length pre + length n := 0] = pre @ n @ 0 # v @ 0 # post" by (simp add: list_update_append)
  have nm: "c_str (pre @ n @ 0 # v @ 0 # post) (length pre) = Inr n" using p by (intro c_str_at)
  have vl: "c_str (pre @ n @ 0 # v @ 0 # post) (length pre + length n + 1) = Inr v"
    using c_str_at [OF p(3), of "pre @ n @ [0]" post] by simp
  show ?thesis
    using assms(2,3) go q upd nm vl by (subst parse_entries.simps) (simp add: add.assoc)
qed

lemma parse_entries_text:
  assumes "\<forall>x \<in> set ps. plain x" and "length pre + length (text_of ps) < lim" and "j + length ps \<le> MAX_ENTRY" and "length cache = MAX_ENTRY"
  shows "\<exists>mid. length mid = length (text_of ps) \<and>
    parse_entries lim (pre @ text_of ps @ 0 # post) (length pre) j cache =
      Inr (take j cache @ map (\<lambda>(n, v). used_slot n v) ps @ drop (j + length ps) cache, pre @ mid @ 0 # post)"
  using assms
proof (induction ps arbitrary: pre j cache)
  case Nil
  have "(0 :: byte) = (pre @ 0 # post) ! length pre" by simp
  then show ?case by (simp add: parse_entries.simps)
next
  case (Cons x ps)
  obtain n v where x: "x = (n, v)" by fastforce
  let ?pre = "pre @ n @ 0 # v @ [0]"
  have "\<exists>mid. length mid = length (text_of ps) \<and>
    parse_entries lim (?pre @ text_of ps @ 0 # post) (length ?pre) (j + 1) (cache[j := used_slot n v]) =
      Inr (take (j + 1) (cache[j := used_slot n v]) @ map (\<lambda>(n, v). used_slot n v) ps @
        drop (j + 1 + length ps) (cache[j := used_slot n v]), ?pre @ mid @ 0 # post)"
    using Cons.prems x by (intro Cons.IH) simp_all
  then obtain mid where mid: "length mid = length (text_of ps)" and
    run: "parse_entries lim (?pre @ text_of ps @ 0 # post) (length ?pre) (j + 1) (cache[j := used_slot n v]) =
      Inr (take (j + 1) (cache[j := used_slot n v]) @ map (\<lambda>(n, v). used_slot n v) ps @
        drop (j + 1 + length ps) (cache[j := used_slot n v]), ?pre @ mid @ 0 # post)" by blast
  have j: "j < length cache" using Cons.prems(3,4) by simp
  have "parse_entries lim (pre @ text_of (x # ps) @ 0 # post) (length pre) j cache =
      parse_entries lim (?pre @ text_of ps @ 0 # post) (length ?pre) (j + 1) (cache[j := used_slot n v])"
    using parse_one_entry [of n v j pre lim "text_of ps @ 0 # post" cache] Cons.prems x by simp
  moreover have "take (j + 1) (cache[j := used_slot n v]) = take j cache @ [used_slot n v]"
    using j by (simp add: take_Suc_conv_app_nth)
  ultimately show ?case
    using run mid x by (intro exI [of _ "n @ 0 # v @ 0 # mid"]) simp
qed

section \<open>Sections in the file\<close>

text \<open>A section is its checksum, the text of its entries, a zero byte and a rest.\<close>

definition sect_bytes :: "(byte list \<times> byte list) list \<Rightarrow> byte list \<Rightarrow> bool" where
  "sect_bytes ps bytes \<longleftrightarrow> (\<exists>post. bytes = u32_bytes (crc32 0 (text_of ps @ 0 # post)) @ text_of ps @ 0 # post)"

abbreviation region :: "layout_t \<Rightarrow> byte list \<Rightarrow> byte list" where
  "region lay data \<equiv> take (lay_size lay) (drop (lay_offset lay) data)"

text \<open>The sections lie between \<open>lo\<close> and \<open>hi\<close> in this order.\<close>

fun laid :: "nat \<Rightarrow> layout_t list \<Rightarrow> nat \<Rightarrow> bool" where
  "laid lo [] hi \<longleftrightarrow> lo \<le> hi"
| "laid lo (lay # lays) hi \<longleftrightarrow> lo \<le> lay_offset lay \<and> 4 \<le> lay_size lay \<and> laid (lay_offset lay + lay_size lay) lays hi"

lemma laid_le: "laid lo lays hi \<Longrightarrow> lo \<le> hi"
  by (induction lays arbitrary: lo) fastforce+

lemma laid_member: "laid lo lays hi \<Longrightarrow> lay \<in> set lays \<Longrightarrow> lo \<le> lay_offset lay \<and> lay_offset lay + lay_size lay \<le> hi"
proof (induction lays arbitrary: lo)
  case (Cons l lays)
  then show ?case using laid_le [of "lay_offset l + lay_size l" lays hi] by fastforce
qed simp

text \<open>The entries of all sections of a file.\<close>

definition file_form :: "layout_t list \<Rightarrow> (byte list \<times> byte list) list list \<Rightarrow> byte list \<Rightarrow> bool" where
  "file_form lays pss data \<longleftrightarrow>
     list_all2 (\<lambda>lay ps. sect_bytes ps (region lay data) \<and> (\<forall>x \<in> set ps. plain x) \<and> length ps \<le> MAX_ENTRY) lays pss"

lemma file_form_simps [simp]:
  "file_form [] [] data"
  "file_form (lay # lays) (ps # pss) data \<longleftrightarrow>
     sect_bytes ps (region lay data) \<and> (\<forall>x \<in> set ps. plain x) \<and> length ps \<le> MAX_ENTRY \<and> file_form lays pss data"
  by (simp_all add: file_form_def)

lemma region_cong:
  assumes "laid lo lays hi" and "drop lo data = drop lo data'" and "lay \<in> set lays"
  shows "region lay data = region lay data'"
proof -
  have "drop (lay_offset lay - lo) (drop lo data) = drop (lay_offset lay - lo) (drop lo data')" using assms(2) by simp
  then show ?thesis using laid_member [OF assms(1,3)] by simp
qed

lemma file_form_cong:
  assumes "laid lo lays hi" and "drop lo data = drop lo data'"
  shows "file_form lays pss data \<longleftrightarrow> file_form lays pss data'"
  unfolding file_form_def by (intro list.rel_cong refl) (simp add: region_cong [OF assms])

text \<open>A section as it is in memory after it was read into cleared slots.\<close>

definition full_cache :: "(byte list \<times> byte list) list \<Rightarrow> entry_t list" where
  "full_cache ps = map (\<lambda>(n, v). used_slot n v) ps @ replicate (MAX_ENTRY - length ps) free_slot"

lemma pairs_full_cache [simp]: "pairs (full_cache ps) = ps"
proof -
  have "pairs (map (\<lambda>(n, v). used_slot n v) ps) = ps" by (induction ps) auto
  moreover have "pairs (replicate k free_slot) = []" for k by (induction k) auto
  ultimately show ?thesis by (simp add: full_cache_def)
qed

lemma tidy_full_cache: "length ps \<le> MAX_ENTRY \<Longrightarrow> distinct (map fst ps) \<Longrightarrow> tidy (full_cache ps)"
  by (auto simp: tidy_def) (auto simp: full_cache_def)

definition loaded :: "layout_t \<Rightarrow> (byte list \<times> byte list) list \<Rightarrow> byte list \<Rightarrow> section_t" where
  "loaded lay ps data = \<lparr>sec_name = lay_name lay, sec_offset = lay_offset lay, sec_size = lay_size lay, sec_flag = lay_flag lay,
     sec_crc = crc32 0 (drop 4 (region lay data)), sec_cache = full_cache ps\<rparr>"

abbreviation cleared :: "entry_t list" where
  "cleared \<equiv> replicate MAX_ENTRY free_slot"

lemma parse_section_slots:
  assumes "lay_offset lay + lay_size lay \<le> length data" and "sect_bytes ps (region lay data)"
    and "\<forall>x \<in> set ps. plain x" and "length ps \<le> MAX_ENTRY" and "length fresh = MAX_ENTRY"
  obtains data' where "parse_section lay fresh data =
      Inr ((loaded lay ps data)\<lparr>sec_cache := map (\<lambda>(n, v). used_slot n v) ps @ drop (length ps) fresh\<rparr>, data')" and "length data' = length data"
    and "drop (lay_offset lay + lay_size lay) data' = drop (lay_offset lay + lay_size lay) data"
proof -
  let ?lim = "lay_offset lay + lay_size lay" and ?slots = "map (\<lambda>(n, v). used_slot n v) ps @ drop (length ps) fresh"
  obtain crc post where r: "region lay data = u32_bytes crc @ text_of ps @ 0 # post" using assms(2) by (auto simp: sect_bytes_def)
  let ?pre = "take (lay_offset lay) data @ u32_bytes crc" and ?post = "post @ drop ?lim data"
  have len: "lay_size lay = 4 + length (text_of ps) + 1 + length post"
    using arg_cong [OF r, of length] assms(1) by simp
  have "data = take (lay_offset lay) data @ region lay data @ drop ?lim data"
    by (metis append.assoc append_take_drop_id drop_drop add.commute)
  then have data: "data = ?pre @ text_of ps @ 0 # ?post" unfolding r by simp
  have pre: "length ?pre = lay_offset lay + 4" using assms(1) by simp
  have "length ?pre + length (text_of ps) < ?lim" using pre len by simp
  from parse_entries_text [OF assms(3) this, of 0 fresh ?post] obtain mid where mid: "length mid = length (text_of ps)"
    and run: "parse_entries ?lim (?pre @ text_of ps @ 0 # ?post) (length ?pre) 0 fresh =
      Inr (?slots, ?pre @ mid @ 0 # ?post)"
    using assms(4,5) by auto
  have "parse_entries ?lim data (lay_offset lay + 4) 0 fresh = Inr (?slots, ?pre @ mid @ 0 # ?post)"
    using run unfolding pre data [symmetric] .
  then have "parse_section lay fresh data = Inr ((loaded lay ps data)\<lparr>sec_cache := ?slots\<rparr>, ?pre @ mid @ 0 # ?post)"
    using assms(1) len by (simp add: parse_section_def loaded_def drop_take add.commute)
  moreover have "length (?pre @ mid @ 0 # ?post) = length data" using arg_cong [OF data, of length] mid by simp
  moreover have "drop ?lim (?pre @ mid @ 0 # ?post) = drop ?lim data" using assms(1) mid len by simp
  ultimately show thesis by (rule that)
qed

lemma parse_section_text:
  assumes "lay_offset lay + lay_size lay \<le> length data" and "sect_bytes ps (region lay data)"
    and "\<forall>x \<in> set ps. plain x" and "length ps \<le> MAX_ENTRY"
  obtains data' where "parse_section lay cleared data = Inr (loaded lay ps data, data')" and "length data' = length data"
    and "drop (lay_offset lay + lay_size lay) data' = drop (lay_offset lay + lay_size lay) data"
proof -
  have "(loaded lay ps data)\<lparr>sec_cache := map (\<lambda>(n, v). used_slot n v) ps @ drop (length ps) cleared\<rparr> = loaded lay ps data"
    by (simp add: loaded_def full_cache_def)
  with parse_section_slots [OF assms, of cleared] that show thesis by auto
qed

definition loaded_all :: "layout_t list \<Rightarrow> (byte list \<times> byte list) list list \<Rightarrow> byte list \<Rightarrow> section_t list" where
  "loaded_all lays pss data = map2 (\<lambda>lay ps. loaded lay ps data) lays pss"

lemma loaded_all_cong:
  assumes "laid lo lays hi" and "drop lo data = drop lo data'"
  shows "loaded_all lays pss data = loaded_all lays pss data'"
  unfolding loaded_all_def loaded_def using region_cong [OF assms] by (auto dest!: set_zip_leftD)

lemma parse_sections_text:
  assumes "\<forall>i. fresh i = cleared"
  shows "laid lo lays (length data) \<Longrightarrow> file_form lays pss data \<Longrightarrow>
    parse_sections fresh i lays data = Inr (loaded_all lays pss data)"
proof (induction lays arbitrary: lo pss i data)
  case Nil
  then show ?case by (simp add: loaded_all_def)
next
  case (Cons lay lays)
  then obtain ps pss' where pss: "pss = ps # pss'" by (cases pss) (auto simp: file_form_def)
  let ?lim = "lay_offset lay + lay_size lay"
  have rest: "laid ?lim lays (length data)" and fit: "?lim \<le> length data" using Cons.prems(1) laid_le by auto
  from Cons.prems(2) pss have "sect_bytes ps (region lay data)" "\<forall>x \<in> set ps. plain x" "length ps \<le> MAX_ENTRY" by simp_all
  from parse_section_text [OF fit this] obtain data' where
    first: "parse_section lay cleared data = Inr (loaded lay ps data, data')" "length data' = length data"
    and same: "drop ?lim data' = drop ?lim data" .
  have "parse_sections fresh (Suc i) lays data' = Inr (loaded_all lays pss' data')"
    using rest first(2) file_form_cong [OF rest same] Cons.prems(2) pss by (intro Cons.IH [of ?lim]) simp_all
  moreover have "fresh i = cleared" using assms ..
  ultimately show ?case
    using first(1) pss unfolding loaded_all_cong [OF rest same] by (simp add: loaded_all_def)
qed

section \<open>Writing the sections\<close>

abbreviation layout_of :: "section_t \<Rightarrow> layout_t" where
  "layout_of s \<equiv> \<lparr>lay_name = sec_name s, lay_offset = sec_offset s, lay_size = sec_size s, lay_flag = sec_flag s\<rparr>"

text \<open>The slots are tidy and their text fits into the section.\<close>

definition fits :: "section_t \<Rightarrow> bool" where
  "fits s \<longleftrightarrow> (\<forall>e \<in> set (sec_cache s). slot_ok e) \<and> 4 + length (text_of (pairs (sec_cache s))) < sec_size s"

lemma commit_section_text:
  assumes "fits s" and "sec_offset s + sec_size s \<le> length buf"
  obtains crc buf' where "commit_section s buf = Inr (Some (s\<lparr>sec_crc := crc\<rparr>, buf'))" and "length buf' = length buf"
    and "take (sec_offset s) buf' = take (sec_offset s) buf" and "sect_bytes (pairs (sec_cache s)) (region (layout_of s) buf')"
proof -
  let ?off = "sec_offset s" and ?t = "text_of (pairs (sec_cache s))"
  let ?p = "?off + 4 + length ?t"
  define buf2 where "buf2 = move_at (?off + 4) (?t @ [0]) buf"
  define crc where "crc = crc32 0 (take (sec_size s - 4) (drop (?off + 4) buf2))"
  define post where "post = take (sec_size s - 4 - length ?t - 1) (drop (?p + 1) buf)"
  have fit: "?p + 1 \<le> ?off + sec_size s" and ok: "\<forall>e \<in> set (sec_cache s). slot_ok e" using assms(1) by (auto simp: fits_def)
  have run: "commit_entries (?off + 4 + sec_size s) (sec_cache s) (?off + 4) buf = Inr (Some (?p, move_at (?off + 4) ?t buf))"
    using fit assms(2) by (intro commit_entries_text [OF ok]) simp_all
  have zero: "(move_at (?off + 4) ?t buf)[?p := 0] = buf2"
    using fit assms(2) by (simp add: buf2_def move_at_def list_update_append Cons_nth_drop_Suc [symmetric])
  have len: "length buf2 = length buf" using fit assms(2) by (simp add: buf2_def)
  have "commit_section s buf = Inr (Some (s\<lparr>sec_crc := crc\<rparr>, move_at ?off (u32_bytes crc) buf2))"
    using fit assms(2) run zero by (simp add: commit_section_def Let_def crc_def)
  moreover have "length (move_at ?off (u32_bytes crc) buf2) = length buf" using fit assms(2) len by simp
  moreover have "take ?off (move_at ?off (u32_bytes crc) buf2) = take ?off buf"
    using fit assms(2) len by (simp add: take_move_before buf2_def)
  moreover have "take (sec_size s - 4) (drop (?off + 4) buf2) = ?t @ 0 # post"
    using fit assms(2) by (simp add: buf2_def drop_move_at post_def take_Cons')
  then have "sect_bytes (pairs (sec_cache s)) (region (layout_of s) (move_at ?off (u32_bytes crc) buf2))"
    using fit assms(2) len unfolding sect_bytes_def by (intro exI [of _ post]) (simp add: drop_move_at crc_def)
  ultimately show thesis by (rule that)
qed

lemma drop_file_put: "pos + length bytes \<le> n \<Longrightarrow> pos \<le> length file \<Longrightarrow> drop n (file_put pos bytes file) = drop n file"
  by (simp add: file_put_def drop_move_after)

lemma take_file_put: "n \<le> pos \<Longrightarrow> pos \<le> length file \<Longrightarrow> take n (file_put pos bytes file) = take n file"
  by (simp add: file_put_def take_move_before)

lemma region_file_put:
  "lay_offset lay \<le> length file \<Longrightarrow> length bytes = lay_size lay \<Longrightarrow> region lay (file_put (lay_offset lay) bytes file) = bytes"
  by (simp add: file_put_def drop_move_at)

lemma length_file_put [simp]: "pos + length bytes \<le> length file \<Longrightarrow> length (file_put pos bytes file) = length file"
  by (simp add: file_put_def)

text \<open>The sections are written one after the other; what is before them in the file stays.\<close>

definition same_entries :: "section_t \<Rightarrow> section_t \<Rightarrow> bool" where
  "same_entries s s' \<longleftrightarrow> (\<exists>crc. s' = s\<lparr>sec_crc := crc\<rparr>)"

text \<open>The regions of the sections hold their entries.\<close>

abbreviation texts_in :: "section_t list \<Rightarrow> byte list \<Rightarrow> bool" where
  "texts_in secs bytes \<equiv> list_all (\<lambda>s. sect_bytes (pairs (sec_cache s)) (region (layout_of s) bytes)) secs"

lemma region_before:
  assumes "take n bytes = take n bytes'" and "lay_offset lay + lay_size lay \<le> n"
  shows "region lay bytes = region lay bytes'"
proof -
  have "region lay bytes = region lay (take n bytes)" for bytes using assms(2) by (simp add: drop_take)
  then show ?thesis using assms(1) by metis
qed

lemma commit_sections_text:
  assumes "\<forall>i. put_ok e i"
  shows "laid lo (map layout_of secs) (length img) \<Longrightarrow> length buf = length img \<Longrightarrow> \<forall>s \<in> set secs. fits s \<Longrightarrow>
    \<exists>secs' buf' img'. commit_sections e i secs buf img = Inr (OK, secs', buf', img') \<and>
      length img' = length img \<and> length buf' = length buf \<and> list_all2 same_entries secs secs' \<and>
      take lo img' = take lo img \<and> take lo buf' = take lo buf \<and> texts_in secs img' \<and> texts_in secs buf'"
proof (induction secs arbitrary: lo i buf img)
  case Nil
  then show ?case by simp
next
  case (Cons s secs)
  let ?lim = "sec_offset s + sec_size s" and ?lay = "layout_of s"
  have rest: "laid ?lim (map layout_of secs) (length img)" and lo: "lo \<le> sec_offset s" using Cons.prems(1) by simp_all
  have fit: "?lim \<le> length img" using laid_le [OF rest] .
  then have "fits s" "?lim \<le> length buf" using Cons.prems by simp_all
  then obtain crc buf1 where one: "commit_section s buf = Inr (Some (s\<lparr>sec_crc := crc\<rparr>, buf1))" "length buf1 = length buf"
    and buf1: "take (sec_offset s) buf1 = take (sec_offset s) buf"
    and bytes: "sect_bytes (pairs (sec_cache s)) (region ?lay buf1)" by (rule commit_section_text)
  define img1 where "img1 = file_put (sec_offset s) (region ?lay buf1) img"
  have len1: "length img1 = length img" using fit one(2) Cons.prems(2) by (simp add: img1_def)
  from Cons.IH [of ?lim img1 buf1 "Suc i"] rest len1 one(2) Cons.prems
  obtain secs' buf' img' where more: "commit_sections e (Suc i) secs buf1 img1 = Inr (OK, secs', buf', img')"
    "length img' = length img1" "length buf' = length buf1" "list_all2 same_entries secs secs'"
    and before: "take ?lim img' = take ?lim img1" "take ?lim buf' = take ?lim buf1"
    and texts: "texts_in secs img'" "texts_in secs buf'" by auto
  have regions: "region ?lay img' = region ?lay buf1" "region ?lay buf' = region ?lay buf1"
    using region_before [OF before(1), of ?lay] region_before [OF before(2), of ?lay]
      region_file_put [of ?lay img "region ?lay buf1"] fit one(2) Cons.prems(2) by (simp_all add: img1_def)
  have kept: "take lo img' = take lo img" "take lo buf' = take lo buf"
    using arg_cong [OF before(1), of "take lo"] arg_cong [OF before(2), of "take lo"] arg_cong [OF buf1, of "take lo"]
      lo fit take_file_put [of lo "sec_offset s" img] by (simp_all add: img1_def min_def)
  have "commit_sections e i (s # secs) buf img = Inr (OK, s\<lparr>sec_crc := crc\<rparr> # secs', buf', img')"
    using one(1) more(1) assms by (simp add: img1_def)
  moreover have "same_entries s (s\<lparr>sec_crc := crc\<rparr>)" by (auto simp: same_entries_def)
  ultimately show ?case using more len1 one(2) bytes texts regions kept by (simp del: commit_sections.simps)
qed

section \<open>Running over the end of the buffer\<close>

lemma commit_entries_over:
  "\<forall>e \<in> set es. slot_ok e \<Longrightarrow> p \<le> length buf \<Longrightarrow> length buf < p + length (text_of (pairs es)) \<Longrightarrow>
   p + length (text_of (pairs es)) < lim \<Longrightarrow> commit_entries lim es p buf = Inl Out_Of_Bounds"
proof (induction es arbitrary: p buf)
  case (Cons e es)
  from Cons.prems(1) have "slot_ok e" by simp
  then show ?case using Cons by (cases rule: slot_ok_cases) (simp_all add: Let_def)
qed simp

lemma commit_section_over:
  assumes "\<forall>e \<in> set (sec_cache s). slot_ok e" and "sec_offset s + sec_size s = length buf" and "4 \<le> sec_size s"
    and "sec_size s \<le> 4 + length (text_of (pairs (sec_cache s)))" and "length (text_of (pairs (sec_cache s))) < sec_size s"
  shows "commit_section s buf = Inl Out_Of_Bounds"
proof (cases "sec_size s = 4 + length (text_of (pairs (sec_cache s)))")
  case True
  then show ?thesis using assms commit_entries_text [OF assms(1), of "sec_offset s + 4" "sec_offset s + 4 + sec_size s" buf]
    by (simp add: commit_section_def Let_def)
next
  case False
  then show ?thesis using assms commit_entries_over [OF assms(1), of "sec_offset s + 4" buf "sec_offset s + 4 + sec_size s"]
    by (simp add: commit_section_def Let_def)
qed

section \<open>Slots that were not cleared\<close>

lemma find_name_wild:
  "key \<notin> fst ` set ps \<Longrightarrow> ent_name e = Wild \<Longrightarrow> find_name key (map (\<lambda>(n, v). used_slot n v) ps @ e # es) = Inl Wild_Pointer"
  by (induction ps) auto

end
