(* ===== verification/Nvram_Run.thy ===== *)
theory Nvram_Run
  imports Nvram_File
begin

text \<open>
  Runs of the program. The outside is taken to work (\<open>run_ok\<close>); fresh memory for the slots is clear, which the
  code relies on, since it does not clear it.
\<close>

section \<open>The state between runs\<close>

definition run_ok :: "nvram_env \<Rightarrow> nat \<Rightarrow> bool" where
  "run_ok e N \<longleftrightarrow> mtd_size (proc_mtd e) (ascii ''Config'') = Inr N \<and> 0 < N \<and> data_ok e 0 \<and> cache_ok e 0 \<and>
     (\<forall>i. slots e 0 i = cleared) \<and> buffer_ok e \<and> N \<le> length (buffer e) \<and> (\<forall>i. put_ok e i)"

definition bytes_form :: "layout_t list \<Rightarrow> nat \<Rightarrow> (byte list \<times> byte list) list list \<Rightarrow> byte list \<Rightarrow> bool" where
  "bytes_form lays N pss data \<longleftrightarrow> length data = N \<and> file_form lays pss data \<and> (\<forall>ps \<in> set pss. distinct (map fst ps))"

lemma bytes_form_length: "bytes_form lays N pss data \<Longrightarrow> length pss = length lays"
  by (auto simp: bytes_form_def file_form_def dest: list_all2_lengthD)

text \<open>There is a cache file that holds the entries \<open>pss\<close>.\<close>

definition disk_form :: "layout_t list \<Rightarrow> nat \<Rightarrow> (byte list \<times> byte list) list list \<Rightarrow> 'a disk_scheme \<Rightarrow> bool" where
  "disk_form lays N pss d \<longleftrightarrow> (\<exists>data. cache_file d = Some data \<and> bytes_form lays N pss data)"

text \<open>The map of a section by its name.\<close>

fun stored :: "layout_t list \<Rightarrow> (byte list \<times> byte list) list list \<Rightarrow> byte list \<Rightarrow> byte list \<rightharpoonup> byte list" where
  "stored (lay # lays) (ps # pss) name = (if lay_name lay = name then map_of ps else stored lays pss name)"
| "stored _ _ name = Map.empty"

lemma stored_section_map:
  assumes "nvramcache st = Some secs"
  shows "stored (map layout_of secs) (map (\<lambda>s. pairs (sec_cache s)) secs) name = section_map name st"
proof -
  have "stored (map layout_of secs) (map (\<lambda>s. pairs (sec_cache s)) secs) name =
      (case nvram_section secs name of None \<Rightarrow> Map.empty | Some n \<Rightarrow> map_of (pairs (sec_cache (secs ! n))))"
    by (induction secs) (auto split: option.split)
  then show ?thesis using assms by (simp add: section_map_def)
qed

lemma file_form_length: "file_form lays pss data \<Longrightarrow> length pss = length lays"
  by (simp add: file_form_def list_all2_lengthD)

lemma loaded_all_layouts: "length pss = length lays \<Longrightarrow> map layout_of (loaded_all lays pss data) = lays"
  by (induction lays pss rule: list_induct2') (auto simp: loaded_all_def loaded_def)

lemma loaded_all_pairs: "length pss = length lays \<Longrightarrow> map (\<lambda>s. pairs (sec_cache s)) (loaded_all lays pss data) = pss"
  by (induction lays pss rule: list_induct2') (auto simp: loaded_all_def loaded_def)

text \<open>What is true of a section that was loaded, and has to be true of one that is saved.\<close>

definition saveable :: "section_t \<Rightarrow> bool" where
  "saveable s \<longleftrightarrow> fits s \<and> tidy (sec_cache s) \<and> (\<forall>x \<in> set (pairs (sec_cache s)). plain x)"

lemma loaded_saveable:
  assumes "sect_bytes ps (region lay data)" and "\<forall>x \<in> set ps. plain x" and "length ps \<le> MAX_ENTRY"
    and "distinct (map fst ps)" and "lay_offset lay + lay_size lay \<le> length data"
  shows "saveable (loaded lay ps data)"
proof -
  obtain crc post where "region lay data = u32_bytes crc @ text_of ps @ 0 # post" using assms(1) by (auto simp: sect_bytes_def)
  from arg_cong [OF this, of length] have "4 + length (text_of ps) < lay_size lay" using assms(5) by simp
  then show ?thesis
    using assms(2) tidy_full_cache [OF assms(3,4)] by (simp add: saveable_def loaded_def fits_def tidy_def)
qed

lemma loaded_all_saveable:
  assumes "laid lo lays (length data)" and "file_form lays pss data" and "\<forall>ps \<in> set pss. distinct (map fst ps)"
  shows "\<forall>s \<in> set (loaded_all lays pss data). saveable s"
proof
  fix s
  assume "s \<in> set (loaded_all lays pss data)"
  then obtain lay ps where m: "(lay, ps) \<in> set (zip lays pss)" and s: "s = loaded lay ps data" by (auto simp: loaded_all_def)
  with assms(2) have "sect_bytes ps (region lay data)" "\<forall>x \<in> set ps. plain x" "length ps \<le> MAX_ENTRY"
    by (auto simp: file_form_def list_all2_iff)
  moreover have "distinct (map fst ps)" "lay_offset lay + lay_size lay \<le> length data"
    using set_zip_rightD [OF m] set_zip_leftD [OF m] assms(1,3) laid_member by auto
  ultimately show "saveable s" unfolding s by (rule loaded_saveable)
qed

section \<open>The start of a run\<close>

definition run_start :: "layout_t list \<Rightarrow> nat \<Rightarrow> (byte list \<times> byte list) list list \<Rightarrow> byte list \<Rightarrow> disk \<Rightarrow> nvram" where
  "run_start lays N pss data d = \<lparr>cache_file = Some data, config_mtd = config_mtd d, nvram_mtd_size = N,
     nvramcache = Some (loaded_all lays pss data), printed = []\<rparr>"

text \<open>Without a cache file the first run fills one from the flash memory.\<close>

definition dump_ok :: "nvram_env \<Rightarrow> nat \<Rightarrow> bool" where
  "dump_ok e N \<longleftrightarrow> create_ok e \<and> dump_buffer_ok e \<and> N \<le> length (dump_buffer e) \<and> (\<forall>i. dump_put_ok e i \<and> all_ok (dump_env e i))"

lemma dump_sections_copy:
  assumes "dump_ok e N"
  shows "laid lo lays (length img) \<Longrightarrow> length img = length (mtd_bytes dev) \<Longrightarrow>
    \<exists>img'. dump_sections e i lays (length img) dev img = Inr (OK, img') \<and> length img' = length img \<and>
      take lo img' = take lo img \<and> (\<forall>lay \<in> set lays. region lay img' = region lay (mtd_bytes dev))"
proof (induction lays arbitrary: lo i img)
  case Nil
  then show ?case by simp
next
  case (Cons lay lays)
  let ?lim = "lay_offset lay + lay_size lay" and ?r = "region lay (mtd_bytes dev)"
  have rest: "laid ?lim lays (length img)" and lo: "lo \<le> lay_offset lay" using Cons.prems(1) by simp_all
  have fit: "?lim \<le> length img" using laid_le [OF rest] .
  define img1 where "img1 = file_put (lay_offset lay) ?r img"
  have len: "length img1 = length img" using fit Cons.prems(2) by (simp add: img1_def)
  from Cons.IH [of ?lim img1 "Suc i"] rest len Cons.prems(2) obtain img' where
    more: "dump_sections e (Suc i) lays (length img) dev img1 = Inr (OK, img')" "length img' = length img"
    and kept: "take ?lim img' = take ?lim img1" and regions: "\<forall>lay \<in> set lays. region lay img' = region lay (mtd_bytes dev)"
    by auto
  have "flash_read (dump_env e i) dev (lay_offset lay) (lay_size lay) = Some ?r"
    using assms fit Cons.prems(2) by (simp add: flash_read_def dump_ok_def all_ok_def)
  then have "dump_sections e i (lay # lays) (length img) dev img = Inr (OK, img')"
    using more(1) assms fit Cons.prems(2) by (simp add: dump_ok_def img1_def)
  moreover have "region lay img' = ?r"
    using region_before [OF kept, of lay] region_file_put [of lay img ?r] fit Cons.prems(2) by (simp add: img1_def)
  moreover have "take lo img' = take lo img"
    using arg_cong [OF kept, of "take lo"] lo fit take_file_put [of lo "lay_offset lay" img] by (simp add: img1_def min_def)
  ultimately show ?case using more(2) regions by (simp del: dump_sections.simps)
qed

lemma dump_sections_form:
  assumes "dump_ok e N" and "laid 0 lays N" and "bytes_form lays N pss (mtd_bytes dev)"
  obtains data where "dump_sections e 0 lays N dev (take N (dump_buffer e)) = Inr (OK, data)" and "bytes_form lays N pss data"
proof -
  have len: "length (take N (dump_buffer e)) = N" "length (mtd_bytes dev) = N"
    using assms(1,3) by (simp_all add: dump_ok_def bytes_form_def)
  from dump_sections_copy [OF assms(1), of 0 lays "take N (dump_buffer e)" dev 0] assms(2) len obtain data where
    data: "dump_sections e 0 lays N dev (take N (dump_buffer e)) = Inr (OK, data)" "length data = N"
    and regions: "\<forall>lay \<in> set lays. region lay data = region lay (mtd_bytes dev)" by auto
  have "file_form lays pss data \<longleftrightarrow> file_form lays pss (mtd_bytes dev)"
    unfolding file_form_def using regions by (intro list.rel_cong refl) simp
  with data assms(3) show thesis by (intro that) (simp_all add: bytes_form_def)
qed

text \<open>The entries that a run finds, in the cache file or in the flash memory.\<close>

definition finds :: "layout_t list \<Rightarrow> nat \<Rightarrow> (byte list \<times> byte list) list list \<Rightarrow> nvram_env \<Rightarrow> disk \<Rightarrow> bool" where
  "finds lays N pss e d \<longleftrightarrow> run_ok e N \<and>
     (disk_form lays N pss d \<or> cache_file d = None \<and> dump_ok e N \<and> bytes_form lays N pss (mtd_bytes (config_mtd d)))"

lemma main_start:
  assumes "laid 0 lays N" and "finds lays N pss e d" and "args \<noteq> []"
  obtains data where "bytes_form lays N pss data"
    and "nvram_main lays e files args d = nvram_command lays e files args (run_start lays N pss data d)"
proof -
  have ok: "run_ok e N" using assms(2) by (simp add: finds_def)
  obtain data where data: "bytes_form lays N pss data"
    and cache: "nvram_filecache lays e \<lparr>cache_file = cache_file d, config_mtd = config_mtd d, nvram_mtd_size = 0, nvramcache = None, printed = []\<rparr> =
      Inr (OK, \<lparr>cache_file = Some data, config_mtd = config_mtd d, nvram_mtd_size = N, nvramcache = None, printed = []\<rparr>)"
  proof (cases "disk_form lays N pss d")
    case True
    then obtain data where "cache_file d = Some data" "bytes_form lays N pss data" by (auto simp: disk_form_def)
    with ok show thesis by (intro that) (simp_all add: nvram_filecache_def Let_def run_ok_def)
  next
    case False
    with assms(2) have d: "cache_file d = None" "dump_ok e N" "bytes_form lays N pss (mtd_bytes (config_mtd d))"
      by (simp_all add: finds_def)
    obtain data where "dump_sections e 0 lays N (config_mtd d) (take N (dump_buffer e)) = Inr (OK, data)" "bytes_form lays N pss data"
      using dump_sections_form [OF d(2) assms(1) d(3)] .
    with ok d(1,2) show thesis by (intro that) (simp_all add: nvram_filecache_def Let_def run_ok_def dump_ok_def)
  qed
  have "parse_sections (slots e 0) 0 lays data = Inr (loaded_all lays pss data)"
    using assms(1) ok data by (intro parse_sections_text [of _ 0]) (auto simp: bytes_form_def run_ok_def)
  then have "nvram_main lays e files args d = nvram_command lays e files args (run_start lays N pss data d)"
    using ok assms(3) cache by (simp add: nvram_main_def nvram_parse_def Let_def run_ok_def run_start_def)
  with data show thesis by (rule that)
qed

section \<open>Saving\<close>

lemma fits_sections_saved:
  assumes "run_ok e N" and "laid 0 (map layout_of secs) N" and "\<forall>s \<in> set secs. saveable s" and "length img = N"
  obtains secs' buf' img' where
    "commit_sections e 0 secs (take N (buffer e)) img = Inr (OK, secs', buf', img')"
    "bytes_form (map layout_of secs) N (map (\<lambda>s. pairs (sec_cache s)) secs) img'"
    "bytes_form (map layout_of secs) N (map (\<lambda>s. pairs (sec_cache s)) secs) buf'"
proof -
  let ?lays = "map layout_of secs" and ?pss = "map (\<lambda>s. pairs (sec_cache s)) secs"
  have "\<forall>i. put_ok e i" and len: "length (take N (buffer e)) = N" using assms(1) by (simp_all add: run_ok_def)
  from commit_sections_text [OF this(1), of 0 secs img "take N (buffer e)" 0] assms(2-4) len
  obtain secs' buf' img' where run: "commit_sections e 0 secs (take N (buffer e)) img = Inr (OK, secs', buf', img')"
    and l: "length img' = N" "length buf' = N" and t: "texts_in secs img'" "texts_in secs buf'"
    by (auto simp: saveable_def)
  have form: "bytes_form ?lays N ?pss bytes" if "length bytes = N" "texts_in secs bytes" for bytes
  proof -
    have "length (pairs (sec_cache s)) \<le> MAX_ENTRY \<and> distinct (map fst (pairs (sec_cache s)))" if "s \<in> set secs" for s
      using that assms(3) length_pairs [of "sec_cache s"] by (auto simp: saveable_def tidy_def)
    with that assms(3) show ?thesis
      by (auto simp: bytes_form_def file_form_def list_all2_map1 list_all2_map2 list_all2_same list_all_iff saveable_def)
  qed
  from run form [OF l(1) t(1)] form [OF l(2) t(2)] show thesis by (rule that)
qed

lemma commit_saves:
  assumes "run_ok e N" and "laid 0 (map layout_of secs) N" and "\<forall>s \<in> set secs. saveable s"
    and "nvramcache st = Some secs" and "cache_file st = Some img" and "length img = N" and "nvram_mtd_size st = N"
  shows "\<exists>st'. nvram_commit e False st = Inr (OK, st') \<and> config_mtd st' = config_mtd st \<and>
    disk_form (map layout_of secs) N (map (\<lambda>s. pairs (sec_cache s)) secs) st'"
proof -
  obtain secs' buf' img' where "commit_sections e 0 secs (take N (buffer e)) img = Inr (OK, secs', buf', img')"
    "bytes_form (map layout_of secs) N (map (\<lambda>s. pairs (sec_cache s)) secs) img'"
    using fits_sections_saved [OF assms(1-3,6)] .
  with assms show ?thesis by (simp add: nvram_commit_def run_ok_def Let_def disk_form_def)
qed

text \<open>With the device working, the flash memory then holds the entries, too.\<close>

definition device_ok :: "nvram_env \<Rightarrow> nat \<Rightarrow> mtd \<Rightarrow> bool" where
  "device_ok e N dev \<longleftrightarrow> takes_erased (programs e) \<and> all_ok (write_env e) \<and> length (mtd_bytes dev) = N \<and>
     (\<exists>k. erasesize dev = 2 ^ k \<and> 2 ^ k dvd N)"

lemma commit_flashes:
  assumes "run_ok e N" and "laid 0 (map layout_of secs) N" and "\<forall>s \<in> set secs. saveable s"
    and "nvramcache st = Some secs" and "cache_file st = Some img" and "length img = N" and "nvram_mtd_size st = N"
    and "device_ok e N (config_mtd st)"
  shows "\<exists>st'. nvram_commit e True st = Inr (OK, st') \<and> erasesize (config_mtd st') = erasesize (config_mtd st) \<and>
    bytes_form (map layout_of secs) N (map (\<lambda>s. pairs (sec_cache s)) secs) (mtd_bytes (config_mtd st')) \<and>
    disk_form (map layout_of secs) N (map (\<lambda>s. pairs (sec_cache s)) secs) st'"
proof -
  obtain secs' buf' img' where run: "commit_sections e 0 secs (take N (buffer e)) img = Inr (OK, secs', buf', img')"
    and form: "bytes_form (map layout_of secs) N (map (\<lambda>s. pairs (sec_cache s)) secs) img'"
      "bytes_form (map layout_of secs) N (map (\<lambda>s. pairs (sec_cache s)) secs) buf'"
    using fits_sections_saved [OF assms(1-3,6)] .
  obtain k where dev: "takes_erased (programs e)" "all_ok (write_env e)" "length (mtd_bytes (config_mtd st)) = N"
    "erasesize (config_mtd st) = 2 ^ k" "2 ^ k dvd N" using assms(8) by (auto simp: device_ok_def)
  have N: "0 < N" using assms(1) by (simp add: run_ok_def)
  have len: "length buf' = N" using form(2) by (simp add: bytes_form_def)
  have "flash_write_loop (programs e) (write_env e) 0 0 buf' 0 False 0 (config_mtd st) =
      Inr (2 ^ k, (config_mtd st)\<lparr>mtd_bytes := buf'\<rparr>)"
    using flash_write_loop_correct [OF dev(1,2,4), of 0 buf' 0 0 False 0] dev(3,5) len N by (auto simp: move_at_def)
  then have "flash_write (programs e) (write_env e) (config_mtd st) buf' 0 = Inr (2 ^ k, (config_mtd st)\<lparr>mtd_bytes := buf'\<rparr>)"
    using dev(2,3) len by (simp add: flash_write_def all_ok_def)
  with assms run form show ?thesis by (simp add: nvram_commit_def run_ok_def Let_def disk_form_def)
qed

section \<open>The commands\<close>

lemma same_word_unique: "same_word cmd w \<Longrightarrow> same_word cmd w' \<longleftrightarrow> ascii w = ascii w'"
  by (auto simp: same_word_def)

lemma command_words:
  "ascii ''set'' \<noteq> ascii ''commit''" "ascii ''get'' \<noteq> ascii ''commit''" "ascii ''get'' \<noteq> ascii ''set''"
  "ascii ''del'' \<noteq> ascii ''commit''" "ascii ''del'' \<noteq> ascii ''set''" "ascii ''del'' \<noteq> ascii ''get''"
  by code_simp+

lemma run_start_simps [simp]:
  "cache_file (run_start lays N pss data d) = Some data" "config_mtd (run_start lays N pss data d) = config_mtd d"
  "nvram_mtd_size (run_start lays N pss data d) = N" "nvramcache (run_start lays N pss data d) = Some (loaded_all lays pss data)"
  "printed (run_start lays N pss data d) = []"
  by (simp_all add: run_start_def)

lemma run_start_map:
  assumes "length pss = length lays"
  shows "section_map name (run_start lays N pss data d) = stored lays pss name"
  using stored_section_map [of "run_start lays N pss data d" "loaded_all lays pss data" name]
    loaded_all_layouts [OF assms] loaded_all_pairs [OF assms] by simp

lemma bytes_form_saveable:
  "laid 0 lays N \<Longrightarrow> bytes_form lays N pss data \<Longrightarrow> \<forall>s \<in> set (loaded_all lays pss data). saveable s"
  by (auto simp: bytes_form_def intro!: loaded_all_saveable [THEN bspec])

text \<open>The command \<open>get\<close> prints the value of the section.\<close>

lemma get_prints:
  assumes "laid 0 lays N" and "finds lays N pss e d" and "same_word cmd ''get''"
  shows "\<exists>st. nvram_main lays e files [cmd, name, key] d = Inr (OK, st) \<and>
    printed st = (case stored lays pss name key of None \<Rightarrow> [] | Some v \<Rightarrow> [v])"
proof -
  obtain data where data: "bytes_form lays N pss data"
    and run: "nvram_main lays e files [cmd, name, key] d = nvram_command lays e files [cmd, name, key] (run_start lays N pss data d)"
    using main_start [OF assms(1,2)] by blast
  let ?st = "run_start lays N pss data d"
  have "tidy (sec_cache (loaded_all lays pss data ! n))" if "nvram_section (loaded_all lays pss data) name = Some n" for n
    using bytes_form_saveable [OF assms(1) data] nvram_section_Some [OF that] by (auto simp: saveable_def)
  then have "nvram_get ?st name key = Inr (case stored lays pss name key of None \<Rightarrow> (Null, ?st)
      | Some v \<Rightarrow> (Str v, ?st\<lparr>printed := printed ?st @ [v]\<rparr>))"
    using get_section [of ?st] by (simp add: run_start_map [OF bytes_form_length [OF data]])
  then show ?thesis
    unfolding run using same_word_unique [OF assms(3)] by (auto simp: nvram_command_def command_words split: option.split)
qed

text \<open>A writable section with its place.\<close>

definition writable_at :: "layout_t list \<Rightarrow> nat \<Rightarrow> byte list \<Rightarrow> bool" where
  "writable_at lays n name \<longleftrightarrow> n < length lays \<and> lay_name (lays ! n) = name \<and> distinct (map lay_name lays) \<and>
     \<not> flag_set (lay_flag (lays ! n)) NV_RO"

lemma nvram_section_nth: "distinct (map sec_name secs) \<Longrightarrow> n < length secs \<Longrightarrow> nvram_section secs (sec_name (secs ! n)) = Some n"
  by (induction secs arbitrary: n) (auto simp: nth_Cons split: nat.split)

lemma run_start_section:
  assumes "writable_at lays n name" and "length pss = length lays"
  shows "nvram_section (loaded_all lays pss data) name = Some n"
    and "loaded_all lays pss data ! n = loaded (lays ! n) (pss ! n) data"
proof -
  have n: "n < length lays" using assms(1) by (simp add: writable_at_def)
  then show nth: "loaded_all lays pss data ! n = loaded (lays ! n) (pss ! n) data" using assms(2) by (simp add: loaded_all_def)
  have "map sec_name (loaded_all lays pss data) = map lay_name lays"
    using arg_cong [OF loaded_all_layouts [OF assms(2), of data], of "map lay_name"] by (simp add: comp_def)
  then have "distinct (map sec_name (loaded_all lays pss data))" using assms(1) by (simp add: writable_at_def)
  moreover have "length (loaded_all lays pss data) = length lays" using assms(2) by (simp add: loaded_all_def)
  ultimately show "nvram_section (loaded_all lays pss data) name = Some n"
    using nvram_section_nth [of "loaded_all lays pss data" n] n assms(1) nth by (simp add: writable_at_def loaded_def)
qed

lemma run_start_writable:
  assumes "laid 0 lays N" and "bytes_form lays N pss data" and "writable_at lays n name"
  shows "writable name (run_start lays N pss data d)"
proof -
  note n = run_start_section [OF assms(3) bytes_form_length [OF assms(2)], of data]
  have "tidy (sec_cache (loaded_all lays pss data ! n))"
    using bytes_form_saveable [OF assms(1,2)] nvram_section_Some [OF n(1)] by (auto simp: saveable_def)
  then show ?thesis using n assms(3) by (simp add: writable_def writable_at_def loaded_def)
qed

text \<open>Saving after the slots of one section have changed.\<close>

lemma section_saved:
  assumes "laid 0 lays N" and "run_ok e N" and "bytes_form lays N pss data" and "writable_at lays n name"
    and "tidy cache" and "\<forall>x \<in> set (pairs cache). plain x" and "4 + length (text_of (pairs cache)) < lay_size (lays ! n)"
    and "st = (run_start lays N pss data d)\<lparr>nvramcache :=
      Some ((loaded_all lays pss data)[n := (loaded_all lays pss data ! n)\<lparr>sec_cache := cache\<rparr>])\<rparr>"
  obtains st' where "nvram_commit e False st = Inr (OK, st')" and "config_mtd st' = config_mtd d"
    and "disk_form lays N (pss[n := pairs cache]) st'"
    and "\<forall>name'. stored lays (pss[n := pairs cache]) name' = (if name' = name then map_of (pairs cache) else stored lays pss name')"
proof -
  let ?secs = "loaded_all lays pss data"
  define secs where "secs = ?secs[n := (?secs ! n)\<lparr>sec_cache := cache\<rparr>]"
  have l: "length pss = length lays" using assms(3) by (rule bytes_form_length)
  note sect = run_start_section [OF assms(4) l, of data]
  have len: "length ?secs = length lays" "n < length lays" using l assms(4) by (simp_all add: loaded_all_def writable_at_def)
  have "layout_of (?secs ! n) = lays ! n" using sect(2) by (cases "lays ! n") (simp add: loaded_def)
  then have lays: "map layout_of secs = lays"
    using loaded_all_layouts [OF l, of data] len by (simp add: secs_def map_update list_update_same_conv)
  have pairs: "map (\<lambda>s. pairs (sec_cache s)) secs = pss[n := pairs cache]"
    using loaded_all_pairs [OF l, of data] by (simp add: secs_def map_update)
  have "saveable ((?secs ! n)\<lparr>sec_cache := cache\<rparr>)"
    using assms(5-7) sect(2) by (simp add: saveable_def fits_def tidy_def loaded_def)
  then have "\<forall>s \<in> set secs. saveable s"
    using bytes_form_saveable [OF assms(1,3)] set_update_subset_insert [of ?secs n] by (auto simp: secs_def)
  from commit_saves [OF assms(2) _ this, of st data, unfolded lays pairs] assms(1,3,8)
  obtain st' where st': "nvram_commit e False st = Inr (OK, st')" "config_mtd st' = config_mtd d"
    "disk_form lays N (pss[n := pairs cache]) st'" by (auto simp: secs_def bytes_form_def)
  have "stored lays (pss[n := pairs cache]) name' = (if name' = name then map_of (pairs cache) else stored lays pss name')" for name'
  proof -
    have st: "nvramcache st = Some secs" using assms(8) by (simp add: secs_def)
    have "section_map name' st = (if name' = name then map_of (pairs cache) else section_map name' (run_start lays N pss data d))"
    proof (cases "nvram_section ?secs name'")
      case None
      then have "nvram_section secs name' = None" and "name' \<noteq> name" using sect(1) by (auto simp: secs_def)
      then show ?thesis using st None by (simp add: section_map_def)
    next
      case (Some m)
      then have m: "nvram_section secs name' = Some m" by (simp add: secs_def)
      have lt: "m < length ?secs" using nvram_section_Some [OF Some] ..
      have "m = n \<longleftrightarrow> name' = name"
        using nvram_section_Some [OF Some] nvram_section_Some [OF sect(1)] sect(1) Some by (metis option.inject)
      then show ?thesis using st Some m lt by (cases "m = n") (simp_all add: section_map_def secs_def)
    qed
    then show ?thesis
      using stored_section_map [OF st, of name'] run_start_map [OF l] lays pairs by simp
  qed
  with st' show thesis by (intro that) blast+
qed

text \<open>The command \<open>set\<close> changes one value of one section in the file.\<close>

lemma set_saves:
  assumes "laid 0 lays N" and "finds lays N pss e d" and "writable_at lays n name" and "plain (key, val)"
    and "same_word cmd ''set''"
    and "key \<in> dom (stored lays pss name) \<or> card (dom (stored lays pss name)) < MAX_ENTRY"
    and "length (text_of (pss ! n)) + length key + length val + 6 < lay_size (lays ! n)"
  obtains st pss' where "nvram_main lays e files [cmd, name, key, val] d = Inr (OK, st)" and "config_mtd st = config_mtd d"
    and "disk_form lays N pss' st"
    and "\<forall>name'. stored lays pss' name' = (if name' = name then (stored lays pss name)(key \<mapsto> val) else stored lays pss name')"
proof -
  obtain data where data: "bytes_form lays N pss data"
    and run: "nvram_main lays e files [cmd, name, key, val] d = nvram_command lays e files [cmd, name, key, val] (run_start lays N pss data d)"
    using main_start [OF assms(1,2)] by blast
  let ?st = "run_start lays N pss data d" and ?secs = "loaded_all lays pss data"
  have ok: "run_ok e N" using assms(2) by (simp add: finds_def)
  note l = bytes_form_length [OF data]
  note sect = run_start_section [OF assms(3) l, of data]
  have w: "writable name ?st" using run_start_writable [OF assms(1) data assms(3)] .
  have room: "key \<in> dom (section_map name ?st) \<or> card (dom (section_map name ?st)) < MAX_ENTRY"
    using assms(6) by (simp add: run_start_map [OF l])
  obtain secs m xs old ys where "nvramcache ?st = Some secs" "nvram_section secs name = Some m"
    and slot: "sec_cache (secs ! m) = xs @ old # ys" and old: "old = free_slot \<or> (\<exists>v. old = used_slot key v)"
    and put: "nvram_buf_set ?st name key val =
      Inr (OK, ?st\<lparr>nvramcache := Some (secs[m := (secs ! m)\<lparr>sec_cache := xs @ used_slot key val # ys\<rparr>])\<rparr>)"
    and new: "tidy (xs @ used_slot key val # ys)"
      "map_of (pairs (xs @ used_slot key val # ys)) = (section_map name ?st)(key \<mapsto> val)"
    by (rule buf_set_slot [OF w room, of val])
  then have same: "secs = ?secs" "m = n" using sect(1) by simp_all
  note cache = slot [unfolded same] and set = put [unfolded same]
  have "pairs (sec_cache (?secs ! n)) = pss ! n" by (simp add: sect(2) loaded_def)
  then have p: "pss ! n = pairs xs @ pairs [old] @ pairs ys"
    unfolding cache using pairs_append [of "[old]" ys] by (simp del: pairs.simps)
  have "\<forall>x \<in> set (pss ! n). plain x"
    using data assms(3) l by (auto simp: bytes_form_def file_form_def list_all2_conv_all_nth writable_at_def)
  then have "\<forall>x \<in> set (pairs (xs @ used_slot key val # ys)). plain x" using p assms(4) by auto
  moreover have "4 + length (text_of (pairs (xs @ used_slot key val # ys))) < lay_size (lays ! n)"
    using assms(7) p by (simp add: text_of_def entry_text_def)
  ultimately obtain st' where st': "nvram_commit e False (?st\<lparr>nvramcache :=
        Some (?secs[n := (?secs ! n)\<lparr>sec_cache := xs @ used_slot key val # ys\<rparr>])\<rparr>) = Inr (OK, st')"
    "config_mtd st' = config_mtd d" "disk_form lays N (pss[n := pairs (xs @ used_slot key val # ys)]) st'"
    "\<forall>name'. stored lays (pss[n := pairs (xs @ used_slot key val # ys)]) name' =
      (if name' = name then map_of (pairs (xs @ used_slot key val # ys)) else stored lays pss name')"
    using section_saved [OF assms(1) ok data assms(3) new(1) _ _ refl] by blast
  have "nvram_main lays e files [cmd, name, key, val] d = Inr (OK, st')"
    unfolding run using same_word_unique [OF assms(5)] set st'(1)
    by (simp add: nvram_command_def command_words nvram_set_def)
  with st'(2-4) new(2) show thesis by (intro that) (auto simp: run_start_map [OF l] simp del: map_of_append)
qed

text \<open>The command \<open>commit\<close> writes the entries to the flash memory.\<close>

lemma commit_persists:
  assumes "laid 0 lays N" and "finds lays N pss e d" and "device_ok e N (config_mtd d)" and "same_word cmd ''commit''"
  obtains st where "nvram_main lays e files [cmd] d = Inr (OK, st)" and "bytes_form lays N pss (mtd_bytes (config_mtd st))"
proof -
  obtain data where data: "bytes_form lays N pss data"
    and run: "nvram_main lays e files [cmd] d = nvram_command lays e files [cmd] (run_start lays N pss data d)"
    using main_start [OF assms(1,2)] by blast
  have ok: "run_ok e N" using assms(2) by (simp add: finds_def)
  note l = bytes_form_length [OF data]
  note same = loaded_all_layouts [OF l, of data] loaded_all_pairs [OF l, of data]
  obtain st where "nvram_commit e True (run_start lays N pss data d) = Inr (OK, st)" "bytes_form lays N pss (mtd_bytes (config_mtd st))"
    using commit_flashes [OF ok, of "loaded_all lays pss data" "run_start lays N pss data d" data, unfolded same]
      bytes_form_saveable [OF assms(1) data] assms(1,3) data by (auto simp: bytes_form_def)
  with assms(4) show thesis by (intro that) (simp_all add: run nvram_command_def)
qed

lemma truncate_fields [simp]: "cache_file (disk.truncate st) = cache_file st" "config_mtd (disk.truncate st) = config_mtd st"
  by (simp_all add: disk.defs)

lemma disk_form_truncate [simp]: "disk_form lays N pss (disk.truncate st) \<longleftrightarrow> disk_form lays N pss st"
  by (simp add: disk_form_def)

end
