(* ===== verification/Nvram_Properties.thy ===== *)
theory Nvram_Properties
  imports Nvram_Run
begin

text \<open>
  Results on the configuration store: what is set is read back in later runs and after a restart; the
  sections are maps; the checksum is a CRC-32; what the flash driver writes; and the places where the code
  fails.
\<close>

unbundle bit_operations_syntax

section \<open>An example\<close>

text \<open>The sections of \<open>nvlayout\<close> without entries, and an outside that works.\<close>

definition blank :: "nat \<Rightarrow> byte list" where
  "blank n = u32_bytes (crc32 0 (replicate (n - 4) 0)) @ replicate (n - 4) 0"

definition blank_file :: "byte list" where
  "blank_file = blank 0x1000 @ blank 0x1000 @ blank 0x4000 @ blank 0x2000 @ blank 0x8000"

definition good_flash :: flash_env where
  "good_flash = \<lparr>open_ok = True, info_ok = True, bak_ok = \<lambda>_. True, read_ok = \<lambda>_. True, erase_ok = \<lambda>_. True, write_ok = \<lambda>_. True\<rparr>"

definition good_env :: nvram_env where
  "good_env = \<lparr>proc_mtd = Some [ascii ''dev:    size   erasesize  name'', ascii ''mtd2: 00010000 00010000 Config''],
     create_ok = True, dump_buffer_ok = True, dump_buffer = replicate 0x10000 0, dump_put_ok = \<lambda>_. True,
     dump_env = \<lambda>_. good_flash, data_ok = \<lambda>_. True, cache_ok = \<lambda>_. True, slots = \<lambda>_ _. cleared, buffer_ok = True,
     buffer = replicate 0x10000 0, put_ok = \<lambda>_. True, programs = \<lambda>old new. old AND new, write_env = good_flash\<rparr>"

definition blank_flash :: mtd where
  "blank_flash = \<lparr>mtd_bytes = blank_file, erasesize = 2 ^ 16\<rparr>"

lemma length_blank [simp]: "4 \<le> n \<Longrightarrow> length (blank n) = n"
  by (simp add: blank_def)

lemma sect_bytes_blank: "5 \<le> n \<Longrightarrow> sect_bytes [] (blank n)"
proof -
  assume "5 \<le> n"
  then have "n - 4 = Suc (n - 5)" by simp
  then show ?thesis by (auto simp: sect_bytes_def blank_def intro!: exI [of _ "replicate (n - 5) 0"])
qed

lemma blank_form: "bytes_form nvlayout 0x10000 [[], [], [], [], []] blank_file"
  by (simp add: bytes_form_def nvlayout_def blank_file_def sect_bytes_blank)

lemma laid_nvlayout: "laid 0 nvlayout 0x10000"
  by (simp add: nvlayout_def)

lemma good_run: "run_ok good_env 0x10000"
proof -
  have "proc_mtd good_env = Some [ascii ''dev:    size   erasesize  name'', ascii ''mtd2: 00010000 00010000 Config'']"
    by (simp add: good_env_def)
  moreover have "dropWhile (\<lambda>b. b \<noteq> 32) (ascii ''mtd2: 00010000 00010000 Config'') = 32 # ascii ''00010000 00010000 Config''"
    "has_sub (ascii ''mtd2: 00010000 00010000 Config'') (ascii ''Config'')"
    "\<not> has_sub (ascii ''dev:    size   erasesize  name'') (ascii ''Config'')" by code_simp+
  moreover have "hex_value 0 (ascii ''00010000 00010000 Config'') = 0x10000" by (simp add: ascii_def strtoul_digit_def)
  ultimately have "mtd_size (proc_mtd good_env) (ascii ''Config'') = Inr 0x10000" by simp
  then show ?thesis by (simp add: run_ok_def good_env_def)
qed

lemma good_dump: "dump_ok good_env 0x10000"
  by (simp add: dump_ok_def good_env_def all_ok_def good_flash_def)

lemma and_takes_erased: "takes_erased (\<lambda>old new. old AND new)"
proof -
  have "(0xff :: byte) = - 1" by simp
  then show ?thesis unfolding takes_erased_def by (metis and.left_neutral)
qed

lemma good_device: "device_ok good_env 0x10000 blank_flash"
  using blank_form and_takes_erased
  by (auto simp: device_ok_def good_env_def all_ok_def good_flash_def blank_flash_def bytes_form_def intro!: exI [of _ 16])

lemma blank_found: "finds nvlayout 0x10000 [[], [], [], [], []] good_env \<lparr>cache_file = None, config_mtd = blank_flash\<rparr>"
  using good_run good_dump blank_form by (simp add: finds_def blank_flash_def)

lemma test1_writable: "writable_at nvlayout 2 (ascii ''test1'')"
proof -
  have "distinct (map lay_name nvlayout)" unfolding nvlayout_def list.map layout_t.simps by code_simp
  then show ?thesis by (simp add: writable_at_def nvlayout_def flag_set_def)
qed

lemma ssid_plain: "plain (ascii ''ssid'', ascii ''home'')"
  unfolding plain_def by code_simp

lemma blank_stored: "stored nvlayout [[], [], [], [], []] name = Map.empty"
  by (simp add: nvlayout_def)

section \<open>What is set is found\<close>

lemma words: "same_word (ascii ''set'') ''set''" "same_word (ascii ''get'') ''get''" "same_word (ascii ''commit'') ''commit''"
  by code_simp+

text \<open>
  C3. A value that is set is printed by every later \<open>get\<close> of its section and name, and all other values of all
  sections are printed as before. The value must leave room for the zero byte that ends the section.
\<close>

theorem nvram_set_get:
  assumes "laid 0 lays N" and "finds lays N pss e d" and "run_ok e' N" and "writable_at lays n name" and "plain (key, val)"
    and "key \<in> dom (stored lays pss name) \<or> card (dom (stored lays pss name)) < MAX_ENTRY"
    and "length (text_of (pss ! n)) + length key + length val + 6 < lay_size (lays ! n)"
  shows "\<exists>st. nvram_main lays e files [ascii ''set'', name, key, val] d = Inr (OK, st) \<and>
    (\<forall>name' key'. \<exists>st'. nvram_main lays e' files' [ascii ''get'', name', key'] (disk.truncate st) = Inr (OK, st') \<and>
      printed st' = (case if name' = name \<and> key' = key then Some val else stored lays pss name' key' of None \<Rightarrow> [] | Some v \<Rightarrow> [v]))"
proof -
  obtain st pss' where st: "nvram_main lays e files [ascii ''set'', name, key, val] d = Inr (OK, st)" "disk_form lays N pss' st"
    and new: "\<forall>name'. stored lays pss' name' = (if name' = name then (stored lays pss name)(key \<mapsto> val) else stored lays pss name')"
    using set_saves [OF assms(1,2,4,5) words(1) assms(6,7)] .
  then have "finds lays N pss' e' (disk.truncate st)" using assms(3) by (simp add: finds_def)
  moreover have m: "stored lays pss' name' key' = (if name' = name \<and> key' = key then Some val else stored lays pss name' key')"
    for name' key' using new by simp
  ultimately show ?thesis using st(1) get_prints [OF assms(1) _ words(2), of pss' e' _ files'] unfolding m by blast
qed

theorem nvram_set_get_witness:
  "\<exists>st. nvram_main nvlayout good_env (\<lambda>_. None) [ascii ''set'', ascii ''test1'', ascii ''ssid'', ascii ''home''] \<lparr>cache_file = None, config_mtd = blank_flash\<rparr> = Inr (OK, st) \<and>
    (\<exists>st'. nvram_main nvlayout good_env (\<lambda>_. None) [ascii ''get'', ascii ''test1'', ascii ''ssid''] (disk.truncate st) = Inr (OK, st') \<and>
      printed st' = [ascii ''home''])"
proof -
  have "length (text_of ([[], [], [], [], []] ! 2)) + length (ascii ''ssid'') + length (ascii ''home'') + 6 < lay_size (nvlayout ! 2)"
    by (simp add: nvlayout_def ascii_def)
  from nvram_set_get [OF laid_nvlayout blank_found good_run test1_writable ssid_plain _ this, of "\<lambda>_. None" "\<lambda>_. None"]
  show ?thesis by (fastforce simp: blank_stored)
qed

text \<open>
  C12. A value that is set and committed is printed after a restart, when the cache file is gone and is filled
  from the flash memory again.
\<close>

theorem nvram_survives_restart:
  assumes "laid 0 lays N" and "finds lays N pss e d" and "run_ok e1 N" and "run_ok e2 N" and "dump_ok e2 N"
    and "device_ok e1 N (config_mtd d)" and "writable_at lays n name" and "plain (key, val)"
    and "key \<in> dom (stored lays pss name) \<or> card (dom (stored lays pss name)) < MAX_ENTRY"
    and "length (text_of (pss ! n)) + length key + length val + 6 < lay_size (lays ! n)"
  shows "\<exists>st st1 st2. nvram_main lays e files [ascii ''set'', name, key, val] d = Inr (OK, st) \<and>
    nvram_main lays e1 files [ascii ''commit''] (disk.truncate st) = Inr (OK, st1) \<and>
    nvram_main lays e2 files [ascii ''get'', name, key] \<lparr>cache_file = None, config_mtd = config_mtd st1\<rparr> = Inr (OK, st2) \<and>
    printed st2 = [val]"
proof -
  obtain st pss' where st: "nvram_main lays e files [ascii ''set'', name, key, val] d = Inr (OK, st)" "config_mtd st = config_mtd d"
    "disk_form lays N pss' st"
    and new: "\<forall>name'. stored lays pss' name' = (if name' = name then (stored lays pss name)(key \<mapsto> val) else stored lays pss name')"
    using set_saves [OF assms(1,2,7,8) words(1) assms(9,10)] .
  then have f1: "finds lays N pss' e1 (disk.truncate st)" and d1: "device_ok e1 N (config_mtd (disk.truncate st))"
    using assms(3,6) by (simp_all add: finds_def)
  obtain st1 where st1: "nvram_main lays e1 files [ascii ''commit''] (disk.truncate st) = Inr (OK, st1)"
    "bytes_form lays N pss' (mtd_bytes (config_mtd st1))" using commit_persists [OF assms(1) f1 d1 words(3)] .
  then have "finds lays N pss' e2 \<lparr>cache_file = None, config_mtd = config_mtd st1\<rparr>" using assms(4,5) by (simp add: finds_def)
  from get_prints [OF assms(1) this words(2), of files name key] st(1) st1(1) new show ?thesis by simp
qed

theorem nvram_survives_restart_witness:
  "\<exists>st st1 st2. nvram_main nvlayout good_env (\<lambda>_. None) [ascii ''set'', ascii ''test1'', ascii ''ssid'', ascii ''home''] \<lparr>cache_file = None, config_mtd = blank_flash\<rparr> = Inr (OK, st) \<and>
    nvram_main nvlayout good_env (\<lambda>_. None) [ascii ''commit''] (disk.truncate st) = Inr (OK, st1) \<and>
    nvram_main nvlayout good_env (\<lambda>_. None) [ascii ''get'', ascii ''test1'', ascii ''ssid''] \<lparr>cache_file = None, config_mtd = config_mtd st1\<rparr> = Inr (OK, st2) \<and>
    printed st2 = [ascii ''home'']"
proof -
  have "length (text_of ([[], [], [], [], []] ! 2)) + length (ascii ''ssid'') + length (ascii ''home'') + 6 < lay_size (nvlayout ! 2)"
    by (simp add: nvlayout_def ascii_def)
  moreover have "device_ok good_env 0x10000 (config_mtd \<lparr>cache_file = None, config_mtd = blank_flash\<rparr>)" using good_device by simp
  ultimately show ?thesis
    using nvram_survives_restart [OF laid_nvlayout blank_found good_run good_run good_dump _ test1_writable ssid_plain]
    by (simp add: blank_stored)
qed

text \<open>
  C17. In memory a writable section is a map of at most 500 names: after any sequence of \<open>nvram_buf_set\<close> and
  \<open>nvram_buf_del\<close> the code returns what the map holds.
\<close>

theorem section_store_refines:
  assumes "writable section st"
  shows "res_bind (run_store (\<lambda>st. nvram_buf_set st section) (\<lambda>st. nvram_buf_del st section) cs st) (\<lambda>st'. read_value section st' key) =
    Inr (fold (store_spec MAX_ENTRY) cs (section_map section st) key)"
  using assms by (rule section_store.get_after_run)

text \<open>A state after \<open>nvram_parse\<close> has read the blank file.\<close>

definition blank_state :: nvram where
  "blank_state = run_start nvlayout 0x10000 [[], [], [], [], []] blank_file \<lparr>cache_file = None, config_mtd = blank_flash\<rparr>"

theorem section_store_refines_witness:
  "res_bind (run_store (\<lambda>st. nvram_buf_set st (ascii ''test1'')) (\<lambda>st. nvram_buf_del st (ascii ''test1''))
      [Put (ascii ''a'') (ascii ''1''), Put (ascii ''b'') (ascii ''2''), Put (ascii ''a'') (ascii ''3''), Remove (ascii ''b'')] blank_state)
    (\<lambda>st'. read_value (ascii ''test1'') st' (ascii ''a'')) = Inr (Some (ascii ''3''))"
proof -
  have w: "writable (ascii ''test1'') blank_state"
    unfolding blank_state_def using laid_nvlayout blank_form test1_writable by (rule run_start_writable)
  have m: "section_map (ascii ''test1'') blank_state = Map.empty"
    unfolding blank_state_def by (subst run_start_map) (simp_all add: nvlayout_def)
  have ne: "ascii ''a'' \<noteq> ascii ''b''" by code_simp
  show ?thesis unfolding section_store_refines [OF w] m using ne by simp
qed

section \<open>The checksum\<close>

text \<open>C35. The routine with the table and the unrolled loop computes the CRC-32 of the reflected polynomial \<open>0xEDB88320\<close>.\<close>

theorem crc32_is_crc: "crc32 0 data = crc32_ref data"
  by (rule crc32_reference)

section \<open>The flash memory\<close>

text \<open>
  C36. On a device of whole erase blocks whose calls succeed, \<open>flash_write\<close> at the start of the device, or of data
  that is no whole number of erase blocks, replaces exactly the bytes it is given.
\<close>

theorem flash_write_correct:
  assumes "takes_erased program" and "all_ok e" and "erasesize dev = 2 ^ k" and "2 ^ k dvd length (mtd_bytes dev)"
    and "to + length buf \<le> length (mtd_bytes dev)" and "buf \<noteq> []" and "to = 0 \<or> \<not> 2 ^ k dvd length buf"
  shows "flash_write program e dev buf to = Inr (2 ^ k, dev\<lparr>mtd_bytes := take to (mtd_bytes dev) @ buf @ drop (to + length buf) (mtd_bytes dev)\<rparr>)"
  using flash_write_loop_correct [OF assms(1-5), of 0 0 False 0] assms
  by (auto simp: flash_write_def all_ok_def move_at_def)

text \<open>A device of four blocks of four bytes.\<close>

definition small_dev :: mtd where
  "small_dev = \<lparr>mtd_bytes = [0, 1, 2, 3, 4, 5, 6, 7, 8, 9, 10, 11, 12, 13, 14, 15], erasesize = 4\<rparr>"

theorem flash_write_correct_witness:
  "flash_write (\<lambda>old new. old AND new) good_flash small_dev [0x50, 0x51, 0x52, 0x53, 0x54] 3 =
    Inr (4, small_dev\<lparr>mtd_bytes := [0, 1, 2, 0x50, 0x51, 0x52, 0x53, 0x54, 8, 9, 10, 11, 12, 13, 14, 15]\<rparr>)"
proof -
  have "all_ok good_flash" by (simp add: all_ok_def good_flash_def)
  moreover have l: "length (mtd_bytes small_dev) = 16" "length [0x50, 0x51, 0x52, 0x53, 0x54 :: byte] = 5"
    by (simp_all add: small_dev_def)
  have "erasesize small_dev = 2 ^ 2" "2 ^ 2 dvd length (mtd_bytes small_dev)"
    "3 + length [0x50, 0x51, 0x52, 0x53, 0x54 :: byte] \<le> length (mtd_bytes small_dev)"
    "(3 :: nat) = 0 \<or> \<not> 2 ^ 2 dvd length [0x50, 0x51, 0x52, 0x53, 0x54 :: byte]"
    unfolding l by (simp_all add: small_dev_def)
  ultimately have "flash_write (\<lambda>old new. old AND new) good_flash small_dev [0x50, 0x51, 0x52, 0x53, 0x54] 3 =
    Inr (2 ^ 2, small_dev\<lparr>mtd_bytes := take 3 (mtd_bytes small_dev) @ [0x50, 0x51, 0x52, 0x53, 0x54] @
      drop (3 + length [0x50, 0x51, 0x52, 0x53, 0x54 :: byte]) (mtd_bytes small_dev)\<rparr>)"
    by (intro flash_write_correct and_takes_erased) simp_all
  then show ?thesis by (simp add: small_dev_def)
qed

text \<open>
  A whole block that is not written at the start goes astray: the block at the position is erased, and the
  data is written into block 0, which was not erased, because the device is not positioned.
\<close>

theorem flash_block_misplaced:
  assumes "takes_erased program" and "all_ok e" and "erasesize dev = 2 ^ k" and "length buf = 2 ^ k"
    and "length (mtd_bytes dev) = n * 2 ^ k" and "0 < i" and "i < n"
  shows "flash_write program e dev buf (i * 2 ^ k) = Inr (2 ^ k,
    dev\<lparr>mtd_bytes := mtd_program program 0 buf (mtd_erase (i * 2 ^ k) (2 ^ k) (mtd_bytes dev))\<rparr>)"
  using assms by (rule flash_write_whole_block)

theorem flash_block_misplaced_witness:
  "flash_write (\<lambda>old new. old AND new) good_flash small_dev [7, 7, 7, 7] 8 =
    Inr (4, small_dev\<lparr>mtd_bytes := [0, 1, 2, 3, 4, 5, 6, 7, 0xff, 0xff, 0xff, 0xff, 12, 13, 14, 15]\<rparr>)"
proof -
  have "all_ok good_flash" by (simp add: all_ok_def good_flash_def)
  from flash_block_misplaced [OF and_takes_erased this, of small_dev 2 "[7, 7, 7, 7]" 4 2]
  show ?thesis by (simp add: small_dev_def mtd_program_def mtd_erase_def move_at_def eval_nat_numeral(2,3))
qed

section \<open>Failures\<close>

text \<open>
  The limit of a section is computed from the place behind the checksum, four bytes too far: text that fills
  the last section, or exceeds it by up to three bytes, is not refused, and is written behind the buffer.
\<close>

theorem section_overflow:
  assumes "\<forall>e \<in> set (sec_cache s). slot_ok e" and "sec_offset s + sec_size s = length buf" and "4 \<le> sec_size s"
    and "sec_size s \<le> 4 + length (text_of (pairs (sec_cache s)))" and "length (text_of (pairs (sec_cache s))) < sec_size s"
  shows "commit_section s buf = Inl Out_Of_Bounds"
  using assms by (rule commit_section_over)

theorem section_overflow_witness:
  "commit_section \<lparr>sec_name = [], sec_offset = 0, sec_size = 8, sec_flag = 0, sec_crc = 0, sec_cache = [used_slot [65, 66] [67]]\<rparr>
    (replicate 8 0) = Inl Out_Of_Bounds"
  using section_overflow [of "\<lparr>sec_name = [], sec_offset = 0, sec_size = 8, sec_flag = 0, sec_crc = 0, sec_cache = [used_slot [65, 66] [67]]\<rparr>"
    "replicate 8 0"] by simp

text \<open>
  The slots of the sections are not cleared: when the memory for them was used before, looking a name up that
  is not in the section follows a pointer that was never set.
\<close>

theorem uncleared_slots_fault:
  assumes "lay_offset lay + lay_size lay \<le> length data" and "sect_bytes ps (region lay data)" and "\<forall>x \<in> set ps. plain x"
    and "length ps < MAX_ENTRY" and "length fresh = MAX_ENTRY" and "ent_name (fresh ! length ps) = Wild" and "key \<notin> fst ` set ps"
  shows "\<exists>s data'. parse_section lay fresh data = Inr (s, data') \<and> find_name key (sec_cache s) = Inl Wild_Pointer"
proof -
  have "length ps \<le> MAX_ENTRY" using assms(4) by simp
  from parse_section_slots [OF assms(1-3) this assms(5)] obtain data' where
    run: "parse_section lay fresh data = Inr ((loaded lay ps data)\<lparr>sec_cache := map (\<lambda>(n, v). used_slot n v) ps @ drop (length ps) fresh\<rparr>, data')" .
  have "drop (length ps) fresh = fresh ! length ps # drop (Suc (length ps)) fresh"
    using assms(4,5) by (simp add: Cons_nth_drop_Suc)
  then have "find_name key (map (\<lambda>(n, v). used_slot n v) ps @ drop (length ps) fresh) = Inl Wild_Pointer"
    using assms(6,7) by (simp add: find_name_wild)
  with run show ?thesis by simp
qed

theorem uncleared_slots_fault_witness:
  "\<exists>s data'. parse_section \<lparr>lay_name = [], lay_offset = 0, lay_size = 16, lay_flag = 0\<rparr> (replicate MAX_ENTRY \<lparr>ent_name = Wild, ent_value = Wild\<rparr>)
      (blank 16) = Inr (s, data') \<and> find_name (ascii ''ssid'') (sec_cache s) = Inl Wild_Pointer"
  by (rule uncleared_slots_fault [of _ _ "[]"]) (simp_all add: sect_bytes_blank)

end
