(* ===== verification/Bucket_Lists.thy ===== *)
theory Bucket_Lists
  imports Keyed_Table
begin

text \<open>
  Hash buckets made of linked lists whose cells live in one array. \<open>buckets nx first B\<close>: the list that
  starts at the head \<open>first h\<close> ends, and visits exactly the cells of \<open>B h\<close>. The lemmas say what appending a
  cell to a bucket and unlinking a cell from it do.
\<close>

definition buckets :: "(nat \<Rightarrow> nat option) \<Rightarrow> ('h \<Rightarrow> nat option) \<Rightarrow> ('h \<Rightarrow> nat set) \<Rightarrow> bool" where
  "buckets nx first B \<longleftrightarrow> (\<forall>h. \<exists>xs. chain nx (first h) xs \<and> set xs = B h)"

lemma bucketsE:
  assumes "buckets nx first B" and "\<And>h. B h \<subseteq> {..<N}"
  obtains xs where "chain nx (first h) xs" and "set xs = B h" and "length xs \<le> N" and "distinct xs"
proof -
  obtain xs where "chain nx (first h) xs" "set xs = B h" using assms(1) unfolding buckets_def by blast
  with assms(2) [of h] that show thesis using chain_length_bound chain_distinct by metis
qed

lemma buckets_cong:
  assumes "buckets nx first B" and "\<And>h i. i \<in> B h \<Longrightarrow> nx' i = nx i"
  shows "buckets nx' first B"
  unfolding buckets_def
proof
  fix h
  obtain xs where "chain nx (first h) xs" "set xs = B h" using assms(1) unfolding buckets_def by blast
  with assms(2) chain_cong [of xs nx' nx] show "\<exists>xs. chain nx' (first h) xs \<and> set xs = B h" by auto
qed

text \<open>Buckets other than the one that was changed.\<close>

lemma buckets_other:
  assumes "buckets nx first B" and "k \<noteq> h" and "l \<notin> B k"
  shows "\<exists>xs. chain (nx(l := q)) ((first(h := r)) k) xs \<and> set xs = B k"
proof -
  obtain xs where "chain nx (first k) xs" "set xs = B k" using assms(1) unfolding buckets_def by blast
  with assms(2,3) show ?thesis by (intro exI [of _ xs]) simp
qed

lemma buckets_append_empty:
  assumes "buckets nx first B" and "first h = None" and "nx i = None"
  shows "buckets nx (first(h := Some i)) (B(h := insert i (B h)))" and "B h = {}"
proof -
  have e: "B h = {}" using assms(1,2) unfolding buckets_def by (metis chain_None list.set(1))
  show "B h = {}" by (fact e)
  have "\<exists>xs. chain nx ((first(h := Some i)) k) xs \<and> set xs = (B(h := insert i (B h))) k" for k
  proof (cases "k = h")
    case True
    with e assms(3) show ?thesis by (intro exI [of _ "[i]"]) simp
  next
    case False
    with assms(1) show ?thesis by (simp add: buckets_def)
  qed
  then show "buckets nx (first(h := Some i)) (B(h := insert i (B h)))" by (simp add: buckets_def)
qed

lemma buckets_append_cell:
  assumes "buckets nx first B" and "\<And>k. k \<noteq> h \<Longrightarrow> B k \<inter> B h = {}"
    and "chain nx (first h) xs" and "set xs = B h" and "xs \<noteq> []" and "i \<notin> B h" and "nx i = None"
  shows "buckets (nx(last xs := Some i)) first (B(h := insert i (B h)))"
  unfolding buckets_def
proof
  fix k
  show "\<exists>ys. chain (nx(last xs := Some i)) (first k) ys \<and> set ys = (B(h := insert i (B h))) k"
  proof (cases "k = h")
    case True
    have "chain (nx(last xs := Some i)) (first h) (xs @ [i])"
      using assms(3-7) by (intro chain_append_cell) auto
    with True assms(4) show ?thesis by (intro exI [of _ "xs @ [i]"]) simp
  next
    case False
    have "last xs \<notin> B k" using assms(2) [OF False] assms(4,5) last_in_set [of xs] by blast
    with buckets_other [OF assms(1) False this, of "Some i" "first h"] False show ?thesis by simp
  qed
qed

lemma buckets_unlink:
  assumes "buckets nx first B" and "\<And>k. k \<noteq> h \<Longrightarrow> B k \<inter> B h = {}"
    and "chain nx (first h) (ys @ i # zs)" and "set (ys @ i # zs) = B h"
  shows "ys = [] \<Longrightarrow> buckets nx (first(h := nx i)) (B(h := B h - {i}))"
    and "ys \<noteq> [] \<Longrightarrow> buckets (nx(last ys := nx i)) first (B(h := B h - {i}))"
proof -
  have d: "distinct (ys @ i # zs)" using assms(3) by (rule chain_distinct)
  then have B: "set (ys @ zs) = B h - {i}" using assms(4) by auto
  show "buckets nx (first(h := nx i)) (B(h := B h - {i}))" if "ys = []"
    unfolding buckets_def
  proof
    fix k
    show "\<exists>xs. chain nx ((first(h := nx i)) k) xs \<and> set xs = (B(h := B h - {i})) k"
    proof (cases "k = h")
      case True
      with that assms(3) B show ?thesis by (intro exI [of _ zs]) simp
    next
      case False
      with assms(1) show ?thesis by (simp add: buckets_def)
    qed
  qed
  show "buckets (nx(last ys := nx i)) first (B(h := B h - {i}))" if "ys \<noteq> []"
    unfolding buckets_def
  proof
    fix k
    show "\<exists>xs. chain (nx(last ys := nx i)) (first k) xs \<and> set xs = (B(h := B h - {i})) k"
    proof (cases "k = h")
      case True
      with chain_unlink_cell [OF assms(3) that] B show ?thesis by (intro exI [of _ "ys @ zs"]) simp
    next
      case False
      have "last ys \<in> set (ys @ i # zs)" using last_in_set [OF that] by simp
      then have "last ys \<in> B h" by (simp only: assms(4))
      then have "last ys \<notin> B k" using assms(2) [OF False] by blast
      with buckets_other [OF assms(1) False this, of "nx i" "first h"] False show ?thesis by simp
    qed
  qed
qed

end
