(* ===== verification/Ft_Table.thy ===== *)
theory Ft_Table
  imports Bucket_Lists
begin

text \<open>
  The table of fast-transition clients of the inter-access-point daemon
  (\<open>package/ramips/applications/mtkiappd/src/mt_iapp_util.c\<close>, types in \<open>rtmpiapp.h\<close>): which station is
  associated with which wireless interface of this access point. 64 slots in an array, linked into 128
  hash buckets; a pointer to a slot is its position. The hash index is always below 128, so the array
  of buckets is a function on \<^typ>\<open>u8\<close>; \<open>used\<close> only ever holds 0 and 1.

  The theory shows that lookup, insertion and deletion implement a finite map from stations to interfaces
  as long as no slot is reused that still points to a successor, and what happens when one is: deletion
  leaves the link of the freed slot in place, and the next station of the same bucket closes a cycle.
  The contract is the locale \<open>guarded_map\<close>, interpreted on the table for stations with different hashes.
\<close>

section \<open>Data and operations\<close>

abbreviation (input) MAX_NUM_OF_CLIENT :: nat where "MAX_NUM_OF_CLIENT \<equiv> 64"

record ft_client_info =
  ft_next :: "nat option"
  ft_if_idx :: int
  sta_mac :: mac
  ap_mac :: mac
  ft_used :: bool
  hash_idx :: u8

record ft_client_table =
  ft_hash :: "u8 \<Rightarrow> nat option"
  ft_sta_info :: "ft_client_info list"
  ft_sta_table_size :: int

fun FT_MAC_HASH_INDEX :: "mac \<Rightarrow> u8" where
  "FT_MAC_HASH_INDEX (a0, a1, a2, a3, a4, a5) =
     (a0 XOR a1 XOR a2 XOR a3 XOR a4 XOR a5) AND 127"

definition zero_ft_client :: ft_client_info where
  "zero_ft_client = \<lparr>ft_next = None, ft_if_idx = 0, sta_mac = zero_mac, ap_mac = zero_mac,
     ft_used = False, hash_idx = 0\<rparr>"

definition mt_iapp_ft_client_table_init :: ft_client_table where
  "mt_iapp_ft_client_table_init = \<lparr>ft_hash = (\<lambda>_. None),
     ft_sta_info = replicate MAX_NUM_OF_CLIENT zero_ft_client, ft_sta_table_size = 0\<rparr>"

definition ft_ptr :: "ft_client_table \<Rightarrow> nat \<Rightarrow> nat option" where
  "ft_ptr t i = ft_next (ft_sta_info t ! i)"

definition upd_ft :: "nat \<Rightarrow> (ft_client_info \<Rightarrow> ft_client_info) \<Rightarrow> ft_client_table \<Rightarrow> ft_client_table" where
  "upd_ft i f t = t\<lparr>ft_sta_info := (ft_sta_info t)[i := f (ft_sta_info t ! i)]\<rparr>"

text \<open>The search compares addresses only; it does not look at \<open>used\<close>.\<close>

definition mt_iapp_ft_client_look_up :: "ft_client_table \<Rightarrow> mac \<Rightarrow> nat option res" where
  "mt_iapp_ft_client_look_up t pAddr =
     scan MAX_NUM_OF_CLIENT (ft_ptr t) (\<lambda>i. sta_mac (ft_sta_info t ! i) = pAddr)
       (ft_hash t (FT_MAC_HASH_INDEX pAddr))"

definition ft_first_free :: "ft_client_table \<Rightarrow> nat option" where
  "ft_first_free t = List.find (\<lambda>i. \<not> ft_used (ft_sta_info t ! i)) [0..<MAX_NUM_OF_CLIENT]"

text \<open>
  The loop of \<open>mt_iapp_ft_client_insert\<close> over the slots: the first free slot is filled. When no slot is
  free the pointer stays at the last one.
\<close>

definition ft_take_slot :: "ft_client_table \<Rightarrow> mac \<Rightarrow> mac \<Rightarrow> int \<Rightarrow> nat \<times> ft_client_table" where
  "ft_take_slot t pStaAddr pApAddr ApIfIdx = (case ft_first_free t of
       Some i \<Rightarrow> (i, upd_ft i (\<lambda>e. e\<lparr>sta_mac := pStaAddr, ap_mac := pApAddr, ft_if_idx := ApIfIdx,
                    ft_used := True\<rparr>) t)
     | None \<Rightarrow> (MAX_NUM_OF_CLIENT - 1, t))"

text \<open>The slot is appended to its bucket: the last slot of the list is the one that has no successor.\<close>

definition ft_link :: "u8 \<Rightarrow> nat \<Rightarrow> ft_client_table \<Rightarrow> ft_client_table res" where
  "ft_link h i t = (case ft_hash t h of
       None \<Rightarrow> Inr (t\<lparr>ft_hash := (ft_hash t)(h := Some i)\<rparr>)
     | Some p \<Rightarrow> res_bind (scan MAX_NUM_OF_CLIENT (ft_ptr t) (\<lambda>j. ft_ptr t j = None) (Some p))
         (\<lambda>r. case r of None \<Rightarrow> Inl Null_Deref
            | Some j \<Rightarrow> Inr (upd_ft j (\<lambda>e. e\<lparr>ft_next := Some i\<rparr>) t)))"

definition mt_iapp_ft_client_insert ::
  "ft_client_table \<Rightarrow> mac \<Rightarrow> mac \<Rightarrow> int \<Rightarrow> (nat option \<times> ft_client_table) res" where
  "mt_iapp_ft_client_insert t pStaAddr pApAddr ApIfIdx =
     res_bind (mt_iapp_ft_client_look_up t pStaAddr) (\<lambda>r. case r of
         Some i \<Rightarrow> Inr (Some i, upd_ft i (\<lambda>e. e\<lparr>ap_mac := pApAddr, ft_if_idx := ApIfIdx, ft_used := True\<rparr>) t)
       | None \<Rightarrow>
           if int MAX_NUM_OF_CLIENT \<le> ft_sta_table_size t then Inr (None, t)
           else case ft_take_slot t pStaAddr pApAddr ApIfIdx of (i, t1) \<Rightarrow>
             let h = FT_MAC_HASH_INDEX pStaAddr;
                 t2 = upd_ft i (\<lambda>e. e\<lparr>hash_idx := h\<rparr>) (t1\<lparr>ft_sta_table_size := ft_sta_table_size t1 + 1\<rparr>)
             in res_bind (ft_link h i t2) (\<lambda>t3. Inr (Some i, t3)))"

definition ft_clear :: "ft_client_info \<Rightarrow> ft_client_info" where
  "ft_clear e = e\<lparr>ft_used := False, ap_mac := zero_mac, sta_mac := zero_mac, ft_if_idx := - 1\<rparr>"

definition ft_unlink :: "u8 \<Rightarrow> nat \<Rightarrow> ft_client_table \<Rightarrow> ft_client_table res" where
  "ft_unlink h i t = res_bind (find_pred MAX_NUM_OF_CLIENT (ft_ptr t) i None (ft_hash t h))
     (\<lambda>r. Inr (case r of None \<Rightarrow> t
        | Some None \<Rightarrow> t\<lparr>ft_hash := (ft_hash t)(h := ft_ptr t i)\<rparr>
        | Some (Some pre) \<Rightarrow> upd_ft pre (\<lambda>e. e\<lparr>ft_next := ft_ptr t i\<rparr>) t))"

definition mt_iapp_ft_client_delete :: "ft_client_table \<Rightarrow> mac \<Rightarrow> ft_client_table res" where
  "mt_iapp_ft_client_delete t pStaAddr =
     res_bind (mt_iapp_ft_client_look_up t pStaAddr) (\<lambda>r. case r of
         None \<Rightarrow> Inr t
       | Some i \<Rightarrow>
           let t1 = upd_ft i ft_clear t
           in res_bind (ft_unlink (hash_idx (ft_sta_info t1 ! i)) i t1) (\<lambda>t2.
                Inr (t2\<lparr>ft_sta_table_size := ft_sta_table_size t2 - 1\<rparr>)))"

definition mt_iapp_find_ifidx_by_sta_mac :: "ft_client_table \<Rightarrow> mac \<Rightarrow> int res" where
  "mt_iapp_find_ifidx_by_sta_mac t pStaMAC =
     res_bind (mt_iapp_ft_client_look_up t pStaMAC) (\<lambda>r.
       Inr (case r of Some i \<Rightarrow> ft_if_idx (ft_sta_info t ! i) | None \<Rightarrow> - 1))"

section \<open>Invariant and abstraction\<close>

definition ft_used_idx :: "ft_client_table \<Rightarrow> nat set" where
  "ft_used_idx t = {i. i < MAX_NUM_OF_CLIENT \<and> ft_used (ft_sta_info t ! i)}"

definition ft_bucket :: "ft_client_table \<Rightarrow> u8 \<Rightarrow> nat set" where
  "ft_bucket t h = {i \<in> ft_used_idx t. FT_MAC_HASH_INDEX (sta_mac (ft_sta_info t ! i)) = h}"

text \<open>
  The slots know their bucket, no station occurs twice, the size counts the slots in use, and every
  bucket is a list that ends and holds exactly the slots in use with that hash.
\<close>

definition ft_data_ok :: "ft_client_table \<Rightarrow> bool" where
  "ft_data_ok t \<longleftrightarrow> length (ft_sta_info t) = MAX_NUM_OF_CLIENT \<and>
     inj_on (\<lambda>i. sta_mac (ft_sta_info t ! i)) (ft_used_idx t) \<and>
     ft_sta_table_size t = int (card (ft_used_idx t)) \<and>
     (\<forall>i \<in> ft_used_idx t. hash_idx (ft_sta_info t ! i) = FT_MAC_HASH_INDEX (sta_mac (ft_sta_info t ! i)))"

definition ft_inv :: "ft_client_table \<Rightarrow> bool" where
  "ft_inv t \<longleftrightarrow> ft_data_ok t \<and> buckets (ft_ptr t) (ft_hash t) (ft_bucket t)"

text \<open>The free slots have no successor: what insertion relies on and deletion does not provide.\<close>

definition ft_clean :: "ft_client_table \<Rightarrow> bool" where
  "ft_clean t \<longleftrightarrow> (\<forall>i < MAX_NUM_OF_CLIENT. i \<notin> ft_used_idx t \<longrightarrow> ft_ptr t i = None)"

text \<open>The table as a map, by a search through the array that ignores the buckets.\<close>

definition ft_slot :: "ft_client_table \<Rightarrow> mac \<Rightarrow> nat option" where
  "ft_slot t a = List.find (\<lambda>i. ft_used (ft_sta_info t ! i) \<and> sta_mac (ft_sta_info t ! i) = a) [0..<MAX_NUM_OF_CLIENT]"

definition ft_map :: "ft_client_table \<Rightarrow> mac \<Rightarrow> (mac \<times> int) option" where
  "ft_map t a = map_option (\<lambda>i. (ap_mac (ft_sta_info t ! i), ft_if_idx (ft_sta_info t ! i))) (ft_slot t a)"

lemma ft_used_idx_bound: "ft_used_idx t \<subseteq> {..<MAX_NUM_OF_CLIENT}"
  by (auto simp: ft_used_idx_def)

lemma finite_ft_used_idx [simp]: "finite (ft_used_idx t)"
  using ft_used_idx_bound finite_subset by blast

lemma ft_bucket_bound: "ft_bucket t h \<subseteq> {..<MAX_NUM_OF_CLIENT}"
  using ft_used_idx_bound by (auto simp: ft_bucket_def)

lemma ft_bucket_disjoint: "k \<noteq> h \<Longrightarrow> ft_bucket t k \<inter> ft_bucket t h = {}"
  by (auto simp: ft_bucket_def)

lemma ft_slot_Some:
  assumes "inj_on (\<lambda>i. sta_mac (ft_sta_info t ! i)) (ft_used_idx t)"
  shows "ft_slot t a = Some i \<longleftrightarrow> i \<in> ft_used_idx t \<and> sta_mac (ft_sta_info t ! i) = a"
proof
  assume "ft_slot t a = Some i"
  then show "i \<in> ft_used_idx t \<and> sta_mac (ft_sta_info t ! i) = a"
    by (auto simp: ft_slot_def find_Some_iff ft_used_idx_def)
next
  assume i: "i \<in> ft_used_idx t \<and> sta_mac (ft_sta_info t ! i) = a"
  with assms show "ft_slot t a = Some i"
    unfolding ft_slot_def by (intro find_only) (auto simp: ft_used_idx_def inj_on_def)
qed

lemma ft_slot_None: "ft_slot t a = None \<longleftrightarrow> (\<forall>i \<in> ft_used_idx t. sta_mac (ft_sta_info t ! i) \<noteq> a)"
  by (auto simp: ft_slot_def find_None_iff ft_used_idx_def)

lemma ft_slot_eqI:
  assumes "inj_on (\<lambda>i. sta_mac (ft_sta_info t ! i)) (ft_used_idx t)"
    and "\<And>i. i \<in> ft_used_idx t \<and> sta_mac (ft_sta_info t ! i) = a \<longleftrightarrow> r = Some i"
  shows "ft_slot t a = r"
  using assms ft_slot_Some [OF assms(1)] ft_slot_None by (cases r) auto

lemma ft_map_None: "ft_map t a = None \<longleftrightarrow> ft_slot t a = None"
  by (simp add: ft_map_def)

lemma ft_map_cong:
  assumes "ft_slot t' b = ft_slot t b"
    and "\<And>j. ft_slot t b = Some j \<Longrightarrow> ap_mac (ft_sta_info t' ! j) = ap_mac (ft_sta_info t ! j) \<and>
      ft_if_idx (ft_sta_info t' ! j) = ft_if_idx (ft_sta_info t ! j)"
  shows "ft_map t' b = ft_map t b"
  using assms by (cases "ft_slot t b") (simp_all add: ft_map_def)

lemma ft_inv_parts:
  assumes "ft_inv t"
  shows "length (ft_sta_info t) = MAX_NUM_OF_CLIENT"
    and "inj_on (\<lambda>i. sta_mac (ft_sta_info t ! i)) (ft_used_idx t)"
    and "ft_sta_table_size t = int (card (ft_used_idx t))"
    and "i \<in> ft_used_idx t \<Longrightarrow> hash_idx (ft_sta_info t ! i) = FT_MAC_HASH_INDEX (sta_mac (ft_sta_info t ! i))"
    and "buckets (ft_ptr t) (ft_hash t) (ft_bucket t)"
  using assms by (simp_all add: ft_inv_def ft_data_ok_def)

lemma ft_bucketE:
  assumes "ft_inv t"
  obtains xs where "chain (ft_ptr t) (ft_hash t h) xs" and "set xs = ft_bucket t h"
    and "length xs \<le> MAX_NUM_OF_CLIENT" and "distinct xs"
  using bucketsE [OF ft_inv_parts(5) [OF assms] ft_bucket_bound] by metis

text \<open>What the lookup finds.\<close>

lemma lookup_slot:
  assumes "ft_inv t"
  shows "mt_iapp_ft_client_look_up t a = Inr (ft_slot t a)"
proof -
  obtain xs where xs: "chain (ft_ptr t) (ft_hash t (FT_MAC_HASH_INDEX a)) xs"
      "set xs = ft_bucket t (FT_MAC_HASH_INDEX a)" "length xs \<le> MAX_NUM_OF_CLIENT"
    using ft_bucketE [OF assms] by metis
  note inj = ft_inv_parts(2) [OF assms]
  have "List.find (\<lambda>i. sta_mac (ft_sta_info t ! i) = a) xs = ft_slot t a"
  proof (cases "ft_slot t a")
    case None
    then have "\<forall>i \<in> ft_used_idx t. sta_mac (ft_sta_info t ! i) \<noteq> a" by (simp add: ft_slot_None)
    with None xs(2) show ?thesis by (auto simp: ft_bucket_def intro!: find_none)
  next
    case (Some k)
    then have "k \<in> ft_used_idx t \<and> sta_mac (ft_sta_info t ! k) = a" using ft_slot_Some [OF inj] by simp
    with Some inj xs(2) show ?thesis by (auto simp: ft_bucket_def dest: inj_onD intro!: find_only)
  qed
  with scan_chain [OF xs(1,3)] show ?thesis by (simp add: mt_iapp_ft_client_look_up_def)
qed

lemma find_ifidx_map:
  assumes "ft_inv t"
  shows "mt_iapp_find_ifidx_by_sta_mac t a = Inr (case ft_map t a of Some (_, ifidx) \<Rightarrow> ifidx | None \<Rightarrow> - 1)"
  by (simp add: mt_iapp_find_ifidx_by_sta_mac_def lookup_slot [OF assms] ft_map_def split: option.splits)

section \<open>Changes that keep the data\<close>

text \<open>Linking and unlinking change pointers and heads only.\<close>

definition ft_data :: "ft_client_table \<Rightarrow> ft_client_info list \<times> int" where
  "ft_data t = (map (\<lambda>e. e\<lparr>ft_next := None\<rparr>) (ft_sta_info t), ft_sta_table_size t)"

lemma ft_data_eq:
  assumes "ft_data t' = ft_data t"
  shows "length (ft_sta_info t') = length (ft_sta_info t)"
    and "ft_sta_table_size t' = ft_sta_table_size t"
    and "i < length (ft_sta_info t) \<Longrightarrow> (ft_sta_info t' ! i)\<lparr>ft_next := None\<rparr> = (ft_sta_info t ! i)\<lparr>ft_next := None\<rparr>"
proof -
  have m: "map (\<lambda>e. e\<lparr>ft_next := None\<rparr>) (ft_sta_info t') = map (\<lambda>e. e\<lparr>ft_next := None\<rparr>) (ft_sta_info t)"
    using assms by (simp add: ft_data_def)
  then show l: "length (ft_sta_info t') = length (ft_sta_info t)" using map_eq_imp_length_eq by blast
  show "ft_sta_table_size t' = ft_sta_table_size t" using assms by (simp add: ft_data_def)
  show "(ft_sta_info t' ! i)\<lparr>ft_next := None\<rparr> = (ft_sta_info t ! i)\<lparr>ft_next := None\<rparr>" if "i < length (ft_sta_info t)"
    using arg_cong [OF m, of "\<lambda>xs. xs ! i"] that l by simp
qed

lemma ft_data_slot:
  assumes "ft_data t' = ft_data t" and "i < length (ft_sta_info t)"
  shows "ft_used (ft_sta_info t' ! i) = ft_used (ft_sta_info t ! i)"
    and "sta_mac (ft_sta_info t' ! i) = sta_mac (ft_sta_info t ! i)"
    and "ap_mac (ft_sta_info t' ! i) = ap_mac (ft_sta_info t ! i)"
    and "ft_if_idx (ft_sta_info t' ! i) = ft_if_idx (ft_sta_info t ! i)"
    and "hash_idx (ft_sta_info t' ! i) = hash_idx (ft_sta_info t ! i)"
  using ft_data_eq(3) [OF assms]
  by (metis ft_client_info.ext_inject ft_client_info.surjective ft_client_info.update_convs(1))+

lemma ft_data_sets:
  assumes "ft_data t' = ft_data t" and "length (ft_sta_info t) = MAX_NUM_OF_CLIENT"
  shows "ft_used_idx t' = ft_used_idx t" and "ft_bucket t' = ft_bucket t"
    and "ft_slot t' = ft_slot t" and "ft_map t' = ft_map t" and "ft_data_ok t' = ft_data_ok t"
proof -
  note f = ft_data_slot [OF assms(1)]
  show u: "ft_used_idx t' = ft_used_idx t" using f assms(2) by (auto simp: ft_used_idx_def)
  show "ft_bucket t' = ft_bucket t" using f assms(2) u by (auto simp: ft_bucket_def ft_used_idx_def)
  show s: "ft_slot t' = ft_slot t"
    unfolding ft_slot_def by (rule ext, rule find_cong) (use f assms(2) in auto)
  have "ft_slot t a = Some i \<Longrightarrow> i < MAX_NUM_OF_CLIENT" for a i by (auto simp: ft_slot_def find_Some_iff)
  with f assms(2) s show "ft_map t' = ft_map t" by (auto simp: ft_map_def fun_eq_iff intro!: option.map_cong0)
  have "inj_on (\<lambda>i. sta_mac (ft_sta_info t' ! i)) (ft_used_idx t) = inj_on (\<lambda>i. sta_mac (ft_sta_info t ! i)) (ft_used_idx t)"
    by (rule inj_on_cong) (use f assms(2) in \<open>auto simp: ft_used_idx_def\<close>)
  with f assms(2) u ft_data_eq [OF assms(1)] show "ft_data_ok t' = ft_data_ok t"
    by (auto simp: ft_data_ok_def ft_used_idx_def)
qed

lemma ft_data_upd_next [simp]: "ft_data (upd_ft i (\<lambda>e. e\<lparr>ft_next := q\<rparr>) t) = ft_data t"
  by (cases "i < length (ft_sta_info t)")
    (auto simp: ft_data_def upd_ft_def list_eq_iff_nth_eq nth_list_update list_update_beyond)

lemma ft_data_hash [simp]: "ft_data (t\<lparr>ft_hash := f\<rparr>) = ft_data t"
  by (simp add: ft_data_def)

lemma ft_ptr_simps [simp]:
  "ft_ptr (t\<lparr>ft_hash := f\<rparr>) = ft_ptr t"
  "ft_ptr (t\<lparr>ft_sta_table_size := n\<rparr>) = ft_ptr t"
  by (simp_all add: ft_ptr_def fun_eq_iff)

lemma ft_ptr_upd_next:
  "i < length (ft_sta_info t) \<Longrightarrow> ft_ptr (upd_ft i (\<lambda>e. e\<lparr>ft_next := q\<rparr>) t) = (ft_ptr t)(i := q)"
  by (auto simp: ft_ptr_def upd_ft_def fun_eq_iff nth_list_update)

lemma ft_ptr_upd_same:
  "(\<And>e. ft_next (f e) = ft_next e) \<Longrightarrow> ft_ptr (upd_ft i f t) = ft_ptr t"
  by (cases "i < length (ft_sta_info t)")
    (auto simp: ft_ptr_def upd_ft_def fun_eq_iff nth_list_update list_update_beyond)

lemma upd_ft_simps [simp]:
  "ft_hash (upd_ft i f t) = ft_hash t" "length (ft_sta_info (upd_ft i f t)) = length (ft_sta_info t)"
  "ft_sta_table_size (upd_ft i f t) = ft_sta_table_size t"
  by (simp_all add: upd_ft_def)

lemma upd_ft_nth:
  "i < length (ft_sta_info t) \<Longrightarrow> ft_sta_info (upd_ft i f t) ! j = (if j = i then f (ft_sta_info t ! i) else ft_sta_info t ! j)"
  by (simp add: upd_ft_def nth_list_update)

section \<open>Insertion\<close>

lemma ft_link_bucket:
  assumes len: "length (ft_sta_info t) = MAX_NUM_OF_CLIENT"
    and b: "buckets (ft_ptr t) (ft_hash t) B" and dis: "\<And>k. k \<noteq> h \<Longrightarrow> B k \<inter> B h = {}"
    and bound: "\<And>k. B k \<subseteq> {..<MAX_NUM_OF_CLIENT}"
    and i: "i \<notin> B h" "ft_ptr t i = None"
  obtains t' where "ft_link h i t = Inr t'" and "ft_data t' = ft_data t"
    and "buckets (ft_ptr t') (ft_hash t') (B(h := insert i (B h)))"
    and "\<And>j. j \<notin> B h \<Longrightarrow> ft_ptr t' j = ft_ptr t j"
    and "\<And>k. B h = {k} \<Longrightarrow> ft_ptr t' k = Some i"
proof (cases "ft_hash t h")
  case None
  show thesis
    by (rule that [of "t\<lparr>ft_hash := (ft_hash t)(h := Some i)\<rparr>"])
      (use None buckets_append_empty [OF b None i(2)] in \<open>auto simp: ft_link_def\<close>)
next
  case (Some p)
  obtain xs where xs: "chain (ft_ptr t) (ft_hash t h) xs" "set xs = B h" "length xs \<le> MAX_NUM_OF_CLIENT"
    using bucketsE [OF b bound] by metis
  have ne: "xs \<noteq> []" using xs(1) Some by auto
  have l: "last xs \<in> B h" using last_in_set [OF ne] xs(2) by simp
  then have lb: "last xs < MAX_NUM_OF_CLIENT" using bound by blast
  let ?t = "upd_ft (last xs) (\<lambda>e. e\<lparr>ft_next := Some i\<rparr>) t"
  have nx: "ft_ptr ?t = (ft_ptr t)(last xs := Some i)" using lb len by (simp add: ft_ptr_upd_next)
  from scan_chain [OF xs(1,3), of "\<lambda>j. ft_ptr t j = None"] chain_find_last [OF xs(1) ne] Some
  have eq: "ft_link h i t = Inr ?t" by (simp add: ft_link_def)
  show thesis
  proof (rule that [OF eq])
    show "ft_data ?t = ft_data t" by simp
    show "buckets (ft_ptr ?t) (ft_hash ?t) (B(h := insert i (B h)))"
      unfolding nx using buckets_append_cell [OF b dis xs(1,2) ne i] by simp
    show "ft_ptr ?t j = ft_ptr t j" if "j \<notin> B h" for j
      using that l unfolding nx by auto
    show "ft_ptr ?t k = Some i" if "B h = {k}" for k
      using that l unfolding nx by auto
  qed
qed

text \<open>The table after a free slot was filled, before it is linked.\<close>

definition ft_filled :: "mac \<Rightarrow> mac \<Rightarrow> int \<Rightarrow> ft_client_info \<Rightarrow> ft_client_info" where
  "ft_filled a ap x e =
     e\<lparr>sta_mac := a, ap_mac := ap, ft_if_idx := x, ft_used := True, hash_idx := FT_MAC_HASH_INDEX a\<rparr>"

lemma ft_first_free_Some:
  assumes "ft_data_ok t" and "ft_sta_table_size t < int MAX_NUM_OF_CLIENT"
  obtains i where "ft_first_free t = Some i" and "i < MAX_NUM_OF_CLIENT" and "i \<notin> ft_used_idx t"
proof (cases "ft_first_free t")
  case None
  then have "ft_used_idx t = {..<MAX_NUM_OF_CLIENT}"
    by (auto simp: ft_first_free_def find_None_iff ft_used_idx_def)
  then have "ft_sta_table_size t = int MAX_NUM_OF_CLIENT" using assms(1) by (simp add: ft_data_ok_def)
  with assms(2) show thesis by simp
next
  case (Some i)
  then show thesis by (intro that [of i]) (auto simp: ft_first_free_def find_Some_iff ft_used_idx_def)
qed

lemma ft_fill_sets:
  assumes "length (ft_sta_info t) = MAX_NUM_OF_CLIENT" and "i < MAX_NUM_OF_CLIENT" and "i \<notin> ft_used_idx t"
    and "t1 = (upd_ft i (ft_filled a ap x) t)\<lparr>ft_sta_table_size := ft_sta_table_size t + 1\<rparr>"
  shows "ft_used_idx t1 = insert i (ft_used_idx t)"
    and "ft_bucket t1 = (ft_bucket t)(FT_MAC_HASH_INDEX a := insert i (ft_bucket t (FT_MAC_HASH_INDEX a)))"
    and "ft_ptr t1 = ft_ptr t" and "ft_hash t1 = ft_hash t" and "length (ft_sta_info t1) = MAX_NUM_OF_CLIENT"
    and "ft_sta_info t1 ! j = (if j = i then ft_filled a ap x (ft_sta_info t ! i) else ft_sta_info t ! j)"
proof -
  have n: "ft_sta_info t1 ! j = (if j = i then ft_filled a ap x (ft_sta_info t ! i) else ft_sta_info t ! j)" for j
    using assms(1,2) by (simp add: assms(4) upd_ft_nth)
  then show "ft_sta_info t1 ! j = (if j = i then ft_filled a ap x (ft_sta_info t ! i) else ft_sta_info t ! j)" .
  show u: "ft_used_idx t1 = insert i (ft_used_idx t)"
    using assms(2) by (auto simp: ft_used_idx_def n ft_filled_def split: if_splits)
  show "ft_bucket t1 = (ft_bucket t)(FT_MAC_HASH_INDEX a := insert i (ft_bucket t (FT_MAC_HASH_INDEX a)))"
    using assms(3) by (auto simp: ft_bucket_def u n ft_filled_def fun_eq_iff split: if_splits)
  show "ft_ptr t1 = ft_ptr t" by (simp add: assms(4) ft_ptr_upd_same ft_filled_def)
  show "ft_hash t1 = ft_hash t" and "length (ft_sta_info t1) = MAX_NUM_OF_CLIENT" using assms(1) by (simp_all add: assms(4))
qed

lemma ft_fill_data:
  assumes ok: "ft_data_ok t" and i: "i < MAX_NUM_OF_CLIENT" "i \<notin> ft_used_idx t" and absent: "ft_slot t a = None"
    and t1: "t1 = (upd_ft i (ft_filled a ap x) t)\<lparr>ft_sta_table_size := ft_sta_table_size t + 1\<rparr>"
  shows "ft_data_ok t1" and "ft_slot t1 = (ft_slot t)(a \<mapsto> i)" and "ft_map t1 = (ft_map t)(a \<mapsto> (ap, x))"
proof -
  have len: "length (ft_sta_info t) = MAX_NUM_OF_CLIENT"
    and inj: "inj_on (\<lambda>i. sta_mac (ft_sta_info t ! i)) (ft_used_idx t)"
    using ok by (simp_all add: ft_data_ok_def)
  note f = ft_fill_sets [OF len i t1]
  have m: "sta_mac (ft_sta_info t1 ! j) = (if j = i then a else sta_mac (ft_sta_info t ! j))" for j
    by (simp add: f(6) ft_filled_def)
  have inj1: "inj_on (\<lambda>j. sta_mac (ft_sta_info t1 ! j)) (ft_used_idx t1)"
    unfolding m f(1) using inj absent i(2) by (auto simp: inj_on_def ft_slot_None)
  have "hash_idx (ft_sta_info t1 ! j) = FT_MAC_HASH_INDEX (sta_mac (ft_sta_info t1 ! j))" if "j \<in> ft_used_idx t1" for j
    using that ok by (auto simp: f(1,6) ft_filled_def ft_data_ok_def)
  with inj1 f(5) show "ft_data_ok t1"
    using ok i(2) by (simp add: ft_data_ok_def f(1)) (simp add: t1)
  show s: "ft_slot t1 = (ft_slot t)(a \<mapsto> i)"
  proof
    fix b
    have "j \<in> ft_used_idx t1 \<and> sta_mac (ft_sta_info t1 ! j) = b \<longleftrightarrow> ((ft_slot t)(a \<mapsto> i)) b = Some j" for j
      unfolding m f(1) using absent i(2) ft_slot_Some [OF inj] by (auto simp: ft_slot_None)
    then show "ft_slot t1 b = ((ft_slot t)(a \<mapsto> i)) b" by (rule ft_slot_eqI [OF inj1])
  qed
  have "ft_slot t b = Some j \<Longrightarrow> j \<noteq> i" for b j using ft_slot_Some [OF inj] i(2) by auto
  then show "ft_map t1 = (ft_map t)(a \<mapsto> (ap, x))"
    by (auto simp: fun_eq_iff ft_map_def s f(6) ft_filled_def intro!: option.map_cong0)
qed

lemma ft_insert_eq:
  assumes "ft_inv t" and "ft_slot t a = None" and "ft_sta_table_size t < int MAX_NUM_OF_CLIENT"
    and "ft_first_free t = Some i" and "i < MAX_NUM_OF_CLIENT"
    and "t1 = (upd_ft i (ft_filled a ap x) t)\<lparr>ft_sta_table_size := ft_sta_table_size t + 1\<rparr>"
  shows "mt_iapp_ft_client_insert t a ap x =
    res_bind (ft_link (FT_MAC_HASH_INDEX a) i t1) (\<lambda>t3. Inr (Some i, t3))"
proof -
  have "upd_ft i (\<lambda>e. e\<lparr>hash_idx := FT_MAC_HASH_INDEX a\<rparr>)
      ((upd_ft i (\<lambda>e. e\<lparr>sta_mac := a, ap_mac := ap, ft_if_idx := x, ft_used := True\<rparr>) t)
         \<lparr>ft_sta_table_size := ft_sta_table_size t + 1\<rparr>) = t1"
    using assms(1,5) by (simp add: assms(6) upd_ft_def ft_filled_def ft_inv_parts)
  with assms(2-4) show ?thesis
    by (simp add: mt_iapp_ft_client_insert_def lookup_slot [OF assms(1)] ft_take_slot_def Let_def)
qed

lemma insert_new_station:
  assumes inv: "ft_inv t" and clean: "ft_clean t" and absent: "ft_slot t a = None"
    and room: "ft_sta_table_size t < int MAX_NUM_OF_CLIENT"
  obtains i t' where "mt_iapp_ft_client_insert t a ap x = Inr (Some i, t')"
    and "ft_first_free t = Some i" and "ft_slot t' = (ft_slot t)(a \<mapsto> i)"
    and "ft_map t' = (ft_map t)(a \<mapsto> (ap, x))" and "ft_inv t'" and "ft_clean t'"
    and "ft_used_idx t' = insert i (ft_used_idx t)" and "i \<notin> ft_used_idx t"
    and "\<And>k. ft_bucket t (FT_MAC_HASH_INDEX a) = {k} \<Longrightarrow> ft_ptr t' k = Some i"
proof -
  have ok: "ft_data_ok t" and len: "length (ft_sta_info t) = MAX_NUM_OF_CLIENT"
    using inv ft_inv_parts by (simp_all add: ft_inv_def)
  obtain i where i: "ft_first_free t = Some i" "i < MAX_NUM_OF_CLIENT" "i \<notin> ft_used_idx t"
    using ft_first_free_Some [OF ok room] by blast
  define t1 where "t1 = (upd_ft i (ft_filled a ap x) t)\<lparr>ft_sta_table_size := ft_sta_table_size t + 1\<rparr>"
  note f = ft_fill_sets [OF len i(2,3) t1_def] and d = ft_fill_data [OF ok i(2,3) absent t1_def]
  have "i \<notin> ft_bucket t (FT_MAC_HASH_INDEX a)" using i(3) by (simp add: ft_bucket_def)
  moreover have "ft_ptr t1 i = None" using clean i(2,3) by (simp add: f(3) ft_clean_def)
  moreover have "buckets (ft_ptr t1) (ft_hash t1) (ft_bucket t)" using ft_inv_parts(5) [OF inv] by (simp add: f(3,4))
  note link = ft_link_bucket [where B = "ft_bucket t" and h = "FT_MAC_HASH_INDEX a",
    OF f(5) this ft_bucket_disjoint ft_bucket_bound]
  ultimately obtain t' where t': "ft_link (FT_MAC_HASH_INDEX a) i t1 = Inr t'" "ft_data t' = ft_data t1"
      "buckets (ft_ptr t') (ft_hash t') (ft_bucket t1)"
      "\<And>j. j \<notin> ft_bucket t (FT_MAC_HASH_INDEX a) \<Longrightarrow> ft_ptr t' j = ft_ptr t1 j"
      "\<And>k. ft_bucket t (FT_MAC_HASH_INDEX a) = {k} \<Longrightarrow> ft_ptr t' k = Some i"
    using link f(2) by metis
  note s = ft_data_sets [OF t'(2) f(5)]
  show thesis
  proof (rule that)
    show "mt_iapp_ft_client_insert t a ap x = Inr (Some i, t')"
      by (simp add: ft_insert_eq [OF inv absent room i(1,2) t1_def] t'(1))
    show "ft_first_free t = Some i" "i \<notin> ft_used_idx t" by (fact i)+
    show "ft_slot t' = (ft_slot t)(a \<mapsto> i)" "ft_map t' = (ft_map t)(a \<mapsto> (ap, x))"
      using d by (simp_all add: s)
    show "ft_inv t'" using d(1) t'(3) by (simp add: ft_inv_def s)
    show "ft_used_idx t' = insert i (ft_used_idx t)" by (simp add: s f)
    show "ft_clean t'"
      using clean t'(4) by (auto simp: ft_clean_def s f(1,3) ft_bucket_def)
    show "ft_ptr t' k = Some i" if "ft_bucket t (FT_MAC_HASH_INDEX a) = {k}" for k
      using that by (rule t'(5))
  qed
qed

lemma insert_full:
  assumes "ft_inv t" and "ft_slot t a = None" and "int MAX_NUM_OF_CLIENT \<le> ft_sta_table_size t"
  shows "mt_iapp_ft_client_insert t a ap x = Inr (None, t)"
  using assms(2,3) by (simp add: mt_iapp_ft_client_insert_def lookup_slot [OF assms(1)])

text \<open>A station that is in the table gets the new access point and interface.\<close>

lemma ft_same_station:
  assumes len: "length (ft_sta_info t) = MAX_NUM_OF_CLIENT" and i: "i < MAX_NUM_OF_CLIENT"
    and f: "\<And>e. ft_used (f e) = ft_used e" "\<And>e. sta_mac (f e) = sta_mac e" "\<And>e. hash_idx (f e) = hash_idx e"
      "\<And>e. ft_next (f e) = ft_next e"
  shows "ft_used_idx (upd_ft i f t) = ft_used_idx t" and "ft_bucket (upd_ft i f t) = ft_bucket t"
    and "ft_slot (upd_ft i f t) = ft_slot t" and "ft_inv (upd_ft i f t) = ft_inv t"
    and "ft_clean (upd_ft i f t) = ft_clean t"
proof -
  have n: "ft_sta_info (upd_ft i f t) ! j = (if j = i then f (ft_sta_info t ! i) else ft_sta_info t ! j)" for j
    using len i by (simp add: upd_ft_nth)
  have m: "sta_mac (ft_sta_info (upd_ft i f t) ! j) = sta_mac (ft_sta_info t ! j)"
      "ft_used (ft_sta_info (upd_ft i f t) ! j) = ft_used (ft_sta_info t ! j)"
      "hash_idx (ft_sta_info (upd_ft i f t) ! j) = hash_idx (ft_sta_info t ! j)" for j
    by (simp_all add: n f)
  show u: "ft_used_idx (upd_ft i f t) = ft_used_idx t" by (simp add: ft_used_idx_def m)
  show b: "ft_bucket (upd_ft i f t) = ft_bucket t" by (simp add: ft_bucket_def m u fun_eq_iff)
  show "ft_slot (upd_ft i f t) = ft_slot t" by (simp add: ft_slot_def m fun_eq_iff)
  have p: "ft_ptr (upd_ft i f t) = ft_ptr t" by (simp add: ft_ptr_upd_same f)
  show "ft_inv (upd_ft i f t) = ft_inv t" by (simp add: ft_inv_def ft_data_ok_def m u b p)
  show "ft_clean (upd_ft i f t) = ft_clean t" by (simp add: ft_clean_def u p)
qed

lemma insert_known_station:
  assumes inv: "ft_inv t" and i: "ft_slot t a = Some i"
  obtains t' where "mt_iapp_ft_client_insert t a ap x = Inr (Some i, t')"
    and "ft_slot t' = ft_slot t" and "ft_map t' = (ft_map t)(a \<mapsto> (ap, x))" and "ft_inv t'"
    and "ft_clean t' = ft_clean t" and "ft_used_idx t' = ft_used_idx t"
proof -
  define t' where "t' = upd_ft i (\<lambda>e. e\<lparr>ap_mac := ap, ft_if_idx := x\<rparr>) t"
  note inj = ft_inv_parts(2) [OF inv] and len = ft_inv_parts(1) [OF inv]
  have k: "i \<in> ft_used_idx t" "sta_mac (ft_sta_info t ! i) = a" "i < MAX_NUM_OF_CLIENT"
    using i ft_slot_Some [OF inj] by (auto simp: ft_used_idx_def)
  note same = ft_same_station [OF len k(3), of "\<lambda>e. e\<lparr>ap_mac := ap, ft_if_idx := x\<rparr>", simplified, folded t'_def]
  have "(ft_sta_info t ! i)\<lparr>ap_mac := ap, ft_if_idx := x, ft_used := True\<rparr> = (ft_sta_info t ! i)\<lparr>ap_mac := ap, ft_if_idx := x\<rparr>"
    using k(1) by (cases "ft_sta_info t ! i") (simp add: ft_used_idx_def)
  then have "upd_ft i (\<lambda>e. e\<lparr>ap_mac := ap, ft_if_idx := x, ft_used := True\<rparr>) t = t'"
    by (simp only: t'_def upd_ft_def)
  then have eq: "mt_iapp_ft_client_insert t a ap x = Inr (Some i, t')"
    by (simp add: mt_iapp_ft_client_insert_def lookup_slot [OF inv] i)
  have n: "ft_sta_info t' ! j = (if j = i then (ft_sta_info t ! i)\<lparr>ap_mac := ap, ft_if_idx := x\<rparr> else ft_sta_info t ! j)" for j
    using len k(3) by (simp add: t'_def upd_ft_nth)
  have "ft_map t' b = ((ft_map t)(a \<mapsto> (ap, x))) b" for b
  proof (cases "b = a")
    case True
    with i show ?thesis by (simp add: ft_map_def same(3) n)
  next
    case False
    then have "ft_slot t b = Some j \<Longrightarrow> j \<noteq> i" for j using ft_slot_Some [OF inj] k(2) by auto
    with False show ?thesis using ft_map_cong [of t' b t] by (simp add: same(3) n)
  qed
  then have "ft_map t' = (ft_map t)(a \<mapsto> (ap, x))" by (rule ext)
  with eq same inv that show thesis by metis
qed

section \<open>Deletion\<close>

lemma ft_unlink_bucket:
  assumes len: "length (ft_sta_info t) = MAX_NUM_OF_CLIENT"
    and b: "buckets (ft_ptr t) (ft_hash t) B" and dis: "\<And>k. k \<noteq> h \<Longrightarrow> B k \<inter> B h = {}"
    and bound: "\<And>k. B k \<subseteq> {..<MAX_NUM_OF_CLIENT}" and i: "i \<in> B h"
  obtains t' where "ft_unlink h i t = Inr t'" and "ft_data t' = ft_data t"
    and "buckets (ft_ptr t') (ft_hash t') (B(h := B h - {i}))"
    and "\<And>j. j \<notin> B h - {i} \<Longrightarrow> ft_ptr t' j = ft_ptr t j"
proof -
  obtain xs where xs: "chain (ft_ptr t) (ft_hash t h) xs" "set xs = B h" "length xs \<le> MAX_NUM_OF_CLIENT" "distinct xs"
    using bucketsE [OF b bound] by metis
  then obtain ys zs where yz: "xs = ys @ i # zs" using i by (metis split_list)
  note ch = xs(1) [unfolded yz] and st = xs(2) [unfolded yz]
  have un: "ys = [] \<Longrightarrow> buckets (ft_ptr t) ((ft_hash t)(h := ft_ptr t i)) (B(h := B h - {i}))"
      "ys \<noteq> [] \<Longrightarrow> buckets ((ft_ptr t)(last ys := ft_ptr t i)) (ft_hash t) (B(h := B h - {i}))"
    using buckets_unlink [OF b _ ch st] dis by blast+
  have fp: "find_pred MAX_NUM_OF_CLIENT (ft_ptr t) i None (ft_hash t h) =
      Inr (Some (if ys = [] then None else Some (last ys)))"
    using ch xs(3,4) yz by (intro find_pred_found) auto
  show thesis
  proof (cases "ys = []")
    case True
    then show thesis
      by (intro that [of "t\<lparr>ft_hash := (ft_hash t)(h := ft_ptr t i)\<rparr>"]) (use fp un(1) in \<open>auto simp: ft_unlink_def\<close>)
  next
    case False
    have l: "last ys \<in> B h - {i}" using last_in_set [OF False] st xs(4) yz by auto
    then have lb: "last ys < MAX_NUM_OF_CLIENT" using bound by blast
    let ?t = "upd_ft (last ys) (\<lambda>e. e\<lparr>ft_next := ft_ptr t i\<rparr>) t"
    have nx: "ft_ptr ?t = (ft_ptr t)(last ys := ft_ptr t i)" using lb len by (simp add: ft_ptr_upd_next)
    show thesis
    proof (rule that)
      show "ft_unlink h i t = Inr ?t" using fp False by (simp add: ft_unlink_def)
      show "ft_data ?t = ft_data t" by simp
      show "buckets (ft_ptr ?t) (ft_hash ?t) (B(h := B h - {i}))" unfolding nx using un(2) [OF False] by simp
      show "ft_ptr ?t j = ft_ptr t j" if "j \<notin> B h - {i}" for j using that l unfolding nx by auto
    qed
  qed
qed

lemma ft_clear_sets:
  assumes "length (ft_sta_info t) = MAX_NUM_OF_CLIENT" and "i < MAX_NUM_OF_CLIENT" and "t1 = upd_ft i ft_clear t"
  shows "ft_used_idx t1 = ft_used_idx t - {i}" and "ft_bucket t1 h = ft_bucket t h - {i}"
    and "ft_ptr t1 = ft_ptr t" and "length (ft_sta_info t1) = MAX_NUM_OF_CLIENT"
    and "ft_sta_info t1 ! j = (if j = i then ft_clear (ft_sta_info t ! i) else ft_sta_info t ! j)"
proof -
  have n: "ft_sta_info t1 ! j = (if j = i then ft_clear (ft_sta_info t ! i) else ft_sta_info t ! j)" for j
    using assms(1,2) by (simp add: assms(3) upd_ft_nth)
  then show "ft_sta_info t1 ! j = (if j = i then ft_clear (ft_sta_info t ! i) else ft_sta_info t ! j)" .
  show u: "ft_used_idx t1 = ft_used_idx t - {i}" by (auto simp: ft_used_idx_def n ft_clear_def split: if_splits)
  show "ft_bucket t1 h = ft_bucket t h - {i}" by (auto simp: ft_bucket_def u n)
  show "ft_ptr t1 = ft_ptr t" by (simp add: assms(3) ft_ptr_upd_same ft_clear_def)
  show "length (ft_sta_info t1) = MAX_NUM_OF_CLIENT" using assms(1) by (simp add: assms(3))
qed

lemma ft_data_size:
  "ft_data t' = ft_data t \<Longrightarrow> ft_data (t'\<lparr>ft_sta_table_size := n\<rparr>) = ft_data (t\<lparr>ft_sta_table_size := n\<rparr>)"
  by (simp add: ft_data_def)

lemma delete_known_station:
  assumes inv: "ft_inv t" and i: "ft_slot t a = Some i"
  obtains t' where "mt_iapp_ft_client_delete t a = Inr t'" and "ft_slot t' = (ft_slot t)(a := None)"
    and "ft_map t' = (ft_map t)(a := None)" and "ft_inv t'" and "ft_used_idx t' = ft_used_idx t - {i}"
    and "\<And>j. j \<notin> ft_used_idx t' \<Longrightarrow> ft_ptr t' j = ft_ptr t j"
proof -
  note inj = ft_inv_parts(2) [OF inv] and len = ft_inv_parts(1) [OF inv]
  have k: "i \<in> ft_used_idx t" "sta_mac (ft_sta_info t ! i) = a" "i < MAX_NUM_OF_CLIENT"
    using i ft_slot_Some [OF inj] by (auto simp: ft_used_idx_def)
  let ?h = "FT_MAC_HASH_INDEX a"
  define t1 where "t1 = upd_ft i ft_clear t"
  note c = ft_clear_sets [OF len k(3) t1_def]
  have h: "hash_idx (ft_sta_info t1 ! i) = ?h" using ft_inv_parts(4) [OF inv k(1)] k(2) by (simp add: c(5) ft_clear_def)
  have ib: "i \<in> ft_bucket t ?h" using k by (simp add: ft_bucket_def)
  have "buckets (ft_ptr t1) (ft_hash t1) (ft_bucket t)" using ft_inv_parts(5) [OF inv] c(3) by (simp add: t1_def)
  from ft_unlink_bucket [OF c(4) this ft_bucket_disjoint ft_bucket_bound ib]
  obtain t2 where t2: "ft_unlink ?h i t1 = Inr t2" "ft_data t2 = ft_data t1"
      "buckets (ft_ptr t2) (ft_hash t2) ((ft_bucket t)(?h := ft_bucket t ?h - {i}))"
      "\<And>j. j \<notin> ft_bucket t ?h - {i} \<Longrightarrow> ft_ptr t2 j = ft_ptr t1 j" by metis
  define t' where "t' = t2\<lparr>ft_sta_table_size := ft_sta_table_size t2 - 1\<rparr>"
  define t1' where "t1' = t1\<lparr>ft_sta_table_size := ft_sta_table_size t1 - 1\<rparr>"
  have d: "ft_data t' = ft_data t1'" using ft_data_size [OF t2(2)] ft_data_eq(2) [OF t2(2)] by (simp add: t'_def t1'_def)
  have c': "ft_used_idx t1' = ft_used_idx t - {i}" "ft_bucket t1' = (ft_bucket t)(?h := ft_bucket t ?h - {i})"
      "length (ft_sta_info t1') = MAX_NUM_OF_CLIENT"
      "ft_sta_info t1' ! j = (if j = i then ft_clear (ft_sta_info t ! i) else ft_sta_info t ! j)" for j
  proof -
    have e: "ft_sta_info t1' = ft_sta_info t1" by (simp add: t1'_def)
    show u: "ft_used_idx t1' = ft_used_idx t - {i}" using c(1) by (simp add: ft_used_idx_def e)
    have "i \<notin> ft_bucket t k" if "k \<noteq> ?h" for k using ib that by (auto simp: ft_bucket_def)
    then show "ft_bucket t1' = (ft_bucket t)(?h := ft_bucket t ?h - {i})"
      using c(1,2) by (auto simp: ft_bucket_def u e fun_eq_iff c(5))
    show "length (ft_sta_info t1') = MAX_NUM_OF_CLIENT"
      "ft_sta_info t1' ! j = (if j = i then ft_clear (ft_sta_info t ! i) else ft_sta_info t ! j)"
      using c(4,5) by (simp_all add: e)
  qed
  note s = ft_data_sets [OF d c'(3)]
  have inj1: "inj_on (\<lambda>j. sta_mac (ft_sta_info t1' ! j)) (ft_used_idx t1')"
    using inj by (auto simp: inj_on_def c'(1,4))
  have sl: "ft_slot t1' = (ft_slot t)(a := None)"
  proof
    fix b
    have "j \<in> ft_used_idx t1' \<and> sta_mac (ft_sta_info t1' ! j) = b \<longleftrightarrow> ((ft_slot t)(a := None)) b = Some j" for j
      using ft_slot_Some [OF inj] i inj k by (auto simp: c'(1,4) dest: inj_onD)
    then show "ft_slot t1' b = ((ft_slot t)(a := None)) b" by (rule ft_slot_eqI [OF inj1])
  qed
  have "ft_map t1' b = ((ft_map t)(a := None)) b" for b
  proof (cases "b = a")
    case True
    then show ?thesis by (simp add: ft_map_def sl)
  next
    case False
    then have "ft_slot t b = Some j \<Longrightarrow> j \<noteq> i" for j using ft_slot_Some [OF inj] k(2) by auto
    with False show ?thesis using ft_map_cong [of t1' b t] by (simp add: sl c'(4))
  qed
  then have mp: "ft_map t1' = (ft_map t)(a := None)" by (rule ext)
  have "card (ft_used_idx t - {i}) = card (ft_used_idx t) - 1" using k(1) by (rule card_Diff_singleton)
  moreover have "0 < card (ft_used_idx t)" using k(1) by (subst card_gt_0_iff) auto
  moreover have "ft_sta_table_size t1' = ft_sta_table_size t - 1" by (simp add: t1'_def t1_def)
  ultimately have "ft_sta_table_size t1' = int (card (ft_used_idx t1'))"
    using ft_inv_parts(3) [OF inv] by (simp add: c'(1))
  with inj1 have "ft_data_ok t1'" using ft_inv_parts(4) [OF inv] by (simp add: ft_data_ok_def c')
  show thesis
  proof (rule that)
    show "mt_iapp_ft_client_delete t a = Inr t'"
      by (simp add: mt_iapp_ft_client_delete_def lookup_slot [OF inv] i Let_def h t2(1) t'_def flip: t1_def)
    show "ft_slot t' = (ft_slot t)(a := None)" "ft_map t' = (ft_map t)(a := None)" by (simp_all add: s sl mp)
    show "ft_used_idx t' = ft_used_idx t - {i}" by (simp add: s c'(1))
    show "ft_inv t'" using \<open>ft_data_ok t1'\<close> t2(3) by (simp add: ft_inv_def s c'(2)) (simp add: t'_def)
    show "ft_ptr t' j = ft_ptr t j" if "j \<notin> ft_used_idx t'" for j
    proof -
      have "ft_ptr t' = ft_ptr t2" by (simp add: t'_def)
      moreover have "j \<notin> ft_bucket t ?h - {i}" using that by (auto simp: s(1) c'(1) ft_bucket_def)
      ultimately show ?thesis using t2(4) [of j] c(3) by simp
    qed
  qed
qed

lemma delete_unknown_station:
  assumes "ft_inv t" and "ft_slot t a = None"
  shows "mt_iapp_ft_client_delete t a = Inr t"
  using assms(2) by (simp add: mt_iapp_ft_client_delete_def lookup_slot [OF assms(1)])

section \<open>Runs without collisions\<close>

lemma init_table:
  "ft_inv mt_iapp_ft_client_table_init" "ft_clean mt_iapp_ft_client_table_init"
  "ft_used_idx mt_iapp_ft_client_table_init = {}" "ft_map mt_iapp_ft_client_table_init = Map.empty"
proof -
  let ?t = mt_iapp_ft_client_table_init
  have n: "i < MAX_NUM_OF_CLIENT \<Longrightarrow> ft_sta_info ?t ! i = zero_ft_client" for i
    by (simp add: mt_iapp_ft_client_table_init_def)
  show u: "ft_used_idx ?t = {}" by (auto simp: ft_used_idx_def n zero_ft_client_def)
  then have "ft_bucket ?t h = {}" for h by (simp add: ft_bucket_def)
  moreover have "ft_hash ?t = (\<lambda>_. None)" by (simp add: mt_iapp_ft_client_table_init_def)
  ultimately have "buckets (ft_ptr ?t) (ft_hash ?t) (ft_bucket ?t)" by (simp add: buckets_def)
  then show "ft_inv ?t" using u by (simp add: ft_inv_def ft_data_ok_def) (simp add: mt_iapp_ft_client_table_init_def)
  show "ft_clean ?t" by (auto simp: ft_clean_def ft_ptr_def n zero_ft_client_def)
  have "ft_slot ?t a = None" for a by (simp add: ft_slot_None u)
  then show "ft_map ?t = Map.empty" by (simp add: ft_map_def fun_eq_iff)
qed

lemma ft_map_dom:
  assumes "ft_inv t"
  shows "dom (ft_map t) = (\<lambda>i. sta_mac (ft_sta_info t ! i)) ` ft_used_idx t"
    and "card (dom (ft_map t)) = nat (ft_sta_table_size t)"
proof -
  note inj = ft_inv_parts(2) [OF assms]
  have "a \<in> dom (ft_map t) \<longleftrightarrow> (\<exists>i \<in> ft_used_idx t. sta_mac (ft_sta_info t ! i) = a)" for a
    by (auto simp: dom_def ft_map_None ft_slot_None simp flip: not_None_eq)
  then have "a \<in> dom (ft_map t) \<longleftrightarrow> a \<in> (\<lambda>i. sta_mac (ft_sta_info t ! i)) ` ft_used_idx t" for a
    by (simp only: image_iff) metis
  then show d: "dom (ft_map t) = (\<lambda>i. sta_mac (ft_sta_info t ! i)) ` ft_used_idx t" by (rule set_eqI)
  show "card (dom (ft_map t)) = nat (ft_sta_table_size t)"
    using card_image [OF inj] ft_inv_parts(3) [OF assms] by (simp add: d)
qed

text \<open>An only member of a bucket has no successor.\<close>

lemma lone_station:
  assumes "ft_inv t" and "ft_bucket t h = {i}"
  shows "ft_ptr t i = None"
proof -
  obtain xs where xs: "chain (ft_ptr t) (ft_hash t h) xs" "set xs = {i}" "distinct xs"
    using ft_bucketE [OF assms(1)] assms(2) by metis
  then have "length xs = 1" using distinct_card [OF xs(3)] by simp
  then obtain x where "xs = [x]" by (auto simp: length_Suc_conv)
  with xs(1,2) show ?thesis by simp
qed

text \<open>
  The contract of a table that is a map only for some sets of keys: a command is carried out as specified if the
  keys of the table and of the command fit together. What the table promises for a run is proved once.
\<close>

locale guarded_map =
  fixes tinv :: "'t \<Rightarrow> bool"
    and tmap :: "'t \<Rightarrow> 'k \<Rightarrow> 'v option"
    and fits :: "'k set \<Rightarrow> bool"
    and key :: "'c \<Rightarrow> 'k"
    and step :: "'c \<Rightarrow> 't \<Rightarrow> 't res"
    and spec :: "'c \<Rightarrow> ('k \<Rightarrow> 'v option) \<Rightarrow> 'k \<Rightarrow> 'v option"
    and run :: "'c list \<Rightarrow> 't \<Rightarrow> 't res"
  assumes step_spec: "tinv t \<Longrightarrow> fits (insert (key c) (dom (tmap t))) \<Longrightarrow>
      \<exists>t'. step c t = Inr t' \<and> tinv t' \<and> tmap t' = spec c (tmap t)"
    and spec_dom: "dom (spec c m) \<subseteq> insert (key c) (dom m)"
    and fits_subset: "fits B \<Longrightarrow> A \<subseteq> B \<Longrightarrow> fits A"
    and run_Nil: "run [] t = Inr t"
    and run_Cons: "run (c # cs) t = res_bind (step c t) (run cs)"
begin

lemma run_spec:
  assumes "tinv t" and "fits (dom (tmap t) \<union> key ` set cs)"
  shows "\<exists>t'. run cs t = Inr t' \<and> tinv t' \<and> tmap t' = fold spec cs (tmap t)"
  using assms
proof (induction cs arbitrary: t)
  case Nil
  then show ?case by (simp add: run_Nil)
next
  case (Cons c cs)
  have "fits (insert (key c) (dom (tmap t)))" by (rule fits_subset [OF Cons.prems(2)]) auto
  then obtain t1 where t1: "step c t = Inr t1" "tinv t1" "tmap t1 = spec c (tmap t)"
    using step_spec [OF Cons.prems(1)] by metis
  have "fits (dom (tmap t1) \<union> key ` set cs)"
    by (rule fits_subset [OF Cons.prems(2)]) (use spec_dom [of c "tmap t"] t1(3) in auto)
  with Cons.IH [OF t1(2)] t1(1,3) show ?case by (simp add: run_Cons)
qed

lemma fold_spec_dom: "dom (fold spec cs m) \<subseteq> dom m \<union> key ` set cs"
proof (induction cs arbitrary: m)
  case (Cons c cs)
  have "dom (fold spec (c # cs) m) \<subseteq> dom (spec c m) \<union> key ` set cs" using Cons [of "spec c m"] by simp
  also have "\<dots> \<subseteq> dom m \<union> key ` set (c # cs)" using spec_dom [of c m] by auto
  finally show ?case .
qed simp

lemma run_stays:
  assumes "tinv t" and "fits S" and "dom (tmap t) \<subseteq> S" and "key ` set cs \<subseteq> S" and "run cs t = Inr t'"
  shows "tinv t'" and "dom (tmap t') \<subseteq> S"
proof -
  have sub: "dom (tmap t) \<union> key ` set cs \<subseteq> S" using assms(3,4) by simp
  from run_spec [OF assms(1) fits_subset [OF assms(2) sub]] assms(5)
  have t: "tinv t'" "tmap t' = fold spec cs (tmap t)" by auto
  show "tinv t'" by (rule t(1))
  show "dom (tmap t') \<subseteq> S" using fold_spec_dom [of cs "tmap t"] sub unfolding t(2) by (rule subset_trans)
qed

end

datatype ft_cmd = Ft_Insert mac mac int | Ft_Delete mac

primrec ft_station :: "ft_cmd \<Rightarrow> mac" where
  "ft_station (Ft_Insert a ap x) = a"
| "ft_station (Ft_Delete a) = a"

primrec ft_step :: "ft_cmd \<Rightarrow> ft_client_table \<Rightarrow> ft_client_table res" where
  "ft_step (Ft_Insert a ap x) t = res_bind (mt_iapp_ft_client_insert t a ap x) (\<lambda>(_, t'). Inr t')"
| "ft_step (Ft_Delete a) t = mt_iapp_ft_client_delete t a"

primrec ft_run :: "ft_cmd list \<Rightarrow> ft_client_table \<Rightarrow> ft_client_table res" where
  "ft_run [] t = Inr t"
| "ft_run (c # cs) t = res_bind (ft_step c t) (ft_run cs)"

text \<open>The abstract table: a map that takes no new stations when it holds 64.\<close>

primrec ft_spec :: "ft_cmd \<Rightarrow> (mac \<Rightarrow> (mac \<times> int) option) \<Rightarrow> mac \<Rightarrow> (mac \<times> int) option" where
  "ft_spec (Ft_Insert a ap x) m =
     (if m a \<noteq> None \<or> card (dom m) < MAX_NUM_OF_CLIENT then m(a \<mapsto> (ap, x)) else m)"
| "ft_spec (Ft_Delete a) m = m(a := None)"

lemma ft_step_refines:
  assumes inv: "ft_inv t" and clean: "ft_clean t"
    and inj: "inj_on FT_MAC_HASH_INDEX (insert (ft_station c) (dom (ft_map t)))"
  obtains t' where "ft_step c t = Inr t'" and "ft_inv t'" and "ft_clean t'" and "ft_map t' = ft_spec c (ft_map t)"
proof (cases c)
  case (Ft_Insert a ap x)
  show thesis
  proof (cases "ft_slot t a")
    case (Some i)
    then obtain t' where t': "mt_iapp_ft_client_insert t a ap x = Inr (Some i, t')"
        "ft_map t' = (ft_map t)(a \<mapsto> (ap, x))" "ft_inv t'" "ft_clean t' = ft_clean t"
      using insert_known_station [OF inv Some] by metis
    have "ft_map t a \<noteq> None" using Some by (simp add: ft_map_None)
    then show thesis using t' clean Ft_Insert by (intro that [of t']) simp_all
  next
    case None
    show thesis
    proof (cases "ft_sta_table_size t < int MAX_NUM_OF_CLIENT")
      case True
      obtain i t' where t': "mt_iapp_ft_client_insert t a ap x = Inr (Some i, t')"
          "ft_map t' = (ft_map t)(a \<mapsto> (ap, x))" "ft_inv t'" "ft_clean t'"
        using insert_new_station [OF inv clean None True] by metis
      moreover have "card (dom (ft_map t)) < MAX_NUM_OF_CLIENT" using True ft_map_dom(2) [OF inv] by simp
      ultimately show thesis using Ft_Insert by (intro that [of t']) simp_all
    next
      case False
      then have "\<not> card (dom (ft_map t)) < MAX_NUM_OF_CLIENT" using ft_map_dom(2) [OF inv] by simp
      with insert_full [OF inv None] False None Ft_Insert inv clean show thesis
        by (intro that [of t]) (simp_all add: ft_map_None)
    qed
  qed
next
  case (Ft_Delete a)
  show thesis
  proof (cases "ft_slot t a")
    case None
    then have "ft_map t a = None" by (simp add: ft_map_None)
    with delete_unknown_station [OF inv None] Ft_Delete inv clean show thesis
      by (intro that [of t]) (auto simp: fun_eq_iff)
  next
    case (Some i)
    obtain t' where t': "mt_iapp_ft_client_delete t a = Inr t'" "ft_map t' = (ft_map t)(a := None)"
        "ft_inv t'" "ft_used_idx t' = ft_used_idx t - {i}" "\<And>j. j \<notin> ft_used_idx t' \<Longrightarrow> ft_ptr t' j = ft_ptr t j"
      using delete_known_station [OF inv Some] by metis
    have k: "i \<in> ft_used_idx t" "sta_mac (ft_sta_info t ! i) = a"
      using Some ft_slot_Some [OF ft_inv_parts(2) [OF inv]] by auto
    have "j = i" if "j \<in> ft_bucket t (FT_MAC_HASH_INDEX a)" for j
      using that k inj ft_inv_parts(2) [OF inv] by (auto simp: ft_bucket_def ft_map_dom(1) [OF inv] Ft_Delete inj_on_def)
    with k have "ft_bucket t (FT_MAC_HASH_INDEX a) = {i}" by (auto simp: ft_bucket_def)
    with inv have "ft_ptr t i = None" by (rule lone_station)
    with clean t'(4,5) have "ft_clean t'" by (auto simp: ft_clean_def)
    with t' Ft_Delete show thesis by (intro that [of t']) simp_all
  qed
qed

lemma ft_spec_dom: "dom (ft_spec c m) \<subseteq> insert (ft_station c) (dom m)"
  by (cases c) auto

interpretation ft: guarded_map "\<lambda>t. ft_inv t \<and> ft_clean t" ft_map "inj_on FT_MAC_HASH_INDEX" ft_station ft_step ft_spec ft_run
proof unfold_locales
  show "\<exists>t'. ft_step c t = Inr t' \<and> (ft_inv t' \<and> ft_clean t') \<and> ft_map t' = ft_spec c (ft_map t)"
    if "ft_inv t \<and> ft_clean t" and "inj_on FT_MAC_HASH_INDEX (insert (ft_station c) (dom (ft_map t)))" for t c
    using that ft_step_refines [of t c] by metis
qed (auto intro: inj_on_subset simp: ft_spec_dom)

section \<open>A reused slot closes a cycle\<close>

lemma chain_next:
  "chain nx p xs \<Longrightarrow> i \<in> set xs \<Longrightarrow> i = last xs \<or> (\<exists>j \<in> set xs. nx i = Some j)"
proof (induction xs arbitrary: p)
  case (Cons x xs)
  then show ?case by (cases xs) auto
qed simp

lemma chain_successor: "chain nx p xs \<Longrightarrow> i \<in> set xs \<Longrightarrow> nx i = Some j \<Longrightarrow> j \<in> set xs - {i}"
proof (induction xs arbitrary: p)
  case (Cons x xs)
  show ?case
  proof (cases "i = x")
    case True
    with Cons.prems have "j \<in> set xs" by (cases xs) auto
    with True chain_distinct [OF Cons.prems(1)] show ?thesis by auto
  next
    case False
    with Cons show ?thesis by auto
  qed
qed simp

lemma delete_then_reuse:
  assumes inv: "ft_inv t" and a: "ft_slot t a = Some i" and j: "ft_ptr t i = Some j"
    and low: "\<And>k. k < i \<Longrightarrow> k \<in> ft_used_idx t"
    and c: "c = a \<or> ft_slot t c = None" "FT_MAC_HASH_INDEX c = FT_MAC_HASH_INDEX a"
    and d: "d = a \<or> ft_slot t d = None" "d \<noteq> c" "FT_MAC_HASH_INDEX d = FT_MAC_HASH_INDEX a"
  obtains t1 t2 where "mt_iapp_ft_client_delete t a = Inr t1" and "mt_iapp_ft_client_insert t1 c ap x = Inr (Some i, t2)"
    and "\<And>n. scan n (ft_ptr t2) (\<lambda>k. sta_mac (ft_sta_info t2 ! k) = d) (ft_hash t2 (FT_MAC_HASH_INDEX d)) = Inl No_Return"
proof -
  let ?h = "FT_MAC_HASH_INDEX a"
  note inj = ft_inv_parts(2) [OF inv]
  have k: "i \<in> ft_used_idx t" "sta_mac (ft_sta_info t ! i) = a" "i < MAX_NUM_OF_CLIENT"
    using a ft_slot_Some [OF inj] by (auto simp: ft_used_idx_def)
  obtain t1 where t1: "mt_iapp_ft_client_delete t a = Inr t1" "ft_slot t1 = (ft_slot t)(a := None)" "ft_inv t1"
      "ft_used_idx t1 = ft_used_idx t - {i}" "\<And>k. k \<notin> ft_used_idx t1 \<Longrightarrow> ft_ptr t1 k = ft_ptr t k"
    using delete_known_station [OF inv a] by metis
  note inj1 = ft_inv_parts(2) [OF t1(3)] and len1 = ft_inv_parts(1) [OF t1(3)]
  have nx: "ft_ptr t1 i = Some j" using t1(4,5) j by simp
  have jb: "j \<in> ft_bucket t1 ?h"
  proof -
    obtain xs where xs: "chain (ft_ptr t) (ft_hash t ?h) xs" "set xs = ft_bucket t ?h" using ft_bucketE [OF inv] by metis
    have "i \<in> set xs" using k by (simp add: xs(2) ft_bucket_def)
    from chain_successor [OF xs(1) this j] have jt: "j \<in> ft_bucket t ?h" "j \<noteq> i" by (auto simp: xs(2))
    then have "ft_slot t1 (sta_mac (ft_sta_info t ! j)) = Some j"
      using ft_slot_Some [OF inj] k inj by (auto simp: t1(2) ft_bucket_def dest: inj_onD)
    then show ?thesis using jt ft_slot_Some [OF inj1] by (auto simp: ft_bucket_def)
  qed
  obtain ws where ws: "chain (ft_ptr t1) (ft_hash t1 ?h) ws" "set ws = ft_bucket t1 ?h" "length ws \<le> MAX_NUM_OF_CLIENT"
    using ft_bucketE [OF t1(3)] by metis
  have ne: "ws \<noteq> []" using jb ws(2) by auto
  have iw: "i \<notin> set ws" by (simp add: ws(2) ft_bucket_def t1(4))
  have lw: "last ws < MAX_NUM_OF_CLIENT" using last_in_set [OF ne] ws(2) ft_bucket_bound by blast
  have "\<And>k. k < i \<Longrightarrow> k \<in> ft_used_idx t1" and "i \<notin> ft_used_idx t1" using low t1(4) by auto
  then have free: "ft_first_free t1 = Some i"
    using k(3) by (auto simp: ft_first_free_def find_Some_iff ft_used_idx_def intro!: exI [of _ i])
  have absent: "ft_slot t1 c = None" "ft_slot t1 d = None" using c(1) d(1) by (auto simp: t1(2))
  have size: "ft_sta_table_size t1 < int MAX_NUM_OF_CLIENT"
  proof -
    have "ft_used_idx t1 \<subset> {..<MAX_NUM_OF_CLIENT}" using ft_used_idx_bound [of t1] k(3) by (auto simp: t1(4))
    from psubset_card_mono [OF _ this] have "card (ft_used_idx t1) < MAX_NUM_OF_CLIENT" by simp
    with ft_inv_parts(3) [OF t1(3)] show ?thesis by simp
  qed
  define t1' where "t1' = (upd_ft i (ft_filled c ap x) t1)\<lparr>ft_sta_table_size := ft_sta_table_size t1 + 1\<rparr>"
  have "i \<notin> ft_used_idx t1" by (simp add: t1(4))
  note f = ft_fill_sets [OF len1 k(3) this t1'_def]
  define t2 where "t2 = upd_ft (last ws) (\<lambda>e. e\<lparr>ft_next := Some i\<rparr>) t1'"
  obtain p where p: "ft_hash t1 ?h = Some p" "p \<in> set ws" using ws(1) ne by (cases ws) auto
  have "scan MAX_NUM_OF_CLIENT (ft_ptr t1) (\<lambda>j. ft_ptr t1 j = None) (ft_hash t1 ?h) = Inr (Some (last ws))"
    using scan_chain [OF ws(1,3)] chain_find_last [OF ws(1) ne] by simp
  then have "ft_link ?h i t1' = Inr t2" by (simp add: ft_link_def f(3,4) p(1) t2_def)
  then have ins: "mt_iapp_ft_client_insert t1 c ap x = Inr (Some i, t2)"
    by (simp add: ft_insert_eq [OF t1(3) absent(1) size free k(3) t1'_def] c(2))
  have nx2: "ft_ptr t2 = (ft_ptr t1)(last ws := Some i)" using lw f(5) by (simp add: t2_def ft_ptr_upd_next f(3))
  have m2: "sta_mac (ft_sta_info t2 ! w) = (if w = i then c else sta_mac (ft_sta_info t1 ! w))" for w
    using lw f(5) by (simp add: t2_def upd_ft_nth f(6) ft_filled_def)
  have "\<not> sta_mac (ft_sta_info t2 ! w) = d \<and> (\<exists>v \<in> insert i (set ws). ft_ptr t2 w = Some v)" if "w \<in> insert i (set ws)" for w
  proof
    show "sta_mac (ft_sta_info t2 ! w) \<noteq> d"
      using that d(2) absent(2) ws(2) by (auto simp: m2 ft_slot_None ft_bucket_def)
    show "\<exists>v \<in> insert i (set ws). ft_ptr t2 w = Some v"
      using that nx jb ws(2) iw last_in_set [OF ne] chain_next [OF ws(1), of w] by (auto simp: nx2)
  qed
  from scan_cycle [OF this, of _ p] p
  have "scan n (ft_ptr t2) (\<lambda>k. sta_mac (ft_sta_info t2 ! k) = d) (ft_hash t2 (FT_MAC_HASH_INDEX d)) = Inl No_Return" for n
    by (simp add: d(3) t2_def f(4))
  with t1(1) ins that show thesis by blast
qed

text \<open>Two stations of one bucket, the first of which leaves and comes back, or makes room for another of the bucket.\<close>

lemma reuse_run:
  assumes "b \<noteq> a" "FT_MAC_HASH_INDEX b = FT_MAC_HASH_INDEX a"
    and "c \<noteq> b" "FT_MAC_HASH_INDEX c = FT_MAC_HASH_INDEX a"
    and "d \<noteq> b" "d \<noteq> c" "FT_MAC_HASH_INDEX d = FT_MAC_HASH_INDEX a"
  obtains t where "ft_run [Ft_Insert a ap x, Ft_Insert b bp y, Ft_Delete a, Ft_Insert c cp z] mt_iapp_ft_client_table_init = Inr t"
    and "\<And>n. scan n (ft_ptr t) (\<lambda>k. sta_mac (ft_sta_info t ! k) = d) (ft_hash t (FT_MAC_HASH_INDEX d)) = Inl No_Return"
proof -
  let ?t0 = mt_iapp_ft_client_table_init
  have s0: "ft_slot ?t0 e = None" for e unfolding ft_slot_None init_table(3) by simp
  have z0: "ft_sta_table_size ?t0 < int MAX_NUM_OF_CLIENT" by (simp add: mt_iapp_ft_client_table_init_def)
  have f0: "ft_first_free ?t0 = Some 0"
    by (simp add: ft_first_free_def mt_iapp_ft_client_table_init_def upt_rec [of 0] zero_ft_client_def)
  obtain i1 t1 where "mt_iapp_ft_client_insert ?t0 a ap x = Inr (Some i1, t1)" "ft_first_free ?t0 = Some i1"
      "ft_slot t1 = (ft_slot ?t0)(a \<mapsto> i1)" "ft_inv t1" "ft_clean t1" "ft_used_idx t1 = insert i1 (ft_used_idx ?t0)"
    using insert_new_station [OF init_table(1,2) s0 z0] by metis
  then have t1: "mt_iapp_ft_client_insert ?t0 a ap x = Inr (Some 0, t1)" "ft_slot t1 = [a \<mapsto> 0]" "ft_inv t1" "ft_clean t1"
      "ft_used_idx t1 = {0}" by (simp_all add: f0 s0 fun_eq_iff init_table(3))
  have "sta_mac (ft_sta_info t1 ! 0) = a" using ft_slot_Some [OF ft_inv_parts(2) [OF t1(3)], of a 0] t1(2) by simp
  then have b1: "ft_bucket t1 (FT_MAC_HASH_INDEX b) = {0}" using assms(2) by (auto simp: ft_bucket_def t1(5))
  have s1: "ft_slot t1 b = None" using assms(1) by (simp add: t1(2))
  have z1: "ft_sta_table_size t1 < int MAX_NUM_OF_CLIENT" using ft_inv_parts(3) [OF t1(3)] by (simp add: t1(5))
  obtain i2 t2 where t2: "mt_iapp_ft_client_insert t1 b bp y = Inr (Some i2, t2)" "ft_slot t2 = (ft_slot t1)(b \<mapsto> i2)"
      "ft_inv t2" "\<And>k. ft_bucket t1 (FT_MAC_HASH_INDEX b) = {k} \<Longrightarrow> ft_ptr t2 k = Some i2"
    using insert_new_station [OF t1(3,4) s1 z1] by metis
  obtain t3 t4 where "mt_iapp_ft_client_delete t2 a = Inr t3" "mt_iapp_ft_client_insert t3 c cp z = Inr (Some 0, t4)"
      "\<And>n. scan n (ft_ptr t4) (\<lambda>k. sta_mac (ft_sta_info t4 ! k) = d) (ft_hash t4 (FT_MAC_HASH_INDEX d)) = Inl No_Return"
  proof (rule delete_then_reuse [OF t2(3) _ t2(4) [OF b1], of a c d cp z])
    show "ft_slot t2 a = Some 0" "c = a \<or> ft_slot t2 c = None" "d = a \<or> ft_slot t2 d = None"
      using assms(1,3,5) by (auto simp: t2(2) t1(2))
  qed (use assms in simp_all)
  then show thesis using t1(1) t2(1) by (intro that [of t4]) simp_all
qed

end
