(* ===== verification/Iapp.thy ===== *)
theory Iapp
  imports Ft_Table
begin

text \<open>
  The inter-access-point daemon \<open>mtkiappd\<close> (\<open>package/ramips/applications/mtkiappd/src/rtmpiapp.c\<close>, layouts in
  \<open>rtmpiapp.h\<close> and \<open>rt_config.h\<close>), as it is built for Linux: signals of the wireless driver become messages
  to the other access points, messages of the other access points become commands to the driver.

  \<open>RTMP_IAPP\<close> is the record \<open>iapp\<close>; the buffer for received packets is part of it, because the handlers read
  lengths from a packet without comparing them with its size, and then use what an earlier packet left there.
  The buffers for commands and responses are written before they are read in every use, so they are
  values inside the operations, with their size as a bound. A frame is the list of its bytes; the C structures are packed
  and the processor is little-endian, so a field is a slice at a fixed offset.

  What the daemon does to the outside is the trace: every \<open>ioctl\<close> to a wireless interface and every frame
  sent. What it learns from the outside is the environment: the answer of the driver to an \<open>ioctl\<close> (\<open>None\<close>
  when it fails), and whether a connection to a peer succeeds; both may depend on everything
  done so far. The results of the sending calls are ignored by every caller, so they are left out, and so
  is what is printed.
\<close>

section \<open>State and environment\<close>

abbreviation (input) IAPP_MAX_RCV_PKT_SIZE :: nat where "IAPP_MAX_RCV_PKT_SIZE \<equiv> 1600"
abbreviation (input) IAPP_BUFFER :: nat where "IAPP_BUFFER \<equiv> 1700" \<comment> \<open>with the reserve of 100 bytes\<close>
abbreviation (input) IAPP_SECURITY_EXTEND_LEN :: nat where "IAPP_SECURITY_EXTEND_LEN \<equiv> 32"
abbreviation (input) MAX_WIFI_COUNT :: nat where "MAX_WIFI_COUNT \<equiv> 2"
abbreviation (input) SIZEOF_OID_REQ :: nat where "SIZEOF_OID_REQ \<equiv> 8"
abbreviation (input) SIZEOF_KEY_ELM :: nat where "SIZEOF_KEY_ELM \<equiv> 167"

abbreviation (input) RT_SET_IAPP_PID :: u16 where "RT_SET_IAPP_PID \<equiv> 0x8404" \<comment> \<open>the numbers include \<open>OID_GET_SET_TOGGLE\<close>\<close>
abbreviation (input) RT_SET_DEL_MAC_ENTRY :: u16 where "RT_SET_DEL_MAC_ENTRY \<equiv> 0x8406"
abbreviation (input) RT_SET_FT_STATION_NOTIFY :: u16 where "RT_SET_FT_STATION_NOTIFY \<equiv> 0x8408"
abbreviation (input) RT_SET_FT_KEY_REQ :: u16 where "RT_SET_FT_KEY_REQ \<equiv> 0x8409"
abbreviation (input) RT_SET_FT_KEY_RSP :: u16 where "RT_SET_FT_KEY_RSP \<equiv> 0x840a"
abbreviation (input) RT_FT_KEY_SET :: u16 where "RT_FT_KEY_SET \<equiv> 0x840b"
abbreviation (input) RT_FT_DATA_ENCRYPT :: u16 where "RT_FT_DATA_ENCRYPT \<equiv> 0x040c"
abbreviation (input) RT_FT_DATA_DECRYPT :: u16 where "RT_FT_DATA_DECRYPT \<equiv> 0x040d"
abbreviation (input) RT_FT_NEIGHBOR_REPORT :: u16 where "RT_FT_NEIGHBOR_REPORT \<equiv> 0x840e"
abbreviation (input) RT_FT_NEIGHBOR_REQUEST :: u16 where "RT_FT_NEIGHBOR_REQUEST \<equiv> 0x840f"
abbreviation (input) RT_FT_NEIGHBOR_RESPONSE :: u16 where "RT_FT_NEIGHBOR_RESPONSE \<equiv> 0x8410"
abbreviation (input) RT_FT_ACTION_FORWARD :: u16 where "RT_FT_ACTION_FORWARD \<equiv> 0x8411"

datatype iapp_act =
    Wlan_Ioctl string u16 "byte list" \<comment> \<open>interface, command, data\<close>
  | Udp_Send u32 "byte list" | Tcp_Send u32 "byte list" | L2_Send "byte list" | Rrb_Send "byte list"
  | Sockets_Closed

record iapp =
  IfNameEth :: string
  IfNameWlan :: string
  IfNameWlanIoctl :: "string list"
  IfNameWlanMAC :: "mac list"
  IfNameWlanCount :: int
  FlgIsTerminated :: bool
  AddrOwn :: u32
  AddrBroadcast :: u32
  PacketIdentifier :: u16
  CommonKey :: string
  SelfFtStaTable :: ft_client_table
  pPktBuf :: "byte list"
  iapp_trace :: "iapp_act list"

record iapp_env =
  ioctl_answer :: "iapp_act list \<Rightarrow> string \<Rightarrow> u16 \<Rightarrow> byte list \<Rightarrow> byte list option"
  peer_connects :: "iapp_act list \<Rightarrow> u32 \<Rightarrow> bool"
  stack_bytes :: "byte list" \<comment> \<open>what an automatic variable holds before it is written\<close>

definition act :: "iapp_act \<Rightarrow> iapp \<Rightarrow> iapp" where
  "act a c = c\<lparr>iapp_trace := iapp_trace c @ [a]\<rparr>"

section \<open>Fields of frames\<close>

definition SWAP_16 :: "u16 \<Rightarrow> u16" where
  "SWAP_16 x = push_bit 8 (x AND 0x00ff) OR drop_bit 8 (x AND 0xff00)"

definition u16_bytes :: "u16 \<Rightarrow> byte list" where
  "u16_bytes w = [ucast w, ucast (drop_bit 8 w)]"

definition get16 :: "byte list \<Rightarrow> nat \<Rightarrow> u16" where
  "get16 b off = ucast (b ! off) OR push_bit 8 (ucast (b ! (off + 1)))"

definition get32 :: "byte list \<Rightarrow> nat \<Rightarrow> u32" where
  "get32 b off = ucast (b ! off) OR push_bit 8 (ucast (b ! (off + 1))) OR
     push_bit 16 (ucast (b ! (off + 2))) OR push_bit 24 (ucast (b ! (off + 3)))"

fun mac_bytes :: "mac \<Rightarrow> byte list" where
  "mac_bytes (a, b, c, d, e, f) = [a, b, c, d, e, f]"

definition get_mac :: "byte list \<Rightarrow> nat \<Rightarrow> mac" where
  "get_mac b off = (b ! off, b ! (off + 1), b ! (off + 2), b ! (off + 3), b ! (off + 4), b ! (off + 5))"

section \<open>Commands to the driver\<close>

text \<open>
  \<open>IAPP_IoctlToWLAN\<close>: \<open>ApIdx\<close> is an unsigned byte that selects a name from an array of two; a name of 12
  bytes or more does not fit the local copy and is replaced by the default interface.
\<close>

definition IAPP_IoctlToWLAN ::
  "iapp_env \<Rightarrow> u8 \<Rightarrow> u16 \<Rightarrow> byte list \<Rightarrow> iapp \<Rightarrow> (byte list option \<times> iapp) res" where
  "IAPP_IoctlToWLAN env ApIdx flags pData c =
     (if MAX_WIFI_COUNT \<le> unat ApIdx then Inl Out_Of_Bounds
      else let name = IfNameWlanIoctl c ! unat ApIdx;
               IfName = (if 12 \<le> length name then ''ra0'' else name)
           in Inr (ioctl_answer env (iapp_trace c) IfName flags pData, act (Wlan_Ioctl IfName flags pData) c))"

text \<open>
  A call on data in a buffer: the driver writes its answer over the data and sets the length; when the
  call fails, data and length stay. \<open>room\<close> is the number of bytes from the data to the
  end of the buffer.
\<close>

definition wlan_io :: "iapp_env \<Rightarrow> u8 \<Rightarrow> u16 \<Rightarrow> nat \<Rightarrow> byte list \<Rightarrow> iapp \<Rightarrow> (byte list \<times> iapp) res" where
  "wlan_io env ApIdx flags room pData c =
     res_bind (IAPP_IoctlToWLAN env ApIdx flags pData c) (\<lambda>(ans, c').
       case ans of None \<Rightarrow> Inr (pData, c')
       | Some out \<Rightarrow> if room < length out then Inl Out_Of_Bounds else Inr (out, c'))"

text \<open>\<open>IAPP_MsgProcess\<close> with \<open>IAPP_SET_OID_REQ\<close>, the only message that has an effect: the request is the command number and its data.\<close>

definition IAPP_MsgProcess :: "iapp_env \<Rightarrow> u16 \<Rightarrow> byte list \<Rightarrow> int \<Rightarrow> iapp \<Rightarrow> (byte list \<times> iapp) res" where
  "IAPP_MsgProcess env oid buf if_idx c =
     wlan_io env (of_int if_idx) oid (IAPP_BUFFER - SIZEOF_OID_REQ) buf c"

text \<open>The loops that send one request to every interface.\<close>

fun to_interfaces :: "iapp_env \<Rightarrow> u16 \<Rightarrow> byte list \<Rightarrow> int list \<Rightarrow> iapp \<Rightarrow> iapp res" where
  "to_interfaces env oid buf [] c = Inr c"
| "to_interfaces env oid buf (idx # ids) c =
     res_bind (IAPP_MsgProcess env oid buf idx c) (\<lambda>(buf', c'). to_interfaces env oid buf' ids c')"

definition all_interfaces :: "iapp \<Rightarrow> int list" where
  "all_interfaces c = map int [0..<nat (IfNameWlanCount c)]"

definition mt_iapp_find_ifidx_by_mac :: "iapp \<Rightarrow> mac \<Rightarrow> int" where
  "mt_iapp_find_ifidx_by_mac c WifiMAC =
     (case List.find (\<lambda>idx. IfNameWlanMAC c ! idx = WifiMAC) [0..<nat (IfNameWlanCount c)] of
        Some idx \<Rightarrow> int idx | None \<Rightarrow> - 1)"

section \<open>Sending\<close>

text \<open>
  Sending to all access points: the identifier goes into the frame, the address of the interface is
  appended, the driver encrypts. The counter is incremented twice. A frame that could not be encrypted is sent as it is.
\<close>

definition IAPP_UDP_PacketSend :: "iapp_env \<Rightarrow> byte list \<Rightarrow> int \<Rightarrow> iapp \<Rightarrow> iapp res" where
  "IAPP_UDP_PacketSend env pPkt if_idx c =
     (let pkt = move_at 2 (u16_bytes (SWAP_16 (PacketIdentifier c))) pPkt;
          c1 = c\<lparr>PacketIdentifier := PacketIdentifier c + 2\<rparr>
      in if IAPP_MAX_RCV_PKT_SIZE < length pPkt + IAPP_SECURITY_EXTEND_LEN + 6 then Inr c1
         else if if_idx < 0 \<or> int MAX_WIFI_COUNT \<le> if_idx then Inl Out_Of_Bounds
         else res_bind (wlan_io env (of_int if_idx) RT_FT_DATA_ENCRYPT IAPP_BUFFER
                          (pkt @ mac_bytes (IfNameWlanMAC c ! nat if_idx)) c1)
                (\<lambda>(data, c2). Inr (act (Udp_Send (AddrBroadcast c) data) c2)))"

text \<open>The connection, when a peer is given: \<open>socket\<close> and \<open>connect\<close>.\<close>

definition connected :: "iapp_env \<Rightarrow> u32 \<Rightarrow> iapp \<Rightarrow> bool" where
  "connected env ip c \<longleftrightarrow> peer_connects env (iapp_trace c) ip"

definition encrypt_and_send :: "iapp_env \<Rightarrow> u32 \<Rightarrow> byte list \<Rightarrow> int \<Rightarrow> iapp \<Rightarrow> iapp res" where
  "encrypt_and_send env ip data if_idx c =
     res_bind (wlan_io env (of_int if_idx) RT_FT_DATA_ENCRYPT IAPP_BUFFER data c)
       (\<lambda>(data', c'). Inr (act (Tcp_Send ip data') c'))"

definition IAPP_TCP_PacketSend :: "iapp_env \<Rightarrow> byte list \<Rightarrow> u32 \<Rightarrow> bool \<Rightarrow> int \<Rightarrow> iapp \<Rightarrow> iapp res" where
  "IAPP_TCP_PacketSend env pPkt PeerIP FlgUsingUdpWhenNoIP if_idx c =
     (if \<not> FlgUsingUdpWhenNoIP \<and> PeerIP = 0 then Inr c
      else if PeerIP \<noteq> 0 \<and> \<not> connected env PeerIP c then Inr c
      else if IAPP_MAX_RCV_PKT_SIZE < length pPkt + IAPP_SECURITY_EXTEND_LEN then Inr c
      else if PeerIP \<noteq> 0 then encrypt_and_send env PeerIP pPkt if_idx c
      else IAPP_UDP_PacketSend env pPkt if_idx c)"

text \<open>The frame that makes bridges learn the new place of a station.\<close>

definition IAPP_L2UpdateFrameSend :: "mac \<Rightarrow> iapp \<Rightarrow> iapp" where
  "IAPP_L2UpdateFrameSend pMac c =
     act (L2_Send (replicate 6 0xFF @ mac_bytes pMac @ [0, 8, 0, 0x01, 0xAF, 0x81, 1, 2])) c"

section \<open>Messages for the driver's events\<close>

text \<open>
  \<open>SWAP_16(IAPP_IDENTIFIER_GET(c))\<close>: the macro evaluates its argument twice, so the counter is incremented twice and
  the two bytes come from two values of it. C leaves the order open; here the operands of \<open>|\<close> are
  evaluated from left to right.
\<close>

definition take_identifier :: "iapp \<Rightarrow> u16 \<times> iapp" where
  "take_identifier c =
     (push_bit 8 (PacketIdentifier c AND 0x00ff) OR drop_bit 8 ((PacketIdentifier c + 1) AND 0xff00),
      c\<lparr>PacketIdentifier := PacketIdentifier c + 2\<rparr>)"

definition iapp_header :: "byte \<Rightarrow> u16 \<Rightarrow> u16 \<Rightarrow> byte list" where
  "iapp_header Command ident len = [0, Command] @ u16_bytes ident @ u16_bytes (SWAP_16 len)"

abbreviation (input) IAPP_CMD_ADD_NOTIFY :: byte where "IAPP_CMD_ADD_NOTIFY \<equiv> 0"
abbreviation (input) IAPP_CMD_MOVE_NOTIFY :: byte where "IAPP_CMD_MOVE_NOTIFY \<equiv> 1"
abbreviation (input) IAPP_CMD_MOVE_RESPONSE :: byte where "IAPP_CMD_MOVE_RESPONSE \<equiv> 2"
abbreviation (input) IAPP_CMD_FT_SEND_SECURITY_BLOCK :: byte where "IAPP_CMD_FT_SEND_SECURITY_BLOCK \<equiv> 50"
abbreviation (input) IAPP_CMD_FT_ACK_SECURITY_BLOCK :: byte where "IAPP_CMD_FT_ACK_SECURITY_BLOCK \<equiv> 51"
abbreviation (input) IAPP_CMD_INFO_BROADCAST :: byte where "IAPP_CMD_INFO_BROADCAST \<equiv> 60"
abbreviation (input) IAPP_CMD_INFO_REQUEST :: byte where "IAPP_CMD_INFO_REQUEST \<equiv> 61"
abbreviation (input) IAPP_CMD_INFO_RESPONSE :: byte where "IAPP_CMD_INFO_RESPONSE \<equiv> 62"

text \<open>A station has associated: \<open>RT_IAPP_ADD_NOTIFY\<close>, 16 bytes; the flag marks a fast-transition station.\<close>

definition add_notify :: "mac \<Rightarrow> u16 \<Rightarrow> byte list" where
  "add_notify mac Sequence =
     iapp_header IAPP_CMD_ADD_NOTIFY 0 16 @ [6, 0x01] @ mac_bytes mac @ u16_bytes (SWAP_16 Sequence)"

text \<open>A station has moved here: \<open>RT_IAPP_MOVE_NOTIFY\<close>, 18 bytes.\<close>

definition move_notify :: "mac \<Rightarrow> u16 \<Rightarrow> byte list" where
  "move_notify mac Sequence =
     iapp_header IAPP_CMD_MOVE_NOTIFY 0 18 @ [6, 0] @ mac_bytes mac @ u16_bytes (SWAP_16 Sequence) @ [0, 0]"

text \<open>
  The frames that carry data of the driver. The lengths are computed modulo \<open>2 ^ 32\<close> and compared with the size of
  the buffer; the copy takes the length of the event, which a wrap-around makes larger than
  any buffer.
\<close>

definition event_fits :: "nat \<Rightarrow> u32 \<Rightarrow> byte list \<Rightarrow> bool" where
  "event_fits used EventLen pEvt \<longleftrightarrow> unat EventLen \<le> length pEvt \<and> used + unat EventLen \<le> IAPP_BUFFER"

definition block_frame :: "byte \<Rightarrow> u16 \<Rightarrow> u32 \<Rightarrow> byte list \<Rightarrow> byte list" where
  "block_frame Command ident EventLen pEvt =
     iapp_header Command ident (ucast (16 + EventLen)) @ replicate 8 0 @ u16_bytes (ucast EventLen) @ take (unat EventLen) pEvt"

definition info_frame :: "byte \<Rightarrow> u16 \<Rightarrow> u32 \<Rightarrow> byte list \<Rightarrow> byte list" where
  "info_frame Command ident EventLen pEvt =
     iapp_header Command ident (ucast (8 + EventLen)) @ u16_bytes (ucast EventLen) @ take (unat EventLen) pEvt"

definition FT_KDP_SecurityBlockSend ::
  "iapp_env \<Rightarrow> u32 \<Rightarrow> u32 \<Rightarrow> byte list \<Rightarrow> mac \<Rightarrow> int \<Rightarrow> iapp \<Rightarrow> iapp res" where
  "FT_KDP_SecurityBlockSend env EventLen PeerIpAddr pEvt WifiMAC if_idx c =
     (if PeerIpAddr \<noteq> 0 \<and> \<not> connected env PeerIpAddr c then Inr c
      else if of_nat IAPP_MAX_RCV_PKT_SIZE < 16 + EventLen + 6 then Inr c
      else if \<not> event_fits 22 EventLen pEvt then Inl Out_Of_Bounds
      else case take_identifier c of (ident, c1) \<Rightarrow>
        let frame = block_frame IAPP_CMD_FT_SEND_SECURITY_BLOCK ident EventLen pEvt @ mac_bytes WifiMAC
        in if PeerIpAddr \<noteq> 0 then encrypt_and_send env PeerIpAddr frame if_idx c1
           else IAPP_UDP_PacketSend env frame if_idx c1)"

definition FT_KDP_SecurityBlockAck ::
  "iapp_env \<Rightarrow> u32 \<Rightarrow> u32 \<Rightarrow> byte list \<Rightarrow> int \<Rightarrow> iapp \<Rightarrow> iapp res" where
  "FT_KDP_SecurityBlockAck env EventLen PeerIpAddr pEvt if_idx c =
     (if \<not> connected env PeerIpAddr c then Inr c
      else if of_nat IAPP_MAX_RCV_PKT_SIZE < 16 + EventLen then Inr c
      else if \<not> event_fits 16 EventLen pEvt then Inl Out_Of_Bounds
      else case take_identifier c of (ident, c1) \<Rightarrow>
        encrypt_and_send env PeerIpAddr (block_frame IAPP_CMD_FT_ACK_SECURITY_BLOCK ident EventLen pEvt) if_idx c1)"

definition FT_KDP_InformationRequestSend :: "iapp_env \<Rightarrow> u32 \<Rightarrow> byte list \<Rightarrow> int \<Rightarrow> iapp \<Rightarrow> iapp res" where
  "FT_KDP_InformationRequestSend env EventLen pEvt if_idx c =
     (if of_nat IAPP_MAX_RCV_PKT_SIZE < 8 + EventLen then Inr c
      else if \<not> event_fits 8 EventLen pEvt then Inl Out_Of_Bounds
      else case take_identifier c of (ident, c1) \<Rightarrow>
        IAPP_UDP_PacketSend env (info_frame IAPP_CMD_INFO_REQUEST ident EventLen pEvt) if_idx c1)"

definition FT_KDP_InformationResponseSend ::
  "iapp_env \<Rightarrow> u32 \<Rightarrow> u32 \<Rightarrow> byte list \<Rightarrow> int \<Rightarrow> iapp \<Rightarrow> iapp res" where
  "FT_KDP_InformationResponseSend env EventLen PeerIpAddr pEvt if_idx c =
     (if PeerIpAddr = 0 then Inr c
      else if \<not> connected env PeerIpAddr c then Inr c
      else if of_nat IAPP_MAX_RCV_PKT_SIZE < 8 + EventLen then Inr c
      else if \<not> event_fits 8 EventLen pEvt then Inl Out_Of_Bounds
      else case take_identifier c of (ident, c1) \<Rightarrow>
        encrypt_and_send env PeerIpAddr (info_frame IAPP_CMD_INFO_RESPONSE ident EventLen pEvt) if_idx c1)"

definition FT_KDP_InformationReportSend :: "iapp_env \<Rightarrow> u32 \<Rightarrow> byte list \<Rightarrow> int \<Rightarrow> iapp \<Rightarrow> iapp res" where
  "FT_KDP_InformationReportSend env EventLen pEvt if_idx c =
     (if of_nat IAPP_MAX_RCV_PKT_SIZE < 8 + EventLen then Inr c
      else if \<not> event_fits 8 EventLen pEvt then Inl Out_Of_Bounds
      else case take_identifier c of (ident, c1) \<Rightarrow>
        IAPP_UDP_PacketSend env (info_frame IAPP_CMD_INFO_BROADCAST ident EventLen pEvt) if_idx c1)"

text \<open>
  A fast-transition action frame is forwarded in an Ethernet frame of its own; only the action frame is
  encrypted, behind the 24 bytes of the header.
\<close>

definition rrb_header :: "mac \<Rightarrow> mac \<Rightarrow> u16 \<Rightarrow> u32 \<Rightarrow> mac \<Rightarrow> byte list" where
  "rrb_header pMacDa pMacSa PacketType EventLen pMacAp =
     mac_bytes pMacDa @ mac_bytes pMacSa @ [0x89, 0x0D, 1, ucast PacketType] @ u16_bytes (ucast EventLen) @ mac_bytes pMacAp"

definition FT_RRB_ActionForward ::
  "iapp_env \<Rightarrow> u32 \<Rightarrow> byte list \<Rightarrow> u16 \<Rightarrow> mac \<Rightarrow> mac \<Rightarrow> mac \<Rightarrow> int \<Rightarrow> iapp \<Rightarrow> iapp res" where
  "FT_RRB_ActionForward env EventLen pEvt PacketType pMacDa pMacSa pMacAp if_idx c =
     (if of_nat IAPP_MAX_RCV_PKT_SIZE < 24 + EventLen then Inr c
      else if \<not> event_fits 24 EventLen pEvt then Inl Out_Of_Bounds
      else res_bind (wlan_io env (of_int if_idx) RT_FT_DATA_ENCRYPT (IAPP_BUFFER - 24) (take (unat EventLen) pEvt) c)
        (\<lambda>(data, c1). Inr (act (Rrb_Send (rrb_header pMacDa pMacSa PacketType EventLen pMacAp @ data)) c1)))"

text \<open>
  \<open>IAPP_SIG_Process\<close>: a signal of the driver, in the packet buffer behind an Ethernet header of 14 bytes. The
  fields of \<open>RT_SIGNAL_STRUC\<close>: \<open>Sequence\<close> at 18, \<open>MacAddr\<close> at 20, \<open>CurrAPAddr\<close> at 26, \<open>Sig\<close> at 32, \<open>MacAddrSa\<close> at 33,
  the event header (length and peer) at 42 and the event at 50. The signal that sets the debug level only changes what
  is printed and falls under the last case.
\<close>

definition IAPP_SIG_Process :: "iapp_env \<Rightarrow> mac \<Rightarrow> iapp \<Rightarrow> iapp res" where
  "IAPP_SIG_Process env WifiMAC c =
     (let if_idx = mt_iapp_find_ifidx_by_mac c WifiMAC; b = pPktBuf c; Sig = b ! 32;
          Sequence = get16 b 18; MacAddr = get_mac b 20; CurrAPAddr = get_mac b 26; MacAddrSa = get_mac b 33;
          EventLen = get32 b 42; PeerIpAddr = get32 b 46; pEvt = drop 50 b;
          insert_station = res_bind (mt_iapp_ft_client_insert (SelfFtStaTable c) MacAddr WifiMAC if_idx)
            (\<lambda>(_, t). Inr (c\<lparr>SelfFtStaTable := t\<rparr>))
      in if if_idx = - 1 then Inr c
         else if Sig = 0x00 \<or> Sig = 0x01 \<or> Sig = 0x02 then Inr c
         else if Sig = 0x50 then
           res_bind insert_station (\<lambda>c1.
             res_bind (IAPP_UDP_PacketSend env (add_notify MacAddr Sequence) if_idx c1) (\<lambda>c2.
               Inr (IAPP_L2UpdateFrameSend MacAddr c2)))
         else if Sig = 0x51 then
           res_bind insert_station (\<lambda>c1.
             res_bind (IAPP_TCP_PacketSend env (move_notify MacAddr Sequence) PeerIpAddr True if_idx c1) (\<lambda>c2.
               Inr (IAPP_L2UpdateFrameSend MacAddr c2)))
         else if Sig = 0x03 then Inr (act Sockets_Closed (c\<lparr>FlgIsTerminated := True\<rparr>))
         else if Sig = 0x52 then Inr c
         else if Sig = 0x53 \<or> Sig = 0xA0 then FT_KDP_SecurityBlockSend env EventLen PeerIpAddr pEvt WifiMAC if_idx c
         else if Sig = 0x54 then FT_RRB_ActionForward env EventLen pEvt Sequence MacAddr MacAddrSa CurrAPAddr if_idx c
         else if Sig = 0xA1 then FT_KDP_SecurityBlockAck env EventLen PeerIpAddr pEvt if_idx c
         else if Sig = 0xB0 then FT_KDP_InformationReportSend env EventLen pEvt if_idx c
         else if Sig = 0x70 then FT_KDP_InformationRequestSend env EventLen pEvt if_idx c
         else if Sig = 0x71 then FT_KDP_InformationResponseSend env EventLen PeerIpAddr pEvt if_idx c
         else Inr c)"

section \<open>Handlers of received packets\<close>

text \<open>Reception writes at the front of the packet buffer, at most 1600 bytes.\<close>

definition receive :: "byte list \<Rightarrow> iapp \<Rightarrow> iapp" where
  "receive pkt c = c\<lparr>pPktBuf := move_at 0 (take IAPP_MAX_RCV_PKT_SIZE pkt) (pPktBuf c)\<rparr>"

definition IAPP_RcvHandlerRawDrv :: "iapp_env \<Rightarrow> byte list \<Rightarrow> iapp \<Rightarrow> iapp res" where
  "IAPP_RcvHandlerRawDrv env pkt c =
     (if pkt = [] then Inr c
      else let c1 = receive pkt c in IAPP_SIG_Process env (get_mac (pPktBuf c1) 0) c1)"

text \<open>
  \<open>IAPP_RcvHandlerMoveReq\<close>: the station has moved to another access point. The answer is built in place and sent to
  the peer before the station leaves the table.
\<close>

definition IAPP_RcvHandlerMoveReq :: "iapp_env \<Rightarrow> u32 \<Rightarrow> iapp \<Rightarrow> iapp res" where
  "IAPP_RcvHandlerMoveReq env PeerIP c =
     (let b = pPktBuf c; MacAddr = get_mac b 8 in
      if SWAP_16 (get16 b 4) \<noteq> 18 then Inr c
      else res_bind (mt_iapp_find_ifidx_by_sta_mac (SelfFtStaTable c) MacAddr) (\<lambda>if_idx.
        if if_idx < 0 then Inr c
        else res_bind (IAPP_MsgProcess env RT_SET_DEL_MAC_ENTRY (mac_bytes MacAddr) if_idx c) (\<lambda>(_, c1).
          let b' = b[1 := IAPP_CMD_MOVE_RESPONSE, 7 := 0]; c2 = c1\<lparr>pPktBuf := b'\<rparr>
          in res_bind (IAPP_TCP_PacketSend env (take 18 b') PeerIP True if_idx c2) (\<lambda>c3.
            res_bind (mt_iapp_ft_client_delete (SelfFtStaTable c3) MacAddr) (\<lambda>t.
              Inr (c3\<lparr>SelfFtStaTable := t\<rparr>))))))"

text \<open>The data of a security block, as it is passed to the driver: peer, nonce and block.\<close>

definition block_data :: "u32 \<Rightarrow> byte list \<Rightarrow> byte list" where
  "block_data PeerIP b = u32_bytes PeerIP @ take 8 (drop 6 b) @ take (unat (get16 b 14)) (drop 16 b)"

text \<open>
  \<open>IAPP_RcvHandlerSSB\<close>: a request for a key. The block is copied into a local structure of 167 bytes to find its
  station; \<open>if_idx\<close> is unsigned, so the test for a negative index never holds, and the index of an
  unknown station, cut to a byte, is 255.
\<close>

definition IAPP_RcvHandlerSSB :: "iapp_env \<Rightarrow> u32 \<Rightarrow> iapp \<Rightarrow> iapp res" where
  "IAPP_RcvHandlerSSB env PeerIP c =
     (let b = pPktBuf c; len = unat (get16 b 14) in
      if IAPP_MAX_RCV_PKT_SIZE < SIZEOF_OID_REQ + 12 + len then Inr c
      else if SIZEOF_KEY_ELM < len then Inl Out_Of_Bounds
      else
        let kdp_info = move_at 0 (take len (drop 16 b)) (stack_bytes env)
        in res_bind (mt_iapp_find_ifidx_by_sta_mac (SelfFtStaTable c) (get_mac kdp_info 7)) (\<lambda>if_idx.
          res_bind (IAPP_MsgProcess env RT_SET_FT_KEY_REQ (block_data PeerIP b) if_idx c) (\<lambda>(_, c1). Inr c1)))"

datatype info_type = INFO_BC | INFO_REQ | INFO_RSP

primrec info_oid :: "info_type \<Rightarrow> u16" where
  "info_oid INFO_BC = RT_FT_NEIGHBOR_REPORT"
| "info_oid INFO_REQ = RT_FT_NEIGHBOR_REQUEST"
| "info_oid INFO_RSP = RT_FT_NEIGHBOR_RESPONSE"

definition IAPP_RcvHandlerApInfor :: "iapp_env \<Rightarrow> info_type \<Rightarrow> u32 \<Rightarrow> int \<Rightarrow> iapp \<Rightarrow> iapp res" where
  "IAPP_RcvHandlerApInfor env ty PeerIP if_idx c =
     (let b = pPktBuf c; len = unat (get16 b 6) in
      if IAPP_MAX_RCV_PKT_SIZE < SIZEOF_OID_REQ + 4 + len then Inr c
      else res_bind (IAPP_MsgProcess env (info_oid ty) (u32_bytes PeerIP @ take len (drop 8 b)) if_idx c)
        (\<lambda>(_, c1). Inr c1))"

text \<open>The branch of \<open>IAPP_RcvHandlerUdp\<close> for a station that has associated elsewhere.\<close>

definition rcv_add_notify :: "iapp_env \<Rightarrow> u32 \<Rightarrow> iapp \<Rightarrow> iapp res" where
  "rcv_add_notify env PeerIP c =
     (let b = pPktBuf c; MacAddr = get_mac b 8 in
      if SWAP_16 (get16 b 4) \<noteq> 16 then Inr c
      else res_bind (mt_iapp_find_ifidx_by_sta_mac (SelfFtStaTable c) MacAddr) (\<lambda>if_idx.
        res_bind (if 0 \<le> if_idx
                  then res_bind (IAPP_MsgProcess env RT_SET_DEL_MAC_ENTRY (mac_bytes MacAddr) if_idx c) (\<lambda>(_, c1). Inr c1)
                  else Inr c) (\<lambda>c1.
          if flag_set (b ! 7) 0x01
          then to_interfaces env RT_SET_FT_STATION_NOTIFY (u32_bytes PeerIP @ mac_bytes MacAddr) (all_interfaces c1) c1
          else Inr c1)))"

text \<open>The branch of \<open>IAPP_RcvHandlerTcp\<close> for a key that was requested.\<close>

definition rcv_ack_block :: "iapp_env \<Rightarrow> u32 \<Rightarrow> iapp \<Rightarrow> iapp res" where
  "rcv_ack_block env PeerIP c =
     (if IAPP_MAX_RCV_PKT_SIZE < SIZEOF_OID_REQ + 12 + unat (get16 (pPktBuf c) 14) then Inr c
      else to_interfaces env RT_SET_FT_KEY_RSP (block_data PeerIP (pPktBuf c)) (all_interfaces c) c)"

text \<open>A packet is decrypted in the buffer by the first interface; when that fails it is used as it came.\<close>

definition decrypt_packet :: "iapp_env \<Rightarrow> byte list \<Rightarrow> iapp \<Rightarrow> iapp res" where
  "decrypt_packet env pkt c =
     res_bind (wlan_io env 0 RT_FT_DATA_DECRYPT IAPP_BUFFER (take IAPP_MAX_RCV_PKT_SIZE pkt) c) (\<lambda>(data, c1).
       Inr (c1\<lparr>pPktBuf := move_at 0 data (pPktBuf c1)\<rparr>))"

definition udp_command :: "iapp_env \<Rightarrow> u32 \<Rightarrow> iapp \<Rightarrow> iapp res" where
  "udp_command env PeerIP c =
     (let Version = pPktBuf c ! 0; Command = pPktBuf c ! 1 in
      if Version \<noteq> 0 then Inr c
      else if Command = IAPP_CMD_ADD_NOTIFY then rcv_add_notify env PeerIP c
      else if Command = IAPP_CMD_MOVE_NOTIFY then IAPP_RcvHandlerMoveReq env PeerIP c
      else if Command = IAPP_CMD_FT_SEND_SECURITY_BLOCK then IAPP_RcvHandlerSSB env PeerIP c
      else if Command = IAPP_CMD_INFO_BROADCAST then IAPP_RcvHandlerApInfor env INFO_BC PeerIP (- 1) c
      else if Command = IAPP_CMD_INFO_REQUEST then IAPP_RcvHandlerApInfor env INFO_REQ PeerIP (- 1) c
      else Inr c)"

definition IAPP_RcvHandlerUdp :: "iapp_env \<Rightarrow> u32 \<Rightarrow> byte list \<Rightarrow> iapp \<Rightarrow> iapp res" where
  "IAPP_RcvHandlerUdp env PeerIP pkt c =
     (if pkt = [] then Inr c
      else if PeerIP = AddrOwn c then Inr (receive pkt c)
      else res_bind (decrypt_packet env pkt (receive pkt c)) (udp_command env PeerIP))"

definition tcp_command :: "iapp_env \<Rightarrow> u32 \<Rightarrow> iapp \<Rightarrow> iapp res" where
  "tcp_command env PeerIP c =
     (let Version = pPktBuf c ! 0; Command = pPktBuf c ! 1 in
      if Version \<noteq> 0 then Inr c
      else if Command = IAPP_CMD_MOVE_NOTIFY then IAPP_RcvHandlerMoveReq env PeerIP c
      else if Command = IAPP_CMD_MOVE_RESPONSE then Inr c
      else if Command = IAPP_CMD_FT_SEND_SECURITY_BLOCK then IAPP_RcvHandlerSSB env PeerIP c
      else if Command = IAPP_CMD_FT_ACK_SECURITY_BLOCK then rcv_ack_block env PeerIP c
      else if Command = IAPP_CMD_INFO_RESPONSE then IAPP_RcvHandlerApInfor env INFO_RSP PeerIP 0 c
      else Inr c)"

definition IAPP_RcvHandlerTcp :: "iapp_env \<Rightarrow> u32 \<Rightarrow> byte list \<Rightarrow> iapp \<Rightarrow> iapp res" where
  "IAPP_RcvHandlerTcp env PeerIP pkt c =
     (if pkt = [] then Inr c
      else res_bind (decrypt_packet env pkt (receive pkt c)) (tcp_command env PeerIP))"

text \<open>\<open>IAPP_ENCRYPTED_DATA_SIZE_CAL\<close>: the size of encrypted data, a multiple of 8 and 8 more.\<close>

definition encrypted_size :: "nat \<Rightarrow> nat" where
  "encrypted_size n = (if n mod 8 \<noteq> 0 then n + (8 - n mod 8) else n) + 8"

text \<open>
  \<open>IAPP_RcvHandlerRawRRB\<close>: an action frame from another access point. The length of the encrypted part comes from the frame;
  the driver is given its lower 16 bits, because that is the width of the field of the request.
\<close>

definition IAPP_RcvHandlerRawRRB :: "iapp_env \<Rightarrow> byte list \<Rightarrow> iapp \<Rightarrow> iapp res" where
  "IAPP_RcvHandlerRawRRB env pkt c =
     (if pkt = [] then Inr c
      else
        let c1 = receive pkt c; b = pPktBuf c1; wifi_if_idx = mt_iapp_find_ifidx_by_mac c1 (get_mac b 0);
            size = encrypted_size (unat (get16 b 16)); len = size mod 65536
        in if wifi_if_idx = - 1 then Inr c1
           else if IAPP_BUFFER < 24 + len then Inl Out_Of_Bounds
           else res_bind (IAPP_IoctlToWLAN env (of_int wifi_if_idx) RT_FT_DATA_DECRYPT (take len (drop 24 b)) c1) (\<lambda>(ans, c2).
             if (case ans of None \<Rightarrow> False | Some out \<Rightarrow> IAPP_BUFFER < 24 + length out) then Inl Out_Of_Bounds
             else
               let b' = (case ans of None \<Rightarrow> b | Some out \<Rightarrow> move_at 24 out b);
                   SizeRcvMsg = 24 + (case ans of None \<Rightarrow> size | Some out \<Rightarrow> length out);
                   c3 = c2\<lparr>pPktBuf := b'\<rparr>
               in if IAPP_MAX_RCV_PKT_SIZE < SIZEOF_OID_REQ + SizeRcvMsg then Inr c3
                  else res_bind (IAPP_MsgProcess env RT_FT_ACTION_FORWARD (take SizeRcvMsg b') wifi_if_idx c3)
                         (\<lambda>(_, c4). Inr c4)))"

section \<open>The daemon\<close>

text \<open>
  What \<open>select\<close> in \<open>IAPP_RcvHandler\<close> can report: a datagram or a connection with its sender, a frame of the remote
  request broker, a signal of the driver. The loop ends when the sockets have been closed.
\<close>

datatype iapp_event = Udp_In u32 "byte list" | Tcp_In u32 "byte list" | Rrb_In "byte list" | Drv_In "byte list"

primrec iapp_handle :: "iapp_env \<Rightarrow> iapp_event \<Rightarrow> iapp \<Rightarrow> iapp res" where
  "iapp_handle env (Udp_In peer pkt) c = IAPP_RcvHandlerUdp env peer pkt c"
| "iapp_handle env (Tcp_In peer pkt) c = IAPP_RcvHandlerTcp env peer pkt c"
| "iapp_handle env (Rrb_In pkt) c = IAPP_RcvHandlerRawRRB env pkt c"
| "iapp_handle env (Drv_In pkt) c = IAPP_RcvHandlerRawDrv env pkt c"

fun IAPP_Start :: "iapp_env \<Rightarrow> iapp_event list \<Rightarrow> iapp \<Rightarrow> iapp res" where
  "IAPP_Start env [] c = Inr c"
| "IAPP_Start env (ev # evs) c =
     (if FlgIsTerminated c then Inr c else res_bind (iapp_handle env ev c) (IAPP_Start env evs))"

text \<open>The command line. A string that does not fit its array is written over what follows.\<close>

definition copy_name :: "nat \<Rightarrow> string \<Rightarrow> string res" where
  "copy_name n s = (if length s < n then Inr s else Inl Out_Of_Bounds)"

function (sequential) parse_args :: "string list \<Rightarrow> iapp \<Rightarrow> iapp option res" where
  "parse_args [] c = Inr (Some c)"
| "parse_args (arg # args) c =
     (if take 2 arg = ''-h'' then Inr None
      else if take 2 arg = ''-e'' then
        (case args of [] \<Rightarrow> Inr (Some c)
         | v # rest \<Rightarrow> res_bind (copy_name 16 v) (\<lambda>s. parse_args rest (c\<lparr>IfNameEth := s\<rparr>)))
      else if take 3 arg = ''-wi'' then
        (case args of [] \<Rightarrow> Inr (Some c)
         | v # rest \<Rightarrow>
             if int MAX_WIFI_COUNT \<le> IfNameWlanCount c then Inl Out_Of_Bounds
             else res_bind (copy_name 16 v) (\<lambda>s. parse_args rest
               (c\<lparr>IfNameWlanIoctl := (IfNameWlanIoctl c)[nat (IfNameWlanCount c) := s],
                  IfNameWlanCount := IfNameWlanCount c + 1\<rparr>)))
      else if take 2 arg = ''-w'' then
        (case args of [] \<Rightarrow> Inr (Some c)
         | v # rest \<Rightarrow> res_bind (copy_name 16 v) (\<lambda>s. parse_args rest (c\<lparr>IfNameWlan := s\<rparr>)))
      else if take 2 arg = ''-k'' then
        (case args of [] \<Rightarrow> Inr (Some c) | v # rest \<Rightarrow> parse_args rest (c\<lparr>CommonKey := take 64 v\<rparr>))
      else if take 2 arg = ''-d'' then
        (case args of [] \<Rightarrow> Inl Null_Deref | v # rest \<Rightarrow> parse_args rest c)
      else parse_args args c)"
  by pat_completeness auto
termination
  by (relation "measure (\<lambda>(args, c). length args)") auto

definition IAPP_ArgumentParse :: "string list \<Rightarrow> iapp \<Rightarrow> iapp option res" where
  "IAPP_ArgumentParse argv c =
     res_bind (parse_args (tl argv) (c\<lparr>IfNameEth := ''br-lan'', IfNameWlan := ''br-lan'',
         IfNameWlanIoctl := (IfNameWlanIoctl c)[0 := ''ra0''], CommonKey := ''1234567812345678''\<rparr>))
       (\<lambda>r. Inr (map_option (\<lambda>c'. if IfNameWlanCount c' = 0 then c'\<lparr>IfNameWlanCount := 1\<rparr> else c') r))"

text \<open>The addresses of the interfaces come from the kernel; \<open>None\<close> when one of them does not exist.\<close>

fun get_wifi_macs :: "(string \<Rightarrow> mac option) \<Rightarrow> nat list \<Rightarrow> iapp \<Rightarrow> iapp option" where
  "get_wifi_macs hw [] c = Some c"
| "get_wifi_macs hw (idx # ids) c = (case hw (IfNameWlanIoctl c ! idx) of
     None \<Rightarrow> None
   | Some mac \<Rightarrow> get_wifi_macs hw ids (c\<lparr>IfNameWlanMAC := (IfNameWlanMAC c)[idx := mac]\<rparr>))"

definition mt_iapp_get_wifi_iface_mac :: "(string \<Rightarrow> mac option) \<Rightarrow> iapp \<Rightarrow> iapp option" where
  "mt_iapp_get_wifi_iface_mac hw c = get_wifi_macs hw [0..<nat (IfNameWlanCount c)] c"

text \<open>The driver is told the process and the key; it only reads the data of these two commands.\<close>

fun set_daemon_information :: "iapp_env \<Rightarrow> u32 \<Rightarrow> int list \<Rightarrow> iapp \<Rightarrow> iapp res" where
  "set_daemon_information env pid [] c = Inr c"
| "set_daemon_information env pid (idx # ids) c =
     res_bind (IAPP_IoctlToWLAN env (of_int idx) RT_SET_IAPP_PID (u32_bytes pid) c) (\<lambda>(_, c1).
       res_bind (IAPP_IoctlToWLAN env (of_int idx) RT_FT_KEY_SET (map of_char (CommonKey c1)) c1) (\<lambda>(_, c2).
         set_daemon_information env pid ids c2))"

definition mt_iapp_set_daemon_information :: "iapp_env \<Rightarrow> u32 \<Rightarrow> iapp \<Rightarrow> iapp res" where
  "mt_iapp_set_daemon_information env pid c = set_daemon_information env pid (all_interfaces c) c"

text \<open>The control block after \<open>IAPP_MEM_ZERO\<close>.\<close>

definition zero_iapp :: iapp where
  "zero_iapp = \<lparr>IfNameEth = [], IfNameWlan = [], IfNameWlanIoctl = [[], []],
     IfNameWlanMAC = [zero_mac, zero_mac], IfNameWlanCount = 0, FlgIsTerminated = False, AddrOwn = 0,
     AddrBroadcast = 0, PacketIdentifier = 0, CommonKey = [], SelfFtStaTable = mt_iapp_ft_client_table_init,
     pPktBuf = [], iapp_trace = []\<rparr>"

text \<open>
  From the command line to the loop: the addresses of the Ethernet interface (\<open>None\<close> when it has none, or when the
  sockets cannot be opened: the task ends in both cases before it serves anything),
  the addresses of the wireless interfaces, the process number and the contents of the fresh packet buffer
  come from the system.
\<close>

definition IAPP_Task ::
  "iapp_env \<Rightarrow> (u32 \<times> u32) option \<Rightarrow> (string \<Rightarrow> mac option) \<Rightarrow> u32 \<Rightarrow> byte list \<Rightarrow> iapp_event list \<Rightarrow> iapp \<Rightarrow> iapp res" where
  "IAPP_Task env addrs hw pid fresh evs c = (case addrs of None \<Rightarrow> Inr c
     | Some (own, broadcast) \<Rightarrow>
         let c1 = c\<lparr>AddrOwn := own, AddrBroadcast := broadcast\<rparr> in
         case mt_iapp_get_wifi_iface_mac hw c1 of None \<Rightarrow> Inr c1
         | Some c2 \<Rightarrow> res_bind (mt_iapp_set_daemon_information env pid c2) (\<lambda>c3.
             IAPP_Start env evs (c3\<lparr>FlgIsTerminated := False, SelfFtStaTable := mt_iapp_ft_client_table_init,
               pPktBuf := fresh\<rparr>)))"

definition iapp_main ::
  "iapp_env \<Rightarrow> (u32 \<times> u32) option \<Rightarrow> (string \<Rightarrow> mac option) \<Rightarrow> u32 \<Rightarrow> byte list \<Rightarrow> string list \<Rightarrow> iapp_event list \<Rightarrow> iapp option res" where
  "iapp_main env addrs hw pid fresh argv evs =
     res_bind (IAPP_ArgumentParse argv zero_iapp) (\<lambda>r. case r of None \<Rightarrow> Inr None
       | Some c \<Rightarrow> res_bind (IAPP_Task env addrs hw pid fresh evs c) (\<lambda>c'. Inr (Some c')))"

end
