(* ===== verification/Iapp_Correct.thy ===== *)
theory Iapp_Correct
  imports Iapp
begin

text \<open>
  Facts about the operations of the inter-access-point daemon: fields of frames are read back as they were written,
  calls of a driver that keeps to its contract, the behaviour of each handler on each frame, and the
  well-formedness of the control block.
\<close>

section \<open>Fields\<close>

lemma byte_masks: "(0x00ff :: u16) = mask 8" "(0xff00 :: u16) = push_bit 8 (mask 8)"
  by (simp_all add: mask_eq_exp_minus_1 push_bit_eq_mult)

lemma SWAP_16_SWAP_16 [simp]: "SWAP_16 (SWAP_16 x) = x"
  by (rule bit_word_eqI) (auto simp: SWAP_16_def byte_masks bit_simps)

lemma u16_bytes_length [simp]: "length (u16_bytes w) = 2"
  by (simp add: u16_bytes_def)

lemma mac_bytes_length [simp]: "length (mac_bytes m) = 6"
  by (cases m rule: prod_cases6) simp

lemma get16_u16_bytes: "b ! off = u16_bytes w ! 0 \<Longrightarrow> b ! (off + 1) = u16_bytes w ! 1 \<Longrightarrow> get16 b off = w"
  by (rule bit_word_eqI) (auto simp: get16_def u16_bytes_def bit_simps)

lemma slice_nth:
  assumes "take (length xs) (drop off b) = xs" and "i < length xs"
  shows "b ! (off + i) = xs ! i"
proof -
  have "length xs \<le> length (drop off b)" using arg_cong [OF assms(1), of length] by simp
  then have "off \<le> length b" using assms(2) by simp
  have "xs ! i = take (length xs) (drop off b) ! i" by (simp only: assms(1))
  also have "\<dots> = drop off b ! i" using assms(2) by simp
  also have "\<dots> = b ! (off + i)" using \<open>off \<le> length b\<close> by simp
  finally show ?thesis by simp
qed

lemma get16_at:
  assumes "take 2 (drop off b) = u16_bytes w"
  shows "get16 b off = w"
  using slice_nth [of "u16_bytes w" off b 0] slice_nth [of "u16_bytes w" off b 1] assms
  by (intro get16_u16_bytes) simp_all

lemma get_mac_at:
  assumes "take 6 (drop off b) = mac_bytes m"
  shows "get_mac b off = m"
proof -
  have "b ! (off + i) = mac_bytes m ! i" if "i < 6" for i
    using slice_nth [of "mac_bytes m" off b i] assms that by simp
  from this [of 0] this [of 1] this [of 2] this [of 3] this [of 4] this [of 5]
  show ?thesis by (cases m rule: prod_cases6) (simp add: get_mac_def)
qed

lemma nth_front: "i < length xs \<Longrightarrow> take (length xs) b = xs \<Longrightarrow> b ! i = xs ! i"
  by (metis nth_take)

text \<open>A slice of a buffer that starts with a frame is a slice of the frame.\<close>

lemma slice_front: "take n b = xs \<Longrightarrow> off + len \<le> n \<Longrightarrow> take len (drop off b) = take len (drop off xs)"
  by (auto simp: take_drop take_drop min_def)

section \<open>The contract of the driver\<close>

text \<open>
  The commands that set something only read their data; encryption adds at most 32 bytes (what the daemon reserves)
  and decryption adds nothing.
\<close>

definition driver_ok :: "iapp_env \<Rightarrow> bool" where
  "driver_ok env \<longleftrightarrow> length (stack_bytes env) = SIZEOF_KEY_ELM \<and>
     (\<forall>h n f d out. ioctl_answer env h n f d = Some out \<longrightarrow>
        (flag_set f 0x8000 \<longrightarrow> out = d) \<and>
        (f = RT_FT_DATA_ENCRYPT \<longrightarrow> length out \<le> length d + IAPP_SECURITY_EXTEND_LEN) \<and>
        (f = RT_FT_DATA_DECRYPT \<longrightarrow> length out \<le> length d))"

definition if_name :: "iapp \<Rightarrow> int \<Rightarrow> string" where
  "if_name c i = (let name = IfNameWlanIoctl c ! nat i in if 12 \<le> length name then ''ra0'' else name)"

lemma interface_index:
  assumes "0 \<le> i" and "i < int MAX_WIFI_COUNT"
  shows "unat (of_int i :: u8) = nat i"
proof -
  have "i = 0 \<or> i = 1" using assms by auto
  then show ?thesis by auto
qed

lemma ioctl_index:
  assumes "0 \<le> i" and "i < int MAX_WIFI_COUNT"
  shows "IAPP_IoctlToWLAN env (of_int i) f d c =
    Inr (ioctl_answer env (iapp_trace c) (if_name c i) f d, act (Wlan_Ioctl (if_name c i) f d) c)"
  using assms by (simp add: IAPP_IoctlToWLAN_def interface_index if_name_def Let_def)

lemma unknown_interface: "IAPP_IoctlToWLAN env (of_int (- 1)) f d c = Inl Out_Of_Bounds"
proof -
  have "(of_int (- 1) :: u8) = 255" by simp
  then have "unat (of_int (- 1) :: u8) = 255" by (simp only:) simp
  then show ?thesis unfolding IAPP_IoctlToWLAN_def by (simp only: if_True) simp
qed

lemma wlan_io_eq:
  assumes "0 \<le> i" and "i < int MAX_WIFI_COUNT"
  shows "wlan_io env (of_int i) f room d c = (case ioctl_answer env (iapp_trace c) (if_name c i) f d of
       None \<Rightarrow> Inr (d, act (Wlan_Ioctl (if_name c i) f d) c)
     | Some out \<Rightarrow> if room < length out then Inl Out_Of_Bounds else Inr (out, act (Wlan_Ioctl (if_name c i) f d) c))"
  by (simp add: wlan_io_def ioctl_index [OF assms])

lemma MsgProcess_set:
  assumes "driver_ok env" and "flag_set oid 0x8000" and "length d \<le> IAPP_BUFFER - SIZEOF_OID_REQ"
    and "0 \<le> i" and "i < int MAX_WIFI_COUNT"
  shows "IAPP_MsgProcess env oid d i c = Inr (d, act (Wlan_Ioctl (if_name c i) oid d) c)"
proof -
  have "ioctl_answer env (iapp_trace c) (if_name c i) oid d = Some out \<Longrightarrow> out = d" for out
    using assms(1,2) unfolding driver_ok_def by blast
  then show ?thesis
    using assms(3) unfolding IAPP_MsgProcess_def wlan_io_eq [OF assms(4,5)] by (auto split: option.splits)
qed

lemma act_fields [simp]:
  "IfNameWlanIoctl (act a c) = IfNameWlanIoctl c" "IfNameWlanMAC (act a c) = IfNameWlanMAC c"
  "IfNameWlanCount (act a c) = IfNameWlanCount c" "SelfFtStaTable (act a c) = SelfFtStaTable c"
  "pPktBuf (act a c) = pPktBuf c" "iapp_trace (act a c) = iapp_trace c @ [a]" "AddrBroadcast (act a c) = AddrBroadcast c"
  "PacketIdentifier (act a c) = PacketIdentifier c" "FlgIsTerminated (act a c) = FlgIsTerminated c"
  by (simp_all add: act_def)

lemma if_name_act [simp]: "if_name (act a c) = if_name c"
  by (simp add: if_name_def fun_eq_iff)

lemma to_interfaces_set:
  assumes "driver_ok env" and "flag_set oid 0x8000" and "length d \<le> IAPP_BUFFER - SIZEOF_OID_REQ"
    and "\<And>i. i \<in> set ids \<Longrightarrow> 0 \<le> i \<and> i < int MAX_WIFI_COUNT"
  shows "to_interfaces env oid d ids c =
    Inr (c\<lparr>iapp_trace := iapp_trace c @ map (\<lambda>i. Wlan_Ioctl (if_name c i) oid d) ids\<rparr>)"
  using assms(4)
proof (induction ids arbitrary: c)
  case Nil
  then show ?case by simp
next
  case (Cons i ids)
  then have "IAPP_MsgProcess env oid d i c = Inr (d, act (Wlan_Ioctl (if_name c i) oid d) c)"
    using MsgProcess_set [OF assms(1-3)] by simp
  with Cons show ?case by (simp add: act_def if_name_def)
qed

section \<open>Well-formed control blocks\<close>

definition iapp_ok :: "iapp \<Rightarrow> bool" where
  "iapp_ok c \<longleftrightarrow> length (pPktBuf c) = IAPP_BUFFER \<and> length (IfNameWlanIoctl c) = MAX_WIFI_COUNT \<and>
     length (IfNameWlanMAC c) = MAX_WIFI_COUNT \<and> 0 < IfNameWlanCount c \<and> IfNameWlanCount c \<le> int MAX_WIFI_COUNT \<and>
     ft_inv (SelfFtStaTable c) \<and>
     (\<forall>a ap x. ft_map (SelfFtStaTable c) a = Some (ap, x) \<longrightarrow> 0 \<le> x \<and> x < IfNameWlanCount c)"

lemma iapp_ok_parts:
  assumes "iapp_ok c"
  shows "length (pPktBuf c) = IAPP_BUFFER" and "0 < IfNameWlanCount c" and "IfNameWlanCount c \<le> int MAX_WIFI_COUNT"
    and "ft_inv (SelfFtStaTable c)"
    and "ft_map (SelfFtStaTable c) a = Some (ap, x) \<Longrightarrow> 0 \<le> x \<and> x < IfNameWlanCount c"
  using assms unfolding iapp_ok_def by blast+

lemma all_interfaces_bound:
  "iapp_ok c \<Longrightarrow> i \<in> set (all_interfaces c) \<Longrightarrow> 0 \<le> i \<and> i < int MAX_WIFI_COUNT"
  by (auto simp: all_interfaces_def iapp_ok_def)

lemma find_ifidx_station:
  assumes "iapp_ok c"
  shows "mt_iapp_find_ifidx_by_sta_mac (SelfFtStaTable c) a =
    Inr (case ft_map (SelfFtStaTable c) a of Some (_, i) \<Rightarrow> i | None \<Rightarrow> - 1)"
  by (rule find_ifidx_map [OF iapp_ok_parts(4) [OF assms]])

lemma station_interface:
  assumes "iapp_ok c" and "ft_map (SelfFtStaTable c) a = Some (ap, i)"
  shows "0 \<le> i" and "i < int MAX_WIFI_COUNT"
  using iapp_ok_parts(3) [OF assms(1)] iapp_ok_parts(5) [OF assms] by auto

lemma find_ifidx_by_mac_cases:
  assumes "iapp_ok c"
  shows "mt_iapp_find_ifidx_by_mac c m = - 1 \<or>
    0 \<le> mt_iapp_find_ifidx_by_mac c m \<and> mt_iapp_find_ifidx_by_mac c m < IfNameWlanCount c"
  using iapp_ok_parts(2) [OF assms] by (auto simp: mt_iapp_find_ifidx_by_mac_def find_Some_iff split: option.splits)

lemma iapp_ok_act [simp]: "iapp_ok (act a c) = iapp_ok c"
  by (simp add: iapp_ok_def)

lemma iapp_ok_trace [simp]: "iapp_ok (c\<lparr>iapp_trace := h\<rparr>) = iapp_ok c"
  by (simp add: iapp_ok_def)

lemma iapp_ok_other [simp]:
  "iapp_ok (c\<lparr>PacketIdentifier := n\<rparr>) = iapp_ok c" "iapp_ok (c\<lparr>FlgIsTerminated := t\<rparr>) = iapp_ok c"
  by (simp_all add: iapp_ok_def)

lemma iapp_ok_buffer: "iapp_ok c \<Longrightarrow> length b = IAPP_BUFFER \<Longrightarrow> iapp_ok (c\<lparr>pPktBuf := b\<rparr>)"
  by (simp add: iapp_ok_def)

lemma iapp_ok_receive: "iapp_ok c \<Longrightarrow> iapp_ok (receive pkt c)"
  unfolding receive_def by (rule iapp_ok_buffer) (auto simp: iapp_ok_def)

section \<open>Handlers on received frames\<close>

text \<open>The frame in the buffer is not the whole buffer: what follows it is left over from earlier packets.\<close>

definition in_buffer :: "byte list \<Rightarrow> iapp \<Rightarrow> bool" where
  "in_buffer frame c \<longleftrightarrow> take (length frame) (pPktBuf c) = frame"

lemma in_buffer_slice:
  "in_buffer frame c \<Longrightarrow> off + len \<le> length frame \<Longrightarrow> take len (drop off (pPktBuf c)) = take len (drop off frame)"
  by (metis in_buffer_def slice_front)

lemma in_buffer_nth: "in_buffer frame c \<Longrightarrow> i < length frame \<Longrightarrow> pPktBuf c ! i = frame ! i"
  unfolding in_buffer_def by (metis nth_take)

text \<open>A notification with any identifier, as the sender fills it in.\<close>

definition notify_frame :: "byte \<Rightarrow> u16 \<Rightarrow> u16 \<Rightarrow> byte \<Rightarrow> mac \<Rightarrow> byte list" where
  "notify_frame Command ident len flags mac =
     [0, Command] @ u16_bytes ident @ u16_bytes (SWAP_16 len) @ [6, flags] @ mac_bytes mac"

lemma notify_frame_fields:
  assumes "in_buffer (notify_frame cmd ident len flags mac) c"
  shows "pPktBuf c ! 0 = 0" and "pPktBuf c ! 1 = cmd" and "SWAP_16 (get16 (pPktBuf c) 4) = len"
    and "pPktBuf c ! 7 = flags" and "get_mac (pPktBuf c) 8 = mac"
proof -
  let ?f = "notify_frame cmd ident len flags mac"
  note n = in_buffer_nth [OF assms] and sl = in_buffer_slice [OF assms]
  show "pPktBuf c ! 0 = 0" "pPktBuf c ! 1 = cmd" "pPktBuf c ! 7 = flags"
    using n [of 0] n [of 1] n [of 7] by (simp_all add: notify_frame_def u16_bytes_def)
  have "take 2 (drop 4 (pPktBuf c)) = u16_bytes (SWAP_16 len)"
    using sl [of 4 2] by (simp add: notify_frame_def u16_bytes_def)
  then show "SWAP_16 (get16 (pPktBuf c) 4) = len" by (simp add: get16_at)
  have "take 6 (drop 8 (pPktBuf c)) = mac_bytes mac"
    using sl [of 8 6] by (simp add: notify_frame_def u16_bytes_def)
  then show "get_mac (pPktBuf c) 8 = mac" by (rule get_mac_at)
qed

text \<open>What the driver is told when a station has associated with another access point.\<close>

definition drop_station :: "iapp \<Rightarrow> mac \<Rightarrow> iapp_act list" where
  "drop_station c mac = (case ft_map (SelfFtStaTable c) mac of
     Some (_, i) \<Rightarrow> [Wlan_Ioctl (if_name c i) RT_SET_DEL_MAC_ENTRY (mac_bytes mac)] | None \<Rightarrow> [])"

definition tell_interfaces :: "iapp \<Rightarrow> u16 \<Rightarrow> byte list \<Rightarrow> iapp_act list" where
  "tell_interfaces c oid data = map (\<lambda>i. Wlan_Ioctl (if_name c i) oid data) (all_interfaces c)"

lemma all_interfaces_act [simp]: "all_interfaces (act a c) = all_interfaces c"
  by (simp add: all_interfaces_def)

lemma tell_interfaces_act [simp]: "tell_interfaces (act a c) = tell_interfaces c"
  by (simp add: tell_interfaces_def fun_eq_iff)

lemma tell_all_interfaces:
  assumes "driver_ok env" and "iapp_ok c" and "flag_set oid 0x8000" and "length d \<le> IAPP_BUFFER - SIZEOF_OID_REQ"
  shows "to_interfaces env oid d (all_interfaces c) c =
    Inr (c\<lparr>iapp_trace := iapp_trace c @ tell_interfaces c oid d\<rparr>)"
  using to_interfaces_set [OF assms(1,3,4) all_interfaces_bound [OF assms(2)]] by (simp add: tell_interfaces_def)

lemma rcv_add_notify_eq:
  assumes ok: "driver_ok env" "iapp_ok c" and len: "SWAP_16 (get16 (pPktBuf c) 4) = 16"
  shows "rcv_add_notify env PeerIP c = Inr (c\<lparr>iapp_trace := iapp_trace c @ drop_station c (get_mac (pPktBuf c) 8) @
    (if flag_set (pPktBuf c ! 7) 0x01
     then tell_interfaces c RT_SET_FT_STATION_NOTIFY (u32_bytes PeerIP @ mac_bytes (get_mac (pPktBuf c) 8)) else [])\<rparr>)"
proof -
  let ?m = "get_mac (pPktBuf c) 8"
  show ?thesis
  proof (cases "ft_map (SelfFtStaTable c) ?m")
    case None
    then show ?thesis
      by (simp add: rcv_add_notify_def len find_ifidx_station [OF ok(2)] drop_station_def
          tell_all_interfaces [OF ok])
  next
    case (Some e)
    obtain ap i where e: "e = (ap, i)" by (cases e) blast
    note i = station_interface [OF ok(2) Some [unfolded e]]
    have "IAPP_MsgProcess env RT_SET_DEL_MAC_ENTRY (mac_bytes ?m) i c =
        Inr (mac_bytes ?m, act (Wlan_Ioctl (if_name c i) RT_SET_DEL_MAC_ENTRY (mac_bytes ?m)) c)"
      by (rule MsgProcess_set [OF ok(1) _ _ i]) simp_all
    moreover define c1 where "c1 = act (Wlan_Ioctl (if_name c i) RT_SET_DEL_MAC_ENTRY (mac_bytes ?m)) c"
    moreover have "to_interfaces env RT_SET_FT_STATION_NOTIFY (u32_bytes PeerIP @ mac_bytes ?m) (all_interfaces c1) c1 =
        Inr (c1\<lparr>iapp_trace := iapp_trace c1 @ tell_interfaces c RT_SET_FT_STATION_NOTIFY (u32_bytes PeerIP @ mac_bytes ?m)\<rparr>)"
      using tell_all_interfaces [OF ok(1), of c1] ok(2) by (simp add: c1_def)
    ultimately show ?thesis
      using Some e i by (simp add: rcv_add_notify_def len find_ifidx_station [OF ok(2)] Let_def)
        (simp add: act_def drop_station_def)
  qed
qed

text \<open>
  What is sent to a peer: nothing when it cannot be reached; otherwise the driver is asked to encrypt, and the
  answer, or the plain frame when there is none, goes out.
\<close>

definition encrypted :: "iapp_env \<Rightarrow> iapp \<Rightarrow> int \<Rightarrow> byte list \<Rightarrow> byte list" where
  "encrypted env c i frame =
     (case ioctl_answer env (iapp_trace c) (if_name c i) RT_FT_DATA_ENCRYPT frame of None \<Rightarrow> frame | Some out \<Rightarrow> out)"

lemma encrypt_io:
  assumes "driver_ok env" and "length frame + IAPP_SECURITY_EXTEND_LEN \<le> room" and "0 \<le> i" and "i < int MAX_WIFI_COUNT"
  shows "wlan_io env (of_int i) RT_FT_DATA_ENCRYPT room frame c =
    Inr (encrypted env c i frame, act (Wlan_Ioctl (if_name c i) RT_FT_DATA_ENCRYPT frame) c)"
proof -
  have "ioctl_answer env (iapp_trace c) (if_name c i) RT_FT_DATA_ENCRYPT frame = Some out \<Longrightarrow> length out \<le> room" for out
    using assms(1,2) unfolding driver_ok_def by fastforce
  then show ?thesis unfolding wlan_io_eq [OF assms(3,4)] by (auto simp: encrypted_def split: option.splits)
qed

lemma encrypt_and_send_eq:
  assumes "driver_ok env" and "length frame + IAPP_SECURITY_EXTEND_LEN \<le> IAPP_BUFFER" and "0 \<le> i" and "i < int MAX_WIFI_COUNT"
  shows "encrypt_and_send env ip frame i c = Inr (c\<lparr>iapp_trace := iapp_trace c @
    [Wlan_Ioctl (if_name c i) RT_FT_DATA_ENCRYPT frame, Tcp_Send ip (encrypted env c i frame)]\<rparr>)"
  by (simp add: encrypt_and_send_def encrypt_io [OF assms]) (simp add: act_def)

definition udp_plain :: "iapp \<Rightarrow> int \<Rightarrow> byte list \<Rightarrow> byte list" where
  "udp_plain c i frame = move_at 2 (u16_bytes (SWAP_16 (PacketIdentifier c))) frame @ mac_bytes (IfNameWlanMAC c ! nat i)"

lemma udp_send_eq:
  assumes "driver_ok env" and "4 \<le> length frame" and "0 \<le> i" and "i < int MAX_WIFI_COUNT"
  shows "IAPP_UDP_PacketSend env frame i c = Inr (c\<lparr>PacketIdentifier := PacketIdentifier c + 2,
    iapp_trace := iapp_trace c @ (if length frame + 38 \<le> IAPP_MAX_RCV_PKT_SIZE
      then [Wlan_Ioctl (if_name c i) RT_FT_DATA_ENCRYPT (udp_plain c i frame),
            Udp_Send (AddrBroadcast c) (encrypted env c i (udp_plain c i frame))] else [])\<rparr>)"
proof (cases "length frame + 38 \<le> IAPP_MAX_RCV_PKT_SIZE")
  case True
  let ?c = "c\<lparr>PacketIdentifier := PacketIdentifier c + 2\<rparr>"
  have "length (udp_plain c i frame) = length frame + 6" using assms(2) by (simp add: udp_plain_def)
  then have "wlan_io env (of_int i) RT_FT_DATA_ENCRYPT IAPP_BUFFER (udp_plain c i frame) ?c =
      Inr (encrypted env ?c i (udp_plain c i frame), act (Wlan_Ioctl (if_name ?c i) RT_FT_DATA_ENCRYPT (udp_plain c i frame)) ?c)"
    using True by (intro encrypt_io [OF assms(1) _ assms(3,4)]) simp
  then show ?thesis
    using True assms(3,4) by (simp add: IAPP_UDP_PacketSend_def Let_def flip: udp_plain_def)
      (simp add: act_def if_name_def encrypted_def)
next
  case False
  then show ?thesis by (simp add: IAPP_UDP_PacketSend_def Let_def)
qed

lemma tcp_send_returns:
  assumes "driver_ok env" and "4 \<le> length frame" and "0 \<le> i" and "i < int MAX_WIFI_COUNT"
  obtains h n where "IAPP_TCP_PacketSend env frame ip flg i c = Inr (c\<lparr>PacketIdentifier := n, iapp_trace := h\<rparr>)"
proof (cases "(\<not> flg \<and> ip = 0) \<or> (ip \<noteq> 0 \<and> \<not> connected env ip c) \<or> IAPP_MAX_RCV_PKT_SIZE < length frame + IAPP_SECURITY_EXTEND_LEN")
  case True
  then show thesis by (intro that [of "iapp_trace c" "PacketIdentifier c"]) (auto simp: IAPP_TCP_PacketSend_def)
next
  case False
  show thesis
  proof (cases "ip = 0")
    case True
    with False show thesis
      using udp_send_eq [OF assms] by (intro that) (auto simp: IAPP_TCP_PacketSend_def)
  next
    case ip: False
    have "encrypt_and_send env ip frame i c = Inr (c\<lparr>PacketIdentifier := PacketIdentifier c, iapp_trace := iapp_trace c @
        [Wlan_Ioctl (if_name c i) RT_FT_DATA_ENCRYPT frame, Tcp_Send ip (encrypted env c i frame)]\<rparr>)"
      using encrypt_and_send_eq [OF assms(1) _ assms(3,4), of frame] False by simp
    with False ip show thesis
      by (intro that [of "iapp_trace c @ [Wlan_Ioctl (if_name c i) RT_FT_DATA_ENCRYPT frame, Tcp_Send ip (encrypted env c i frame)]"
          "PacketIdentifier c"]) (auto simp: IAPP_TCP_PacketSend_def)
  qed
qed

text \<open>The station has moved: it leaves the driver and the table, and the peer gets the answer.\<close>

definition move_answer :: "byte list \<Rightarrow> byte list" where
  "move_answer b = take 18 (b[1 := IAPP_CMD_MOVE_RESPONSE, 7 := 0])"

lemma rcv_move_unknown:
  assumes "iapp_ok c" and "ft_map (SelfFtStaTable c) (get_mac (pPktBuf c) 8) = None"
  shows "IAPP_RcvHandlerMoveReq env PeerIP c = Inr c"
  using assms(2) by (simp add: IAPP_RcvHandlerMoveReq_def Let_def find_ifidx_station [OF assms(1)])

lemma rcv_move_known:
  assumes ok: "driver_ok env" "iapp_ok c" and len: "SWAP_16 (get16 (pPktBuf c) 4) = 18"
    and st: "ft_map (SelfFtStaTable c) (get_mac (pPktBuf c) 8) = Some (ap, i)"
  obtains c1 c2 t where "c1 = (act (Wlan_Ioctl (if_name c i) RT_SET_DEL_MAC_ENTRY (mac_bytes (get_mac (pPktBuf c) 8))) c)
        \<lparr>pPktBuf := (pPktBuf c)[1 := IAPP_CMD_MOVE_RESPONSE, 7 := 0]\<rparr>"
    and "IAPP_TCP_PacketSend env (move_answer (pPktBuf c)) PeerIP True i c1 = Inr c2"
    and "SelfFtStaTable c2 = SelfFtStaTable c" and "pPktBuf c2 = pPktBuf c1"
    and "mt_iapp_ft_client_delete (SelfFtStaTable c) (get_mac (pPktBuf c) 8) = Inr t"
    and "ft_inv t" and "ft_map t = (ft_map (SelfFtStaTable c))(get_mac (pPktBuf c) 8 := None)"
    and "IAPP_RcvHandlerMoveReq env PeerIP c = Inr (c2\<lparr>SelfFtStaTable := t\<rparr>)"
    and "iapp_ok (c2\<lparr>SelfFtStaTable := t\<rparr>)"
proof -
  let ?m = "get_mac (pPktBuf c) 8"
  note i = station_interface [OF ok(2) st] and p = iapp_ok_parts [OF ok(2)]
  define c1 where "c1 = (act (Wlan_Ioctl (if_name c i) RT_SET_DEL_MAC_ENTRY (mac_bytes ?m)) c)
        \<lparr>pPktBuf := (pPktBuf c)[1 := IAPP_CMD_MOVE_RESPONSE, 7 := 0]\<rparr>"
  have msg: "IAPP_MsgProcess env RT_SET_DEL_MAC_ENTRY (mac_bytes ?m) i c =
      Inr (mac_bytes ?m, act (Wlan_Ioctl (if_name c i) RT_SET_DEL_MAC_ENTRY (mac_bytes ?m)) c)"
    by (rule MsgProcess_set [OF ok(1) _ _ i]) simp_all
  have "4 \<le> length (move_answer (pPktBuf c))" using p(1) by (simp add: move_answer_def)
  from tcp_send_returns [OF ok(1) this i] obtain h n
    where tcp: "IAPP_TCP_PacketSend env (move_answer (pPktBuf c)) PeerIP True i c1 = Inr (c1\<lparr>PacketIdentifier := n, iapp_trace := h\<rparr>)" .
  obtain j where j: "ft_slot (SelfFtStaTable c) ?m = Some j" using st by (auto simp: ft_map_def)
  obtain t where t: "mt_iapp_ft_client_delete (SelfFtStaTable c) ?m = Inr t" "ft_inv t"
      "ft_map t = (ft_map (SelfFtStaTable c))(?m := None)"
    using delete_known_station [OF p(4) j] by metis
  define c2 where "c2 = c1\<lparr>PacketIdentifier := n, iapp_trace := h\<rparr>"
  have tab: "SelfFtStaTable c2 = SelfFtStaTable c" by (simp add: c2_def c1_def)
  show thesis
  proof (rule that [OF c1_def tcp [folded c2_def] tab _ t])
    show "pPktBuf c2 = pPktBuf c1" by (simp add: c2_def)
    show "IAPP_RcvHandlerMoveReq env PeerIP c = Inr (c2\<lparr>SelfFtStaTable := t\<rparr>)"
      using len st i msg tcp t(1) tab
      by (simp add: IAPP_RcvHandlerMoveReq_def find_ifidx_station [OF ok(2)] Let_def move_answer_def c1_def c2_def)
    have "0 \<le> x \<and> x < IfNameWlanCount c" if "ft_map t a = Some (ap', x)" for a ap' x
      using that p(5) by (auto simp: t(3) split: if_splits)
    moreover have "iapp_ok c2" unfolding c2_def c1_def using ok(2) p(1) by (simp add: iapp_ok_buffer)
    ultimately show "iapp_ok (c2\<lparr>SelfFtStaTable := t\<rparr>)"
      using t(2) unfolding iapp_ok_def by (simp add: c2_def c1_def)
  qed
qed

section \<open>Security blocks and neighbour information\<close>

lemma MsgProcess_unknown: "IAPP_MsgProcess env oid d (- 1) c = Inl Out_Of_Bounds"
  using unknown_interface by (simp add: IAPP_MsgProcess_def wlan_io_def)

lemma block_data_length:
  "length (block_data ip b) \<le> 12 + unat (get16 b 14)"
  by (simp add: block_data_def)

text \<open>The station that a key request is for: the bytes 7 to 12 of the block, in the local structure.\<close>

definition block_station :: "iapp_env \<Rightarrow> byte list \<Rightarrow> mac" where
  "block_station env b = get_mac (move_at 0 (take (unat (get16 b 14)) (drop 16 b)) (stack_bytes env)) 7"

definition ssb_faults :: "iapp_env \<Rightarrow> iapp \<Rightarrow> bool" where
  "ssb_faults env c \<longleftrightarrow> unat (get16 (pPktBuf c) 14) \<le> 1580 \<and>
     (SIZEOF_KEY_ELM < unat (get16 (pPktBuf c) 14) \<or> ft_map (SelfFtStaTable c) (block_station env (pPktBuf c)) = None)"

lemma ssb_faulty:
  assumes "iapp_ok c" and "ssb_faults env c"
  shows "IAPP_RcvHandlerSSB env ip c = Inl Out_Of_Bounds"
  using assms(2)
  by (auto simp: ssb_faults_def IAPP_RcvHandlerSSB_def Let_def find_ifidx_station [OF assms(1)] block_station_def MsgProcess_unknown)

lemma ssb_ignored: "1580 < unat (get16 (pPktBuf c) 14) \<Longrightarrow> IAPP_RcvHandlerSSB env ip c = Inr c"
  by (simp add: IAPP_RcvHandlerSSB_def Let_def)

lemma ssb_delivered:
  assumes ok: "driver_ok env" "iapp_ok c" and len: "unat (get16 (pPktBuf c) 14) \<le> SIZEOF_KEY_ELM"
    and st: "ft_map (SelfFtStaTable c) (block_station env (pPktBuf c)) = Some (ap, i)"
  shows "IAPP_RcvHandlerSSB env ip c = Inr (act (Wlan_Ioctl (if_name c i) RT_SET_FT_KEY_REQ (block_data ip (pPktBuf c))) c)"
proof -
  have "IAPP_MsgProcess env RT_SET_FT_KEY_REQ (block_data ip (pPktBuf c)) i c = Inr (block_data ip (pPktBuf c),
      act (Wlan_Ioctl (if_name c i) RT_SET_FT_KEY_REQ (block_data ip (pPktBuf c))) c)"
    using block_data_length [of ip "pPktBuf c"] len
    by (intro MsgProcess_set [OF ok(1) _ _ station_interface [OF ok(2) st]]) simp_all
  then show ?thesis
    using len st by (simp add: IAPP_RcvHandlerSSB_def Let_def find_ifidx_station [OF ok(2)] flip: block_station_def)
qed

lemma ssb_returns_iff:
  assumes "driver_ok env" and "iapp_ok c"
  shows "(\<exists>c'. IAPP_RcvHandlerSSB env ip c = Inr c') \<longleftrightarrow> \<not> ssb_faults env c"
proof (cases "ssb_faults env c")
  case True
  then show ?thesis by (simp add: ssb_faulty [OF assms(2)])
next
  case False
  then consider "1580 < unat (get16 (pPktBuf c) 14)"
    | e where "unat (get16 (pPktBuf c) 14) \<le> SIZEOF_KEY_ELM" "ft_map (SelfFtStaTable c) (block_station env (pPktBuf c)) = Some e"
    unfolding ssb_faults_def by fastforce
  then show ?thesis
  proof cases
    case 1
    with False show ?thesis by (simp add: ssb_ignored)
  next
    case 2
    obtain ap i where "e = (ap, i)" by (cases e) blast
    with 2 False ssb_delivered [OF assms] show ?thesis by blast
  qed
qed

lemma info_unknown_interface:
  "IAPP_RcvHandlerApInfor env ty ip (- 1) c =
     (if unat (get16 (pPktBuf c) 6) \<le> 1588 then Inl Out_Of_Bounds else Inr c)"
  by (simp add: IAPP_RcvHandlerApInfor_def Let_def MsgProcess_unknown)

lemma info_delivered:
  assumes ok: "driver_ok env" and len: "unat (get16 (pPktBuf c) 6) \<le> 1588" and i: "0 \<le> i" "i < int MAX_WIFI_COUNT"
  shows "IAPP_RcvHandlerApInfor env ty ip i c =
    Inr (act (Wlan_Ioctl (if_name c i) (info_oid ty) (u32_bytes ip @ take (unat (get16 (pPktBuf c) 6)) (drop 8 (pPktBuf c)))) c)"
proof -
  have "flag_set (info_oid ty) 0x8000" by (cases ty) simp_all
  then have "IAPP_MsgProcess env (info_oid ty) (u32_bytes ip @ take (unat (get16 (pPktBuf c) 6)) (drop 8 (pPktBuf c))) i c =
      Inr (u32_bytes ip @ take (unat (get16 (pPktBuf c) 6)) (drop 8 (pPktBuf c)),
        act (Wlan_Ioctl (if_name c i) (info_oid ty) (u32_bytes ip @ take (unat (get16 (pPktBuf c) 6)) (drop 8 (pPktBuf c)))) c)"
    using len by (intro MsgProcess_set [OF ok _ _ i]) (auto simp: min_def)
  then show ?thesis using len by (simp add: IAPP_RcvHandlerApInfor_def Let_def)
qed

lemma ack_delivered:
  assumes ok: "driver_ok env" "iapp_ok c" and len: "unat (get16 (pPktBuf c) 14) \<le> 1580"
  shows "rcv_ack_block env ip c =
    Inr (c\<lparr>iapp_trace := iapp_trace c @ tell_interfaces c RT_SET_FT_KEY_RSP (block_data ip (pPktBuf c))\<rparr>)"
  using len block_data_length [of ip "pPktBuf c"]
  by (simp add: rcv_ack_block_def tell_all_interfaces [OF ok])

section \<open>Decryption\<close>

definition decrypted :: "iapp_env \<Rightarrow> iapp \<Rightarrow> byte list \<Rightarrow> byte list" where
  "decrypted env c pkt =
     (case ioctl_answer env (iapp_trace c) (if_name c 0) RT_FT_DATA_DECRYPT pkt of None \<Rightarrow> pkt | Some out \<Rightarrow> out)"

lemma decrypt_packet_eq:
  assumes "driver_ok env" and "iapp_ok c" and "length pkt \<le> IAPP_MAX_RCV_PKT_SIZE"
  shows "decrypt_packet env pkt (receive pkt c) = Inr (c\<lparr>iapp_trace := iapp_trace c @ [Wlan_Ioctl (if_name c 0) RT_FT_DATA_DECRYPT pkt],
    pPktBuf := move_at 0 (decrypted env c pkt) (move_at 0 pkt (pPktBuf c))\<rparr>)"
    and "iapp_ok (c\<lparr>iapp_trace := h, pPktBuf := move_at 0 (decrypted env c pkt) (move_at 0 pkt (pPktBuf c))\<rparr>)"
    and "length (decrypted env c pkt) \<le> length pkt"
proof -
  have n: "if_name (receive pkt c) 0 = if_name c 0" "iapp_trace (receive pkt c) = iapp_trace c"
    by (simp_all add: receive_def if_name_def)
  have bound: "ioctl_answer env (iapp_trace c) (if_name c 0) RT_FT_DATA_DECRYPT pkt = Some out \<Longrightarrow> length out \<le> length pkt" for out
    using assms(1) unfolding driver_ok_def by blast
  then show len: "length (decrypted env c pkt) \<le> length pkt" by (auto simp: decrypted_def split: option.splits)
  have "wlan_io env (of_int 0) RT_FT_DATA_DECRYPT IAPP_BUFFER pkt (receive pkt c) =
      Inr (decrypted env c pkt, act (Wlan_Ioctl (if_name c 0) RT_FT_DATA_DECRYPT pkt) (receive pkt c))"
    using bound assms(3) unfolding decrypted_def by (subst wlan_io_eq) (force simp: n split: option.splits)+
  then show "decrypt_packet env pkt (receive pkt c) = Inr (c\<lparr>iapp_trace := iapp_trace c @ [Wlan_Ioctl (if_name c 0) RT_FT_DATA_DECRYPT pkt],
      pPktBuf := move_at 0 (decrypted env c pkt) (move_at 0 pkt (pPktBuf c))\<rparr>)"
    using assms(3) by (simp add: decrypt_packet_def) (simp add: act_def receive_def)
  have "length (pPktBuf c) = IAPP_BUFFER" using assms(2) by (rule iapp_ok_parts)
  then have "length (move_at 0 (decrypted env c pkt) (move_at 0 pkt (pPktBuf c))) = IAPP_BUFFER"
    using assms(3) len by simp
  then show "iapp_ok (c\<lparr>iapp_trace := h, pPktBuf := move_at 0 (decrypted env c pkt) (move_at 0 pkt (pPktBuf c))\<rparr>)"
    using assms(2) by (simp add: iapp_ok_def)
qed

text \<open>What the decryption yields is at the front of the buffer.\<close>

lemma in_buffer_front:
  "in_buffer frame (c\<lparr>pPktBuf := move_at 0 (frame @ rest) b\<rparr>)"
  by (simp add: in_buffer_def move_at_def)

end
