(* ===== verification/Iapp_Invariant.thy ===== *)
theory Iapp_Invariant
  imports Iapp_Correct
begin

text \<open>
  Every handler of the inter-access-point daemon that returns leaves a well-formed control block, whatever the driver answers. Most
  operations only send: they change the trace and the counter of identifiers (\<open>quiet\<close>).
\<close>

section \<open>Operations that only send\<close>

definition quiet :: "iapp \<Rightarrow> iapp \<Rightarrow> bool" where
  "quiet c c' \<longleftrightarrow> c'\<lparr>PacketIdentifier := 0, iapp_trace := []\<rparr> = c\<lparr>PacketIdentifier := 0, iapp_trace := []\<rparr>"

lemma quiet_refl [simp]: "quiet c c"
  by (simp add: quiet_def)

lemma quiet_trans [trans]: "quiet a b \<Longrightarrow> quiet b c \<Longrightarrow> quiet a c"
  by (simp add: quiet_def)

lemma quiet_act [simp]: "quiet c (act a c') = quiet c c'"
  by (simp add: quiet_def act_def)

lemma quiet_identifier [simp]:
  "quiet c (c'\<lparr>PacketIdentifier := n\<rparr>) = quiet c c'" "quiet (c\<lparr>PacketIdentifier := n\<rparr>) c' = quiet c c'"
  by (simp_all add: quiet_def)

lemma quiet_fields:
  assumes "quiet c c'"
  shows "pPktBuf c' = pPktBuf c" and "IfNameWlanIoctl c' = IfNameWlanIoctl c" and "IfNameWlanMAC c' = IfNameWlanMAC c"
    and "IfNameWlanCount c' = IfNameWlanCount c" and "SelfFtStaTable c' = SelfFtStaTable c"
proof -
  have "f (c'\<lparr>PacketIdentifier := 0, iapp_trace := []\<rparr>) = f (c\<lparr>PacketIdentifier := 0, iapp_trace := []\<rparr>)" for f :: "iapp \<Rightarrow> 'b"
    using assms by (simp add: quiet_def)
  from this [of pPktBuf] this [of IfNameWlanIoctl] this [of IfNameWlanMAC] this [of IfNameWlanCount] this [of SelfFtStaTable]
  show "pPktBuf c' = pPktBuf c" "IfNameWlanIoctl c' = IfNameWlanIoctl c" "IfNameWlanMAC c' = IfNameWlanMAC c"
    "IfNameWlanCount c' = IfNameWlanCount c" "SelfFtStaTable c' = SelfFtStaTable c" by simp_all
qed

lemma quiet_ok: "quiet c c' \<Longrightarrow> iapp_ok c' = iapp_ok c"
  by (simp add: iapp_ok_def quiet_fields)

lemma ioctl_quiet: "IAPP_IoctlToWLAN env i f d c = Inr (ans, c') \<Longrightarrow> quiet c c'"
  by (auto simp: IAPP_IoctlToWLAN_def Let_def split: if_splits)

lemma wlan_io_quiet:
  assumes "wlan_io env i f room d c = Inr (data, c')"
  shows "quiet c c'" and "data = d \<or> length data \<le> room"
proof -
  obtain ans where a: "IAPP_IoctlToWLAN env i f d c = Inr (ans, c')"
      "data = d \<or> length data \<le> room"
    using assms by (auto simp: wlan_io_def elim!: res_bind_eq_InrE split: option.splits if_splits)
  show "quiet c c'" using a(1) by (rule ioctl_quiet)
  show "data = d \<or> length data \<le> room" by (fact a(2))
qed

lemma MsgProcess_quiet: "IAPP_MsgProcess env oid d i c = Inr (data, c') \<Longrightarrow> quiet c c'"
  unfolding IAPP_MsgProcess_def by (rule wlan_io_quiet)

lemma to_interfaces_quiet: "to_interfaces env oid d ids c = Inr c' \<Longrightarrow> quiet c c'"
proof (induction env oid d ids c rule: to_interfaces.induct)
  case (2 env oid buf idx ids c)
  then obtain b c1 where "IAPP_MsgProcess env oid buf idx c = Inr (b, c1)" "to_interfaces env oid b ids c1 = Inr c'"
    by (auto elim: res_bind_eq_InrE)
  with "2.IH" MsgProcess_quiet quiet_trans show ?case by blast
qed simp

lemma encrypt_and_send_quiet: "encrypt_and_send env ip d i c = Inr c' \<Longrightarrow> quiet c c'"
  by (auto simp: encrypt_and_send_def elim!: res_bind_eq_InrE dest: wlan_io_quiet)

lemma udp_send_quiet: "IAPP_UDP_PacketSend env d i c = Inr c' \<Longrightarrow> quiet c c'"
  by (auto simp: IAPP_UDP_PacketSend_def Let_def elim!: res_bind_eq_InrE split: if_splits dest!: wlan_io_quiet(1))

lemma tcp_send_quiet: "IAPP_TCP_PacketSend env d ip flg i c = Inr c' \<Longrightarrow> quiet c c'"
  by (auto simp: IAPP_TCP_PacketSend_def split: if_splits intro: encrypt_and_send_quiet udp_send_quiet)

lemma take_identifier_quiet: "take_identifier c = (n, c') \<Longrightarrow> quiet c c'"
  by (auto simp: take_identifier_def)

lemmas send_quiet = encrypt_and_send_quiet udp_send_quiet tcp_send_quiet

lemma kdp_quiet:
  "FT_KDP_SecurityBlockSend env n ip e m i c = Inr c' \<Longrightarrow> quiet c c'"
  "FT_KDP_SecurityBlockAck env n ip e i c = Inr c' \<Longrightarrow> quiet c c'"
  "FT_KDP_InformationRequestSend env n e i c = Inr c' \<Longrightarrow> quiet c c'"
  "FT_KDP_InformationResponseSend env n ip e i c = Inr c' \<Longrightarrow> quiet c c'"
  "FT_KDP_InformationReportSend env n e i c = Inr c' \<Longrightarrow> quiet c c'"
  "FT_RRB_ActionForward env n e ty m1 m2 m3 i c = Inr c' \<Longrightarrow> quiet c c'"
proof -
  note defs = FT_KDP_SecurityBlockSend_def FT_KDP_SecurityBlockAck_def FT_KDP_InformationRequestSend_def
    FT_KDP_InformationResponseSend_def FT_KDP_InformationReportSend_def FT_RRB_ActionForward_def
  note step = quiet_trans [OF take_identifier_quiet, OF _ encrypt_and_send_quiet]
    quiet_trans [OF take_identifier_quiet, OF _ udp_send_quiet]
  show "FT_KDP_SecurityBlockSend env n ip e m i c = Inr c' \<Longrightarrow> quiet c c'"
    by (auto simp: defs Let_def split: if_splits prod.splits intro: step)
  show "FT_KDP_SecurityBlockAck env n ip e i c = Inr c' \<Longrightarrow> quiet c c'"
    by (auto simp: defs split: if_splits prod.splits intro: step)
  show "FT_KDP_InformationRequestSend env n e i c = Inr c' \<Longrightarrow> quiet c c'"
    by (auto simp: defs split: if_splits prod.splits intro: step)
  show "FT_KDP_InformationResponseSend env n ip e i c = Inr c' \<Longrightarrow> quiet c c'"
    by (auto simp: defs split: if_splits prod.splits intro: step)
  show "FT_KDP_InformationReportSend env n e i c = Inr c' \<Longrightarrow> quiet c c'"
    by (auto simp: defs split: if_splits prod.splits intro: step)
  show "FT_RRB_ActionForward env n e ty m1 m2 m3 i c = Inr c' \<Longrightarrow> quiet c c'"
    by (auto simp: defs split: if_splits elim!: res_bind_eq_InrE dest: wlan_io_quiet)
qed

section \<open>The table\<close>

lemma insert_keeps:
  assumes "ft_inv t" and "ft_clean t" and "mt_iapp_ft_client_insert t a ap x = Inr (r, t')"
  shows "ft_inv t'" and "ft_clean t'" and "ft_map t' = ft_map t \<or> ft_map t' = (ft_map t)(a \<mapsto> (ap, x))"
proof -
  have "ft_inv t' \<and> ft_clean t' \<and> (ft_map t' = ft_map t \<or> ft_map t' = (ft_map t)(a \<mapsto> (ap, x)))"
  proof (cases "ft_slot t a")
    case (Some i)
    then obtain u where "mt_iapp_ft_client_insert t a ap x = Inr (Some i, u)"
        "ft_map u = (ft_map t)(a \<mapsto> (ap, x))" "ft_inv u" "ft_clean u = ft_clean t"
      using insert_known_station [OF assms(1) Some, of ap x] by metis
    with assms show ?thesis by simp
  next
    case None
    show ?thesis
    proof (cases "ft_sta_table_size t < int MAX_NUM_OF_CLIENT")
      case True
      obtain u i where "mt_iapp_ft_client_insert t a ap x = Inr (Some i, u)"
          "ft_map u = (ft_map t)(a \<mapsto> (ap, x))" "ft_inv u" "ft_clean u"
        using insert_new_station [OF assms(1,2) None True, of ap x] by metis
      with assms show ?thesis by simp
    next
      case False
      with insert_full [OF assms(1) None, of ap x] assms show ?thesis by simp
    qed
  qed
  then show "ft_inv t'" "ft_clean t'" "ft_map t' = ft_map t \<or> ft_map t' = (ft_map t)(a \<mapsto> (ap, x))" by blast+
qed

lemma insert_keeps_ok:
  assumes "iapp_ok c" and "ft_clean (SelfFtStaTable c)" and "0 \<le> x" and "x < IfNameWlanCount c"
    and "mt_iapp_ft_client_insert (SelfFtStaTable c) a ap x = Inr (r, t)"
  shows "iapp_ok (c\<lparr>SelfFtStaTable := t\<rparr>)"
proof -
  note k = insert_keeps [OF iapp_ok_parts(4) [OF assms(1)] assms(2,5)]
  have "0 \<le> y \<and> y < IfNameWlanCount c" if "ft_map t b = Some (q, y)" for b q y
    using k(3) that assms(3,4) iapp_ok_parts(5) [OF assms(1), of b q y] by (auto split: if_splits)
  with assms(1) k(1) show ?thesis unfolding iapp_ok_def by simp
qed

lemma delete_keeps_ok:
  assumes "iapp_ok c" and "mt_iapp_ft_client_delete (SelfFtStaTable c) a = Inr t"
  shows "iapp_ok (c\<lparr>SelfFtStaTable := t\<rparr>)"
proof (cases "ft_slot (SelfFtStaTable c) a")
  case None
  with delete_unknown_station [OF iapp_ok_parts(4) [OF assms(1)] None] assms show ?thesis by simp
next
  case (Some i)
  obtain u where "mt_iapp_ft_client_delete (SelfFtStaTable c) a = Inr u" "ft_inv u"
      "ft_map u = (ft_map (SelfFtStaTable c))(a := None)"
    using delete_known_station [OF iapp_ok_parts(4) [OF assms(1)] Some] by metis
  with assms(2) have t: "ft_inv t" "ft_map t = (ft_map (SelfFtStaTable c))(a := None)" by simp_all
  have "0 \<le> y \<and> y < IfNameWlanCount c" if "ft_map t b = Some (q, y)" for b q y
    using that iapp_ok_parts(5) [OF assms(1), of b q y] by (auto simp: t(2) split: if_splits)
  with assms(1) t(1) show ?thesis unfolding iapp_ok_def by simp
qed

section \<open>The handlers\<close>

lemma SIG_Process_ok:
  assumes ok: "iapp_ok c" and clean: "ft_clean (SelfFtStaTable c)" and r: "IAPP_SIG_Process env m c = Inr c'"
  shows "iapp_ok c'"
proof -
  let ?i = "mt_iapp_find_ifidx_by_mac c m"
  have stay: "quiet c c' \<Longrightarrow> iapp_ok c'" using quiet_ok ok by blast
  have ins: "iapp_ok (c\<lparr>SelfFtStaTable := t\<rparr>)"
    if "?i \<noteq> - 1" "mt_iapp_ft_client_insert (SelfFtStaTable c) a m ?i = Inr (q, t)" for a q t
    using find_ifidx_by_mac_cases [OF ok, of m] that by (intro insert_keeps_ok [OF ok clean _ _ that(2)]) auto
  have fin: "iapp_ok (c\<lparr>SelfFtStaTable := t\<rparr>) \<Longrightarrow> quiet (c\<lparr>SelfFtStaTable := t\<rparr>) d \<Longrightarrow> iapp_ok (IAPP_L2UpdateFrameSend a d)" for t d a
    by (simp add: IAPP_L2UpdateFrameSend_def quiet_ok)
  note split = r [unfolded IAPP_SIG_Process_def Let_def]
  show ?thesis
    using split ok
    by (auto split: if_splits elim!: res_bind_eq_InrE intro!: fin ins intro: stay kdp_quiet udp_send_quiet tcp_send_quiet)
qed

lemma MoveReq_ok:
  assumes ok: "iapp_ok c" and r: "IAPP_RcvHandlerMoveReq env ip c = Inr c'"
  shows "iapp_ok c'"
proof (cases "c' = c")
  case True
  with ok show ?thesis by simp
next
  case False
  with r obtain i d c1 c3 t where
      m: "IAPP_MsgProcess env RT_SET_DEL_MAC_ENTRY (mac_bytes (get_mac (pPktBuf c) 8)) i c = Inr (d, c1)"
    and tcp: "IAPP_TCP_PacketSend env (take 18 ((pPktBuf c)[1 := 2, 7 := 0])) ip True i (c1\<lparr>pPktBuf := (pPktBuf c)[1 := 2, 7 := 0]\<rparr>) = Inr c3"
    and t: "mt_iapp_ft_client_delete (SelfFtStaTable c3) (get_mac (pPktBuf c) 8) = Inr t" "c' = c3\<lparr>SelfFtStaTable := t\<rparr>"
    by (auto simp: IAPP_RcvHandlerMoveReq_def Let_def elim!: res_bind_eq_InrE split: if_splits)
  have "iapp_ok c1" using quiet_ok [OF MsgProcess_quiet [OF m]] ok by simp
  then have "iapp_ok (c1\<lparr>pPktBuf := (pPktBuf c)[1 := 2, 7 := 0]\<rparr>)"
    using iapp_ok_parts(1) [OF ok] by (simp add: iapp_ok_buffer)
  with quiet_ok [OF tcp_send_quiet [OF tcp]] have "iapp_ok c3" by simp
  with t show ?thesis by (simp add: delete_keeps_ok)
qed

lemma block_handlers_quiet:
  "IAPP_RcvHandlerSSB env ip c = Inr c' \<Longrightarrow> quiet c c'"
  "IAPP_RcvHandlerApInfor env ty ip i c = Inr c' \<Longrightarrow> quiet c c'"
  "rcv_add_notify env ip c = Inr c' \<Longrightarrow> quiet c c'"
  "rcv_ack_block env ip c = Inr c' \<Longrightarrow> quiet c c'"
  by (auto simp: IAPP_RcvHandlerSSB_def IAPP_RcvHandlerApInfor_def rcv_add_notify_def rcv_ack_block_def Let_def
      elim!: res_bind_eq_InrE split: if_splits dest!: MsgProcess_quiet to_interfaces_quiet intro: quiet_trans)

lemma command_ok:
  assumes "iapp_ok c"
  shows "udp_command env ip c = Inr c' \<Longrightarrow> iapp_ok c'" and "tcp_command env ip c = Inr c' \<Longrightarrow> iapp_ok c'"
proof -
  have q: "quiet c c' \<Longrightarrow> iapp_ok c'" using quiet_ok assms by blast
  note cases = block_handlers_quiet [THEN q] MoveReq_ok [OF assms]
  show "udp_command env ip c = Inr c' \<Longrightarrow> iapp_ok c'"
    using assms by (auto simp: udp_command_def Let_def split: if_splits intro: cases)
  show "tcp_command env ip c = Inr c' \<Longrightarrow> iapp_ok c'"
    using assms by (auto simp: tcp_command_def Let_def split: if_splits intro: cases)
qed

lemma decrypt_packet_ok:
  assumes "iapp_ok c" and "decrypt_packet env pkt (receive pkt c) = Inr c'"
  shows "iapp_ok c'" and "SelfFtStaTable c' = SelfFtStaTable c"
proof -
  obtain data c1 where d: "wlan_io env 0 RT_FT_DATA_DECRYPT IAPP_BUFFER (take IAPP_MAX_RCV_PKT_SIZE pkt) (receive pkt c) = Inr (data, c1)"
      "c' = c1\<lparr>pPktBuf := move_at 0 data (pPktBuf c1)\<rparr>"
    using assms(2) by (auto simp: decrypt_packet_def elim!: res_bind_eq_InrE)
  note q = wlan_io_quiet [OF d(1)]
  have ok: "iapp_ok c1" using quiet_ok [OF q(1)] iapp_ok_receive [OF assms(1)] by simp
  moreover have "length data \<le> IAPP_BUFFER" using q(2) by auto
  ultimately show "iapp_ok c'" using iapp_ok_parts(1) [OF ok] by (simp add: d(2) iapp_ok_buffer)
  show "SelfFtStaTable c' = SelfFtStaTable c" using quiet_fields(5) [OF q(1)] by (simp add: d(2) receive_def)
qed

lemma RawRRB_ok:
  assumes ok: "iapp_ok c" and r: "IAPP_RcvHandlerRawRRB env pkt c = Inr c'"
  shows "iapp_ok c'"
proof (cases "pkt = []")
  case True
  with r ok show ?thesis by (simp add: IAPP_RcvHandlerRawRRB_def)
next
  case ne: False
  define c1 where "c1 = receive pkt c"
  have ok1: "iapp_ok c1" using ok by (simp add: c1_def iapp_ok_receive)
  let ?i = "mt_iapp_find_ifidx_by_mac c1 (get_mac (pPktBuf c1) 0)"
  show ?thesis
  proof (cases "?i = - 1")
    case True
    with r ne ok1 show ?thesis by (simp add: IAPP_RcvHandlerRawRRB_def Let_def flip: c1_def)
  next
    case False
    note r' = r [unfolded IAPP_RcvHandlerRawRRB_def Let_def, folded c1_def]
    obtain d ans c2 where io: "IAPP_IoctlToWLAN env (of_int ?i) RT_FT_DATA_DECRYPT d c1 = Inr (ans, c2)"
      and fits: "\<not> (case ans of None \<Rightarrow> False | Some out \<Rightarrow> IAPP_BUFFER < 24 + length out)"
      and rest: "quiet (c2\<lparr>pPktBuf := (case ans of None \<Rightarrow> pPktBuf c1 | Some out \<Rightarrow> move_at 24 out (pPktBuf c1))\<rparr>) c'"
      using r' ne False
      apply (simp split: if_split_asm)
      apply (erule res_bind_eq_InrE)
      apply (simp add: case_prod_unfold split: if_split_asm)
       apply (metis prod.collapse quiet_refl)
      apply (erule res_bind_eq_InrE)
      apply (metis MsgProcess_quiet prod.collapse sum.inject(2))
      done
    have "iapp_ok c2" using quiet_ok [OF ioctl_quiet [OF io]] ok1 by simp
    moreover have "length (case ans of None \<Rightarrow> pPktBuf c1 | Some out \<Rightarrow> move_at 24 out (pPktBuf c1)) = IAPP_BUFFER"
      using fits iapp_ok_parts(1) [OF ok1] by (cases ans) simp_all
    ultimately show ?thesis using quiet_ok [OF rest] by (simp add: iapp_ok_buffer)
  qed
qed

lemma iapp_handle_ok:
  assumes ok: "iapp_ok c" and clean: "ft_clean (SelfFtStaTable c)" and r: "iapp_handle env ev c = Inr c'"
  shows "iapp_ok c'"
proof (cases ev)
  case (Udp_In ip pkt)
  with r ok show ?thesis
    by (auto simp: IAPP_RcvHandlerUdp_def iapp_ok_receive elim!: res_bind_eq_InrE split: if_splits
        dest: decrypt_packet_ok(1) [OF ok] command_ok(1))
next
  case (Tcp_In ip pkt)
  with r ok show ?thesis
    by (auto simp: IAPP_RcvHandlerTcp_def elim!: res_bind_eq_InrE split: if_splits
        dest: decrypt_packet_ok(1) [OF ok] command_ok(2))
next
  case (Rrb_In pkt)
  with r ok show ?thesis by (auto intro: RawRRB_ok)
next
  case (Drv_In pkt)
  have "ft_clean (SelfFtStaTable (receive pkt c))" using clean by (simp add: receive_def)
  with r ok Drv_In show ?thesis
    by (auto simp: IAPP_RcvHandlerRawDrv_def Let_def split: if_splits intro: SIG_Process_ok [OF iapp_ok_receive])
qed

end
