(* ===== verification/Iapp_Run.thy ===== *)
theory Iapp_Run
  imports Iapp_Invariant
begin

text \<open>
  Whole runs of the inter-access-point daemon, from the command line through any sequence of events. An event is at most one
  command to the table of stations; as long as the stations that the driver reports have different hashes, no
  search in the table hangs, and the control block stays well formed.
\<close>

section \<open>Which faults an operation can end in\<close>

definition faults_in :: "c_fault set \<Rightarrow> 'a res \<Rightarrow> bool" where
  "faults_in E r \<longleftrightarrow> (\<forall>e. r = Inl e \<longrightarrow> e \<in> E)"

lemma faults_in_simps [simp]:
  "faults_in E (Inr x)" "faults_in E (Inl e) \<longleftrightarrow> e \<in> E"
  by (simp_all add: faults_in_def)

lemma faults_in_mono: "faults_in E r \<Longrightarrow> E \<subseteq> F \<Longrightarrow> faults_in F r"
  by (auto simp: faults_in_def)

lemma faults_in_bind:
  assumes "faults_in E r" and "\<And>x. r = Inr x \<Longrightarrow> faults_in E (f x)"
  shows "faults_in E (res_bind r f)"
  using assms by (cases r) simp_all

abbreviation (input) bounds_only :: "'a res \<Rightarrow> bool" where "bounds_only \<equiv> faults_in {Out_Of_Bounds}"

lemma ioctl_faults: "bounds_only (IAPP_IoctlToWLAN env i f d c)"
  by (simp add: IAPP_IoctlToWLAN_def Let_def)

lemma wlan_io_faults: "bounds_only (wlan_io env i f room d c)"
  unfolding wlan_io_def by (intro faults_in_bind ioctl_faults) (simp split: option.split prod.split)

lemma MsgProcess_faults: "bounds_only (IAPP_MsgProcess env oid d i c)"
  unfolding IAPP_MsgProcess_def by (rule wlan_io_faults)

lemma to_interfaces_faults: "bounds_only (to_interfaces env oid d ids c)"
  by (induction env oid d ids c rule: to_interfaces.induct)
    (auto intro!: faults_in_bind MsgProcess_faults split: prod.split)

lemma send_faults:
  "bounds_only (encrypt_and_send env ip d i c)" "bounds_only (IAPP_UDP_PacketSend env d i c)"
  "bounds_only (IAPP_TCP_PacketSend env d ip flg i c)"
proof -
  show e: "bounds_only (encrypt_and_send env ip d i c)" for d c
    by (auto simp: encrypt_and_send_def intro!: faults_in_bind wlan_io_faults)
  show u: "bounds_only (IAPP_UDP_PacketSend env d i c)" for d c
    by (auto simp: IAPP_UDP_PacketSend_def Let_def intro!: faults_in_bind wlan_io_faults)
  show "bounds_only (IAPP_TCP_PacketSend env d ip flg i c)"
    by (simp add: IAPP_TCP_PacketSend_def e u)
qed

lemma kdp_faults:
  "bounds_only (FT_KDP_SecurityBlockSend env n ip e m i c)" "bounds_only (FT_KDP_SecurityBlockAck env n ip e i c)"
  "bounds_only (FT_KDP_InformationRequestSend env n e i c)" "bounds_only (FT_KDP_InformationResponseSend env n ip e i c)"
  "bounds_only (FT_KDP_InformationReportSend env n e i c)" "bounds_only (FT_RRB_ActionForward env n e ty m1 m2 m3 i c)"
  by (auto simp: FT_KDP_SecurityBlockSend_def FT_KDP_SecurityBlockAck_def FT_KDP_InformationRequestSend_def
      FT_KDP_InformationResponseSend_def FT_KDP_InformationReportSend_def FT_RRB_ActionForward_def Let_def
      intro!: faults_in_bind send_faults wlan_io_faults split: prod.split)

section \<open>The table under one event\<close>

lemma insert_returns:
  assumes "ft_inv t" and "ft_clean t"
  obtains r t' where "mt_iapp_ft_client_insert t a ap x = Inr (r, t')"
    and "ft_map t a \<noteq> None \<or> ft_sta_table_size t < int MAX_NUM_OF_CLIENT \<Longrightarrow> ft_map t' = (ft_map t)(a \<mapsto> (ap, x))"
proof (cases "ft_slot t a")
  case (Some i)
  then obtain t' where "mt_iapp_ft_client_insert t a ap x = Inr (Some i, t')" "ft_map t' = (ft_map t)(a \<mapsto> (ap, x))"
    using insert_known_station [OF assms(1) Some, of ap x] by metis
  then show thesis by (rule that)
next
  case None
  show thesis
  proof (cases "ft_sta_table_size t < int MAX_NUM_OF_CLIENT")
    case True
    obtain i t' where "mt_iapp_ft_client_insert t a ap x = Inr (Some i, t')" "ft_map t' = (ft_map t)(a \<mapsto> (ap, x))"
      using insert_new_station [OF assms None True, of ap x] by metis
    then show thesis by (rule that)
  next
    case False
    then show thesis
      using insert_full [OF assms(1) None, of ap x] None by (intro that [of None t]) (simp_all add: ft_map_None)
  qed
qed

lemma insert_faults: "ft_inv t \<Longrightarrow> ft_clean t \<Longrightarrow> bounds_only (mt_iapp_ft_client_insert t a ap x)"
  by (metis insert_returns faults_in_simps(1))

lemma delete_faults: "ft_inv t \<Longrightarrow> bounds_only (mt_iapp_ft_client_delete t a)"
  by (metis delete_known_station delete_unknown_station faults_in_simps(1) not_None_eq)

text \<open>One command at most, and only on a station of the table or on the one that the driver names.\<close>

definition table_moves :: "mac set \<Rightarrow> ft_client_table \<Rightarrow> ft_client_table \<Rightarrow> bool" where
  "table_moves A t t' \<longleftrightarrow> (\<exists>cs. ft_run cs t = Inr t' \<and> ft_station ` set cs \<subseteq> A)"

lemma table_stays [simp]: "table_moves A t t"
  unfolding table_moves_def by (intro exI [of _ "[]"]) simp

lemma table_inserts:
  "mt_iapp_ft_client_insert t a ap x = Inr (r, t') \<Longrightarrow> a \<in> A \<Longrightarrow> table_moves A t t'"
  unfolding table_moves_def by (intro exI [of _ "[Ft_Insert a ap x]"]) simp

lemma table_deletes:
  assumes "ft_inv t" and "mt_iapp_ft_client_delete t a = Inr t'" and "dom (ft_map t) \<subseteq> A"
  shows "table_moves A t t'"
proof (cases "ft_slot t a")
  case None
  with delete_unknown_station [OF assms(1)] assms(2) show ?thesis by simp
next
  case (Some i)
  then have "a \<in> A" using assms(3) by (auto simp: ft_map_def dom_def)
  with assms(2) show ?thesis unfolding table_moves_def by (intro exI [of _ "[Ft_Delete a]"]) simp
qed

lemma table_moves_refines:
  assumes "table_moves S t t'" and "ft_inv t" and "ft_clean t" and "dom (ft_map t) \<subseteq> S" and "inj_on FT_MAC_HASH_INDEX S"
  shows "ft_clean t'" and "dom (ft_map t') \<subseteq> S"
proof -
  obtain cs where cs: "ft_run cs t = Inr t'" "ft_station ` set cs \<subseteq> S" using assms(1) by (auto simp: table_moves_def)
  from ft.run_stays [OF _ assms(5,4) cs(2,1)] assms(2,3)
  show "ft_clean t'" "dom (ft_map t') \<subseteq> S" by blast+
qed

section \<open>One event\<close>

lemma SIG_Process_moves:
  assumes ok: "iapp_ok c" and clean: "ft_clean (SelfFtStaTable c)"
  shows "bounds_only (IAPP_SIG_Process env m c)"
    and "IAPP_SIG_Process env m c = Inr c' \<Longrightarrow>
      table_moves (insert (get_mac (pPktBuf c) 20) A) (SelfFtStaTable c) (SelfFtStaTable c')"
proof -
  show "bounds_only (IAPP_SIG_Process env m c)"
    by (auto simp: IAPP_SIG_Process_def Let_def
        intro!: faults_in_bind insert_faults iapp_ok_parts(4) [OF ok] clean send_faults kdp_faults)
  let ?t = "SelfFtStaTable c" and ?S = "insert (get_mac (pPktBuf c) 20) A"
  have stay: "quiet c c' \<Longrightarrow> table_moves ?S ?t (SelfFtStaTable c')" by (simp add: quiet_fields)
  have fin: "mt_iapp_ft_client_insert ?t (get_mac (pPktBuf c) 20) m i = Inr (r, t) \<Longrightarrow> quiet (c\<lparr>SelfFtStaTable := t\<rparr>) d \<Longrightarrow>
      table_moves ?S ?t (SelfFtStaTable (IAPP_L2UpdateFrameSend a d))" for r t d a i
    using table_inserts by (simp add: IAPP_L2UpdateFrameSend_def quiet_fields)
  assume r: "IAPP_SIG_Process env m c = Inr c'"
  show "table_moves ?S ?t (SelfFtStaTable c')"
    using r [unfolded IAPP_SIG_Process_def Let_def]
    by (auto split: if_splits elim!: res_bind_eq_InrE intro: fin stay kdp_quiet udp_send_quiet tcp_send_quiet)
qed

lemma MoveReq_moves:
  assumes ok: "iapp_ok c" and A: "dom (ft_map (SelfFtStaTable c)) \<subseteq> A"
  shows "bounds_only (IAPP_RcvHandlerMoveReq env ip c)"
    and "IAPP_RcvHandlerMoveReq env ip c = Inr c' \<Longrightarrow> table_moves A (SelfFtStaTable c) (SelfFtStaTable c')"
proof -
  note inv = iapp_ok_parts(4) [OF ok]
  have same: "SelfFtStaTable c3 = SelfFtStaTable c"
    if "IAPP_MsgProcess env oid d i c = Inr (d', c1)" "IAPP_TCP_PacketSend env p ip True i (c1\<lparr>pPktBuf := b\<rparr>) = Inr c3" for oid d d' i c1 p b c3
    using quiet_fields(5) [OF MsgProcess_quiet [OF that(1)]] quiet_fields(5) [OF tcp_send_quiet [OF that(2)]] by simp
  show "bounds_only (IAPP_RcvHandlerMoveReq env ip c)"
    by (auto simp: IAPP_RcvHandlerMoveReq_def Let_def find_ifidx_station [OF ok] same
        intro!: faults_in_bind MsgProcess_faults send_faults delete_faults inv)
  show "table_moves A (SelfFtStaTable c) (SelfFtStaTable c')" if r: "IAPP_RcvHandlerMoveReq env ip c = Inr c'"
  proof (cases "c' = c")
    case False
    with r obtain i d c1 c3 t where "IAPP_MsgProcess env RT_SET_DEL_MAC_ENTRY (mac_bytes (get_mac (pPktBuf c) 8)) i c = Inr (d, c1)"
        "IAPP_TCP_PacketSend env (take 18 ((pPktBuf c)[1 := 2, 7 := 0])) ip True i (c1\<lparr>pPktBuf := (pPktBuf c)[1 := 2, 7 := 0]\<rparr>) = Inr c3"
        "mt_iapp_ft_client_delete (SelfFtStaTable c3) (get_mac (pPktBuf c) 8) = Inr t" "c' = c3\<lparr>SelfFtStaTable := t\<rparr>"
      by (auto simp: IAPP_RcvHandlerMoveReq_def Let_def split: if_splits elim!: res_bind_eq_InrE)
    with same show ?thesis by (simp add: table_deletes [OF inv _ A])
  qed simp
qed

lemma command_moves:
  assumes ok: "iapp_ok c" and A: "dom (ft_map (SelfFtStaTable c)) \<subseteq> A"
  shows "bounds_only (udp_command env ip c)" and "bounds_only (tcp_command env ip c)"
    and "udp_command env ip c = Inr c' \<Longrightarrow> table_moves A (SelfFtStaTable c) (SelfFtStaTable c')"
    and "tcp_command env ip c = Inr c' \<Longrightarrow> table_moves A (SelfFtStaTable c) (SelfFtStaTable c')"
proof -
  have "bounds_only (IAPP_RcvHandlerSSB env ip c)" "bounds_only (IAPP_RcvHandlerApInfor env ty ip i c)"
    "bounds_only (rcv_add_notify env ip c)" "bounds_only (rcv_ack_block env ip c)" for ty i
    by (auto simp: IAPP_RcvHandlerSSB_def IAPP_RcvHandlerApInfor_def rcv_add_notify_def rcv_ack_block_def Let_def
        find_ifidx_station [OF ok] intro!: faults_in_bind MsgProcess_faults to_interfaces_faults)
  then show "bounds_only (udp_command env ip c)" "bounds_only (tcp_command env ip c)"
    using MoveReq_moves(1) [OF ok A] by (simp_all add: udp_command_def tcp_command_def Let_def)
  have stay: "quiet c c' \<Longrightarrow> table_moves A (SelfFtStaTable c) (SelfFtStaTable c')" by (simp add: quiet_fields)
  note cases = block_handlers_quiet [THEN stay] MoveReq_moves(2) [OF ok A]
  show "udp_command env ip c = Inr c' \<Longrightarrow> table_moves A (SelfFtStaTable c) (SelfFtStaTable c')"
    by (auto simp: udp_command_def Let_def split: if_splits intro: cases)
  show "tcp_command env ip c = Inr c' \<Longrightarrow> table_moves A (SelfFtStaTable c) (SelfFtStaTable c')"
    by (auto simp: tcp_command_def Let_def split: if_splits intro: cases)
qed

lemma decrypt_faults: "bounds_only (decrypt_packet env pkt c)"
  by (auto simp: decrypt_packet_def intro!: faults_in_bind wlan_io_faults)

lemma RawRRB_moves:
  "bounds_only (IAPP_RcvHandlerRawRRB env pkt c)"
  "IAPP_RcvHandlerRawRRB env pkt c = Inr c' \<Longrightarrow> SelfFtStaTable c' = SelfFtStaTable c"
proof -
  show "bounds_only (IAPP_RcvHandlerRawRRB env pkt c)"
    by (auto simp: IAPP_RcvHandlerRawRRB_def Let_def intro!: faults_in_bind ioctl_faults MsgProcess_faults split: option.split)
  have r: "SelfFtStaTable (receive pkt c) = SelfFtStaTable c" by (simp add: receive_def)
  assume "IAPP_RcvHandlerRawRRB env pkt c = Inr c'"
  then show "SelfFtStaTable c' = SelfFtStaTable c"
    by (auto simp: IAPP_RcvHandlerRawRRB_def Let_def r elim!: res_bind_eq_InrE split: if_splits
        dest!: MsgProcess_quiet ioctl_quiet quiet_fields(5))
qed

section \<open>All events\<close>

text \<open>The stations that the driver reports in an event are in \<open>S\<close>.\<close>

fun signals_from :: "mac set \<Rightarrow> iapp_event \<Rightarrow> bool" where
  "signals_from S (Drv_In pkt) \<longleftrightarrow> 26 \<le> length pkt \<and> get_mac pkt 20 \<in> S"
| "signals_from S _ \<longleftrightarrow> True"

definition iapp_sound :: "mac set \<Rightarrow> iapp \<Rightarrow> bool" where
  "iapp_sound S c \<longleftrightarrow> iapp_ok c \<and> ft_clean (SelfFtStaTable c) \<and> dom (ft_map (SelfFtStaTable c)) \<subseteq> S"

lemma received_station:
  assumes "iapp_ok c" and "26 \<le> length pkt"
  shows "get_mac (pPktBuf (receive pkt c)) 20 = get_mac pkt 20"
  using assms(2) iapp_ok_parts(1) [OF assms(1)] by (simp add: get_mac_def receive_def move_at_def nth_append)

lemma handle_moves:
  assumes ok: "iapp_ok c" and clean: "ft_clean (SelfFtStaTable c)" and A: "dom (ft_map (SelfFtStaTable c)) \<subseteq> S"
    and ev: "signals_from S ev"
  shows "bounds_only (iapp_handle env ev c)"
    and "iapp_handle env ev c = Inr c' \<Longrightarrow> table_moves S (SelfFtStaTable c) (SelfFtStaTable c')"
proof -
  have same: "SelfFtStaTable (receive pkt c) = SelfFtStaTable c" for pkt by (simp add: receive_def)
  note d = decrypt_packet_ok [OF ok]
  have cmd: "bounds_only (udp_command env ip c1)" "bounds_only (tcp_command env ip c1)"
    "udp_command env ip c1 = Inr c' \<Longrightarrow> table_moves S (SelfFtStaTable c) (SelfFtStaTable c')"
    "tcp_command env ip c1 = Inr c' \<Longrightarrow> table_moves S (SelfFtStaTable c) (SelfFtStaTable c')"
    if "decrypt_packet env pkt (receive pkt c) = Inr c1" for ip pkt c1 c'
    using command_moves [OF d(1) [OF that], unfolded d(2) [OF that], OF A] by blast+
  have sig: "bounds_only (IAPP_SIG_Process env m (receive pkt c))"
    "IAPP_SIG_Process env m (receive pkt c) = Inr c' \<Longrightarrow> table_moves (insert (get_mac (pPktBuf (receive pkt c)) 20) S) (SelfFtStaTable c) (SelfFtStaTable c')"
    for m pkt c'
    using SIG_Process_moves [OF iapp_ok_receive [OF ok], of pkt, unfolded same, OF clean] by blast+
  have sta: "insert (get_mac (pPktBuf (receive pkt c)) 20) S = S" if "ev = Drv_In pkt" for pkt
    using ev that received_station [OF ok, of pkt] by auto
  show "bounds_only (iapp_handle env ev c)"
    by (cases ev) (auto simp: IAPP_RcvHandlerUdp_def IAPP_RcvHandlerTcp_def IAPP_RcvHandlerRawDrv_def Let_def
        RawRRB_moves(1) sig(1) intro!: faults_in_bind decrypt_faults dest: cmd(1,2))
  assume r: "iapp_handle env ev c = Inr c'"
  show "table_moves S (SelfFtStaTable c) (SelfFtStaTable c')"
  proof (cases ev)
    case (Drv_In pkt)
    with r sig(2) [of _ pkt c'] sta [of pkt] show ?thesis by (auto simp: IAPP_RcvHandlerRawDrv_def Let_def split: if_splits)
  qed (use r cmd(3,4) in \<open>auto simp: IAPP_RcvHandlerUdp_def IAPP_RcvHandlerTcp_def same RawRRB_moves(2)
      elim!: res_bind_eq_InrE split: if_splits\<close>)
qed

lemma handle_sound:
  assumes "inj_on FT_MAC_HASH_INDEX S" and "iapp_sound S c" and "signals_from S ev"
  shows "bounds_only (iapp_handle env ev c)" and "iapp_handle env ev c = Inr c' \<Longrightarrow> iapp_sound S c'"
proof -
  have c: "iapp_ok c" "ft_clean (SelfFtStaTable c)" "dom (ft_map (SelfFtStaTable c)) \<subseteq> S"
    using assms(2) by (simp_all add: iapp_sound_def)
  note m = handle_moves [OF c assms(3)]
  show "bounds_only (iapp_handle env ev c)" by (rule m(1))
  assume r: "iapp_handle env ev c = Inr c'"
  note t = table_moves_refines [OF m(2) [OF r] iapp_ok_parts(4) [OF c(1)] c(2,3) assms(1)]
  show "iapp_sound S c'" using iapp_handle_ok [OF c(1,2) r] t by (simp add: iapp_sound_def)
qed

lemma start_sound:
  assumes "inj_on FT_MAC_HASH_INDEX S" and "iapp_sound S c" and "\<forall>ev \<in> set evs. signals_from S ev"
  shows "bounds_only (IAPP_Start env evs c)" and "IAPP_Start env evs c = Inr c' \<Longrightarrow> iapp_sound S c'"
proof -
  have "bounds_only (IAPP_Start env evs c) \<and> (IAPP_Start env evs c = Inr c' \<longrightarrow> iapp_sound S c')"
    using assms(2,3)
  proof (induction env evs c rule: IAPP_Start.induct)
    case (2 env ev evs c)
    note h = handle_sound [OF assms(1) "2.prems"(1), of ev env]
    show ?case
    proof (cases "FlgIsTerminated c")
      case False
      with 2 h show ?thesis by (cases "iapp_handle env ev c") (auto simp: faults_in_def)
    qed (use "2.prems" in auto)
  qed auto
  then show "bounds_only (IAPP_Start env evs c)" "IAPP_Start env evs c = Inr c' \<Longrightarrow> iapp_sound S c'" by blast+
qed

section \<open>The start\<close>

definition names_ok :: "iapp \<Rightarrow> bool" where
  "names_ok c \<longleftrightarrow> length (IfNameWlanIoctl c) = MAX_WIFI_COUNT \<and> length (IfNameWlanMAC c) = MAX_WIFI_COUNT \<and>
     0 \<le> IfNameWlanCount c \<and> IfNameWlanCount c \<le> int MAX_WIFI_COUNT"

definition parsed_ok :: "iapp option res \<Rightarrow> bool" where
  "parsed_ok r \<longleftrightarrow> faults_in {Out_Of_Bounds, Null_Deref} r \<and> (\<forall>c. r = Inr (Some c) \<longrightarrow> names_ok c)"

lemma parsed_ok_simps [simp]:
  "parsed_ok (Inr None)" "parsed_ok (Inr (Some c)) \<longleftrightarrow> names_ok c" "parsed_ok (Inl Out_Of_Bounds)" "parsed_ok (Inl Null_Deref)"
  by (simp_all add: parsed_ok_def)

lemma parsed_ok_steps:
  "(b \<Longrightarrow> parsed_ok r) \<Longrightarrow> (\<not> b \<Longrightarrow> parsed_ok r') \<Longrightarrow> parsed_ok (if b then r else r')"
  "parsed_ok r \<Longrightarrow> (\<And>v rest. args = v # rest \<Longrightarrow> parsed_ok (f v rest)) \<Longrightarrow> parsed_ok (case args of [] \<Rightarrow> r | v # rest \<Rightarrow> f v rest)"
  "(\<And>s. parsed_ok (g s)) \<Longrightarrow> parsed_ok (res_bind (copy_name n w) g)"
  by (simp_all add: copy_name_def split: list.split)

lemma parse_args_names: "names_ok c \<Longrightarrow> parsed_ok (parse_args args c)"
proof (induction args arbitrary: c rule: length_induct)
  case (1 args)
  show ?case
  proof (cases args)
    case (Cons arg more)
    have ih: "parsed_ok (parse_args more d)" "more = v # rest \<Longrightarrow> parsed_ok (parse_args rest d)" if "names_ok d" for d v rest
      using "1.IH" that Cons by simp_all
    have names: "names_ok (c\<lparr>IfNameEth := v\<rparr>)" "names_ok (c\<lparr>IfNameWlan := v\<rparr>)" "names_ok (c\<lparr>CommonKey := v\<rparr>)"
      "\<not> 2 \<le> IfNameWlanCount c \<Longrightarrow> names_ok (c\<lparr>IfNameWlanIoctl := (IfNameWlanIoctl c)[i := v],
        IfNameWlanCount := IfNameWlanCount c + 1\<rparr>)" for v i
      using "1.prems" by (simp_all add: names_ok_def)
    show ?thesis
      unfolding Cons parse_args.simps
      by (intro parsed_ok_steps) (auto intro: ih names "1.prems")
  qed (use "1.prems" in simp)
qed

lemma ArgumentParse_names:
  "parsed_ok (IAPP_ArgumentParse argv zero_iapp)"
  "IAPP_ArgumentParse argv zero_iapp = Inr (Some c) \<Longrightarrow> 0 < IfNameWlanCount c"
proof -
  let ?c = "zero_iapp\<lparr>IfNameEth := ''br-lan'', IfNameWlan := ''br-lan'',
      IfNameWlanIoctl := (IfNameWlanIoctl zero_iapp)[0 := ''ra0''], CommonKey := ''1234567812345678''\<rparr>"
  have "names_ok ?c" by (simp add: names_ok_def zero_iapp_def)
  then have p: "parsed_ok (parse_args (tl argv) ?c)" by (rule parse_args_names)
  show "parsed_ok (IAPP_ArgumentParse argv zero_iapp)"
  proof (cases "parse_args (tl argv) ?c")
    case (Inl e)
    with p show ?thesis by (simp add: IAPP_ArgumentParse_def parsed_ok_def)
  next
    case (Inr r)
    with p show ?thesis by (cases r) (simp_all add: IAPP_ArgumentParse_def names_ok_def)
  qed
  assume "IAPP_ArgumentParse argv zero_iapp = Inr (Some c)"
  then obtain d where d: "parse_args (tl argv) ?c = Inr (Some d)" "c = (if IfNameWlanCount d = 0 then d\<lparr>IfNameWlanCount := 1\<rparr> else d)"
    unfolding IAPP_ArgumentParse_def by (auto elim!: res_bind_eq_InrE split: option.splits simp: map_option_case)
  with p have "names_ok d" by simp
  with d(2) show "0 < IfNameWlanCount c" by (simp add: names_ok_def)
qed

lemma wifi_macs_keep:
  assumes "get_wifi_macs hw ids c = Some c'"
  shows "names_ok c' = names_ok c" and "IfNameWlanCount c' = IfNameWlanCount c"
proof -
  have "names_ok c' = names_ok c \<and> IfNameWlanCount c' = IfNameWlanCount c" using assms
    by (induction hw ids c rule: get_wifi_macs.induct) (auto simp: names_ok_def split: option.splits)
  then show "names_ok c' = names_ok c" "IfNameWlanCount c' = IfNameWlanCount c" by simp_all
qed

lemma wifi_macs_exist: "\<forall>n. hw n \<noteq> None \<Longrightarrow> \<exists>c'. get_wifi_macs hw ids c = Some c'"
  by (induction hw ids c rule: get_wifi_macs.induct) (auto split: option.split)

lemma set_information_keeps:
  "bounds_only (set_daemon_information env pid ids c)"
  "set_daemon_information env pid ids c = Inr c' \<Longrightarrow> quiet c c'"
proof -
  have "bounds_only (set_daemon_information env pid ids c) \<and>
      (set_daemon_information env pid ids c = Inr c' \<longrightarrow> quiet c c')"
  proof (induction env pid ids c rule: set_daemon_information.induct)
    case (2 env pid idx ids c)
    show ?case
    proof (intro conjI impI)
      show "bounds_only (set_daemon_information env pid (idx # ids) c)"
        using "2.IH" by (auto intro!: faults_in_bind ioctl_faults)
      assume "set_daemon_information env pid (idx # ids) c = Inr c'"
      with "2.IH" show "quiet c c'" by (auto elim!: res_bind_eq_InrE dest!: ioctl_quiet intro: quiet_trans)
    qed
  qed simp
  then show "bounds_only (set_daemon_information env pid ids c)"
    "set_daemon_information env pid ids c = Inr c' \<Longrightarrow> quiet c c'" by blast+
qed

text \<open>The control block at the head of the loop.\<close>

lemma fresh_sound:
  assumes "names_ok c" and "0 < IfNameWlanCount c" and "length fresh = IAPP_BUFFER"
  shows "iapp_sound S (c\<lparr>FlgIsTerminated := False, SelfFtStaTable := mt_iapp_ft_client_table_init, pPktBuf := fresh\<rparr>)"
  using assms by (simp add: iapp_sound_def iapp_ok_def names_ok_def init_table)

lemma Task_sound:
  assumes "inj_on FT_MAC_HASH_INDEX S" and "\<forall>ev \<in> set evs. signals_from S ev" and "length fresh = IAPP_BUFFER"
    and "names_ok c" and "0 < IfNameWlanCount c"
  shows "bounds_only (IAPP_Task env addrs hw pid fresh evs c)"
    and "IAPP_Task env addrs hw pid fresh evs c = Inr c' \<Longrightarrow> addrs \<noteq> None \<Longrightarrow> \<forall>n. hw n \<noteq> None \<Longrightarrow> iapp_sound S c'"
proof -
  have loop: "bounds_only (IAPP_Start env evs (c3\<lparr>FlgIsTerminated := False, SelfFtStaTable := mt_iapp_ft_client_table_init, pPktBuf := fresh\<rparr>)) \<and>
      (IAPP_Start env evs (c3\<lparr>FlgIsTerminated := False, SelfFtStaTable := mt_iapp_ft_client_table_init, pPktBuf := fresh\<rparr>) = Inr c'
        \<longrightarrow> iapp_sound S c')"
    if "mt_iapp_get_wifi_iface_mac hw (c\<lparr>AddrOwn := own, AddrBroadcast := bc\<rparr>) = Some c2" "mt_iapp_set_daemon_information env pid c2 = Inr c3"
    for own bc c2 c3
  proof -
    note k = wifi_macs_keep [OF that(1) [unfolded mt_iapp_get_wifi_iface_mac_def]]
    note q = set_information_keeps(2) [OF that(2) [unfolded mt_iapp_set_daemon_information_def]]
    have "names_ok c3" "0 < IfNameWlanCount c3" using k assms(4,5) quiet_fields [OF q] by (simp_all add: names_ok_def)
    from start_sound [OF assms(1) fresh_sound [OF this assms(3)] assms(2)] show ?thesis by blast
  qed
  show "bounds_only (IAPP_Task env addrs hw pid fresh evs c)"
    using loop set_information_keeps(1)
    by (auto simp: IAPP_Task_def mt_iapp_set_daemon_information_def Let_def intro!: faults_in_bind split: option.split)
  assume r: "IAPP_Task env addrs hw pid fresh evs c = Inr c'" and "addrs \<noteq> None" and hw: "\<forall>n. hw n \<noteq> None"
  then obtain own bc where a: "addrs = Some (own, bc)" by (cases addrs) auto
  obtain c2 where c2: "mt_iapp_get_wifi_iface_mac hw (c\<lparr>AddrOwn := own, AddrBroadcast := bc\<rparr>) = Some c2"
    using wifi_macs_exist [OF hw] unfolding mt_iapp_get_wifi_iface_mac_def by blast
  with r a loop [OF c2] show "iapp_sound S c'"
    by (auto simp: IAPP_Task_def Let_def elim!: res_bind_eq_InrE)
qed

lemma main_sound:
  assumes "inj_on FT_MAC_HASH_INDEX S" and "\<forall>ev \<in> set evs. signals_from S ev" and "length fresh = IAPP_BUFFER"
  shows "faults_in {Out_Of_Bounds, Null_Deref} (iapp_main env addrs hw pid fresh argv evs)"
    and "iapp_main env addrs hw pid fresh argv evs = Inr (Some c) \<Longrightarrow> addrs \<noteq> None \<Longrightarrow> \<forall>n. hw n \<noteq> None \<Longrightarrow> iapp_sound S c"
proof -
  note p = ArgumentParse_names [of argv]
  have task: "names_ok d \<and> 0 < IfNameWlanCount d" if "IAPP_ArgumentParse argv zero_iapp = Inr (Some d)" for d
    using p that by (simp add: parsed_ok_def)
  show "faults_in {Out_Of_Bounds, Null_Deref} (iapp_main env addrs hw pid fresh argv evs)"
    unfolding iapp_main_def
  proof (intro faults_in_bind)
    show "faults_in {Out_Of_Bounds, Null_Deref} (IAPP_ArgumentParse argv zero_iapp)" using p(1) by (simp add: parsed_ok_def)
    fix r assume r: "IAPP_ArgumentParse argv zero_iapp = Inr r"
    show "faults_in {Out_Of_Bounds, Null_Deref} (case r of None \<Rightarrow> Inr None
        | Some d \<Rightarrow> res_bind (IAPP_Task env addrs hw pid fresh evs d) (\<lambda>c'. Inr (Some c')))"
    proof (cases r)
      case (Some d)
      with task r have d: "names_ok d" "0 < IfNameWlanCount d" by simp_all
      have "faults_in {Out_Of_Bounds, Null_Deref} (IAPP_Task env addrs hw pid fresh evs d)"
        by (rule faults_in_mono [OF Task_sound(1) [OF assms d]]) simp
      with Some show ?thesis by (simp add: faults_in_bind)
    qed simp
  qed
  assume "iapp_main env addrs hw pid fresh argv evs = Inr (Some c)" and hw: "addrs \<noteq> None" "\<forall>n. hw n \<noteq> None"
  then obtain d where d: "IAPP_ArgumentParse argv zero_iapp = Inr (Some d)" "IAPP_Task env addrs hw pid fresh evs d = Inr c"
    by (auto simp: iapp_main_def elim!: res_bind_eq_InrE split: option.split_asm)
  from task [OF d(1)] Task_sound(2) [OF assms _ _ d(2) hw] show "iapp_sound S c" by blast
qed

end
