(* ===== verification/Iapp_Properties.thy ===== *)
theory Iapp_Properties
  imports Iapp_Run
begin

text \<open>
  The properties of the inter-access-point daemon: what one daemon sends because of an event of its driver is what
  the daemon of another access point tells its own driver; what the handlers do with frames that nobody authenticated;
  and where the checks of lengths and indices are not enough.
\<close>

section \<open>Frames on their way\<close>

text \<open>Two access points share a key: what one driver encrypts the other decrypts.\<close>

definition shares_key :: "iapp_env \<Rightarrow> iapp_env \<Rightarrow> (byte list \<Rightarrow> byte list) \<Rightarrow> bool" where
  "shares_key envA envB enc \<longleftrightarrow> driver_ok envA \<and> driver_ok envB \<and>
     (\<forall>h n d. ioctl_answer envA h n RT_FT_DATA_ENCRYPT d = Some (enc d)) \<and>
     (\<forall>h n d. ioctl_answer envB h n RT_FT_DATA_DECRYPT (enc d) = Some d) \<and>
     (\<forall>d. d \<noteq> [] \<longrightarrow> enc d \<noteq> [])"

lemma shares_keyD:
  assumes "shares_key envA envB enc"
  shows "driver_ok envA" and "driver_ok envB" and "encrypted envA c i d = enc d" and "decrypted envB c (enc d) = d"
    and "length (enc d) \<le> length d + IAPP_SECURITY_EXTEND_LEN" and "d \<noteq> [] \<Longrightarrow> enc d \<noteq> []"
proof -
  show "driver_ok envA" "driver_ok envB" "d \<noteq> [] \<Longrightarrow> enc d \<noteq> []" using assms by (simp_all add: shares_key_def)
  have e: "ioctl_answer envA h n RT_FT_DATA_ENCRYPT d = Some (enc d)" for h n using assms by (simp add: shares_key_def)
  then show "encrypted envA c i d = enc d" by (simp add: encrypted_def)
  show "decrypted envB c (enc d) = d" using assms by (simp add: decrypted_def shares_key_def)
  show "length (enc d) \<le> length d + IAPP_SECURITY_EXTEND_LEN"
    using e [of "[]" "[]"] \<open>driver_ok envA\<close> unfolding driver_ok_def by blast
qed

text \<open>The state of a receiver after it has decrypted a packet.\<close>

definition opened :: "iapp_env \<Rightarrow> byte list \<Rightarrow> iapp \<Rightarrow> iapp" where
  "opened env pkt c = c\<lparr>iapp_trace := iapp_trace c @ [Wlan_Ioctl (if_name c 0) RT_FT_DATA_DECRYPT pkt],
     pPktBuf := move_at 0 (decrypted env c pkt) (move_at 0 pkt (pPktBuf c))\<rparr>"

lemma opened_fields [simp]:
  "SelfFtStaTable (opened env pkt c) = SelfFtStaTable c" "IfNameWlanIoctl (opened env pkt c) = IfNameWlanIoctl c"
  "IfNameWlanCount (opened env pkt c) = IfNameWlanCount c" "PacketIdentifier (opened env pkt c) = PacketIdentifier c"
  "iapp_trace (opened env pkt c) = iapp_trace c @ [Wlan_Ioctl (if_name c 0) RT_FT_DATA_DECRYPT pkt]"
  by (simp_all add: opened_def)

lemma opened_if_name [simp]: "if_name (opened env pkt c) = if_name c"
  by (rule ext) (simp add: if_name_def)

lemma opened_views [simp]:
  "all_interfaces (opened env pkt c) = all_interfaces c" "drop_station (opened env pkt c) mac = drop_station c mac"
  "tell_interfaces (opened env pkt c) oid d = tell_interfaces c oid d"
  by (simp_all add: all_interfaces_def drop_station_def tell_interfaces_def split: option.split)

lemma opened_ok: "driver_ok env \<Longrightarrow> iapp_ok c \<Longrightarrow> length pkt \<le> IAPP_MAX_RCV_PKT_SIZE \<Longrightarrow> iapp_ok (opened env pkt c)"
  unfolding opened_def by (rule decrypt_packet_eq(2))

lemma udp_handler:
  assumes "driver_ok env" and "iapp_ok c" and "length pkt \<le> IAPP_MAX_RCV_PKT_SIZE" and "pkt \<noteq> []" and "ip \<noteq> AddrOwn c"
  shows "IAPP_RcvHandlerUdp env ip pkt c = udp_command env ip (opened env pkt c)"
  using assms(4,5) decrypt_packet_eq(1) [OF assms(1-3)] by (simp add: IAPP_RcvHandlerUdp_def opened_def)

lemma tcp_handler:
  assumes "driver_ok env" and "iapp_ok c" and "length pkt \<le> IAPP_MAX_RCV_PKT_SIZE" and "pkt \<noteq> []"
  shows "IAPP_RcvHandlerTcp env ip pkt c = tcp_command env ip (opened env pkt c)"
  using assms(4) decrypt_packet_eq(1) [OF assms(1-3)] by (simp add: IAPP_RcvHandlerTcp_def opened_def)

lemma opened_frame: "decrypted env c pkt = frame @ rest \<Longrightarrow> in_buffer frame (opened env pkt c)"
  using in_buffer_front by (simp add: opened_def)

lemma opened_key:
  assumes "shares_key envA envB enc" and "d = frame @ rest"
  shows "in_buffer frame (opened envB (enc d) c)"
  using shares_keyD(4) [OF assms(1)] assms(2) by (intro opened_frame) simp

text \<open>The notification frames as they are sent.\<close>

lemma add_notify_plain:
  "udp_plain c i (add_notify mac Sequence) =
     notify_frame IAPP_CMD_ADD_NOTIFY (SWAP_16 (PacketIdentifier c)) 16 0x01 mac @
     u16_bytes (SWAP_16 Sequence) @ mac_bytes (IfNameWlanMAC c ! nat i)"
  by (simp add: udp_plain_def add_notify_def notify_frame_def iapp_header_def u16_bytes_def move_at_def)

lemma move_notify_frame:
  "move_notify mac Sequence = notify_frame IAPP_CMD_MOVE_NOTIFY 0 18 0 mac @ u16_bytes (SWAP_16 Sequence) @ [0, 0]"
  by (simp add: move_notify_def notify_frame_def iapp_header_def)

lemma notify_frame_length [simp]: "length (notify_frame cmd ident len flags mac) = 14"
  by (simp add: notify_frame_def)

text \<open>A notification that a station has associated elsewhere, after decryption.\<close>

lemma add_notify_received:
  assumes "driver_ok env" and "iapp_ok c" and "length pkt \<le> IAPP_MAX_RCV_PKT_SIZE" and "pkt \<noteq> []" and "ip \<noteq> AddrOwn c"
    and "decrypted env c pkt = notify_frame IAPP_CMD_ADD_NOTIFY ident 16 flags mac @ rest"
  shows "IAPP_RcvHandlerUdp env ip pkt c = Inr ((opened env pkt c)\<lparr>iapp_trace := iapp_trace (opened env pkt c) @
    drop_station c mac @ (if flag_set flags 0x01
      then tell_interfaces c RT_SET_FT_STATION_NOTIFY (u32_bytes ip @ mac_bytes mac) else [])\<rparr>)"
proof -
  let ?o = "opened env pkt c"
  note f = notify_frame_fields [OF opened_frame [OF assms(6)]]
  have "udp_command env ip ?o = rcv_add_notify env ip ?o"
    using f(1,2) by (simp add: udp_command_def Let_def)
  also have "\<dots> = Inr (?o\<lparr>iapp_trace := iapp_trace ?o @ drop_station c mac @ (if flag_set flags 0x01
      then tell_interfaces c RT_SET_FT_STATION_NOTIFY (u32_bytes ip @ mac_bytes mac) else [])\<rparr>)"
    using rcv_add_notify_eq [OF assms(1) opened_ok [OF assms(1-3)] f(3)] f(4,5) by simp
  finally show ?thesis by (simp only: udp_handler [OF assms(1-5)])
qed

text \<open>The sender of a notification: a signal of the driver about a station of the interface \<open>wifi\<close>.\<close>

definition signal_at :: "byte \<Rightarrow> mac \<Rightarrow> int \<Rightarrow> iapp \<Rightarrow> bool" where
  "signal_at Sig wifi i c \<longleftrightarrow> pPktBuf c ! 32 = Sig \<and> mt_iapp_find_ifidx_by_mac c wifi = i \<and> 0 \<le> i"

lemma signal_interface:
  assumes "iapp_ok c" and "signal_at Sig wifi i c"
  shows "0 \<le> i" and "i < int MAX_WIFI_COUNT" and "i < IfNameWlanCount c" and "i \<noteq> - 1"
  using assms find_ifidx_by_mac_cases [OF assms(1), of wifi] iapp_ok_parts(3) [OF assms(1)]
  by (auto simp: signal_at_def)

lemma insert_quiet_views [simp]:
  "if_name (c\<lparr>SelfFtStaTable := t\<rparr>) = if_name c" "udp_plain (c\<lparr>SelfFtStaTable := t\<rparr>) i d = udp_plain c i d"
  by (simp_all add: if_name_def udp_plain_def fun_eq_iff)

lemma association_sent:
  assumes "shares_key envA envB enc" and "iapp_ok c" and "ft_clean (SelfFtStaTable c)" and "signal_at 0x50 wifi i c"
  obtains c' t where "IAPP_SIG_Process envA wifi c = Inr c'"
    and "iapp_trace c' = iapp_trace c @
      (let plain = udp_plain c i (add_notify (get_mac (pPktBuf c) 20) (get16 (pPktBuf c) 18))
       in [Wlan_Ioctl (if_name c i) RT_FT_DATA_ENCRYPT plain, Udp_Send (AddrBroadcast c) (enc plain),
           L2_Send (replicate 6 0xFF @ mac_bytes (get_mac (pPktBuf c) 20) @ [0, 8, 0, 0x01, 0xAF, 0x81, 1, 2])])"
proof -
  let ?m = "get_mac (pPktBuf c) 20" and ?s = "get16 (pPktBuf c) 18"
  note i = signal_interface [OF assms(2,4)]
  obtain r t where t: "mt_iapp_ft_client_insert (SelfFtStaTable c) ?m wifi i = Inr (r, t)"
    using insert_returns [OF iapp_ok_parts(4) [OF assms(2)] assms(3)] by metis
  let ?c = "c\<lparr>SelfFtStaTable := t\<rparr>"
  have len: "length (add_notify ?m ?s) = 16" by (simp add: add_notify_def iapp_header_def)
  have send: "IAPP_UDP_PacketSend envA (add_notify ?m ?s) i ?c = Inr (?c\<lparr>PacketIdentifier := PacketIdentifier c + 2,
      iapp_trace := iapp_trace c @ [Wlan_Ioctl (if_name c i) RT_FT_DATA_ENCRYPT (udp_plain c i (add_notify ?m ?s)),
        Udp_Send (AddrBroadcast c) (enc (udp_plain c i (add_notify ?m ?s)))]\<rparr>)"
    using udp_send_eq [OF shares_keyD(1) [OF assms(1)] _ i(1,2), of "add_notify ?m ?s" ?c]
    by (simp add: len shares_keyD(3) [OF assms(1)])
  have sig: "pPktBuf c ! 32 = 0x50" "mt_iapp_find_ifidx_by_mac c wifi = i" using assms(4) by (simp_all add: signal_at_def)
  have "IAPP_SIG_Process envA wifi c = Inr (IAPP_L2UpdateFrameSend ?m (?c\<lparr>PacketIdentifier := PacketIdentifier c + 2,
      iapp_trace := iapp_trace c @ [Wlan_Ioctl (if_name c i) RT_FT_DATA_ENCRYPT (udp_plain c i (add_notify ?m ?s)),
        Udp_Send (AddrBroadcast c) (enc (udp_plain c i (add_notify ?m ?s)))]\<rparr>))"
    using i(4) by (simp add: IAPP_SIG_Process_def Let_def sig t send)
  then show thesis by (rule that) (simp add: IAPP_L2UpdateFrameSend_def Let_def)
qed

text \<open>What is sent is added to the trace; nothing that was done before is lost.\<close>

lemma wlan_io_trace: "wlan_io env i f room d c = Inr (data, c') \<Longrightarrow> \<exists>h. iapp_trace c' = iapp_trace c @ h"
  by (auto simp: wlan_io_def IAPP_IoctlToWLAN_def Let_def split: if_splits option.splits)

lemma tcp_send_trace: "IAPP_TCP_PacketSend env d ip flg i c = Inr c' \<Longrightarrow> \<exists>h. iapp_trace c' = iapp_trace c @ h"
  by (auto simp: IAPP_TCP_PacketSend_def encrypt_and_send_def IAPP_UDP_PacketSend_def Let_def
      elim!: res_bind_eq_InrE split: if_splits dest!: wlan_io_trace)

section \<open>Properties\<close>

text \<open>
  C7. A fast-transition station that associates with one access point becomes known to every other one that shares the key: the
  datagram that the daemon sends is decrypted by the receiver, whose driver is told to drop the station if it is in
  the receiver's table, and all of whose interfaces are told the station and the address of its new access point.
\<close>

theorem association_reaches_peers:
  assumes "shares_key envA envB enc" and "iapp_ok cA" and "ft_clean (SelfFtStaTable cA)" and "signal_at 0x50 wifi i cA"
    and "iapp_ok cB" and "ipA \<noteq> AddrOwn cB" and "mac = get_mac (pPktBuf cA) 20"
  shows "\<exists>cA' pkt cB'. IAPP_SIG_Process envA wifi cA = Inr cA' \<and> Udp_Send (AddrBroadcast cA) pkt \<in> set (iapp_trace cA') \<and>
    IAPP_RcvHandlerUdp envB ipA pkt cB = Inr cB' \<and>
    iapp_trace cB' = iapp_trace cB @ Wlan_Ioctl (if_name cB 0) RT_FT_DATA_DECRYPT pkt #
      drop_station cB mac @ tell_interfaces cB RT_SET_FT_STATION_NOTIFY (u32_bytes ipA @ mac_bytes mac)"
proof -
  obtain cA' where A: "IAPP_SIG_Process envA wifi cA = Inr cA'"
      "iapp_trace cA' = iapp_trace cA @ (let plain = udp_plain cA i (add_notify mac (get16 (pPktBuf cA) 18))
       in [Wlan_Ioctl (if_name cA i) RT_FT_DATA_ENCRYPT plain, Udp_Send (AddrBroadcast cA) (enc plain),
           L2_Send (replicate 6 0xFF @ mac_bytes mac @ [0, 8, 0, 0x01, 0xAF, 0x81, 1, 2])])"
    using association_sent [OF assms(1-4)] unfolding assms(7) by metis
  define plain where "plain = udp_plain cA i (add_notify mac (get16 (pPktBuf cA) 18))"
  note p = add_notify_plain [of cA i mac "get16 (pPktBuf cA) 18", folded plain_def]
  have len: "length (enc plain) \<le> IAPP_MAX_RCV_PKT_SIZE" "enc plain \<noteq> []"
    using shares_keyD(5,6) [OF assms(1), of plain] by (simp_all add: p notify_frame_def)
  have "decrypted envB cB (enc plain) = notify_frame IAPP_CMD_ADD_NOTIFY (SWAP_16 (PacketIdentifier cA)) 16 0x01 mac @
      (u16_bytes (SWAP_16 (get16 (pPktBuf cA) 18)) @ mac_bytes (IfNameWlanMAC cA ! nat i))"
    by (simp add: shares_keyD(4) [OF assms(1)] p)
  from add_notify_received [OF shares_keyD(2) [OF assms(1)] assms(5) len assms(6) this]
  have "IAPP_RcvHandlerUdp envB ipA (enc plain) cB = Inr ((opened envB (enc plain) cB)\<lparr>iapp_trace := iapp_trace cB @
      Wlan_Ioctl (if_name cB 0) RT_FT_DATA_DECRYPT (enc plain) # drop_station cB mac @
      tell_interfaces cB RT_SET_FT_STATION_NOTIFY (u32_bytes ipA @ mac_bytes mac)\<rparr>)" by (simp add: flag_set_def)
  with A show ?thesis by (intro exI [of _ cA'] exI [of _ "enc plain"] exI conjI) (auto simp: Let_def plain_def)
qed

text \<open>
  C39. Nobody needs the key to remove a station: when the driver cannot decrypt a datagram, the daemon goes on with the bytes as
  they came, and a notification in plain text makes the driver drop the station it names.
\<close>

theorem plain_notification_obeyed:
  assumes "driver_ok env" and "\<forall>h n d. ioctl_answer env h n RT_FT_DATA_DECRYPT d = None"
    and "iapp_ok c" and "ft_map (SelfFtStaTable c) mac = Some (ap, i)" and "ip \<noteq> AddrOwn c"
    and "pkt = notify_frame IAPP_CMD_ADD_NOTIFY ident 16 flags mac @ rest" and "length rest \<le> 2"
  shows "\<exists>c'. IAPP_RcvHandlerUdp env ip pkt c = Inr c' \<and>
    Wlan_Ioctl (if_name c i) RT_SET_DEL_MAC_ENTRY (mac_bytes mac) \<in> set (iapp_trace c')"
proof -
  have d: "decrypted env c pkt = notify_frame IAPP_CMD_ADD_NOTIFY ident 16 flags mac @ rest"
    using assms(2,6) by (simp add: decrypted_def)
  have l: "length pkt = 14 + length rest" using assms(6) by simp
  then have "length pkt \<le> IAPP_MAX_RCV_PKT_SIZE" "pkt \<noteq> []" using assms(7) by auto
  from add_notify_received [OF assms(1,3) this assms(5) d] assms(4) show ?thesis
    by (auto simp: drop_station_def)
qed

text \<open>
  C6. A station that reassociates moves from one table to the other: the new access point enters it with the interface it came to and
  tells the old one over a connection; the old one tells its driver to drop the station and removes it from
  its table.
\<close>

theorem reassociation_moves_station:
  assumes "shares_key envA envB enc" and "iapp_ok cA" and "ft_clean (SelfFtStaTable cA)" and "signal_at 0x51 wifi i cA"
    and "ft_sta_table_size (SelfFtStaTable cA) < int MAX_NUM_OF_CLIENT"
    and "get32 (pPktBuf cA) 46 = ipB" and "ipB \<noteq> 0" and "\<forall>h. peer_connects envA h ipB"
    and "mac = get_mac (pPktBuf cA) 20" and "iapp_ok cB" and "ft_map (SelfFtStaTable cB) mac = Some (ap, j)"
  shows "\<exists>cA' pkt cB'. IAPP_SIG_Process envA wifi cA = Inr cA' \<and> Tcp_Send ipB pkt \<in> set (iapp_trace cA') \<and>
    ft_map (SelfFtStaTable cA') = (ft_map (SelfFtStaTable cA))(mac \<mapsto> (wifi, i)) \<and>
    IAPP_RcvHandlerTcp envB ipA pkt cB = Inr cB' \<and> ft_map (SelfFtStaTable cB') = (ft_map (SelfFtStaTable cB))(mac := None) \<and>
    Wlan_Ioctl (if_name cB j) RT_SET_DEL_MAC_ENTRY (mac_bytes mac) \<in> set (iapp_trace cB')"
proof -
  let ?s = "get16 (pPktBuf cA) 18"
  note i = signal_interface [OF assms(2,4)] and key = shares_keyD [OF assms(1)]
  obtain r t where t: "mt_iapp_ft_client_insert (SelfFtStaTable cA) mac wifi i = Inr (r, t)"
      "ft_map t = (ft_map (SelfFtStaTable cA))(mac \<mapsto> (wifi, i))"
    using insert_returns [OF iapp_ok_parts(4) [OF assms(2)] assms(3)] assms(5) by metis
  let ?c = "cA\<lparr>SelfFtStaTable := t\<rparr>"
  define frame where "frame = move_notify mac ?s"
  have len: "length frame = 18" by (simp add: frame_def move_notify_def iapp_header_def)
  have "IAPP_TCP_PacketSend envA frame ipB True i ?c = Inr (?c\<lparr>iapp_trace := iapp_trace cA @
      [Wlan_Ioctl (if_name cA i) RT_FT_DATA_ENCRYPT frame, Tcp_Send ipB (enc frame)]\<rparr>)"
    using encrypt_and_send_eq [OF key(1) _ i(1,2), of frame ipB ?c] assms(7,8) len
    by (simp add: IAPP_TCP_PacketSend_def connected_def key(3))
  then have A: "IAPP_SIG_Process envA wifi cA = Inr (IAPP_L2UpdateFrameSend mac (?c\<lparr>iapp_trace := iapp_trace cA @
      [Wlan_Ioctl (if_name cA i) RT_FT_DATA_ENCRYPT frame, Tcp_Send ipB (enc frame)]\<rparr>))"
    using i(4) assms(4,6,9) t(1) by (simp add: IAPP_SIG_Process_def Let_def signal_at_def frame_def)
  have "frame \<noteq> []" using len by auto
  then have pkt: "length (enc frame) \<le> IAPP_MAX_RCV_PKT_SIZE" "enc frame \<noteq> []"
    using key(5) [of frame] key(6) [of frame] len by simp_all
  let ?o = "opened envB (enc frame) cB"
  have "decrypted envB cB (enc frame) = notify_frame IAPP_CMD_MOVE_NOTIFY 0 18 0 mac @ u16_bytes (SWAP_16 ?s) @ [0, 0]"
    by (simp add: key(4) frame_def move_notify_frame)
  note f = notify_frame_fields [OF opened_frame [OF this]]
  have ok: "iapp_ok ?o" by (rule opened_ok [OF key(2) assms(10) pkt(1)])
  have st: "ft_map (SelfFtStaTable ?o) (get_mac (pPktBuf ?o) 8) = Some (ap, j)" using assms(11) f(5) by simp
  obtain c1 c2 t' where B: "c1 = (act (Wlan_Ioctl (if_name ?o j) RT_SET_DEL_MAC_ENTRY (mac_bytes mac)) ?o)
        \<lparr>pPktBuf := (pPktBuf ?o)[1 := IAPP_CMD_MOVE_RESPONSE, 7 := 0]\<rparr>"
      "IAPP_TCP_PacketSend envB (move_answer (pPktBuf ?o)) ipA True j c1 = Inr c2"
      "ft_map t' = (ft_map (SelfFtStaTable ?o))(mac := None)"
      "IAPP_RcvHandlerMoveReq envB ipA ?o = Inr (c2\<lparr>SelfFtStaTable := t'\<rparr>)"
    using rcv_move_known [OF key(2) ok f(3) st] unfolding f(5) by metis
  have "IAPP_RcvHandlerTcp envB ipA (enc frame) cB = Inr (c2\<lparr>SelfFtStaTable := t'\<rparr>)"
    using f(1,2) B(4) by (simp add: tcp_handler [OF key(2) assms(10) pkt] tcp_command_def Let_def)
  moreover have "Wlan_Ioctl (if_name cB j) RT_SET_DEL_MAC_ENTRY (mac_bytes mac) \<in> set (iapp_trace c2)"
    using tcp_send_trace [OF B(2)] by (auto simp: B(1))
  ultimately show ?thesis
    unfolding A by (intro exI [of _ "IAPP_L2UpdateFrameSend mac (?c\<lparr>iapp_trace := iapp_trace cA @
      [Wlan_Ioctl (if_name cA i) RT_FT_DATA_ENCRYPT frame, Tcp_Send ipB (enc frame)]\<rparr>)"] exI [of _ "enc frame"]
      exI [of _ "c2\<lparr>SelfFtStaTable := t'\<rparr>"] conjI) (simp_all add: IAPP_L2UpdateFrameSend_def t(2) B(3))
qed

text \<open>
  C38. Which datagrams the daemon survives: the handler returns exactly when the decrypted frame is not a frame of version 0 that
  is a key request in whose handling a block overruns the local structure or a station is not in the table
  (\<open>ssb_faults\<close>), or a report or request of neighbour information whose length field is at most 1588.
  Everything else is handled or ignored without an access outside an array.
\<close>

theorem udp_returns_iff:
  assumes "driver_ok env" and "iapp_ok c" and "length pkt \<le> IAPP_MAX_RCV_PKT_SIZE" and "pkt \<noteq> []" and "ip \<noteq> AddrOwn c"
    and "b = pPktBuf (opened env pkt c)"
  shows "(\<exists>c'. IAPP_RcvHandlerUdp env ip pkt c = Inr c') \<longleftrightarrow>
    \<not> (b ! 0 = 0 \<and> (b ! 1 = IAPP_CMD_FT_SEND_SECURITY_BLOCK \<and> ssb_faults env (opened env pkt c) \<or>
       (b ! 1 = IAPP_CMD_INFO_BROADCAST \<or> b ! 1 = IAPP_CMD_INFO_REQUEST) \<and> unat (get16 b 6) \<le> 1588))"
proof -
  let ?o = "opened env pkt c"
  have ok: "iapp_ok ?o" by (rule opened_ok [OF assms(1-3)])
  have add: "\<exists>c'. rcv_add_notify env ip ?o = Inr c'"
    using rcv_add_notify_eq [OF assms(1) ok] by (cases "SWAP_16 (get16 (pPktBuf ?o) 4) = 16") (auto simp: rcv_add_notify_def Let_def)
  have move: "\<exists>c'. IAPP_RcvHandlerMoveReq env ip ?o = Inr c'"
  proof (cases "SWAP_16 (get16 (pPktBuf ?o) 4) = 18")
    case len: True
    show ?thesis
    proof (cases "ft_map (SelfFtStaTable ?o) (get_mac (pPktBuf ?o) 8)")
      case None
      with rcv_move_unknown [OF ok] show ?thesis by blast
    next
      case (Some e)
      then obtain ap i where "ft_map (SelfFtStaTable ?o) (get_mac (pPktBuf ?o) 8) = Some (ap, i)" by (cases e) auto
      from rcv_move_known [OF assms(1) ok len this] show ?thesis by metis
    qed
  qed (simp add: IAPP_RcvHandlerMoveReq_def Let_def)
  show ?thesis
    using add move ssb_returns_iff [OF assms(1) ok, of ip]
    by (auto simp: udp_handler [OF assms(1-5)] udp_command_def Let_def assms(6) info_unknown_interface)
qed

text \<open>The frames that carry data of the driver: where their fields are.\<close>

lemma info_frame_received:
  assumes "in_buffer (info_frame cmd ident n e @ rest) c" and "n \<le> 1588" and "unat n \<le> length e"
  shows "pPktBuf c ! 0 = 0" and "pPktBuf c ! 1 = cmd" and "unat (get16 (pPktBuf c) 6) = unat n"
    and "take (unat n) (drop 8 (pPktBuf c)) = take (unat n) e"
proof -
  note b = in_buffer_nth [OF assms(1)] and sl = in_buffer_slice [OF assms(1)]
  have f: "info_frame cmd ident n e = [0, cmd] @ u16_bytes ident @ u16_bytes (SWAP_16 (ucast (8 + n))) @ u16_bytes (ucast n) @ take (unat n) e"
    by (simp add: info_frame_def iapp_header_def)
  show "pPktBuf c ! 0 = 0" "pPktBuf c ! 1 = cmd" using b [of 0] b [of 1] by (simp_all add: f)
  have "take 2 (drop 6 (pPktBuf c)) = u16_bytes (ucast n)" using sl [of 6 2] by (simp add: f u16_bytes_def)
  then have "get16 (pPktBuf c) 6 = ucast n" by (rule get16_at)
  moreover have "unat n \<le> 1588" using assms(2) by (simp add: word_le_nat_alt)
  ultimately show "unat (get16 (pPktBuf c) 6) = unat n" by (simp add: unsigned_ucast_eq take_bit_nat_eq_self)
  show "take (unat n) (drop 8 (pPktBuf c)) = take (unat n) e"
    using sl [of 8 "unat n"] assms(3) by (simp add: f u16_bytes_def)
qed

lemma info_frame_plain:
  "udp_plain c i (info_frame cmd ident n e) =
     info_frame cmd (SWAP_16 (PacketIdentifier c)) n e @ mac_bytes (IfNameWlanMAC c ! nat i)"
  by (simp add: udp_plain_def info_frame_def iapp_header_def u16_bytes_def move_at_def)

lemma info_frame_length: "unat n \<le> length e \<Longrightarrow> length (info_frame cmd ident n e) = 8 + unat n"
  by (simp add: info_frame_def iapp_header_def)

lemma small_event:
  assumes "unat (n :: u32) \<le> 1570" and "unat n \<le> length e" and "used \<le> 24"
  shows "\<not> of_nat IAPP_MAX_RCV_PKT_SIZE < of_nat used + n" and "event_fits used n e" and "n \<le> 1588"
proof -
  have "unat (of_nat used + n) = used + unat n" using assms(1,3) by (simp add: unat_word_ariths unat_of_nat)
  then show "\<not> of_nat IAPP_MAX_RCV_PKT_SIZE < of_nat used + n" using assms(1,3) by (simp add: word_less_nat_alt)
  show "event_fits used n e" using assms by (simp add: event_fits_def)
  show "n \<le> 1588" using assms(1) by (simp add: word_le_nat_alt)
qed

text \<open>
  The neighbour report of one access point makes every other one that shares the key read outside the array of its interfaces: the datagram
  handler passes the index \<open>- 1\<close> for reports and requests, and cut to a byte it selects the 256th name of two.
\<close>

theorem neighbour_report_faults:
  assumes "shares_key envA envB enc" and "iapp_ok cB" and "ipA \<noteq> AddrOwn cB"
    and "0 \<le> i" and "i < int MAX_WIFI_COUNT" and "unat EventLen \<le> 1530" and "unat EventLen \<le> length pEvt"
  shows "\<exists>cA' pkt. FT_KDP_InformationReportSend envA EventLen pEvt i cA = Inr cA' \<and>
    Udp_Send (AddrBroadcast cA) pkt \<in> set (iapp_trace cA') \<and> IAPP_RcvHandlerUdp envB ipA pkt cB = Inl Out_Of_Bounds"
proof -
  note key = shares_keyD [OF assms(1)]
  obtain ident cA1 where id: "take_identifier cA = (ident, cA1)" by (cases "take_identifier cA")
  then have cA1: "cA1 = cA\<lparr>PacketIdentifier := PacketIdentifier cA + 2\<rparr>" by (auto simp: take_identifier_def)
  let ?f = "info_frame IAPP_CMD_INFO_BROADCAST ident EventLen pEvt"
  define plain where "plain = udp_plain cA1 i ?f"
  have n: "unat EventLen \<le> 1570" using assms(6) by simp
  have lf: "length ?f = 8 + unat EventLen" by (rule info_frame_length [OF assms(7)])
  have "IAPP_UDP_PacketSend envA ?f i cA1 = Inr (cA1\<lparr>PacketIdentifier := PacketIdentifier cA1 + 2,
      iapp_trace := iapp_trace cA1 @ [Wlan_Ioctl (if_name cA1 i) RT_FT_DATA_ENCRYPT plain, Udp_Send (AddrBroadcast cA1) (enc plain)]\<rparr>)"
    using udp_send_eq [OF key(1) _ assms(4,5), of ?f cA1] lf assms(6) by (simp add: plain_def key(3))
  then have A: "FT_KDP_InformationReportSend envA EventLen pEvt i cA = Inr (cA1\<lparr>PacketIdentifier := PacketIdentifier cA1 + 2,
      iapp_trace := iapp_trace cA1 @ [Wlan_Ioctl (if_name cA1 i) RT_FT_DATA_ENCRYPT plain, Udp_Send (AddrBroadcast cA1) (enc plain)]\<rparr>)"
    using small_event [OF n assms(7), of 8] by (simp add: FT_KDP_InformationReportSend_def id)
  have pl: "length plain = 14 + unat EventLen" using lf by (simp add: plain_def udp_plain_def)
  then have "plain \<noteq> []" by auto
  then have pkt: "length (enc plain) \<le> IAPP_MAX_RCV_PKT_SIZE" "enc plain \<noteq> []"
    using key(5) [of plain] key(6) [of plain] pl assms(6) by simp_all
  let ?o = "opened envB (enc plain) cB"
  have pf: "plain = info_frame IAPP_CMD_INFO_BROADCAST (SWAP_16 (PacketIdentifier cA1)) EventLen pEvt @ mac_bytes (IfNameWlanMAC cA1 ! nat i)"
    by (simp add: plain_def info_frame_plain)
  have "in_buffer (info_frame IAPP_CMD_INFO_BROADCAST (SWAP_16 (PacketIdentifier cA1)) EventLen pEvt @ []) ?o"
    using opened_key [OF assms(1) pf] by simp
  from info_frame_received [OF this small_event(3) [OF n assms(7), of 0] assms(7)]
  have "udp_command envB ipA ?o = Inl Out_Of_Bounds"
    using assms(6) by (simp add: udp_command_def Let_def info_unknown_interface)
  then have "IAPP_RcvHandlerUdp envB ipA (enc plain) cB = Inl Out_Of_Bounds"
    by (simp add: udp_handler [OF key(2) assms(2) pkt assms(3)])
  then show ?thesis
    using A by (intro exI [of _ "enc plain"] exI conjI) (assumption, simp_all add: cA1)
qed

text \<open>Security blocks.\<close>

lemma block_frame_received:
  assumes "in_buffer (block_frame cmd ident n e @ rest) c" and "unat n \<le> 1588" and "unat n \<le> length e"
  shows "pPktBuf c ! 0 = 0" and "pPktBuf c ! 1 = cmd" and "unat (get16 (pPktBuf c) 14) = unat n"
    and "take 8 (drop 6 (pPktBuf c)) = replicate 8 0" and "take (unat n) (drop 16 (pPktBuf c)) = take (unat n) e"
proof -
  note b = in_buffer_nth [OF assms(1)] and sl = in_buffer_slice [OF assms(1)]
  have f: "block_frame cmd ident n e = [0, cmd] @ u16_bytes ident @ u16_bytes (SWAP_16 (ucast (16 + n))) @ replicate 8 0 @
      u16_bytes (ucast n) @ take (unat n) e"
    by (simp add: block_frame_def iapp_header_def)
  show "pPktBuf c ! 0 = 0" "pPktBuf c ! 1 = cmd" using b [of 0] b [of 1] by (simp_all add: f)
  have "take 2 (drop 14 (pPktBuf c)) = u16_bytes (ucast n)" using sl [of 14 2] by (simp add: f u16_bytes_def)
  then have "get16 (pPktBuf c) 14 = ucast n" by (rule get16_at)
  then show "unat (get16 (pPktBuf c) 14) = unat n" using assms(2) by (simp add: unsigned_ucast_eq take_bit_nat_eq_self)
  show "take 8 (drop 6 (pPktBuf c)) = replicate 8 0"
    using sl [of 6 8] by (simp add: f u16_bytes_def)
  show "take (unat n) (drop 16 (pPktBuf c)) = take (unat n) e"
    using sl [of 16 "unat n"] assms(3) by (simp add: f u16_bytes_def)
qed

lemma block_station_eq:
  assumes "unat (get16 b 14) = n" and "take n (drop 16 b) = take n e" and "13 \<le> n" and "n \<le> length e"
  shows "block_station env b = get_mac e 7"
  using assms by (simp add: block_station_def get_mac_def move_at_def nth_append)

text \<open>
  C18. A key request reaches the driver of the peer: the block that the driver passes to its daemon for the peer's address is, on the
  peer, handed unchanged to the interface of the station it is for, with the address it came from and
  a nonce of zeros.
\<close>

theorem key_request_delivered:
  assumes "shares_key envA envB enc" and "iapp_ok cB" and "0 \<le> i" and "i < int MAX_WIFI_COUNT"
    and "ipB \<noteq> 0" and "\<forall>h. peer_connects envA h ipB"
    and "13 \<le> unat EventLen" and "unat EventLen \<le> SIZEOF_KEY_ELM" and "unat EventLen \<le> length pEvt"
    and "ft_map (SelfFtStaTable cB) (get_mac pEvt 7) = Some (ap, j)"
  shows "\<exists>cA' pkt cB'. FT_KDP_SecurityBlockSend envA EventLen ipB pEvt wifi i cA = Inr cA' \<and>
    Tcp_Send ipB pkt \<in> set (iapp_trace cA') \<and> IAPP_RcvHandlerTcp envB ipA pkt cB = Inr cB' \<and>
    iapp_trace cB' = iapp_trace cB @ [Wlan_Ioctl (if_name cB 0) RT_FT_DATA_DECRYPT pkt,
      Wlan_Ioctl (if_name cB j) RT_SET_FT_KEY_REQ (u32_bytes ipA @ replicate 8 0 @ take (unat EventLen) pEvt)]"
proof -
  note key = shares_keyD [OF assms(1)]
  obtain ident cA1 where id: "take_identifier cA = (ident, cA1)" by (cases "take_identifier cA")
  define frame where "frame = block_frame IAPP_CMD_FT_SEND_SECURITY_BLOCK ident EventLen pEvt @ mac_bytes wifi"
  have n: "unat EventLen \<le> 1570" using assms(8) by simp
  have fl: "length frame = 22 + unat EventLen" using assms(9) by (simp add: frame_def block_frame_def iapp_header_def)
  have "encrypt_and_send envA ipB frame i cA1 = Inr (cA1\<lparr>iapp_trace := iapp_trace cA1 @
      [Wlan_Ioctl (if_name cA1 i) RT_FT_DATA_ENCRYPT frame, Tcp_Send ipB (enc frame)]\<rparr>)"
    using encrypt_and_send_eq [OF key(1) _ assms(3,4), of frame ipB cA1] fl assms(8) by (simp add: key(3))
  then have A: "FT_KDP_SecurityBlockSend envA EventLen ipB pEvt wifi i cA = Inr (cA1\<lparr>iapp_trace := iapp_trace cA1 @
      [Wlan_Ioctl (if_name cA1 i) RT_FT_DATA_ENCRYPT frame, Tcp_Send ipB (enc frame)]\<rparr>)"
    using small_event [OF n assms(9), of 22] assms(5,6)
    by (simp add: FT_KDP_SecurityBlockSend_def id connected_def frame_def Let_def add.assoc add.commute [of EventLen])
  have "frame \<noteq> []" using fl by auto
  then have pkt: "length (enc frame) \<le> IAPP_MAX_RCV_PKT_SIZE" "enc frame \<noteq> []"
    using key(5) [of frame] key(6) [of frame] fl assms(8) by simp_all
  let ?o = "opened envB (enc frame) cB"
  have "in_buffer frame ?o" using opened_key [OF assms(1), of frame frame "[]"] by simp
  then have "in_buffer (block_frame IAPP_CMD_FT_SEND_SECURITY_BLOCK ident EventLen pEvt @ mac_bytes wifi) ?o"
    by (simp only: frame_def)
  note b = block_frame_received [OF this _ assms(9)]
  have n': "unat EventLen \<le> 1588" using assms(8) by simp
  have st: "block_station envB (pPktBuf ?o) = get_mac pEvt 7"
    using block_station_eq [OF b(3,5) [OF n'] assms(7,9)] .
  have ok: "iapp_ok ?o" by (rule opened_ok [OF key(2) assms(2) pkt(1)])
  have "IAPP_RcvHandlerSSB envB ipA ?o = Inr (act (Wlan_Ioctl (if_name ?o j) RT_SET_FT_KEY_REQ (block_data ipA (pPktBuf ?o))) ?o)"
    using assms(8,10) b(3) [OF n'] st by (intro ssb_delivered [OF key(2) ok]) simp_all
  moreover have "block_data ipA (pPktBuf ?o) = u32_bytes ipA @ replicate 8 0 @ take (unat EventLen) pEvt"
    by (simp only: block_data_def b [OF n'])
  ultimately have "IAPP_RcvHandlerTcp envB ipA (enc frame) cB = Inr (act (Wlan_Ioctl (if_name cB j) RT_SET_FT_KEY_REQ
      (u32_bytes ipA @ replicate 8 0 @ take (unat EventLen) pEvt)) ?o)"
    using b(1,2) [OF n'] by (simp add: tcp_handler [OF key(2) assms(2) pkt] tcp_command_def Let_def)
  then show ?thesis
    using A by (intro exI [of _ "enc frame"] exI conjI) (assumption, simp, assumption, simp)
qed

text \<open>Action frames.\<close>

lemma encrypted_size_bound: "n + 8 \<le> encrypted_size n" "encrypted_size n < n + 16" "encrypted_size n mod 8 = 0"
  unfolding encrypted_size_def by presburger+

lemma rrb_header_length [simp]: "length (rrb_header da sa ty n ap) = 24"
  by (simp add: rrb_header_def)

lemma find_ifidx_receive [simp]: "mt_iapp_find_ifidx_by_mac (receive pkt c) = mt_iapp_find_ifidx_by_mac c"
  by (simp add: receive_def mt_iapp_find_ifidx_by_mac_def fun_eq_iff)

lemma if_name_receive [simp]: "if_name (receive pkt c) = if_name c" "iapp_trace (receive pkt c) = iapp_trace c"
  by (simp_all add: receive_def if_name_def fun_eq_iff)

text \<open>What the receiver does with a header and an encrypted frame behind it.\<close>

lemma rrb_received:
  assumes key: "shares_key envA envB enc" and ok: "iapp_ok cB" and len: "unat EventLen \<le> 1500" "length evt = unat EventLen"
    and ct: "length (enc evt) = encrypted_size (unat EventLen)" and da: "mt_iapp_find_ifidx_by_mac cB da = j" and j: "0 \<le> j"
    and pkt: "pkt = rrb_header da sa ty EventLen apm @ enc evt"
  shows "\<exists>cB'. IAPP_RcvHandlerRawRRB envB pkt cB = Inr cB' \<and> iapp_trace cB' = iapp_trace cB @
    [Wlan_Ioctl (if_name cB j) RT_FT_DATA_DECRYPT (enc evt),
     Wlan_Ioctl (if_name cB j) RT_FT_ACTION_FORWARD (rrb_header da sa ty EventLen apm @ evt)]"
proof -
  let ?n = "unat EventLen"
  define hdr where "hdr = rrb_header da sa ty EventLen apm"
  have j': "j < int MAX_WIFI_COUNT" "j \<noteq> - 1"
    using find_ifidx_by_mac_cases [OF ok, of da] iapp_ok_parts(3) [OF ok] da j by auto
  have lp: "length pkt = 24 + encrypted_size ?n" "pkt \<noteq> []"
    using rrb_header_length [of da sa ty EventLen apm] by (auto simp: pkt ct simp del: rrb_header_length)
  have small: "length pkt \<le> IAPP_MAX_RCV_PKT_SIZE" "encrypted_size ?n mod 65536 = encrypted_size ?n" "24 + encrypted_size ?n \<le> IAPP_BUFFER"
    using encrypted_size_bound(2) [of ?n] len(1) lp(1) by simp_all
  let ?c = "receive pkt cB" and ?b = "move_at 0 pkt (pPktBuf cB)"
  have buf: "pPktBuf ?c = ?b" using small(1) by (simp add: receive_def)
  have sl: "take n (drop off ?b) = take n (drop off pkt)" if "off + n \<le> length pkt" for off n
    by (rule slice_front [OF _ that]) (simp add: move_at_def)
  have f: "get_mac ?b 0 = da" "get16 ?b 16 = ucast EventLen" "take (encrypted_size ?n) (drop 24 ?b) = enc evt" "take 24 ?b = hdr"
    using sl [of 0 6] sl [of 16 2] sl [of 24 "encrypted_size ?n"] sl [of 0 24] lp(1)
    by (auto intro!: get_mac_at get16_at simp: pkt rrb_header_def hdr_def ct)
  have size: "unat (get16 ?b 16) = ?n" using len(1) by (simp add: f(2) unsigned_ucast_eq take_bit_nat_eq_self)
  have out: "take (24 + ?n) (move_at 24 evt ?b) = hdr @ evt" using f(4) by (simp add: move_at_def hdr_def len(2))
  define c2 where "c2 = (act (Wlan_Ioctl (if_name cB j) RT_FT_DATA_DECRYPT (enc evt)) ?c)\<lparr>pPktBuf := move_at 24 evt ?b\<rparr>"
  have "ioctl_answer envB h m RT_FT_DATA_DECRYPT (enc evt) = Some evt" for h m using key by (simp add: shares_key_def)
  then have io: "IAPP_IoctlToWLAN envB (of_int j) RT_FT_DATA_DECRYPT (enc evt) ?c =
      Inr (Some evt, act (Wlan_Ioctl (if_name cB j) RT_FT_DATA_DECRYPT (enc evt)) ?c)"
    by (simp add: ioctl_index [OF j j'(1)])
  have nm: "if_name c2 = if_name cB" by (simp add: c2_def if_name_def receive_def fun_eq_iff)
  have "IAPP_MsgProcess envB RT_FT_ACTION_FORWARD (hdr @ evt) j c2 =
      Inr (hdr @ evt, act (Wlan_Ioctl (if_name cB j) RT_FT_ACTION_FORWARD (hdr @ evt)) c2)"
    using MsgProcess_set [OF shares_keyD(2) [OF key] _ _ j j'(1), of RT_FT_ACTION_FORWARD "hdr @ evt" c2] len by (simp add: hdr_def nm)
  then have "IAPP_RcvHandlerRawRRB envB pkt cB = Inr (act (Wlan_Ioctl (if_name cB j) RT_FT_ACTION_FORWARD (hdr @ evt)) c2)"
    using lp(2) j' len small by (simp add: IAPP_RcvHandlerRawRRB_def Let_def buf f(1,3) da size io out flip: c2_def)
  then show ?thesis unfolding hdr_def by (intro exI conjI) (assumption, simp add: c2_def)
qed

text \<open>
  C37. An action frame reaches the driver of the other access point as it was: addresses, type, length and the frame itself, if
  encryption makes the size that the receiver computes from the length in the clear header.
\<close>

theorem action_frame_forwarded:
  assumes "shares_key envA envB enc" and "\<forall>d. length (enc d) = encrypted_size (length d)"
    and "iapp_ok cB" and "0 \<le> i" and "i < int MAX_WIFI_COUNT"
    and "unat EventLen \<le> 1500" and "unat EventLen \<le> length pEvt"
    and "mt_iapp_find_ifidx_by_mac cB da = j" and "0 \<le> j"
  shows "\<exists>cA' pkt cB'. FT_RRB_ActionForward envA EventLen pEvt ty da sa apm i cA = Inr cA' \<and>
    Rrb_Send pkt \<in> set (iapp_trace cA') \<and> IAPP_RcvHandlerRawRRB envB pkt cB = Inr cB' \<and>
    (\<exists>data. iapp_trace cB' = iapp_trace cB @ [Wlan_Ioctl (if_name cB j) RT_FT_DATA_DECRYPT data,
      Wlan_Ioctl (if_name cB j) RT_FT_ACTION_FORWARD (rrb_header da sa ty EventLen apm @ take (unat EventLen) pEvt)])"
proof -
  note key = shares_keyD [OF assms(1)]
  define hdr where "hdr = rrb_header da sa ty EventLen apm"
  define evt where "evt = take (unat EventLen) pEvt"
  have le: "length evt = unat EventLen" using assms(7) by (simp add: evt_def)
  have lc: "length (enc evt) = encrypted_size (unat EventLen)" using assms(2) le by simp
  have n: "unat EventLen \<le> 1570" using assms(6) by simp
  have A: "FT_RRB_ActionForward envA EventLen pEvt ty da sa apm i cA =
      Inr (act (Rrb_Send (hdr @ enc evt)) (act (Wlan_Ioctl (if_name cA i) RT_FT_DATA_ENCRYPT evt) cA))"
    using small_event [OF n assms(7), of 24] encrypt_io [OF key(1) _ assms(4,5), of evt "IAPP_BUFFER - 24" cA] le assms(6)
    by (simp add: FT_RRB_ActionForward_def key(3) flip: evt_def hdr_def)
  from rrb_received [OF assms(1,3,6) le lc assms(8,9) refl, of sa ty apm]
  obtain cB' where B: "IAPP_RcvHandlerRawRRB envB (hdr @ enc evt) cB = Inr cB'"
      "iapp_trace cB' = iapp_trace cB @ [Wlan_Ioctl (if_name cB j) RT_FT_DATA_DECRYPT (enc evt),
        Wlan_Ioctl (if_name cB j) RT_FT_ACTION_FORWARD (hdr @ evt)]"
    unfolding hdr_def by blast
  show ?thesis
    unfolding hdr_def [symmetric] evt_def [symmetric]
    using A B(1) by (intro exI [of _ "hdr @ enc evt"] exI [of _ cB'] exI conjI) (assumption, simp, assumption, simp add: B(2))
qed

text \<open>
  C10. The table of fast-transition stations is a map of at most 64 stations to their interfaces, through any sequence of insertions and
  deletions from the empty table whose stations have different hashes: every operation returns, and the
  search for the interface of a station gives the answer of the map.
\<close>

theorem ft_table_is_map:
  assumes "inj_on FT_MAC_HASH_INDEX (ft_station ` set cs)"
  shows "\<exists>t. ft_run cs mt_iapp_ft_client_table_init = Inr t \<and>
    (\<forall>a. mt_iapp_find_ifidx_by_sta_mac t a =
      Inr (case fold ft_spec cs Map.empty a of Some (_, i) \<Rightarrow> i | None \<Rightarrow> - 1))"
proof -
  have "inj_on FT_MAC_HASH_INDEX (dom (ft_map mt_iapp_ft_client_table_init) \<union> ft_station ` set cs)"
    using assms by (simp add: init_table)
  from ft.run_spec [OF _ this] init_table(1,2) obtain t
    where t: "ft_run cs mt_iapp_ft_client_table_init = Inr t" "ft_inv t" "ft_map t = fold ft_spec cs Map.empty"
    by (auto simp: init_table)
  then show ?thesis by (auto simp: find_ifidx_map)
qed

text \<open>
  C40. Two stations of one bucket are enough to stop the daemon: when the first of them leaves and any station of the bucket (itself, for
  example) takes its slot, the search for another station of the bucket never ends, however long it is given.
\<close>

theorem reused_slot_never_returns:
  assumes "b \<noteq> a" and "FT_MAC_HASH_INDEX b = FT_MAC_HASH_INDEX a"
    and "c \<noteq> b" and "FT_MAC_HASH_INDEX c = FT_MAC_HASH_INDEX a"
    and "d \<noteq> b" and "d \<noteq> c" and "FT_MAC_HASH_INDEX d = FT_MAC_HASH_INDEX a"
  shows "\<exists>t. ft_run [Ft_Insert a ap x, Ft_Insert b bp y, Ft_Delete a, Ft_Insert c cp z] mt_iapp_ft_client_table_init = Inr t \<and>
    mt_iapp_ft_client_look_up t d = Inl No_Return \<and>
    (\<forall>n. scan n (ft_ptr t) (\<lambda>k. sta_mac (ft_sta_info t ! k) = d) (ft_hash t (FT_MAC_HASH_INDEX d)) = Inl No_Return)"
  using reuse_run [OF assms, of ap x bp y cp z] by (metis mt_iapp_ft_client_look_up_def)

text \<open>
  C11. The daemon does not hang on stations with different hashes: from the command line through any sequence of datagrams,
  connections, frames and signals, whatever the driver answers, a run in which the stations that the driver reports
  have different hashes ends, either with a well-formed control block and a table of those stations, or with an access outside
  an array or an option without its argument. What other access points send is not restricted.
\<close>

theorem daemon_never_hangs:
  assumes "inj_on FT_MAC_HASH_INDEX S" and "\<forall>ev \<in> set evs. signals_from S ev" and "length fresh = IAPP_BUFFER"
    and "\<forall>n. hw n \<noteq> None"
  shows "case iapp_main env (Some addrs) hw pid fresh argv evs of
      Inl e \<Rightarrow> e = Out_Of_Bounds \<or> e = Null_Deref
    | Inr None \<Rightarrow> True
    | Inr (Some c) \<Rightarrow> iapp_ok c \<and> dom (ft_map (SelfFtStaTable c)) \<subseteq> S"
proof (cases "iapp_main env (Some addrs) hw pid fresh argv evs")
  case (Inl e)
  with main_sound(1) [OF assms(1-3), of env "Some addrs" hw pid argv] show ?thesis by simp
next
  case (Inr r)
  show ?thesis
  proof (cases r)
    case (Some c)
    with Inr main_sound(2) [OF assms(1-3), of env "Some addrs" hw pid argv c] assms(4) show ?thesis by (simp add: iapp_sound_def)
  qed (use Inr in simp)
qed

section \<open>The properties at concrete inputs\<close>

text \<open>
  A padding that meets the contract of the driver, two access points with one interface each, and a station. The table of
  the second one holds the station.
\<close>

definition pad :: "byte list \<Rightarrow> byte list" where
  "pad d = (let n = encrypted_size (length d) - length d in of_nat n # d @ replicate (n - 1) 0)"

definition unpad :: "byte list \<Rightarrow> byte list" where
  "unpad e = take (length e - unat (hd e)) (tl e)"

lemma pad_facts: "length (pad d) = encrypted_size (length d)" "unpad (pad d) = d" "pad d \<noteq> []"
proof -
  have n: "8 \<le> encrypted_size (length d) - length d" "encrypted_size (length d) - length d < 16"
    using encrypted_size_bound [of "length d"] by arith+
  then show "length (pad d) = encrypted_size (length d)" by (simp add: pad_def Let_def)
  have "unat (of_nat k :: u8) = k" if "k < 16" for k using that by (simp add: unat_of_nat)
  from this [OF n(2)] n show "unpad (pad d) = d" by (simp add: unpad_def pad_def Let_def)
  show "pad d \<noteq> []" by (simp add: pad_def Let_def)
qed

definition padding_driver :: iapp_env where
  "padding_driver = \<lparr>ioctl_answer = (\<lambda>h n f d. if f = RT_FT_DATA_ENCRYPT then Some (pad d)
       else if f = RT_FT_DATA_DECRYPT then (if d = [] then None else Some (unpad d)) else Some d),
     peer_connects = (\<lambda>h ip. True), stack_bytes = replicate SIZEOF_KEY_ELM 0\<rparr>"

definition silent_driver :: iapp_env where
  "silent_driver = \<lparr>ioctl_answer = (\<lambda>h n f d. None), peer_connects = (\<lambda>h ip. False), stack_bytes = replicate SIZEOF_KEY_ELM 0\<rparr>"

lemma padding_shares_key: "shares_key padding_driver padding_driver pad"
proof -
  have "length (unpad d) \<le> length d" for d by (simp add: unpad_def)
  moreover have "length (pad d) \<le> length d + 32" for d
    using encrypted_size_bound(2) [of "length d"] by (simp add: pad_facts)
  ultimately have "driver_ok padding_driver"
    by (auto simp: driver_ok_def padding_driver_def split: if_splits)
  then show ?thesis by (simp add: shares_key_def) (simp add: padding_driver_def pad_facts)
qed

lemma padding_connects: "peer_connects padding_driver h ip"
  by (simp add: padding_driver_def)

lemma silent_driver_ok: "driver_ok silent_driver"
  by (simp add: driver_ok_def silent_driver_def)

definition demo_sta :: mac where "demo_sta = (2, 0, 0, 0, 0, 7)"
definition demo_wifi :: mac where "demo_wifi = (2, 0, 0, 0, 0, 1)"

definition demo_buffer :: "byte \<Rightarrow> byte list" where
  "demo_buffer Sig = replicate 20 0 @ mac_bytes demo_sta @ replicate 6 0 @ [Sig] @ replicate 13 0 @ [10, 0, 0, 2] @ replicate 1650 0"

definition demo_table :: ft_client_table where
  "demo_table = (case mt_iapp_ft_client_insert mt_iapp_ft_client_table_init demo_sta demo_wifi 0 of
     Inr (_, t) \<Rightarrow> t | Inl _ \<Rightarrow> mt_iapp_ft_client_table_init)"

definition demo_ap :: "byte \<Rightarrow> u32 \<Rightarrow> ft_client_table \<Rightarrow> iapp" where
  "demo_ap Sig own t = zero_iapp\<lparr>IfNameWlanIoctl := [''ra0'', []], IfNameWlanMAC := [demo_wifi, zero_mac],
     IfNameWlanCount := 1, AddrOwn := own, SelfFtStaTable := t, pPktBuf := demo_buffer Sig\<rparr>"

lemma demo_table_facts: "ft_inv demo_table" "ft_map demo_table = [demo_sta \<mapsto> (demo_wifi, 0)]" "ft_clean demo_table"
proof -
  have "ft_slot mt_iapp_ft_client_table_init demo_sta = None" unfolding ft_slot_None init_table(3) by simp
  moreover have "ft_sta_table_size mt_iapp_ft_client_table_init < int MAX_NUM_OF_CLIENT"
    by (simp add: mt_iapp_ft_client_table_init_def)
  ultimately obtain i t where "mt_iapp_ft_client_insert mt_iapp_ft_client_table_init demo_sta demo_wifi 0 = Inr (Some i, t)"
      "ft_map t = (ft_map mt_iapp_ft_client_table_init)(demo_sta \<mapsto> (demo_wifi, 0))" "ft_inv t" "ft_clean t"
    using insert_new_station [OF init_table(1,2), of demo_sta demo_wifi 0] by metis
  then show "ft_inv demo_table" "ft_map demo_table = [demo_sta \<mapsto> (demo_wifi, 0)]" "ft_clean demo_table"
    by (simp_all add: demo_table_def init_table(4))
qed

lemma demo_ap_fields [simp]:
  "SelfFtStaTable (demo_ap Sig own t) = t" "AddrOwn (demo_ap Sig own t) = own" "iapp_trace (demo_ap Sig own t) = []"
  "pPktBuf (demo_ap Sig own t) = demo_buffer Sig" "AddrBroadcast (demo_ap Sig own t) = 0"
  "mt_iapp_find_ifidx_by_mac (demo_ap Sig own t) demo_wifi = 0"
  "if_name (demo_ap Sig own t) 0 = ''ra0''"
  by (simp_all add: demo_ap_def zero_iapp_def mt_iapp_find_ifidx_by_mac_def if_name_def)

lemma demo_signal [simp]: "signal_at Sig demo_wifi 0 (demo_ap Sig own t)"
  by (simp add: signal_at_def demo_buffer_def demo_sta_def nth_append)

lemma demo_station [simp]: "get_mac (demo_buffer Sig) 20 = demo_sta"
  by (simp add: get_mac_def demo_buffer_def demo_sta_def nth_append)

lemma demo_ap_ok: "iapp_ok (demo_ap Sig own mt_iapp_ft_client_table_init)" "iapp_ok (demo_ap Sig own demo_table)"
proof -
  have "length (demo_buffer Sig) = IAPP_BUFFER" by (simp add: demo_buffer_def)
  moreover have "length (IfNameWlanIoctl (demo_ap Sig own t)) = 2" "length (IfNameWlanMAC (demo_ap Sig own t)) = 2"
    "IfNameWlanCount (demo_ap Sig own t) = 1" for t by (simp_all add: demo_ap_def)
  ultimately show "iapp_ok (demo_ap Sig own mt_iapp_ft_client_table_init)" "iapp_ok (demo_ap Sig own demo_table)"
    by (simp_all add: iapp_ok_def init_table demo_table_facts)
qed

theorem association_reaches_peers_witness:
  "\<exists>cA' pkt cB'. IAPP_SIG_Process padding_driver demo_wifi (demo_ap 0x50 1 mt_iapp_ft_client_table_init) = Inr cA' \<and>
    Udp_Send 0 pkt \<in> set (iapp_trace cA') \<and> IAPP_RcvHandlerUdp padding_driver 1 pkt (demo_ap 0 2 demo_table) = Inr cB' \<and>
    iapp_trace cB' = Wlan_Ioctl ''ra0'' RT_FT_DATA_DECRYPT pkt #
      drop_station (demo_ap 0 2 demo_table) demo_sta @
      tell_interfaces (demo_ap 0 2 demo_table) RT_SET_FT_STATION_NOTIFY (u32_bytes 1 @ mac_bytes demo_sta)"
  using association_reaches_peers [where envA = padding_driver and envB = padding_driver and enc = pad and wifi = demo_wifi and i = 0
      and cA = "demo_ap 0x50 1 mt_iapp_ft_client_table_init" and cB = "demo_ap 0 2 demo_table" and ipA = 1 and mac = demo_sta]
    padding_shares_key demo_ap_ok
  by (simp add: init_table)

theorem plain_notification_obeyed_witness:
  "\<exists>c'. IAPP_RcvHandlerUdp silent_driver 1 (notify_frame IAPP_CMD_ADD_NOTIFY 0 16 0 demo_sta @ [0, 0]) (demo_ap 0 2 demo_table) = Inr c' \<and>
    Wlan_Ioctl ''ra0'' RT_SET_DEL_MAC_ENTRY (mac_bytes demo_sta) \<in> set (iapp_trace c')"
proof -
  have "ft_map (SelfFtStaTable (demo_ap 0 2 demo_table)) demo_sta = Some (demo_wifi, 0)" by (simp add: demo_table_facts)
  from plain_notification_obeyed [OF silent_driver_ok _ demo_ap_ok(2) this, of 1 _ 0 0 "[0, 0]"]
  show ?thesis by (simp add: silent_driver_def)
qed

theorem reassociation_moves_station_witness:
  "\<exists>cA' pkt cB'. IAPP_SIG_Process padding_driver demo_wifi (demo_ap 0x51 1 mt_iapp_ft_client_table_init) = Inr cA' \<and>
    Tcp_Send 0x200000A pkt \<in> set (iapp_trace cA') \<and>
    ft_map (SelfFtStaTable cA') = [demo_sta \<mapsto> (demo_wifi, 0)] \<and>
    IAPP_RcvHandlerTcp padding_driver 1 pkt (demo_ap 0 2 demo_table) = Inr cB' \<and> ft_map (SelfFtStaTable cB') = Map.empty \<and>
    Wlan_Ioctl ''ra0'' RT_SET_DEL_MAC_ENTRY (mac_bytes demo_sta) \<in> set (iapp_trace cB')"
proof -
  have "get32 (pPktBuf (demo_ap 0x51 1 mt_iapp_ft_client_table_init)) 46 = 0x200000A"
    by (simp add: get32_def demo_buffer_def demo_sta_def nth_append)
  moreover have "ft_map (SelfFtStaTable (demo_ap 0 2 demo_table)) demo_sta = Some (demo_wifi, 0)" by (simp add: demo_table_facts)
  moreover have "ft_sta_table_size mt_iapp_ft_client_table_init = 0" by (simp add: mt_iapp_ft_client_table_init_def)
  ultimately show ?thesis
    using reassociation_moves_station [where envA = padding_driver and envB = padding_driver and enc = pad and wifi = demo_wifi
        and i = 0 and cA = "demo_ap 0x51 1 mt_iapp_ft_client_table_init" and cB = "demo_ap 0 2 demo_table" and ipA = 1
        and ipB = "0x200000A" and mac = demo_sta and ap = demo_wifi and j = 0]
      padding_shares_key demo_ap_ok
    by (simp add: init_table demo_table_facts padding_connects)
qed

theorem udp_returns_iff_witness:
  "\<not> (\<exists>c'. IAPP_RcvHandlerUdp silent_driver 1 [0, 60, 0, 0, 0, 0, 0, 0] (demo_ap 0 2 demo_table) = Inr c')"
  using udp_returns_iff [where env = silent_driver and ip = 1 and pkt = "[0, 60, 0, 0, 0, 0, 0, 0]" and c = "demo_ap 0 2 demo_table",
      OF silent_driver_ok demo_ap_ok(2) _ _ _ refl]
  by (simp add: opened_def decrypted_def silent_driver_def move_at_def get16_def)

theorem neighbour_report_faults_witness:
  "\<exists>cA' pkt. FT_KDP_InformationReportSend padding_driver 4 [1, 2, 3, 4] 0 (demo_ap 0 1 demo_table) = Inr cA' \<and>
    Udp_Send 0 pkt \<in> set (iapp_trace cA') \<and> IAPP_RcvHandlerUdp padding_driver 1 pkt (demo_ap 0 2 demo_table) = Inl Out_Of_Bounds"
  using neighbour_report_faults [where EventLen = 4 and pEvt = "[1, 2, 3, 4]" and i = 0 and cA = "demo_ap 0 1 demo_table"
      and ipA = 1, OF padding_shares_key demo_ap_ok(2) [of 0 2]]
  by simp

theorem key_request_delivered_witness:
  "\<exists>cA' pkt cB'. FT_KDP_SecurityBlockSend padding_driver 13 5 (replicate 7 9 @ mac_bytes demo_sta) demo_wifi 0 (demo_ap 0 1 demo_table) = Inr cA' \<and>
    Tcp_Send 5 pkt \<in> set (iapp_trace cA') \<and> IAPP_RcvHandlerTcp padding_driver 1 pkt (demo_ap 0 2 demo_table) = Inr cB' \<and>
    iapp_trace cB' = [Wlan_Ioctl ''ra0'' RT_FT_DATA_DECRYPT pkt,
      Wlan_Ioctl ''ra0'' RT_SET_FT_KEY_REQ (u32_bytes 1 @ replicate 8 0 @ replicate 7 9 @ mac_bytes demo_sta)]"
proof -
  have "get_mac (replicate 7 9 @ mac_bytes demo_sta) 7 = demo_sta" by (simp add: get_mac_def demo_sta_def nth_append)
  then have "ft_map (SelfFtStaTable (demo_ap 0 2 demo_table)) (get_mac (replicate 7 9 @ mac_bytes demo_sta) 7) = Some (demo_wifi, 0)"
    by (simp add: demo_table_facts)
  from key_request_delivered [OF padding_shares_key demo_ap_ok(2), where i = 0 and ipB = 5 and EventLen = 13 and wifi = demo_wifi
      and cA = "demo_ap 0 1 demo_table" and ipA = 1, OF _ _ _ _ _ _ _ this]
  show ?thesis by (simp add: padding_connects)
qed

theorem action_frame_forwarded_witness:
  "\<exists>cA' pkt cB'. FT_RRB_ActionForward padding_driver 3 [7, 8, 9] 1 demo_wifi demo_sta demo_sta 0 (demo_ap 0 1 demo_table) = Inr cA' \<and>
    Rrb_Send pkt \<in> set (iapp_trace cA') \<and> IAPP_RcvHandlerRawRRB padding_driver pkt (demo_ap 0 2 demo_table) = Inr cB' \<and>
    (\<exists>data. iapp_trace cB' = [Wlan_Ioctl ''ra0'' RT_FT_DATA_DECRYPT data,
      Wlan_Ioctl ''ra0'' RT_FT_ACTION_FORWARD (rrb_header demo_wifi demo_sta 1 3 demo_sta @ [7, 8, 9])])"
  using action_frame_forwarded [OF padding_shares_key _ demo_ap_ok(2) [of 0 2], where i = 0 and EventLen = 3 and pEvt = "[7, 8, 9]" and ty = 1
      and da = demo_wifi and sa = demo_sta and apm = demo_sta and cA = "demo_ap 0 1 demo_table" and j = 0]
  by (simp add: pad_facts)

theorem ft_table_is_map_witness:
  "\<exists>t. ft_run [Ft_Insert (0, 0, 0, 0, 0, 1) demo_wifi 0, Ft_Insert (0, 0, 0, 0, 0, 2) demo_wifi 1, Ft_Delete (0, 0, 0, 0, 0, 1)]
      mt_iapp_ft_client_table_init = Inr t \<and>
    mt_iapp_find_ifidx_by_sta_mac t (0, 0, 0, 0, 0, 1) = Inr (- 1) \<and> mt_iapp_find_ifidx_by_sta_mac t (0, 0, 0, 0, 0, 2) = Inr 1"
proof -
  let ?cs = "[Ft_Insert (0, 0, 0, 0, 0, 1) demo_wifi 0, Ft_Insert (0, 0, 0, 0, 0, 2) demo_wifi 1, Ft_Delete (0, 0, 0, 0, 0, 1)]"
  have "inj_on FT_MAC_HASH_INDEX (ft_station ` set ?cs)" by (auto simp: inj_on_def)
  from ft_table_is_map [OF this] obtain t where t: "ft_run ?cs mt_iapp_ft_client_table_init = Inr t"
      "mt_iapp_find_ifidx_by_sta_mac t a = Inr (case fold ft_spec ?cs Map.empty a of Some (_, i) \<Rightarrow> i | None \<Rightarrow> - 1)" for a
    by blast
  show ?thesis by (intro exI [of _ t] conjI t(1)) (simp_all add: t(2))
qed

theorem reused_slot_never_returns_witness:
  "\<exists>t. ft_run [Ft_Insert (0, 0, 0, 0, 1, 1) demo_wifi 0, Ft_Insert (0, 0, 0, 0, 2, 2) demo_wifi 0, Ft_Delete (0, 0, 0, 0, 1, 1),
      Ft_Insert (0, 0, 0, 0, 3, 3) demo_wifi 0] mt_iapp_ft_client_table_init = Inr t \<and>
    mt_iapp_ft_client_look_up t (0, 0, 0, 0, 4, 4) = Inl No_Return"
proof -
  have "FT_MAC_HASH_INDEX (0, 0, 0, 0, n, n) = 0" for n by simp
  then show ?thesis
    using reused_slot_never_returns [where a = "(0, 0, 0, 0, 1, 1)" and b = "(0, 0, 0, 0, 2, 2)" and c = "(0, 0, 0, 0, 3, 3)"
        and d = "(0, 0, 0, 0, 4, 4)" and ap = demo_wifi and bp = demo_wifi and cp = demo_wifi and x = 0 and y = 0 and z = 0]
    by (simp del: ft_run.simps FT_MAC_HASH_INDEX.simps) blast
qed

theorem daemon_never_hangs_witness:
  "case iapp_main silent_driver (Some (1, 255)) (\<lambda>n. Some demo_wifi) 42 (demo_buffer 0) [''mtkiappd'', ''-wi'', ''ra0'']
      [Drv_In (demo_buffer 0x50), Udp_In 5 [0, 1, 2], Drv_In (demo_buffer 0x51)] of
      Inl e \<Rightarrow> e = Out_Of_Bounds \<or> e = Null_Deref
    | Inr None \<Rightarrow> True
    | Inr (Some c) \<Rightarrow> iapp_ok c \<and> dom (ft_map (SelfFtStaTable c)) \<subseteq> {demo_sta}"
  by (rule daemon_never_hangs) (simp_all add: demo_buffer_def demo_sta_def get_mac_def nth_append)

end
