(* ===== verification/Spec2Isabelle.thy ===== *)
theory Spec2Isabelle
  imports Bndstrg_Properties Eapol_Properties Md5_Properties Radius_Properties Dot1x_Properties Dot1x_Config Nvram_Properties
    Iapp_Properties
begin

text \<open>
  A verification of the wireless daemons and of the configuration store that the OpenWrt SDK for the
  MediaTek MT7628 adds to OpenWrt.
  The sources are under \<open>openwrt-sdk/package/ramips/applications\<close>.

  \<^bold>\<open>The program.\<close> Three daemons run beside the wireless driver of an access point; a tool keeps its
  configuration.

  \<^item> \<open>bndstrg\<close> steers clients that can use both bands. The driver reports every probe of a client; the
    daemon keeps a table of 64 clients with hash chains and tells the driver, once per second, which
    client may connect on which band.
  \<^item> \<open>8021xd\<close> is the IEEE 802.1X authenticator. A frame of a station comes from the driver to \<open>Handle_read\<close>,
    which finds or creates the station and feeds its four coupled state machines. The machines
    ask for frames to the station and for requests to the RADIUS server; the client sends and
    repeats the requests. An answer comes back to \<open>Radius_client_receive\<close>, is checked with MD5 and HMAC-MD5,
    and is an event of the machines of its station. The machines tell the driver to open the port and
    send the keys. All handlers are called by an event loop with timeouts.
  \<^item> \<open>mtkiappd\<close> is the daemon of the inter-access-point protocol. The driver signals that a station has associated or
    moved here, asks for a key or passes an action frame; the daemon tells the other access points by
    datagrams, connections and Ethernet frames, encrypted by the driver. What it receives from them it checks
    and turns into commands to the driver: drop a station, take a key, forward a frame. A table says
    which station is at which interface.
  \<^item> \<open>nvram\<close> keeps the configuration in sections of a flash partition, with a checksum each. A run reads a cache
    file (filled from the flash memory by the first run), works on entries in memory and writes all of
    them back; \<open>commit\<close> also writes the flash memory. It shares no state with the daemons, and the daemons
    share none with each other.

  \<^bold>\<open>The theories.\<close>

  \<^item> \<open>Prelude\<close>: machine words, C faults as values (\<open>c_fault\<close>, \<open>'a res\<close>), linked chains over a successor
    function, lemmas on lists and words. \<open>Keyed_Table\<close>: the contract of a station table as a locale, over
    an abstract bounded set, with the lemmas about its uses. \<open>Bucket_Lists\<close>: hash buckets as lists through an array,
    appending to one and taking out of one.
  \<^item> \<open>Bndstrg_Table\<close> (\<open>bndstrg.c\<close>, table functions): the table as the array of the code with its chain
    indices; invariant; interpretation of \<open>keyed_table\<close>. \<open>Bndstrg\<close> (\<open>bndstrg.c\<close>, \<open>driver_wext.c\<close>): messages,
    steering conditions, the periodic task, requests to the driver as values. \<open>Bndstrg_Termination\<close>:
    no message makes the handler loop. \<open>Bndstrg_Steering\<close>: one pass in closed form, runs with the requests
    they send to the driver. \<open>Bndstrg_Properties\<close>: the results.
  \<^item> \<open>Eapol_SM\<close> (\<open>eapol_sm.c\<close>, \<open>eapol_sm.h\<close>): the four machines, one definition for each state entry and
    each step, with the list of the actions they ask for. \<open>Eapol_Termination\<close>: a potential that falls in
    every pass. \<open>Eapol_Safety\<close>: events, reachable machines, accounts of acceptances. \<open>Eapol_Properties\<close>.
  \<^item> \<open>Md5\<close> (\<open>md5.c\<close>): MD5, HMAC-MD5, RC4 on 32-bit words. \<open>Md5_Correct\<close>: the references of RFC 1321, RFC 2104 and
    RC4, and the independence of the chunking. \<open>Md5_Properties\<close>.
  \<^item> \<open>Radius\<close> (\<open>radius.c\<close>, \<open>radius.h\<close>): messages as a buffer with pointers into it. \<open>Radius_Correct\<close>: the relation
    \<open>msg_rep\<close> between a buffer and a header with a list of attributes, and what each operation does to
    them. \<open>Radius_Auth\<close>: authenticators, keys. \<open>Radius_Properties\<close>.
  \<^item> \<open>Eloop\<close> (\<open>eloop.c\<close>): timeouts in the order of expiry, sockets, signals, one turn of the loop.
  \<^item> \<open>Radius_Client\<close> (\<open>radius_client.c\<close>): pending requests, retransmission, failover, identifiers.
  \<^item> \<open>Sta_Info\<close> (\<open>sta_info.c\<close>, \<open>ap.h\<close>): the stations as cells of a store with a list and hash buckets, and the
    state of the daemon. \<open>Sta_Table\<close>: their invariant; the locale \<open>sta_allocator\<close> states what is relied on
    of \<open>malloc\<close> and extends to \<open>keyed_table\<close>; it is interpreted with an allocator that picks the first
    free cell.
  \<^item> \<open>Ieee802_1x\<close> (\<open>ieee802_1x.c\<close>, \<open>rtdot1x.c\<close>): all handlers of frames and datagrams, the actions of the
    machines, the reload of the configuration, the handlers of the timeouts. \<open>Dot1x_Daemon\<close>: the runs of
    the whole daemon and its machines. \<open>Dot1x_Properties\<close>: results that span the components.
  \<^item> \<open>Dot1x_Config\<close> (\<open>config.c\<close>): the settings and the lists of servers that \<open>Handle_reload_config\<close> is given, read
    from the driver and checked; they fulfil what the theorems on machines and stations suppose of the
    settings (\<open>conf_ok\<close>).
  \<^item> \<open>Crc32\<close> (\<open>crc32.c\<close>): the checksum, with its bitwise reference. \<open>Flash\<close> (\<open>flash.c\<close>): a flash device as bytes with an
    erase size; reading and writing. \<open>Nvram\<close> (\<open>nvram.c\<close>, \<open>main_nvram.c\<close>): sections, parsing, committing, the
    commands and the program. \<open>Nvram_Store\<close>: the locale \<open>value_store\<close>, a bounded map, interpreted on the slots
    of a section. \<open>Nvram_File\<close>: the form of the file, which \<open>nvram_commit\<close> establishes and \<open>nvram_parse\<close> reads.
    \<open>Nvram_Run\<close>: whole runs and what they leave for the next. \<open>Nvram_Properties\<close>: the results.

  \<^item> \<open>Ft_Table\<close> (\<open>mt_iapp_util.c\<close>): the table of fast-transition stations, its invariant, the map it implements (the
    locale \<open>guarded_map\<close>, for stations with different hashes), and what happens when a slot is reused. \<open>Iapp\<close> (\<open>rtmpiapp.c\<close>, \<open>mt_iapp_util.c\<close>): the control block, the frames, all senders
    and handlers, the loop and the start. \<open>Iapp_Correct\<close>: what each operation does when the driver keeps its
    contract (\<open>driver_ok\<close>: answers fit the buffers). \<open>Iapp_Invariant\<close>: the control block stays well formed. \<open>Iapp_Run\<close>: whole
    runs, with the faults an operation can end in. \<open>Iapp_Properties\<close>: two daemons with a shared key, and faults.

  \<^bold>\<open>Correspondence.\<close> A struct is a record with the fields that the modelled code uses, an enumeration a
  datatype, an integer of 8, 16 or 32 bits a word. A function of the code is a definition of the same
  name; a loop or a block inside it may be a definition of its own. Fields and counters that are only
  printed are left out. A pointer into a table is an index, a pointer to a station the address of a cell of
  the store; a null pointer is \<open>None\<close>. What the code would do wrong in memory is a value of \<open>c_fault\<close>: a null
  or dangling pointer that is used, an access outside an object or outside the bytes received, a loop that
  does not end. The answers of the outside (allocation, driver calls, random numbers, the clock, sockets) are
  arguments: functions \<open>ok\<close> from the number of the allocation, or the record \<open>env\<close>. What goes to the outside is a
  list of outputs; in \<open>mtkiappd\<close>, where the answer of the driver may depend on what it was told, it is a trace that the
  environment is given.

  \<^bold>\<open>Bounds and fuel.\<close> Walks along hash chains of \<open>bndstrg\<close> get 64 steps, the size of the table, and walks over
  the stations 1024 steps, their greatest number: the invariants show that chains are not longer, so
  the fuel is never used up (\<open>handler_returns\<close>, \<open>station_table_refines\<close>). Walks along the buckets of \<open>mtkiappd\<close> get 64
  steps as well; that is enough while the invariant holds (\<open>daemon_never_hangs\<close>), and where it does not, no number of
  steps is (\<open>reused_slot_never_returns\<close>). The loop over the state machines gets
  18 passes; \<open>sm_step_ends\<close> shows that it ends within them. Other loops are structural or have a measure.
  The loops of \<open>flash_write\<close> and \<open>nvram_parse\<close> end because the rest of the data and the number of free slots fall.
  The search for vendor attributes does not end on all inputs; \<open>ms_keys_no_return\<close> is about that.

  \<^bold>\<open>What is shown.\<close> Tables refine bounded sets. The table of \<open>bndstrg\<close> never records a client for both bands, nor do the
  flags it sends to the driver where the bands share one radio; where they have separate interfaces the admission
  to 2.4 GHz is never withdrawn from the driver, so that the driver may hold a client on both (\<open>one_band_on_record\<close>).
  What one pass does to an entry and asks of the driver is given exactly (\<open>steering_decision\<close>). The
  daemon does not fault on messages that are in range. The machines of 802.1X end every run; a port
  is opened at most once for each Access-Accept, for one machine and for the whole daemon, where the
  acceptance must have passed the verification of the RADIUS message, which is shown to compare
  the prescribed hashes, which are shown to be MD5 and HMAC-MD5 of the RFCs; the cipher for keys is RC4. Requests carry the EAP
  packets unchanged, messages that are sent can be parsed, keys survive transport. Timeouts are called in
  order. The list of pending requests stays bounded. A configuration value that was set is read by every later
  run, and after a restart when it was committed; the other values stay. A station that associates with or moves to
  one access point is dropped by the others that share its key; keys and action frames reach the driver of the other
  access point unchanged. Where the code is at fault, a property states
  the fault: over-reads on crafted input, a loop that does not return, an unauthenticated rejection, a
  timer that outlives its station, a cycle in a hash bucket, datagrams that are obeyed without a key, and others.

  \<^bold>\<open>Limits of the numbers.\<close> The seconds of a timeout of \<open>8021xd\<close> are unbounded, where the code wraps after 2^31 seconds. A section of
  the configuration is taken to have at least 4 bytes, as those of the layout do.

  \<^bold>\<open>Not modelled.\<close> The start-up of \<open>bndstrg\<close> and \<open>8021xd\<close>, sockets, ioctl calls and signals (system calls); of \<open>mtkiappd\<close> the
  file with its process number, what is printed, the event log and the branches for VxWorks, which are not compiled, and a
  signal that interrupts \<open>select\<close>, after which the code allocates its buffers again; the parts of \<open>8021xd\<close> for Hotspot 2.0 and MAC
  lists, which are not built; the release of memory at exit; the search of the device file by \<open>mtd_open\<close>, the
  test program \<open>flash\<close> and the table that \<open>nvram layout\<close> prints. The other applications of the directory, the
  web interface, the drivers, upstream OpenWrt and Linux files are listed in the manifest with the
  reasons.
\<close>

end
